(* ===== verification/Py_Prelude.thy ===== *)
theory Py_Prelude
  imports Complex_Main "HOL-Library.AList" "HOL-Library.Multiset"
begin

text \<open>
  The prelude: the Python values the validators and scripts work on, and the generic lemmas every
  component shares.

  Parsed JSON (and any dictionary built from it) is a value of type \<open>json\<close>; a Python
  \<open>dict\<close> with string keys is an association list in insertion order. \<open>None\<close> and the JSON
  \<open>null\<close> are the same value. A \<open>bool\<close> is an \<open>int\<close> in Python (\<open>isinstance(True, int)\<close>), which
  \<open>as_int\<close> follows. Every exception the modelled code can raise on ill-typed input is a value
  of a sum type; a function that cannot raise has a plain result.
\<close>

section \<open>Exceptions\<close>

datatype py_exn =
    TypeError       \<comment> \<open>unhashable operand of \<open>in {...}\<close> or \<open>dict.get\<close>, wrong operand type\<close>
  | KeyError string
  | ValueError
  | IndexError

named_theorems py_simps \<open>evaluation rules of the Python operations of the prelude\<close>

definition bindE :: "'e + 'a \<Rightarrow> ('a \<Rightarrow> 'e + 'b) \<Rightarrow> 'e + 'b" where
  "bindE m f = (case m of Inl e \<Rightarrow> Inl e | Inr x \<Rightarrow> f x)"

lemma bindE_Inr [simp]: "bindE (Inr x) f = f x"
  by (simp add: bindE_def)

lemma bindE_Inl [simp]: "bindE (Inl e) f = Inl e"
  by (simp add: bindE_def)

lemma bindE_eq_Inr_iff: "bindE m f = Inr y \<longleftrightarrow> (\<exists>x. m = Inr x \<and> f x = Inr y)"
  by (cases m) auto

lemma bindE_eq_Inl_iff: "bindE m f = Inl e \<longleftrightarrow> m = Inl e \<or> (\<exists>x. m = Inr x \<and> f x = Inl e)"
  by (cases m) auto

lemma bindE_unit: "bindE (m :: 'e + unit) (\<lambda>_. k) = Inr y \<longleftrightarrow> m = Inr () \<and> k = Inr y"
  by (cases m) auto

lemma bindE_assoc: "bindE (bindE m f) g = bindE m (\<lambda>x. bindE (f x) g)"
  by (cases m) auto

lemma bindE_Inr_right [simp]: "bindE m Inr = m"
  by (cases m) auto

text \<open>\<open>a and b\<close>, \<open>a or b\<close>, \<open>not a\<close> over operands that may raise: the right operand runs only
  when the left one does not decide.\<close>

definition andE :: "'e + bool \<Rightarrow> 'e + bool \<Rightarrow> 'e + bool" where
  "andE a b = bindE a (\<lambda>x. if x then b else Inr False)"

definition orE :: "'e + bool \<Rightarrow> 'e + bool \<Rightarrow> 'e + bool" where
  "orE a b = bindE a (\<lambda>x. if x then Inr True else b)"

definition notE :: "'e + bool \<Rightarrow> 'e + bool" where
  "notE a = bindE a (\<lambda>x. Inr (\<not> x))"

lemma andE_simps [simp]: "andE (Inr True) b = b" "andE (Inr False) b = Inr False"
  "andE (Inl e) b = Inl e" "andE (Inr p) (Inr q) = Inr (p \<and> q)"
  by (auto simp: andE_def)

lemma orE_simps [simp]: "orE (Inr True) b = Inr True" "orE (Inr False) b = b"
  "orE (Inl e) b = Inl e" "orE (Inr p) (Inr q) = Inr (p \<or> q)"
  by (auto simp: orE_def)

lemma notE_simps [simp]: "notE (Inr p) = Inr (\<not> p)" "notE (Inl e) = Inl e"
  by (auto simp: notE_def)

lemma andE_Inr_True_iff: "andE a b = Inr True \<longleftrightarrow> a = Inr True \<and> b = Inr True"
  by (auto simp: andE_def bindE_eq_Inr_iff split: if_splits)

lemma notE_Inr_iff: "notE a = Inr p \<longleftrightarrow> a = Inr (\<not> p)"
  by (cases a) auto

text \<open>Left-to-right evaluation of a list of fallible computations.\<close>

fun mapE :: "('a \<Rightarrow> 'e + 'b) \<Rightarrow> 'a list \<Rightarrow> 'e + 'b list" where
  "mapE f [] = Inr []"
| "mapE f (x # xs) = bindE (f x) (\<lambda>y. bindE (mapE f xs) (\<lambda>ys. Inr (y # ys)))"

lemma mapE_Inr_length: "mapE f xs = Inr ys \<Longrightarrow> length ys = length xs"
  by (induction xs arbitrary: ys) (auto simp: bindE_eq_Inr_iff)

lemma mapE_pure: "(\<And>x. x \<in> set xs \<Longrightarrow> f x = Inr (g x)) \<Longrightarrow> mapE f xs = Inr (map g xs)"
  by (induction xs) auto

fun foldE :: "('s \<Rightarrow> 'a \<Rightarrow> 'e + 's) \<Rightarrow> 's \<Rightarrow> 'a list \<Rightarrow> 'e + 's" where
  "foldE f s [] = Inr s"
| "foldE f s (x # xs) = bindE (f s x) (\<lambda>s'. foldE f s' xs)"

lemma foldE_append: "foldE f s (xs @ ys) = bindE (foldE f s xs) (\<lambda>s'. foldE f s' ys)"
  by (induction xs arbitrary: s) (auto simp: bindE_assoc)

lemma foldE_Inl: "foldE f s xs = Inl e \<Longrightarrow> \<exists>x \<in> set xs. \<exists>u. f u x = Inl e"
  by (induction xs arbitrary: s) (auto simp: bindE_eq_Inl_iff)

lemma foldE_invariant:
  assumes "foldE f s xs = Inr t" and "P s"
    and "\<And>u x v. x \<in> set xs \<Longrightarrow> P u \<Longrightarrow> f u x = Inr v \<Longrightarrow> P v"
  shows "P t"
  using assms
proof (induction xs arbitrary: s)
  case (Cons x xs)
  then obtain u where u: "f s x = Inr u" "foldE f u xs = Inr t"
    by (auto simp: bindE_eq_Inr_iff)
  from Cons.prems(2,3) u(1) have "P u" by auto
  with u(2) show ?case by (rule Cons.IH) (use Cons.prems(3) in auto)
qed simp

section \<open>JSON values\<close>

text \<open>A Python float: the finite ones by their exact value, the special ones by name.\<close>

datatype pyfloat = Finite rat | Neg_Zero | Pos_Inf | Neg_Inf | Not_A_Number

datatype json =
    JNull
  | JBool bool
  | JInt int
  | JFloat pyfloat
  | JStr string
  | JList "json list"
  | JObj "(string \<times> json) list"

type_synonym obj = "(string \<times> json) list"

definition as_int :: "json \<Rightarrow> int option" where
  "as_int v = (case v of JInt i \<Rightarrow> Some i | JBool b \<Rightarrow> Some (of_bool b) | _ \<Rightarrow> None)"

lemma as_int_simps [simp]:
  "as_int (JInt i) = Some i" "as_int (JBool b) = Some (of_bool b)" "as_int JNull = None"
  "as_int (JFloat f) = None" "as_int (JStr s) = None" "as_int (JList xs) = None"
  "as_int (JObj d) = None"
  by (simp_all add: as_int_def)

definition is_int :: "json \<Rightarrow> bool" where
  "is_int v \<longleftrightarrow> as_int v \<noteq> None"

lemma is_int_simps [simp]:
  "is_int (JInt i)" "is_int (JBool b)" "\<not> is_int JNull" "\<not> is_int (JFloat f)"
  "\<not> is_int (JStr s)" "\<not> is_int (JList xs)" "\<not> is_int (JObj d)"
  by (simp_all add: is_int_def)

text \<open>\<open>isinstance(v, int) and P(v)\<close>.\<close>

definition int_and :: "json \<Rightarrow> (int \<Rightarrow> bool) \<Rightarrow> bool" where
  "int_and v P = (case as_int v of None \<Rightarrow> False | Some i \<Rightarrow> P i)"

lemma int_and_simps [simp]:
  "int_and (JInt i) P = P i" "int_and (JBool b) P = P (of_bool b)" "int_and JNull P = False"
  "int_and (JFloat f) P = False" "int_and (JStr s) P = False" "int_and (JList xs) P = False"
  "int_and (JObj d) P = False"
  by (simp_all add: int_and_def)

lemma int_and_iff: "int_and v P \<longleftrightarrow> (\<exists>i. as_int v = Some i \<and> P i)"
  by (auto simp: int_and_def split: option.splits)

definition is_str :: "json \<Rightarrow> bool" where
  "is_str v = (case v of JStr s \<Rightarrow> True | _ \<Rightarrow> False)"

text \<open>\<open>isinstance(v, str) and v\<close>.\<close>

definition nonempty_str :: "json \<Rightarrow> bool" where
  "nonempty_str v = (case v of JStr s \<Rightarrow> s \<noteq> [] | _ \<Rightarrow> False)"

lemma is_str_simps [simp]: "is_str (JStr s)" "\<not> is_str JNull" "\<not> is_str (JBool b)"
  "\<not> is_str (JInt i)" "\<not> is_str (JFloat f)" "\<not> is_str (JList xs)" "\<not> is_str (JObj d)"
  by (simp_all add: is_str_def)

lemma nonempty_str_simps [simp]: "nonempty_str (JStr s) \<longleftrightarrow> s \<noteq> []" "\<not> nonempty_str JNull"
  "\<not> nonempty_str (JBool b)" "\<not> nonempty_str (JInt i)" "\<not> nonempty_str (JFloat f)"
  "\<not> nonempty_str (JList xs)" "\<not> nonempty_str (JObj d)"
  by (simp_all add: nonempty_str_def)

lemma nonempty_strE: "nonempty_str v \<Longrightarrow> (\<And>s. v = JStr s \<Longrightarrow> s \<noteq> [] \<Longrightarrow> thesis) \<Longrightarrow> thesis"
  by (auto simp: nonempty_str_def split: json.splits)

text \<open>Lists and dictionaries are the unhashable values.\<close>

definition hashable :: "json \<Rightarrow> bool" where
  "hashable v = (case v of JList xs \<Rightarrow> False | JObj d \<Rightarrow> False | _ \<Rightarrow> True)"

lemma hashable_simps [simp]: "hashable JNull" "hashable (JBool b)" "hashable (JInt i)"
  "hashable (JFloat f)" "hashable (JStr s)" "\<not> hashable (JList xs)" "\<not> hashable (JObj d)"
  by (simp_all add: hashable_def)

subsection \<open>Equality\<close>

text \<open>Python's \<open>==\<close>: numbers compare by value across \<open>bool\<close>, \<open>int\<close> and \<open>float\<close>, dictionaries
  without regard to order.\<close>

definition num_is :: "json \<Rightarrow> rat \<Rightarrow> bool" where
  "num_is v q = (case v of
     JBool b \<Rightarrow> q = of_bool b
   | JInt i \<Rightarrow> q = of_int i
   | JFloat (Finite r) \<Rightarrow> q = r
   | JFloat Neg_Zero \<Rightarrow> q = 0
   | _ \<Rightarrow> False)"

fun py_eq :: "json \<Rightarrow> json \<Rightarrow> bool"
  and py_eq_list :: "json list \<Rightarrow> json list \<Rightarrow> bool"
  and py_eq_obj :: "obj \<Rightarrow> obj \<Rightarrow> bool" where
  "py_eq JNull y = (y = JNull)"
| "py_eq (JBool b) y = num_is y (of_bool b)"
| "py_eq (JInt i) y = num_is y (of_int i)"
| "py_eq (JFloat (Finite q)) y = num_is y q"
| "py_eq (JFloat Neg_Zero) y = num_is y 0"
| "py_eq (JFloat Pos_Inf) y = (y = JFloat Pos_Inf)"
| "py_eq (JFloat Neg_Inf) y = (y = JFloat Neg_Inf)"
| "py_eq (JFloat Not_A_Number) y = False"
| "py_eq (JStr s) y = (y = JStr s)"
| "py_eq (JList xs) y = (case y of JList ys \<Rightarrow> py_eq_list xs ys | _ \<Rightarrow> False)"
| "py_eq (JObj d) y = (case y of JObj d' \<Rightarrow> length d = length d' \<and> py_eq_obj d d' | _ \<Rightarrow> False)"
| "py_eq_list [] ys = (ys = [])"
| "py_eq_list (x # xs) ys = (case ys of [] \<Rightarrow> False | y # ys' \<Rightarrow> py_eq x y \<and> py_eq_list xs ys')"
| "py_eq_obj [] d' = True"
| "py_eq_obj ((k, v) # d) d' =
     (case map_of d' k of None \<Rightarrow> False | Some w \<Rightarrow> py_eq v w \<and> py_eq_obj d d')"

lemma num_is_unique: "num_is v a \<Longrightarrow> num_is v b \<Longrightarrow> a = b"
  by (auto simp: num_is_def split: json.splits pyfloat.splits)

lemma py_eq_JStr_right [simp]: "py_eq v (JStr s) \<longleftrightarrow> v = JStr s"
  by (cases "(v, JStr s)" rule: py_eq.cases) (auto simp: num_is_def)

lemma py_eq_JNull_right [simp]: "py_eq v JNull \<longleftrightarrow> v = JNull"
  by (cases "(v, JNull)" rule: py_eq.cases) (auto simp: num_is_def)

lemma py_eq_JInt_right: "py_eq v (JInt i) \<longleftrightarrow> num_is v (of_int i)"
  by (cases "(v, JInt i)" rule: py_eq.cases) (auto simp: num_is_def)

text \<open>\<open>v in xs\<close> for a list: membership by \<open>==\<close>, no hashing.\<close>

definition in_list :: "json \<Rightarrow> json list \<Rightarrow> bool" where
  "in_list v xs = list_ex (py_eq v) xs"

lemma in_list_JStr [simp]: "in_list (JStr s) xs \<longleftrightarrow> JStr s \<in> set xs"
  by (induction xs) (auto simp: in_list_def)

text \<open>\<open>v in {...}\<close> and \<open>v in d\<close> for a set or dictionary of strings: the operand is hashed.\<close>

definition in_strs :: "json \<Rightarrow> string list \<Rightarrow> py_exn + bool" where
  "in_strs v xs = (if hashable v then Inr (v \<in> JStr ` set xs) else Inl TypeError)"

lemma in_strs_simps [simp]:
  "in_strs (JStr s) xs = Inr (s \<in> set xs)" "in_strs JNull xs = Inr False"
  "in_strs (JBool b) xs = Inr False" "in_strs (JInt i) xs = Inr False"
  "in_strs (JFloat f) xs = Inr False" "in_strs (JList ys) xs = Inl TypeError"
  "in_strs (JObj d) xs = Inl TypeError"
  by (auto simp: in_strs_def)

lemma in_strs_hashable: "hashable v \<Longrightarrow> in_strs v xs = Inr (v \<in> JStr ` set xs)"
  by (simp add: in_strs_def)

lemma in_strs_Inr_iff: "in_strs v xs = Inr b \<longleftrightarrow> hashable v \<and> b = (v \<in> JStr ` set xs)"
  by (auto simp: in_strs_def)

lemma in_strs_True_iff: "in_strs v xs = Inr True \<longleftrightarrow> (\<exists>s \<in> set xs. v = JStr s)"
  by (auto simp: in_strs_def)

subsection \<open>Dictionaries\<close>

text \<open>\<open>d.get(k)\<close>, \<open>d[k] = v\<close>, and \<open>table.get(v)\<close>, \<open>table[v]\<close> for a constant table keyed by
  strings and a computed key.\<close>

definition get :: "obj \<Rightarrow> string \<Rightarrow> json" where
  "get d k = (case map_of d k of None \<Rightarrow> JNull | Some v \<Rightarrow> v)"

definition dict_set :: "string \<Rightarrow> json \<Rightarrow> obj \<Rightarrow> obj" where
  "dict_set k v d = AList.update k v d"

lemma get_simps [simp]: "get [] k = JNull"
  "get ((k', v) # d) k = (if k = k' then v else get d k)"
  by (auto simp: get_def)

lemma get_dict_set [simp]: "get (dict_set k v d) k' = (if k' = k then v else get d k')"
  by (auto simp: get_def dict_set_def update_conv)

lemma get_append: "get (d @ d') k = (case map_of d k of None \<Rightarrow> get d' k | Some v \<Rightarrow> v)"
  by (auto simp: get_def map_add_def split: option.splits)

definition table_get :: "(string \<times> 'v) list \<Rightarrow> json \<Rightarrow> py_exn + 'v option" where
  "table_get t v = (if hashable v
     then Inr (case v of JStr s \<Rightarrow> map_of t s | _ \<Rightarrow> None) else Inl TypeError)"

definition table_item :: "(string \<times> 'v) list \<Rightarrow> json \<Rightarrow> py_exn + 'v" where
  "table_item t v = bindE (table_get t v)
     (\<lambda>r. case r of None \<Rightarrow> Inl (KeyError (case v of JStr s \<Rightarrow> s | _ \<Rightarrow> [])) | Some x \<Rightarrow> Inr x)"

lemma table_get_simps [simp]:
  "table_get t (JStr s) = Inr (map_of t s)" "table_get t JNull = Inr None"
  "table_get t (JBool b) = Inr None" "table_get t (JInt i) = Inr None"
  "table_get t (JFloat f) = Inr None" "table_get t (JList xs) = Inl TypeError"
  "table_get t (JObj d) = Inl TypeError"
  by (simp_all add: table_get_def)

lemma table_item_JStr [simp]:
  "table_item t (JStr s) = (case map_of t s of None \<Rightarrow> Inl (KeyError s) | Some x \<Rightarrow> Inr x)"
  by (simp add: table_item_def split: option.split)

text \<open>\<open>None\<close> or a string, as a dictionary value.\<close>

definition opt_str :: "string option \<Rightarrow> json" where
  "opt_str r = (case r of None \<Rightarrow> JNull | Some s \<Rightarrow> JStr s)"

lemma opt_str_simps [simp]: "opt_str None = JNull" "opt_str (Some s) = JStr s"
  by (simp_all add: opt_str_def)

section \<open>Ordering by position\<close>

text \<open>\<open>{code: index for index, code in enumerate(xs)}.get(code, len(xs))\<close>: the sort key of the
  canonical-order tables.\<close>

fun position :: "'a list \<Rightarrow> 'a \<Rightarrow> nat" where
  "position [] x = 0"
| "position (y # ys) x = (if x = y then 0 else Suc (position ys x))"

lemma position_le: "position xs x \<le> length xs"
  by (induction xs) auto

lemma position_less_iff: "position xs x < length xs \<longleftrightarrow> x \<in> set xs"
  by (induction xs) auto

lemma nth_position: "x \<in> set xs \<Longrightarrow> xs ! position xs x = x"
  by (induction xs) auto

lemma position_inj: "inj_on (position xs) (set xs)"
  by (rule inj_onI) (metis nth_position)

text \<open>Sorting by an injective key does not depend on the order of the input: what lets a Python
  \<open>set\<close> be modelled by a duplicate-free list before \<open>sorted(..., key=...)\<close>.\<close>

lemma sort_key_unique:
  assumes "inj_on f (set xs)" and "set ys = set xs" and "distinct xs" "distinct ys"
  shows "sort_key f ys = sort_key f xs"
proof -
  have "mset ys = mset xs"
    using assms by (simp add: set_eq_iff_mset_eq_distinct)
  then have "mset (map f (sort_key f ys)) = mset (map f (sort_key f xs))"
    by (simp add: mset_map)
  then have eq: "map f (sort_key f ys) = map f (sort_key f xs)"
    by (metis properties_for_sort sorted_sort_key)
  have "inj_on f (set (sort_key f ys) \<union> set (sort_key f xs))"
    using assms by simp
  with eq show ?thesis by (rule map_inj_on)
qed

lemma sort_key_id: "sorted (map f xs) \<Longrightarrow> sort_key f xs = xs"
  by (induction xs) (auto simp: insort_is_Cons)

section \<open>Issues\<close>

text \<open>\<open>Issue(kind, location, message)\<close> of \<open>validate_contracts.py\<close>. The message texts of a
  validator are the constructors of a datatype of that validator, one per \<open>issues.append\<close>.\<close>

record 'm issue =
  kind :: string
  location :: string
  message :: 'm

definition custom :: "string \<Rightarrow> 'm \<Rightarrow> 'm issue" where
  "custom loc m = \<lparr>kind = ''custom'', location = loc, message = m\<rparr>"

lemma custom_simps [simp]: "kind (custom l m) = ''custom''" "location (custom l m) = l"
  "message (custom l m) = m" "custom l m = custom l' m' \<longleftrightarrow> l = l' \<and> m = m'"
  by (auto simp: custom_def)

type_synonym 'm verdict = "py_exn + 'm issue list"

definition report_if :: "bool \<Rightarrow> 'i \<Rightarrow> py_exn + 'i list" where
  "report_if c i = Inr (if c then [i] else [])"

definition report_ifE :: "py_exn + bool \<Rightarrow> 'i \<Rightarrow> py_exn + 'i list" where
  "report_ifE m i = bindE m (\<lambda>c. report_if c i)"

fun run_checks :: "(py_exn + 'i list) list \<Rightarrow> py_exn + 'i list" where
  "run_checks [] = Inr []"
| "run_checks (c # cs) = bindE c (\<lambda>xs. bindE (run_checks cs) (\<lambda>ys. Inr (xs @ ys)))"

lemma report_if_clean [simp]: "report_if c i = Inr [] \<longleftrightarrow> \<not> c"
  by (simp add: report_if_def)

lemma report_if_total: "\<exists>xs. report_if c i = Inr xs"
  by (simp add: report_if_def)

lemma report_ifE_Inr [simp]: "report_ifE (Inr c) i = report_if c i"
  by (simp add: report_ifE_def)

lemma report_ifE_clean [simp]: "report_ifE m i = Inr [] \<longleftrightarrow> m = Inr False"
  by (cases m) (auto simp: report_ifE_def)

lemma run_checks_clean: "run_checks cs = Inr [] \<longleftrightarrow> (\<forall>c \<in> set cs. c = Inr [])"
  by (induction cs) (auto simp: bindE_eq_Inr_iff)

declare run_checks.simps [simp del] run_checks_clean [simp]

lemma run_checks_total: "\<forall>c \<in> set cs. \<exists>xs. c = Inr xs \<Longrightarrow> \<exists>xs. run_checks cs = Inr xs"
  by (induction cs) (auto simp: bindE_eq_Inr_iff run_checks.simps)

lemma run_checks_mem:
  "run_checks cs = Inr xs \<Longrightarrow> x \<in> set xs \<longleftrightarrow> (\<exists>c \<in> set cs. \<exists>ys. c = Inr ys \<and> x \<in> set ys)"
  by (induction cs arbitrary: xs) (fastforce simp: bindE_eq_Inr_iff run_checks.simps)+

text \<open>Issues of another validator inside a larger one.\<close>

definition lift_issues :: "('m \<Rightarrow> 'n) \<Rightarrow> 'm verdict \<Rightarrow> 'n verdict" where
  "lift_issues f v = bindE v (\<lambda>is.
     Inr (map (\<lambda>i. \<lparr>kind = kind i, location = location i, message = f (message i)\<rparr>) is))"

lemma lift_issues_clean [simp]: "lift_issues f v = Inr [] \<longleftrightarrow> v = Inr []"
  by (cases v) (auto simp: lift_issues_def)

text \<open>A check that runs only when a fallible condition holds.\<close>

definition whenE :: "py_exn + bool \<Rightarrow> (py_exn + 'i list) \<Rightarrow> py_exn + 'i list" where
  "whenE c k = bindE c (\<lambda>b. if b then k else Inr [])"

lemma whenE_simps [simp]: "whenE (Inr True) k = k" "whenE (Inr False) k = Inr []" "whenE (Inl e) k = Inl e"
  by (simp_all add: whenE_def)

lemma whenE_clean: "whenE c k = Inr [] \<longleftrightarrow> c = Inr False \<or> c = Inr True \<and> k = Inr []"
  by (cases c) (auto simp: whenE_def)

end
