(* ===== verification/Restriction_Order.thy ===== *)
theory Restriction_Order
  imports Py_Prelude
begin

text \<open>
  The contract of a "most restrictive of" operation. Trust bands and access outcomes are both
  combined by a constant table of severities; a client that combines several of them relies on the
  result being their least upper bound, whatever the order in which they arrive.
\<close>

locale restriction_order =
  fixes severity :: "string \<Rightarrow> int option"
    and stricter :: "string \<Rightarrow> string \<Rightarrow> string"
  assumes severity_inj: "severity a = Some i \<Longrightarrow> severity b = Some i \<Longrightarrow> a = b"
    and stricter_eq: "severity a = Some i \<Longrightarrow> severity b = Some j \<Longrightarrow>
      stricter a b = (if i \<ge> j then a else b)"
begin

lemma stricter_known:
  assumes "severity a = Some i" and "severity b = Some j"
  shows "severity (stricter a b) = Some (max i j)"
  using assms by (simp add: stricter_eq max_def)

lemma stricter_commute:
  assumes "severity a = Some i" and "severity b = Some j"
  shows "stricter a b = stricter b a"
  using assms severity_inj [of a i b] by (auto simp: stricter_eq)

lemma stricter_assoc:
  assumes "severity a = Some i" and "severity b = Some j" and "severity c = Some k"
  shows "stricter (stricter a b) c = stricter a (stricter b c)"
  using assms by (auto simp: stricter_eq)

lemma stricter_idem: "severity a = Some i \<Longrightarrow> stricter a a = a"
  by (simp add: stricter_eq)

text \<open>Combining a whole sequence: the result is one of the inputs and carries the greatest
  severity, so it depends on the set of inputs only.\<close>

lemma foldl_stricter_severity:
  assumes "severity a = Some i" and "\<forall>x \<in> set xs. severity x \<noteq> None"
  shows "severity (foldl stricter a xs) = Some (Max (insert i (the ` severity ` set xs)))"
  using assms
proof (induction xs arbitrary: a i)
  case (Cons x xs)
  then obtain j where j: "severity x = Some j" by auto
  let ?S = "the ` severity ` set xs"
  have "severity (foldl stricter (stricter a x) xs) = Some (Max (insert (max i j) ?S))"
    using Cons.prems j by (intro Cons.IH) (auto simp: stricter_known)
  also have "Max (insert (max i j) ?S) = Max (insert i (insert j ?S))"
    by (cases "?S = {}") (auto simp: max.assoc)
  finally show ?case using j by simp
qed simp

lemma foldl_stricter_mem: 
  assumes "severity a \<noteq> None" and "\<forall>x \<in> set xs. severity x \<noteq> None"
  shows "foldl stricter a xs \<in> insert a (set xs)"
  using assms
proof (induction xs arbitrary: a)
  case (Cons x xs)
  then obtain i j where ij: "severity a = Some i" "severity x = Some j" by auto
  then have "foldl stricter (stricter a x) xs \<in> insert (stricter a x) (set xs)"
    using Cons.prems by (intro Cons.IH) (auto simp: stricter_known)
  moreover have "stricter a x \<in> {a, x}" using ij by (simp add: stricter_eq)
  ultimately show ?case by auto
qed simp

lemma foldl_stricter_order_irrelevant:
  assumes "severity a \<noteq> None" "severity b \<noteq> None"
    and "\<forall>x \<in> set xs \<union> set ys. severity x \<noteq> None"
    and same: "insert a (set xs) = insert b (set ys)"
  shows "foldl stricter a xs = foldl stricter b ys"
proof -
  obtain i j where i: "severity a = Some i" and j: "severity b = Some j" using assms by auto
  have "insert i (the ` severity ` set xs) = the ` severity ` insert a (set xs)"
    using i by simp
  also have "\<dots> = insert j (the ` severity ` set ys)" using j same by simp
  finally have eq: "insert i (the ` severity ` set xs) = insert j (the ` severity ` set ys)" .
  show ?thesis
    using foldl_stricter_severity [OF i, of xs] foldl_stricter_severity [OF j, of ys] assms(3) eq
      severity_inj by (metis UnI1 UnI2)
qed

end

end
