(* ===== verification/Trust_Bands.thy ===== *)
theory Trust_Bands
  imports Py_Prelude Restriction_Order
begin

text \<open>
  Trust bands of \<open>Algorithm/scripts/validate_contracts.py\<close>: the numeric score band, the cap band of
  the non-score constraints, their most restrictive combination, the guard-band triggers, the reason
  codes and the automation level. A trust summary is a parsed JSON object (\<open>obj\<close>). Bands are the
  source's strings; \<open>band\<close> is the abstract severity order they implement.
\<close>

section \<open>Tables\<close>

definition TRUST_BAND_REASON_BY_BAND :: "(string \<times> string) list" where
  "TRUST_BAND_REASON_BY_BAND =
    [(''GREEN'', ''TRUST_GREEN''), (''AMBER'', ''TRUST_AMBER''), (''RED'', ''TRUST_RED''),
     (''INSUFFICIENT_DATA'', ''TRUST_INSUFFICIENT_DATA'')]"

definition TRUST_FILING_READINESS_BY_AUTOMATION :: "(string \<times> string) list" where
  "TRUST_FILING_READINESS_BY_AUTOMATION =
    [(''ALLOWED'', ''READY_TO_SUBMIT''), (''LIMITED'', ''READY_REVIEW''),
     (''BLOCKED'', ''NOT_READY'')]"

definition TRUST_BAND_SEVERITY :: "(string \<times> int) list" where
  "TRUST_BAND_SEVERITY =
    [(''GREEN'', 0), (''AMBER'', 1), (''RED'', 2), (''INSUFFICIENT_DATA'', 3)]"

definition TRUST_UPSTREAM_GATE_REASON :: "(string \<times> string) list" where
  "TRUST_UPSTREAM_GATE_REASON =
    [(''NOTICE_ONLY'', ''TRUST_UPSTREAM_GATE_NOTICE_ACTIVE''),
     (''REVIEW_ONLY'', ''TRUST_UPSTREAM_GATE_REVIEW_REQUIRED''),
     (''BLOCKED'', ''TRUST_UPSTREAM_GATE_BLOCK'')]"

definition TRUST_SENSITIVITY_EDGE_TRIGGER_CODES :: "string list" where
  "TRUST_SENSITIVITY_EDGE_TRIGGER_CODES =
    [''TRUST_GREEN_GUARD_BAND'', ''TRUST_AMBER_GUARD_BAND'', ''RISK_AUTOMATION_GUARD_BAND'',
     ''COMPLETENESS_GUARD_BAND'', ''GRAPH_FILING_GUARD_BAND'', ''AUTHORITY_REVIEW_GUARD_BAND'',
     ''AUTHORITY_BLOCK_GUARD_BAND'']"

definition TRUST_SENSITIVITY_CAP_DRIVER_REASON_CODES :: "string list" where
  "TRUST_SENSITIVITY_CAP_DRIVER_REASON_CODES =
    [''TRUST_INPUT_INCOMPLETE'', ''TRUST_INPUT_CONTRADICTION'', ''TRUST_INPUT_STALE'',
     ''TRUST_OVERRIDE_INVALID'', ''TRUST_THRESHOLD_EDGE_REVIEW'', ''TRUST_UPSTREAM_GATE_BLOCK'',
     ''TRUST_UPSTREAM_GATE_REVIEW_REQUIRED'', ''TRUST_REQUIRED_HUMAN_STEPS'',
     ''TRUST_OVERRIDE_PENALTY'', ''TRUST_RETENTION_PENALTY'', ''TRUST_AUTHORITY_STATE_UNRESOLVED'',
     ''TRUST_AUTHORITY_PENALTY'', ''TRUST_ANALYSIS_MODE_CAP'',
     ''TRUST_NON_LIVE_EXECUTION_BOUNDARY_CAP'', ''TRUST_RECALCULATION_REQUIRED'']"

definition TRUST_SENSITIVITY_REASON_ORDER :: "string list" where
  "TRUST_SENSITIVITY_REASON_ORDER =
    [''TRUST_INSUFFICIENT_DATA'', ''TRUST_RED'', ''TRUST_AMBER'', ''TRUST_GREEN'',
     ''TRUST_THRESHOLD_EDGE_REVIEW'', ''TRUST_UPSTREAM_GATE_BLOCK'',
     ''TRUST_UPSTREAM_GATE_REVIEW_REQUIRED'', ''TRUST_UPSTREAM_GATE_NOTICE_ACTIVE'',
     ''TRUST_INPUT_INCOMPLETE'', ''TRUST_INPUT_CONTRADICTION'', ''TRUST_INPUT_STALE'',
     ''TRUST_OVERRIDE_INVALID'', ''TRUST_REQUIRED_HUMAN_STEPS'', ''TRUST_OVERRIDE_PENALTY'',
     ''TRUST_RETENTION_PENALTY'', ''TRUST_AUTHORITY_STATE_UNRESOLVED'',
     ''TRUST_AUTHORITY_PENALTY'', ''TRUST_ANALYSIS_MODE_CAP'',
     ''TRUST_NON_LIVE_EXECUTION_BOUNDARY_CAP'', ''TRUST_RECALCULATION_REQUIRED'',
     ''TRUST_AUTOMATION_LIMITED'']"

section \<open>Score band and cap band\<close>

definition derive_trust_score_band :: "json \<Rightarrow> json" where
  "derive_trust_score_band trust_score =
     (case as_int trust_score of
        None \<Rightarrow> JNull
      | Some s \<Rightarrow> if s \<ge> 85 then JStr ''GREEN'' else if s \<ge> 65 then JStr ''AMBER'' else JStr ''RED'')"

definition derive_trust_cap_band :: "obj \<Rightarrow> py_exn + json" where
  "derive_trust_cap_band payload =
    (let trust_input_state = get payload ''trust_input_state'';
         completeness_score = get payload ''completeness_score'';
         graph_quality_score = get payload ''graph_quality_score'';
         unresolved_blocking_risk_flag = get payload ''unresolved_blocking_risk_flag'';
         unresolved_material_blocking_risk_flag =
           get payload ''unresolved_material_blocking_risk_flag'';
         upstream_gate_cap = get payload ''upstream_gate_cap'';
         authority_uncertainty_score = get payload ''authority_uncertainty_score'';
         live = get payload ''live_authority_progression_requested'';
         execution_mode = get payload ''execution_mode'';
         threshold_stability_state = get payload ''threshold_stability_state'';
         risk_automation_margin = get payload ''risk_automation_margin'';
         required_human_steps = get payload ''required_human_steps'';
         active_override_count = get payload ''active_filing_critical_override_count'';
         retention_limited_count = get payload ''critical_retention_limited_count'';
         baseline_submission_state = get payload ''baseline_submission_state''
     in bindE (in_strs trust_input_state [''INCOMPLETE'', ''CONTRADICTED'']) (\<lambda>inadmissible.
        if inadmissible then Inr (JStr ''INSUFFICIENT_DATA'')
        else if int_and completeness_score (\<lambda>c. c < 60) then Inr (JStr ''INSUFFICIENT_DATA'')
        else if live = JBool True \<and> int_and graph_quality_score (\<lambda>g. g < 50)
          then Inr (JStr ''INSUFFICIENT_DATA'')
        else if unresolved_blocking_risk_flag = JBool True then Inr (JStr ''RED'')
        else if upstream_gate_cap = JStr ''BLOCKED'' then Inr (JStr ''RED'')
        else if live = JBool True \<and> int_and authority_uncertainty_score (\<lambda>a. a \<ge> 70)
          then Inr (JStr ''RED'')
        else if execution_mode = JStr ''ANALYSIS'' then Inr (JStr ''AMBER'')
        else if trust_input_state = JStr ''ADMISSIBLE_STALE'' then Inr (JStr ''AMBER'')
        else if threshold_stability_state = JStr ''EDGE_REVIEW'' then Inr (JStr ''AMBER'')
        else if int_and risk_automation_margin (\<lambda>m. m < 2) then Inr (JStr ''AMBER'')
        else if upstream_gate_cap = JStr ''REVIEW_ONLY'' then Inr (JStr ''AMBER'')
        else if (case required_human_steps of JList steps \<Rightarrow> length steps > 0 | _ \<Rightarrow> False)
          then Inr (JStr ''AMBER'')
        else if int_and active_override_count (\<lambda>n. n > 0) then Inr (JStr ''AMBER'')
        else if int_and retention_limited_count (\<lambda>n. n > 0) then Inr (JStr ''AMBER'')
        else if unresolved_material_blocking_risk_flag = JBool True then Inr (JStr ''AMBER'')
        else if live = JBool True \<and> int_and authority_uncertainty_score (\<lambda>a. a \<ge> 35)
          then Inr (JStr ''AMBER'')
        else bindE (andE (Inr (live = JBool True))
                         (in_strs baseline_submission_state
                            [''UNKNOWN'', ''OUT_OF_BAND_UNRECONCILED'']))
          (\<lambda>unresolved. if unresolved then Inr (JStr ''AMBER'') else Inr (JStr ''GREEN''))))"

definition most_restrictive_trust_band :: "json \<Rightarrow> json \<Rightarrow> py_exn + json" where
  "most_restrictive_trust_band score_band cap_band =
    bindE (orE (notE (in_strs score_band (map fst TRUST_BAND_SEVERITY)))
               (notE (in_strs cap_band (map fst TRUST_BAND_SEVERITY)))) (\<lambda>unknown.
      if unknown then Inr JNull
      else bindE (table_item TRUST_BAND_SEVERITY score_band) (\<lambda>s.
           bindE (table_item TRUST_BAND_SEVERITY cap_band) (\<lambda>c.
             if s \<ge> c then Inr score_band else Inr cap_band)))"

definition derive_trust_score_cap_alignment_state :: "json \<Rightarrow> json \<Rightarrow> py_exn + json" where
  "derive_trust_score_cap_alignment_state score_band cap_band =
    bindE (orE (notE (in_strs score_band (map fst TRUST_BAND_SEVERITY)))
               (notE (in_strs cap_band (map fst TRUST_BAND_SEVERITY)))) (\<lambda>unknown.
      if unknown then Inr JNull
      else bindE (table_item TRUST_BAND_SEVERITY score_band) (\<lambda>s.
           bindE (table_item TRUST_BAND_SEVERITY cap_band) (\<lambda>c.
             if s = c then Inr (JStr ''ALIGNED'')
             else if c > s then Inr (JStr ''CAP_STRICTER_THAN_SCORE'')
             else Inr (JStr ''SCORE_STRICTER_THAN_CAP''))))"

section \<open>Sources that are either a full summary or a projection\<close>

definition trust_source_required_human_step_count :: "obj \<Rightarrow> json" where
  "trust_source_required_human_step_count source =
    (case get source ''required_human_steps'' of
       JList steps \<Rightarrow> JInt (int (length steps))
     | _ \<Rightarrow> (let count = get source ''required_human_step_count''
            in if int_and count (\<lambda>n. n \<ge> 0) then count else JNull))"

text \<open>The four readers below share one shape: a non-empty string of a nested contract object, else
  a non-empty string of the source itself, else \<open>None\<close>.\<close>

definition nested_or_own :: "obj \<Rightarrow> string \<Rightarrow> string \<Rightarrow> string \<Rightarrow> json" where
  "nested_or_own source contract_field nested_field own_field =
    (let own = (let value = get source own_field in if nonempty_str value then value else JNull)
     in case get source contract_field of
          JObj contract \<Rightarrow>
            (let value = get contract nested_field in if nonempty_str value then value else own)
        | _ \<Rightarrow> own)"

definition trust_source_legal_effect_boundary :: "obj \<Rightarrow> json" where
  "trust_source_legal_effect_boundary source =
     nested_or_own source ''execution_mode_boundary_contract'' ''legal_effect_boundary''
       ''execution_legal_effect_boundary''"

definition trust_source_basis_hash :: "obj \<Rightarrow> json" where
  "trust_source_basis_hash source =
     nested_or_own source ''trust_input_basis_contract'' ''basis_contract_hash''
       ''trust_input_basis_contract_hash''"

definition trust_source_execution_boundary_hash :: "obj \<Rightarrow> json" where
  "trust_source_execution_boundary_hash source =
     nested_or_own source ''execution_mode_boundary_contract'' ''boundary_hash''
       ''execution_mode_boundary_hash''"

definition trust_source_basis_state :: "obj \<Rightarrow> string \<Rightarrow> json" where
  "trust_source_basis_state source field_name =
     nested_or_own source ''trust_input_basis_contract'' field_name field_name"

lemma nested_or_own_cases:
  "nested_or_own s c n f = JNull \<or> nonempty_str (nested_or_own s c n f)"
  by (auto simp: nested_or_own_def Let_def split: json.splits)

lemma nested_or_own_hashable [simp]: "hashable (nested_or_own s c n f)"
  using nested_or_own_cases [of s c n f] by (auto elim: nonempty_strE)

section \<open>Guard bands and reason codes\<close>

definition derive_trust_edge_trigger_codes :: "obj \<Rightarrow> string list" where
  "derive_trust_edge_trigger_codes payload =
    (let trust_green_margin = get payload ''trust_green_margin'';
         trust_amber_margin = get payload ''trust_amber_margin'';
         risk_automation_margin = get payload ''risk_automation_margin'';
         completeness_score = get payload ''completeness_score'';
         graph_quality_score = get payload ''graph_quality_score'';
         authority_uncertainty_score = get payload ''authority_uncertainty_score'';
         live = get payload ''live_authority_progression_requested'';
         trigger_codes =
           (if int_and trust_green_margin (\<lambda>m. \<bar>m\<bar> < 2) then [''TRUST_GREEN_GUARD_BAND''] else []) @
           (if int_and trust_amber_margin (\<lambda>m. \<bar>m\<bar> < 2) then [''TRUST_AMBER_GUARD_BAND''] else []) @
           (if int_and risk_automation_margin (\<lambda>m. 0 \<le> m \<and> m < 2)
              then [''RISK_AUTOMATION_GUARD_BAND''] else []) @
           (if int_and completeness_score (\<lambda>c. 0 \<le> c - 60 \<and> c - 60 < 3)
              then [''COMPLETENESS_GUARD_BAND''] else []) @
           (if live = JBool True \<and> int_and graph_quality_score (\<lambda>g. 0 \<le> g - 50 \<and> g - 50 < 3)
              then [''GRAPH_FILING_GUARD_BAND''] else []) @
           (if live = JBool True \<and>
               int_and authority_uncertainty_score (\<lambda>a. 0 \<le> 35 - a \<and> 35 - a < 2)
              then [''AUTHORITY_REVIEW_GUARD_BAND''] else []) @
           (if live = JBool True \<and>
               int_and authority_uncertainty_score (\<lambda>a. 0 \<le> 70 - a \<and> 70 - a < 2)
              then [''AUTHORITY_BLOCK_GUARD_BAND''] else [])
     in sort_key (position TRUST_SENSITIVITY_EDGE_TRIGGER_CODES) trigger_codes)"

text \<open>The reason codes are collected in a Python \<open>set\<close> and sorted by their position in the
  canonical order: a duplicate-free list before the sort (\<open>sort_key_unique\<close>).\<close>

definition derive_trust_compact_reason_codes :: "obj \<Rightarrow> py_exn + string list" where
  "derive_trust_compact_reason_codes payload =
    bindE (table_get TRUST_BAND_REASON_BY_BAND (get payload ''trust_band'')) (\<lambda>band_reason.
    bindE (table_get TRUST_UPSTREAM_GATE_REASON (get payload ''upstream_gate_cap'')) (\<lambda>gate_reason.
    (let trust_input_state = get payload ''trust_input_state'';
         authority_uncertainty_score = get payload ''authority_uncertainty_score'';
         baseline_submission_state = get payload ''baseline_submission_state'';
         live = get payload ''live_authority_progression_requested''
     in bindE (andE (Inr (live = JBool True))
                    (orE (in_strs baseline_submission_state
                            [''UNKNOWN'', ''OUT_OF_BAND_UNRECONCILED''])
                         (Inr (int_and authority_uncertainty_score (\<lambda>a. a \<ge> 35)))))
        (\<lambda>authority_unresolved.
       Inr (sort_key (position TRUST_SENSITIVITY_REASON_ORDER) (remdups (
         (case band_reason of None \<Rightarrow> [] | Some r \<Rightarrow> [r]) @
         (if get payload ''threshold_stability_state'' = JStr ''EDGE_REVIEW''
            then [''TRUST_THRESHOLD_EDGE_REVIEW''] else []) @
         (case gate_reason of None \<Rightarrow> [] | Some r \<Rightarrow> [r]) @
         (if trust_input_state = JStr ''INCOMPLETE'' then [''TRUST_INPUT_INCOMPLETE'']
          else if trust_input_state = JStr ''CONTRADICTED'' then [''TRUST_INPUT_CONTRADICTION'']
          else if trust_input_state = JStr ''ADMISSIBLE_STALE'' then [''TRUST_INPUT_STALE'']
          else []) @
         (if trust_source_basis_state payload ''override_dependency_state''
               = JStr ''INVALID_OVERRIDE_RELIED_UPON'' then [''TRUST_OVERRIDE_INVALID''] else []) @
         (if trust_source_basis_state payload ''late_data_invalidation_state''
               = JStr ''INVALIDATING_FINDING_PRESENT''
            then [''TRUST_RECALCULATION_REQUIRED'', ''TRUST_INPUT_STALE''] else []) @
         (if int_and (trust_source_required_human_step_count payload) (\<lambda>n. n > 0)
            then [''TRUST_REQUIRED_HUMAN_STEPS''] else []) @
         (if int_and (get payload ''active_filing_critical_override_count'') (\<lambda>n. n > 0)
            then [''TRUST_OVERRIDE_PENALTY''] else []) @
         (if int_and (get payload ''critical_retention_limited_count'') (\<lambda>n. n > 0)
            then [''TRUST_RETENTION_PENALTY''] else []) @
         (if authority_unresolved then [''TRUST_AUTHORITY_STATE_UNRESOLVED''] else []) @
         (if int_and (get payload ''authority_penalty'') (\<lambda>n. n > 0)
            then [''TRUST_AUTHORITY_PENALTY''] else []) @
         (if get payload ''execution_mode'' = JStr ''ANALYSIS''
            then [''TRUST_ANALYSIS_MODE_CAP''] else []) @
         (if trust_source_legal_effect_boundary payload \<notin> {JNull, JStr ''COMPLIANCE_CAPABLE''}
            then [''TRUST_NON_LIVE_EXECUTION_BOUNDARY_CAP''] else []) @
         (if get payload ''automation_level'' = JStr ''LIMITED''
            then [''TRUST_AUTOMATION_LIMITED''] else []))))))))"

definition derive_trust_cap_driver_reason_codes :: "obj \<Rightarrow> py_exn + string list" where
  "derive_trust_cap_driver_reason_codes payload =
    bindE (derive_trust_score_cap_alignment_state (get payload ''score_band'')
             (get payload ''cap_band'')) (\<lambda>alignment_state.
    if alignment_state \<noteq> JStr ''CAP_STRICTER_THAN_SCORE'' then Inr []
    else bindE (derive_trust_compact_reason_codes payload) (\<lambda>compact.
      let drivers = filter (\<lambda>code. code \<in> set TRUST_SENSITIVITY_CAP_DRIVER_REASON_CODES) compact
      in if drivers \<noteq> [] then Inr drivers
         else (case get payload ''reason_codes'' of
             JList raw \<Rightarrow>
               (let raw_drivers = [s. JStr s \<leftarrow> raw, s \<noteq> [] \<and>
                      s \<notin> set (map snd TRUST_BAND_REASON_BY_BAND) \<and>
                      s \<noteq> ''TRUST_AUTOMATION_LIMITED'']
                in Inr (take 1 raw_drivers))
           | _ \<Rightarrow> Inr drivers)))"

definition derive_trust_automation_level :: "obj \<Rightarrow> json \<Rightarrow> py_exn + json" where
  "derive_trust_automation_level payload trust_band =
    (let risk_automation_margin = get payload ''risk_automation_margin'';
         trust_input_state = get payload ''trust_input_state'';
         threshold_stability_state = get payload ''threshold_stability_state'';
         upstream_gate_cap = get payload ''upstream_gate_cap'';
         active_override_count = get payload ''active_filing_critical_override_count'';
         retention_limited_count = get payload ''critical_retention_limited_count'';
         required_human_step_count = trust_source_required_human_step_count payload;
         execution_mode = get payload ''execution_mode'';
         live = get payload ''live_authority_progression_requested'';
         authority_uncertainty_score = get payload ''authority_uncertainty_score'';
         baseline_submission_state = get payload ''baseline_submission_state''
     in bindE (if trust_band = JStr ''GREEN'' then
            andE (Inr (trust_input_state = JStr ''ADMISSIBLE_CURRENT'' \<and>
                       threshold_stability_state = JStr ''STABLE'' \<and>
                       int_and risk_automation_margin (\<lambda>m. m \<ge> 2)))
           (andE (in_strs upstream_gate_cap [''AUTO_ELIGIBLE'', ''NOTICE_ONLY''])
           (andE (Inr (int_and active_override_count (\<lambda>n. n = 0) \<and>
                       int_and retention_limited_count (\<lambda>n. n = 0) \<and>
                       int_and required_human_step_count (\<lambda>n. n = 0) \<and>
                       execution_mode = JStr ''COMPLIANCE'' \<and>
                       \<not> (live = JBool True \<and> int_and authority_uncertainty_score (\<lambda>a. a \<ge> 20))))
                 (notE (andE (Inr (live = JBool True))
                             (in_strs baseline_submission_state
                                [''UNKNOWN'', ''OUT_OF_BAND_UNRECONCILED''])))))
          else Inr False) (\<lambda>allowed.
        if allowed then Inr (JStr ''ALLOWED'')
        else if trust_band = JStr ''AMBER'' then Inr (JStr ''LIMITED'')
        else bindE (in_strs trust_band [''RED'', ''INSUFFICIENT_DATA'']) (\<lambda>blocked.
          if blocked then Inr (JStr ''BLOCKED'') else Inr JNull)))"

section \<open>The abstract severity order\<close>

datatype band = Green | Amber | Red | Insufficient

fun band_rank :: "band \<Rightarrow> nat" where
  "band_rank Green = 0"
| "band_rank Amber = 1"
| "band_rank Red = 2"
| "band_rank Insufficient = 3"

fun band_name :: "band \<Rightarrow> string" where
  "band_name Green = ''GREEN''"
| "band_name Amber = ''AMBER''"
| "band_name Red = ''RED''"
| "band_name Insufficient = ''INSUFFICIENT_DATA''"

instantiation band :: linorder
begin

definition less_eq_band :: "band \<Rightarrow> band \<Rightarrow> bool" where
  "a \<le> b \<longleftrightarrow> band_rank a \<le> band_rank b"

definition less_band :: "band \<Rightarrow> band \<Rightarrow> bool" where
  "a < b \<longleftrightarrow> band_rank a < band_rank b"

instance
proof
  fix a b :: band
  show "a \<le> b \<Longrightarrow> b \<le> a \<Longrightarrow> a = b"
    by (cases a; cases b) (auto simp: less_eq_band_def)
qed (auto simp: less_eq_band_def less_band_def)

end

lemma band_order_simps [simp]:
  "Green \<le> b" "b \<le> Insufficient" "\<not> Amber \<le> Green" "\<not> Red \<le> Green" "\<not> Insufficient \<le> Green"
  "Amber \<le> Red" "\<not> Red \<le> Amber" "\<not> Insufficient \<le> Amber" "\<not> Insufficient \<le> Red"
  by (cases b; simp add: less_eq_band_def)+

lemma band_name_inj [simp]: "band_name a = band_name b \<longleftrightarrow> a = b"
  by (cases a; cases b) auto

lemma band_rank_inj [simp]: "band_rank a = band_rank b \<longleftrightarrow> a = b"
  by (cases a; cases b) auto

lemma band_severity:
  "map_of TRUST_BAND_SEVERITY (band_name b) = Some (int (band_rank b))"
  by (cases b) (simp_all add: TRUST_BAND_SEVERITY_def)

lemma band_name_known: "band_name b \<in> fst ` set TRUST_BAND_SEVERITY"
  by (cases b) (simp_all add: TRUST_BAND_SEVERITY_def)

lemma known_band: "s \<in> fst ` set TRUST_BAND_SEVERITY \<longleftrightarrow> (\<exists>b. s = band_name b)"
proof
  assume "s \<in> fst ` set TRUST_BAND_SEVERITY"
  then have "s = band_name Green \<or> s = band_name Amber \<or> s = band_name Red \<or> s = band_name Insufficient"
    by (auto simp: TRUST_BAND_SEVERITY_def)
  then show "\<exists>b. s = band_name b" by (elim disjE) (rule exI, assumption)+
qed (auto simp: band_name_known)

lemma most_restrictive_bands:
  "most_restrictive_trust_band (JStr (band_name a)) (JStr (band_name b))
     = Inr (JStr (band_name (max a b)))"
  by (simp add: most_restrictive_trust_band_def band_severity band_name_known max_def
      less_eq_band_def)

lemma alignment_bands:
  "derive_trust_score_cap_alignment_state (JStr (band_name s)) (JStr (band_name c))
     = Inr (JStr (if s = c then ''ALIGNED'' else if s < c then ''CAP_STRICTER_THAN_SCORE''
                  else ''SCORE_STRICTER_THAN_CAP''))"
  by (cases s; cases c) (simp_all add: derive_trust_score_cap_alignment_state_def band_severity
      band_name_known less_band_def TRUST_BAND_SEVERITY_def)

text \<open>The trust-band operation fulfils the contract of a most-restrictive operation.\<close>

definition stricter_trust_band :: "string \<Rightarrow> string \<Rightarrow> string" where
  "stricter_trust_band a b =
    (case most_restrictive_trust_band (JStr a) (JStr b) of Inr (JStr s) \<Rightarrow> s | _ \<Rightarrow> a)"

interpretation trust_order: restriction_order "map_of TRUST_BAND_SEVERITY" stricter_trust_band
proof
  fix a b :: string and i j :: int
  assume a: "map_of TRUST_BAND_SEVERITY a = Some i"
  show "a = b" if "map_of TRUST_BAND_SEVERITY b = Some i"
    using a that by (auto simp: TRUST_BAND_SEVERITY_def split: if_splits)
  show "stricter_trust_band a b = (if j \<le> i then a else b)"
    if b: "map_of TRUST_BAND_SEVERITY b = Some j"
  proof -
    obtain x y where "a = band_name x" "b = band_name y"
      using a b known_band by (metis map_of_SomeD fst_conv image_eqI)
    then show ?thesis
      using a b by (auto simp: stricter_trust_band_def most_restrictive_bands band_severity max_def
          less_eq_band_def)
  qed
qed

section \<open>The score band\<close>

definition score_band_of :: "int \<Rightarrow> band" where
  "score_band_of s = (if s \<ge> 85 then Green else if s \<ge> 65 then Amber else Red)"

lemma score_band_refines:
  "as_int v = Some s \<Longrightarrow> derive_trust_score_band v = JStr (band_name (score_band_of s))"
  by (simp add: derive_trust_score_band_def score_band_of_def)

lemma score_band_antimono: "s \<le> t \<Longrightarrow> score_band_of t \<le> score_band_of s"
  by (simp add: score_band_of_def less_eq_band_def)

section \<open>The cap band as the strictest of its demands\<close>

text \<open>What a summary demands, rule by rule; \<open>cap_of\<close> is the strictest demand, \<open>Green\<close> when there is
  none. The code's early returns compute it.\<close>

abbreviation live_requested :: "obj \<Rightarrow> bool" where
  "live_requested p \<equiv> get p ''live_authority_progression_requested'' = JBool True"

definition demands_insufficient :: "obj \<Rightarrow> bool" where
  "demands_insufficient p \<longleftrightarrow>
     get p ''trust_input_state'' \<in> {JStr ''INCOMPLETE'', JStr ''CONTRADICTED''}
   \<or> int_and (get p ''completeness_score'') (\<lambda>c. c < 60)
   \<or> live_requested p \<and> int_and (get p ''graph_quality_score'') (\<lambda>g. g < 50)"

definition demands_red :: "obj \<Rightarrow> bool" where
  "demands_red p \<longleftrightarrow>
     get p ''unresolved_blocking_risk_flag'' = JBool True
   \<or> get p ''upstream_gate_cap'' = JStr ''BLOCKED''
   \<or> live_requested p \<and> int_and (get p ''authority_uncertainty_score'') (\<lambda>a. a \<ge> 70)"

definition has_human_steps :: "obj \<Rightarrow> bool" where
  "has_human_steps p \<longleftrightarrow>
     (case get p ''required_human_steps'' of JList steps \<Rightarrow> length steps > 0 | _ \<Rightarrow> False)"

definition demands_amber :: "obj \<Rightarrow> bool" where
  "demands_amber p \<longleftrightarrow>
     get p ''execution_mode'' = JStr ''ANALYSIS''
   \<or> get p ''trust_input_state'' = JStr ''ADMISSIBLE_STALE''
   \<or> get p ''threshold_stability_state'' = JStr ''EDGE_REVIEW''
   \<or> int_and (get p ''risk_automation_margin'') (\<lambda>m. m < 2)
   \<or> get p ''upstream_gate_cap'' = JStr ''REVIEW_ONLY''
   \<or> has_human_steps p
   \<or> int_and (get p ''active_filing_critical_override_count'') (\<lambda>n. n > 0)
   \<or> int_and (get p ''critical_retention_limited_count'') (\<lambda>n. n > 0)
   \<or> get p ''unresolved_material_blocking_risk_flag'' = JBool True
   \<or> live_requested p \<and> int_and (get p ''authority_uncertainty_score'') (\<lambda>a. a \<ge> 35)
   \<or> live_requested p \<and> get p ''baseline_submission_state''
       \<in> {JStr ''UNKNOWN'', JStr ''OUT_OF_BAND_UNRECONCILED''}"

definition cap_demands :: "obj \<Rightarrow> band set" where
  "cap_demands p = (if demands_insufficient p then {Insufficient} else {}) \<union>
     (if demands_red p then {Red} else {}) \<union> (if demands_amber p then {Amber} else {})"

definition cap_of :: "obj \<Rightarrow> band" where
  "cap_of p = Max (insert Green (cap_demands p))"

text \<open>The two summary fields the cap band hashes.\<close>

definition cap_hashable :: "obj \<Rightarrow> bool" where
  "cap_hashable p \<longleftrightarrow>
     hashable (get p ''trust_input_state'') \<and> hashable (get p ''baseline_submission_state'')"

lemma cap_of_ladder:
  "cap_of p = (if demands_insufficient p then Insufficient else if demands_red p then Red
               else if demands_amber p then Amber else Green)"
  by (auto simp: cap_of_def cap_demands_def max_def)

lemma cap_of_mono:
  assumes "demands_insufficient p \<Longrightarrow> demands_insufficient q"
    and "demands_red p \<Longrightarrow> demands_insufficient q \<or> demands_red q"
    and "demands_amber p \<Longrightarrow> demands_insufficient q \<or> demands_red q \<or> demands_amber q"
  shows "cap_of p \<le> cap_of q"
  using assms by (auto simp: cap_of_ladder)

text \<open>The chain of early returns, grouped by the band it returns.\<close>

definition early_amber :: "obj \<Rightarrow> bool" where
  "early_amber p \<longleftrightarrow>
     get p ''execution_mode'' = JStr ''ANALYSIS''
   \<or> get p ''trust_input_state'' = JStr ''ADMISSIBLE_STALE''
   \<or> get p ''threshold_stability_state'' = JStr ''EDGE_REVIEW''
   \<or> int_and (get p ''risk_automation_margin'') (\<lambda>m. m < 2)
   \<or> get p ''upstream_gate_cap'' = JStr ''REVIEW_ONLY''
   \<or> has_human_steps p
   \<or> int_and (get p ''active_filing_critical_override_count'') (\<lambda>n. n > 0)
   \<or> int_and (get p ''critical_retention_limited_count'') (\<lambda>n. n > 0)
   \<or> get p ''unresolved_material_blocking_risk_flag'' = JBool True
   \<or> live_requested p \<and> int_and (get p ''authority_uncertainty_score'') (\<lambda>a. a \<ge> 35)"

lemma if_merge: "(if a then x else if b then x else y) = (if a \<or> b then x else y)"
  by simp

lemma cap_band_grouped:
  "derive_trust_cap_band p =
    bindE (in_strs (get p ''trust_input_state'') [''INCOMPLETE'', ''CONTRADICTED'']) (\<lambda>inadmissible.
      if inadmissible \<or> int_and (get p ''completeness_score'') (\<lambda>c. c < 60)
         \<or> live_requested p \<and> int_and (get p ''graph_quality_score'') (\<lambda>g. g < 50)
      then Inr (JStr ''INSUFFICIENT_DATA'')
      else if demands_red p then Inr (JStr ''RED'')
      else if early_amber p then Inr (JStr ''AMBER'')
      else bindE (andE (Inr (live_requested p))
              (in_strs (get p ''baseline_submission_state'') [''UNKNOWN'', ''OUT_OF_BAND_UNRECONCILED'']))
            (\<lambda>unresolved. if unresolved then Inr (JStr ''AMBER'') else Inr (JStr ''GREEN'')))"
  unfolding derive_trust_cap_band_def Let_def demands_red_def early_amber_def has_human_steps_def
  by (simp only: if_merge)

lemma demands_amber_early:
  "demands_amber p \<longleftrightarrow> early_amber p \<or> live_requested p \<and> get p ''baseline_submission_state''
       \<in> {JStr ''UNKNOWN'', JStr ''OUT_OF_BAND_UNRECONCILED''}"
  unfolding demands_amber_def early_amber_def by blast

lemma insufficient_images:
  "demands_insufficient p \<longleftrightarrow> get p ''trust_input_state'' \<in> JStr ` set [''INCOMPLETE'', ''CONTRADICTED'']
   \<or> int_and (get p ''completeness_score'') (\<lambda>c. c < 60)
   \<or> live_requested p \<and> int_and (get p ''graph_quality_score'') (\<lambda>g. g < 50)"
  by (simp add: demands_insufficient_def)

text \<open>Whenever the code returns at all, it returns the strictest demand.\<close>

lemma cap_band_Inr:
  assumes "derive_trust_cap_band p = Inr v"
  shows "v = JStr (band_name (cap_of p))"
  using assms unfolding cap_band_grouped cap_of_ladder insufficient_images demands_amber_early
  by (auto simp: bindE_eq_Inr_iff in_strs_Inr_iff andE_def split: if_splits)

lemma cap_band_refines:
  assumes "cap_hashable p"
  shows "derive_trust_cap_band p = Inr (JStr (band_name (cap_of p)))"
  using assms unfolding cap_band_grouped cap_of_ladder insufficient_images demands_amber_early
    cap_hashable_def
  by (simp add: in_strs_hashable) blast

text \<open>On an unhashable input state the evaluation raises.\<close>

lemma cap_band_raises:
  "\<not> hashable (get p ''trust_input_state'') \<Longrightarrow> derive_trust_cap_band p = Inl TypeError"
  by (simp add: derive_trust_cap_band_def in_strs_def Let_def)

section \<open>Guard bands\<close>

lemma edge_triggers_sorted: "sorted (map (position TRUST_SENSITIVITY_EDGE_TRIGGER_CODES)
    (derive_trust_edge_trigger_codes p))"
  by (simp add: derive_trust_edge_trigger_codes_def Let_def)

lemma edge_triggers_set:
  "set (derive_trust_edge_trigger_codes p) \<subseteq> set TRUST_SENSITIVITY_EDGE_TRIGGER_CODES"
  by (auto simp: derive_trust_edge_trigger_codes_def Let_def
      TRUST_SENSITIVITY_EDGE_TRIGGER_CODES_def split: if_splits)

text \<open>No trigger: every margin is clear of its guard band.\<close>

lemma no_edge_trigger_iff:
  "derive_trust_edge_trigger_codes p = [] \<longleftrightarrow>
     \<not> int_and (get p ''trust_green_margin'') (\<lambda>m. \<bar>m\<bar> < 2) \<and>
     \<not> int_and (get p ''trust_amber_margin'') (\<lambda>m. \<bar>m\<bar> < 2) \<and>
     \<not> int_and (get p ''risk_automation_margin'') (\<lambda>m. 0 \<le> m \<and> m < 2) \<and>
     \<not> int_and (get p ''completeness_score'') (\<lambda>c. 0 \<le> c - 60 \<and> c - 60 < 3) \<and>
     \<not> (live_requested p \<and> int_and (get p ''graph_quality_score'') (\<lambda>g. 0 \<le> g - 50 \<and> g - 50 < 3)) \<and>
     \<not> (live_requested p \<and>
         int_and (get p ''authority_uncertainty_score'') (\<lambda>a. 0 \<le> 35 - a \<and> 35 - a < 2)) \<and>
     \<not> (live_requested p \<and>
         int_and (get p ''authority_uncertainty_score'') (\<lambda>a. 0 \<le> 70 - a \<and> 70 - a < 2))"
proof -
  have nil: "sort_key f xs = [] \<longleftrightarrow> xs = []" for f :: "string \<Rightarrow> nat" and xs
    by (metis length_0_conv length_sort)
  show ?thesis
    unfolding derive_trust_edge_trigger_codes_def Let_def nil by (simp split: if_splits)
qed

section \<open>Automation\<close>

definition automation_hashable :: "obj \<Rightarrow> bool" where
  "automation_hashable p \<longleftrightarrow>
     hashable (get p ''upstream_gate_cap'') \<and> hashable (get p ''baseline_submission_state'')"

definition automation_eligible :: "obj \<Rightarrow> bool" where
  "automation_eligible p \<longleftrightarrow>
     get p ''trust_input_state'' = JStr ''ADMISSIBLE_CURRENT'' \<and>
     get p ''threshold_stability_state'' = JStr ''STABLE'' \<and>
     int_and (get p ''risk_automation_margin'') (\<lambda>m. m \<ge> 2) \<and>
     get p ''upstream_gate_cap'' \<in> {JStr ''AUTO_ELIGIBLE'', JStr ''NOTICE_ONLY''} \<and>
     int_and (get p ''active_filing_critical_override_count'') (\<lambda>n. n = 0) \<and>
     int_and (get p ''critical_retention_limited_count'') (\<lambda>n. n = 0) \<and>
     int_and (trust_source_required_human_step_count p) (\<lambda>n. n = 0) \<and>
     get p ''execution_mode'' = JStr ''COMPLIANCE'' \<and>
     \<not> (live_requested p \<and> int_and (get p ''authority_uncertainty_score'') (\<lambda>a. a \<ge> 20)) \<and>
     \<not> (live_requested p \<and> get p ''baseline_submission_state''
          \<in> {JStr ''UNKNOWN'', JStr ''OUT_OF_BAND_UNRECONCILED''})"

lemma automation_level_cases:
  assumes "automation_hashable p"
  shows "derive_trust_automation_level p (JStr (band_name b)) =
    Inr (if b = Green then (if automation_eligible p then JStr ''ALLOWED'' else JNull)
         else if b = Amber then JStr ''LIMITED'' else JStr ''BLOCKED'')"
proof -
  have h: "hashable (get p ''upstream_gate_cap'')" "hashable (get p ''baseline_submission_state'')"
    using assms by (auto simp: automation_hashable_def)
  show ?thesis
  proof (cases b)
    case Green
    then show ?thesis
      by (simp add: derive_trust_automation_level_def Let_def in_strs_hashable h)
         (auto simp: automation_eligible_def)
  qed (simp_all add: derive_trust_automation_level_def Let_def)
qed

lemma automation_level_Inr:
  assumes "derive_trust_automation_level p (JStr (band_name b)) = Inr v"
  shows "v = (if b = Green then (if automation_eligible p then JStr ''ALLOWED'' else JNull)
              else if b = Amber then JStr ''LIMITED'' else JStr ''BLOCKED'')"
proof (cases b)
  case Green
  with assms show ?thesis
    by (auto simp: derive_trust_automation_level_def Let_def automation_eligible_def in_strs_def
        andE_def bindE_eq_Inr_iff notE_def split: if_splits)
next
  case Amber
  with assms show ?thesis by (simp add: derive_trust_automation_level_def Let_def)
next
  case Red
  with assms show ?thesis by (simp add: derive_trust_automation_level_def Let_def)
next
  case Insufficient
  with assms show ?thesis by (simp add: derive_trust_automation_level_def Let_def)
qed

lemma allowed_needs_green:
  "derive_trust_automation_level p v = Inr (JStr ''ALLOWED'') \<Longrightarrow>
     v = JStr ''GREEN'' \<and> automation_eligible p"
  by (auto simp: derive_trust_automation_level_def Let_def bindE_eq_Inr_iff andE_Inr_True_iff
      notE_Inr_iff in_strs_Inr_iff automation_eligible_def andE_def split: if_splits)

end
