(* ===== verification/Trust_Projection.thy ===== *)
theory Trust_Projection
  imports Trust_Bands
begin

text \<open>
  The trust sensitivity analyser of \<open>Algorithm/scripts/validate_contracts.py\<close>: the recomputed trust
  score, the six perturbation probes of a trust summary, and their results.

  Python floats are modelled by exact reals: \<open>math.exp\<close> and \<open>math.log\<close> are \<open>exp\<close> and \<open>ln\<close>, and
  rounding errors of the double arithmetic are not represented.
\<close>

section \<open>Score arithmetic\<close>

definition clamp01 :: "real \<Rightarrow> real" where
  "clamp01 v = max 0 (min 1 v)"

definition round_score :: "real \<Rightarrow> int" where
  "round_score v = max 0 (min 100 \<lfloor>v + 1/2\<rfloor>)"

lemma round_score_range: "0 \<le> round_score v" "round_score v \<le> 100"
  by (auto simp: round_score_def)

lemma round_score_mono: "v \<le> w \<Longrightarrow> round_score v \<le> round_score w"
  unfolding round_score_def by (intro max.mono min.mono floor_mono) auto

lemma round_score_of_int: "round_score (of_int i) = max 0 (min 100 i)"
  by (simp add: round_score_def)

text \<open>The weighted geometric mean of quality, parity, graph quality and inverted risk.\<close>

definition trust_core_score :: "int \<Rightarrow> int \<Rightarrow> int \<Rightarrow> int \<Rightarrow> real" where
  "trust_core_score data_quality_score parity_score graph_quality_score risk_score =
    (let q_raw = max 0 (min 1 (real_of_int data_quality_score / 100));
         p_raw = max 0 (min 1 (real_of_int parity_score / 100));
         g_raw = max 0 (min 1 (real_of_int graph_quality_score / 100));
         r_raw = max 0 (min 1 (real_of_int (max 0 (min 100 (100 - risk_score))) / 100))
     in if min q_raw (min p_raw (min g_raw r_raw)) = 0 then 0
        else 100 * exp (30/100 * ln q_raw + 25/100 * ln p_raw + 25/100 * ln g_raw + 20/100 * ln r_raw))"

definition authority_penalty_of :: "json \<Rightarrow> int \<Rightarrow> int" where
  "authority_penalty_of baseline_submission_state authority_uncertainty_score =
    (if baseline_submission_state = JStr ''NOT_APPLICABLE'' then 0
     else min 30 (max 0 ((authority_uncertainty_score * 30 + 50) div 100)))"

definition derive_projected_trust_score ::
  "json \<Rightarrow> json \<Rightarrow> json \<Rightarrow> json \<Rightarrow> json \<Rightarrow> json \<Rightarrow> json \<Rightarrow> json \<Rightarrow> json" where
  "derive_projected_trust_score data_quality_score parity_score graph_quality_score risk_score
     active_filing_critical_override_count critical_retention_limited_count
     baseline_submission_state authority_uncertainty_score =
    (case (as_int data_quality_score, as_int parity_score, as_int graph_quality_score,
           as_int risk_score, as_int active_filing_critical_override_count,
           as_int critical_retention_limited_count) of
       (Some q, Some p, Some g, Some r, Some overrides, Some limited) \<Rightarrow>
         (if baseline_submission_state \<noteq> JStr ''NOT_APPLICABLE'' \<and> \<not> is_int authority_uncertainty_score
          then JNull
          else (let override_penalty = min 20 (max 0 (5 * overrides));
                    retention_penalty = (if limited > 0 then 20 else 0);
                    authority_penalty = authority_penalty_of baseline_submission_state
                      (case as_int authority_uncertainty_score of Some a \<Rightarrow> a | None \<Rightarrow> 0)
                in JInt (round_score (trust_core_score q p g r - of_int override_penalty
                           - of_int retention_penalty - of_int authority_penalty))))
     | _ \<Rightarrow> JNull)"

section \<open>The probes\<close>

definition TRUST_SENSITIVITY_CASE_ORDER :: "string list" where
  "TRUST_SENSITIVITY_CASE_ORDER =
    [''TRUST_SCORE_MINUS_ONE'', ''TRUST_SCORE_PLUS_ONE'', ''RISK_SCORE_PLUS_ONE'',
     ''AUTHORITY_UNCERTAINTY_PLUS_ONE'', ''FRESHNESS_INVALIDATED'', ''INVALID_OVERRIDE_RELIED_UPON'']"

definition TRUST_SENSITIVITY_NON_DEGRADING_CASES :: "string list" where
  "TRUST_SENSITIVITY_NON_DEGRADING_CASES = [''TRUST_SCORE_PLUS_ONE'']"

text \<open>\<open>derive_trust_projection_payload\<close> in the order of its steps: the guard and the projected
  dictionary, the perturbation of the probe, the recomputation, the margins, the bands.\<close>

definition projection_base :: "obj \<Rightarrow> obj option" where
  "projection_base payload =
    (if is_int (get payload ''trust_score'') \<and> is_int (get payload ''risk_score'') \<and>
        is_int (get payload ''completeness_score'') \<and> is_int (get payload ''graph_quality_score'') \<and>
        is_int (get payload ''authority_uncertainty_score'') \<and> is_int (get payload ''authority_penalty'')
     then Some
       [(''execution_mode'', get payload ''execution_mode''),
        (''live_authority_progression_requested'', get payload ''live_authority_progression_requested''),
        (''baseline_submission_state'', get payload ''baseline_submission_state''),
        (''upstream_gate_cap'', get payload ''upstream_gate_cap''),
        (''trust_input_state'', get payload ''trust_input_state''),
        (''active_filing_critical_override_count'', get payload ''active_filing_critical_override_count''),
        (''critical_retention_limited_count'', get payload ''critical_retention_limited_count''),
        (''required_human_step_count'', trust_source_required_human_step_count payload),
        (''late_data_invalidation_state'', trust_source_basis_state payload ''late_data_invalidation_state''),
        (''override_dependency_state'', trust_source_basis_state payload ''override_dependency_state''),
        (''execution_legal_effect_boundary'', trust_source_legal_effect_boundary payload),
        (''trust_score'', get payload ''trust_score''),
        (''risk_score'', get payload ''risk_score''),
        (''completeness_score'', get payload ''completeness_score''),
        (''graph_quality_score'', get payload ''graph_quality_score''),
        (''authority_uncertainty_score'', get payload ''authority_uncertainty_score''),
        (''authority_penalty'', get payload ''authority_penalty'')]
     else None)"

text \<open>The integer behind a score that the guard has checked.\<close>

definition int_at :: "obj \<Rightarrow> string \<Rightarrow> int" where
  "int_at d k = (case as_int (get d k) of Some i \<Rightarrow> i | None \<Rightarrow> 0)"

definition apply_probe :: "obj \<Rightarrow> string \<Rightarrow> obj \<Rightarrow> obj option" where
  "apply_probe payload case_code projected =
    (if case_code = ''TRUST_SCORE_MINUS_ONE'' then
       Some (dict_set ''trust_score'' (JInt (max 0 (int_at payload ''trust_score'' - 1))) projected)
     else if case_code = ''TRUST_SCORE_PLUS_ONE'' then
       Some (dict_set ''trust_score'' (JInt (min 100 (int_at payload ''trust_score'' + 1))) projected)
     else if case_code = ''RISK_SCORE_PLUS_ONE'' then
       Some (dict_set ''risk_score'' (JInt (min 100 (int_at payload ''risk_score'' + 1))) projected)
     else if case_code = ''AUTHORITY_UNCERTAINTY_PLUS_ONE'' then
       Some (dict_set ''authority_uncertainty_score''
         (JInt (min 100 (int_at payload ''authority_uncertainty_score'' + 1))) projected)
     else if case_code = ''FRESHNESS_INVALIDATED'' then
       Some (dict_set ''late_data_invalidation_state'' (JStr ''INVALIDATING_FINDING_PRESENT'')
         (if get payload ''trust_input_state'' = JStr ''ADMISSIBLE_CURRENT''
          then dict_set ''trust_input_state'' (JStr ''ADMISSIBLE_STALE'') projected else projected))
     else if case_code = ''INVALID_OVERRIDE_RELIED_UPON'' then
       Some (dict_set ''override_dependency_state'' (JStr ''INVALID_OVERRIDE_RELIED_UPON'')
         (dict_set ''trust_input_state'' (JStr ''CONTRADICTED'') projected))
     else None)"

definition projection_recompute :: "obj \<Rightarrow> string \<Rightarrow> obj \<Rightarrow> obj option" where
  "projection_recompute payload case_code projected =
    (if case_code \<in> {''TRUST_SCORE_MINUS_ONE'', ''TRUST_SCORE_PLUS_ONE''} then Some projected
     else (let projected = dict_set ''authority_penalty''
                 (JInt (authority_penalty_of (get projected ''baseline_submission_state'')
                          (int_at projected ''authority_uncertainty_score''))) projected;
               recomputed_trust_score = derive_projected_trust_score
                 (get payload ''data_quality_score'') (get payload ''parity_score'')
                 (get projected ''graph_quality_score'') (get projected ''risk_score'')
                 (get projected ''active_filing_critical_override_count'')
                 (get projected ''critical_retention_limited_count'')
                 (get projected ''baseline_submission_state'')
                 (get projected ''authority_uncertainty_score'')
           in if recomputed_trust_score = JNull then None
              else Some (dict_set ''trust_score'' recomputed_trust_score projected)))"

definition projection_margins :: "obj \<Rightarrow> obj" where
  "projection_margins projected =
    (let live = (get projected ''live_authority_progression_requested'' = JBool True)
     in dict_set ''authority_block_margin_or_null''
          (if live then JInt (70 - int_at projected ''authority_uncertainty_score'') else JNull)
       (dict_set ''authority_review_margin_or_null''
          (if live then JInt (35 - int_at projected ''authority_uncertainty_score'') else JNull)
       (dict_set ''graph_filing_margin_or_null''
          (if live then JInt (int_at projected ''graph_quality_score'' - 50) else JNull)
       (dict_set ''completeness_margin'' (JInt (int_at projected ''completeness_score'' - 60))
       (dict_set ''risk_automation_margin'' (JInt (40 - int_at projected ''risk_score''))
       (dict_set ''trust_amber_margin'' (JInt (int_at projected ''trust_score'' - 65))
       (dict_set ''trust_green_margin'' (JInt (int_at projected ''trust_score'' - 85)) projected)))))))"

definition projection_bands :: "obj \<Rightarrow> py_exn + obj" where
  "projection_bands projected =
    (let d1 = dict_set ''threshold_stability_state''
           (JStr (if derive_trust_edge_trigger_codes projected \<noteq> [] then ''EDGE_REVIEW'' else ''STABLE''))
           projected;
         d2 = dict_set ''score_band'' (derive_trust_score_band (get d1 ''trust_score'')) d1
     in bindE (derive_trust_cap_band d2) (\<lambda>cap_band.
        let d3 = dict_set ''cap_band'' cap_band d2
        in bindE (most_restrictive_trust_band (get d3 ''score_band'') (get d3 ''cap_band'')) (\<lambda>trust_band.
           let d4 = dict_set ''trust_band'' trust_band d3
           in bindE (derive_trust_automation_level d4 (get d4 ''trust_band'')) (\<lambda>automation_level.
              let d5 = dict_set ''automation_level'' automation_level d4
              in bindE (table_get TRUST_FILING_READINESS_BY_AUTOMATION (get d5 ''automation_level''))
                   (\<lambda>readiness. Inr (dict_set ''filing_readiness'' (opt_str readiness) d5))))))"

definition derive_trust_projection_payload :: "obj \<Rightarrow> string \<Rightarrow> py_exn + obj option" where
  "derive_trust_projection_payload payload case_code =
    (case projection_base payload of None \<Rightarrow> Inr None
     | Some base \<Rightarrow> (case apply_probe payload case_code base of None \<Rightarrow> Inr None
       | Some perturbed \<Rightarrow> (case projection_recompute payload case_code perturbed of None \<Rightarrow> Inr None
         | Some projected \<Rightarrow>
             bindE (projection_bands (projection_margins projected)) (\<lambda>d. Inr (Some d)))))"

definition derive_trust_sensitivity_case_result :: "obj \<Rightarrow> string \<Rightarrow> py_exn + obj option" where
  "derive_trust_sensitivity_case_result payload case_code =
    bindE (derive_trust_projection_payload payload case_code) (\<lambda>r. case r of None \<Rightarrow> Inr None
    | Some projected \<Rightarrow>
      bindE (derive_trust_compact_reason_codes projected) (\<lambda>projected_reason_codes.
      bindE (derive_trust_compact_reason_codes payload) (\<lambda>current_reason_codes.
      Inr (Some
       [(''case_code'', JStr case_code),
        (''monotonicity_expectation'',
           JStr (if case_code \<in> set TRUST_SENSITIVITY_NON_DEGRADING_CASES then ''NON_DEGRADING''
                 else ''NON_IMPROVING'')),
        (''projected_trust_score'', get projected ''trust_score''),
        (''projected_score_band'', get projected ''score_band''),
        (''projected_cap_band'', get projected ''cap_band''),
        (''projected_trust_band'', get projected ''trust_band''),
        (''projected_trust_input_state'', get projected ''trust_input_state''),
        (''projected_threshold_stability_state'', get projected ''threshold_stability_state''),
        (''projected_automation_level'', get projected ''automation_level''),
        (''projected_filing_readiness'', get projected ''filing_readiness''),
        (''projected_trust_green_margin'', get projected ''trust_green_margin''),
        (''projected_trust_amber_margin'', get projected ''trust_amber_margin''),
        (''projected_risk_automation_margin'', get projected ''risk_automation_margin''),
        (''projected_completeness_margin'', get projected ''completeness_margin''),
        (''projected_graph_filing_margin_or_null'', get projected ''graph_filing_margin_or_null''),
        (''projected_authority_review_margin_or_null'', get projected ''authority_review_margin_or_null''),
        (''projected_authority_block_margin_or_null'', get projected ''authority_block_margin_or_null''),
        (''projected_edge_trigger_codes'',
           JList (map JStr (derive_trust_edge_trigger_codes projected))),
        (''projected_reason_code_additions'',
           JList (map JStr (filter (\<lambda>c. c \<notin> set current_reason_codes) projected_reason_codes))),
        (''projected_reason_code_removals'',
           JList (map JStr (filter (\<lambda>c. c \<notin> set projected_reason_codes) current_reason_codes)))]))))"

section \<open>Monotonicity of the recomputed score\<close>

lemma trust_core_score_antimono:
  assumes "r \<le> r'"
  shows "trust_core_score q p g r' \<le> trust_core_score q p g r"
proof -
  define R where "R x = max 0 (min 1 (real_of_int (max 0 (min 100 (100 - x))) / 100))" for x
  define Q P G where "Q = max 0 (min 1 (real_of_int q / 100))"
    and "P = max 0 (min 1 (real_of_int p / 100))" and "G = max 0 (min 1 (real_of_int g / 100))"
  have nonneg: "0 \<le> Q" "0 \<le> P" "0 \<le> G" "0 \<le> R x" for x by (auto simp: Q_def P_def G_def R_def)
  have core: "trust_core_score q p g x =
      (if min Q (min P (min G (R x))) = 0 then 0
       else 100 * exp (30/100 * ln Q + 25/100 * ln P + 25/100 * ln G + 20/100 * ln (R x)))" for x
    by (simp only: trust_core_score_def Let_def Q_def P_def G_def R_def)
  have "max 0 (min 100 (100 - r')) \<le> max 0 (min 100 (100 - r))" using assms by auto
  then have RR: "R r' \<le> R r" unfolding R_def by (intro max.mono min.mono divide_right_mono) auto
  show ?thesis
  proof (cases "min Q (min P (min G (R r'))) = 0")
    case True
    then show ?thesis by (simp add: core)
  next
    case False
    then have "0 < R r'" "0 < Q" "0 < P" "0 < G"
      using nonneg by (auto simp: min_def order.strict_iff_order split: if_splits)
    then have "ln (R r') \<le> ln (R r)" "min Q (min P (min G (R r))) \<noteq> 0"
      using RR by (auto simp: min_def)
    then show ?thesis using False by (simp add: core)
  qed
qed

lemma authority_penalty_mono:
  "a \<le> a' \<Longrightarrow> authority_penalty_of b a \<le> authority_penalty_of b a'"
  unfolding authority_penalty_of_def
  by (auto intro!: min.mono max.mono zdiv_mono1)

lemma projected_score_antimono:
  assumes "derive_projected_trust_score q p g (JInt r) ov li b (JInt a) = JInt s"
    and "derive_projected_trust_score q p g (JInt r') ov li b (JInt a') = JInt s'"
    and "r \<le> r'" and "a \<le> a'"
  shows "s' \<le> s"
proof -
  obtain qi pi gi oi lj where i: "as_int q = Some qi" "as_int p = Some pi" "as_int g = Some gi"
      "as_int ov = Some oi" "as_int li = Some lj"
    using assms(1) by (auto simp: derive_projected_trust_score_def split: option.splits)
  have "real_of_int (authority_penalty_of b a) \<le> real_of_int (authority_penalty_of b a')"
    using authority_penalty_mono [OF assms(4)] by simp
  then show ?thesis
    using assms(1,2) trust_core_score_antimono [OF assms(3), of qi pi gi]
    by (auto simp: derive_projected_trust_score_def i Let_def intro!: round_score_mono)
qed

lemma projected_score_range:
  "derive_projected_trust_score q p g r ov li b a = JInt s \<Longrightarrow> 0 \<le> s \<and> s \<le> 100"
  by (auto simp: derive_projected_trust_score_def Let_def round_score_range
      split: option.splits if_splits)

lemma projected_score_cases:
  "derive_projected_trust_score q p g r ov li b a = JNull
    \<or> (\<exists>s. derive_projected_trust_score q p g r ov li b a = JInt s)"
  by (auto simp: derive_projected_trust_score_def Let_def split: option.splits)

section \<open>Monotonicity of the final band\<close>

text \<open>A summary (or projection) whose derived fields agree with its scores.\<close>

definition derived_fields_ok :: "obj \<Rightarrow> bool" where
  "derived_fields_ok p \<longleftrightarrow>
     is_int (get p ''trust_score'') \<and> is_int (get p ''risk_score'') \<and>
     is_int (get p ''authority_uncertainty_score'') \<and>
     get p ''trust_green_margin'' = JInt (int_at p ''trust_score'' - 85) \<and>
     get p ''trust_amber_margin'' = JInt (int_at p ''trust_score'' - 65) \<and>
     get p ''risk_automation_margin'' = JInt (40 - int_at p ''risk_score'') \<and>
     get p ''threshold_stability_state''
       = JStr (if derive_trust_edge_trigger_codes p \<noteq> [] then ''EDGE_REVIEW'' else ''STABLE'')"

definition final_band :: "obj \<Rightarrow> band" where
  "final_band p = max (score_band_of (int_at p ''trust_score'')) (cap_of p)"

text \<open>\<open>no_safer p d\<close>: \<open>d\<close> differs from \<open>p\<close> only by worse scores, a worse input state or more
  blocking posture.\<close>

definition no_safer :: "obj \<Rightarrow> obj \<Rightarrow> bool" where
  "no_safer p d \<longleftrightarrow>
     int_at d ''trust_score'' \<le> int_at p ''trust_score'' \<and>
     int_at p ''risk_score'' \<le> int_at d ''risk_score'' \<and>
     int_at p ''authority_uncertainty_score'' \<le> int_at d ''authority_uncertainty_score'' \<and>
     get d ''completeness_score'' = get p ''completeness_score'' \<and>
     get d ''graph_quality_score'' = get p ''graph_quality_score'' \<and>
     get d ''live_authority_progression_requested'' = get p ''live_authority_progression_requested'' \<and>
     get d ''upstream_gate_cap'' = get p ''upstream_gate_cap'' \<and>
     get d ''execution_mode'' = get p ''execution_mode'' \<and>
     get d ''baseline_submission_state'' = get p ''baseline_submission_state'' \<and>
     get d ''active_filing_critical_override_count'' = get p ''active_filing_critical_override_count'' \<and>
     get d ''critical_retention_limited_count'' = get p ''critical_retention_limited_count'' \<and>
     (get d ''trust_input_state'' = get p ''trust_input_state'' \<or>
      get p ''trust_input_state'' = JStr ''ADMISSIBLE_CURRENT'' \<or>
      get d ''trust_input_state'' = JStr ''CONTRADICTED'') \<and>
     (get p ''unresolved_blocking_risk_flag'' = JBool True \<longrightarrow>
      get d ''unresolved_blocking_risk_flag'' = JBool True) \<and>
     (get p ''unresolved_material_blocking_risk_flag'' = JBool True \<longrightarrow>
      get d ''unresolved_material_blocking_risk_flag'' = JBool True) \<and>
     (has_human_steps p \<longrightarrow> has_human_steps d)"

lemma int_and_int_at: "is_int (get d k) \<Longrightarrow> int_and (get d k) P = P (int_at d k)"
  by (auto simp: is_int_def int_at_def int_and_def)

lemma no_safer_insufficient: "no_safer p d \<Longrightarrow> demands_insufficient p \<Longrightarrow> demands_insufficient d"
  by (auto simp: no_safer_def demands_insufficient_def)

lemma no_safer_red:
  assumes "no_safer p d" and "derived_fields_ok p" and "derived_fields_ok d" and "demands_red p"
  shows "demands_red d"
  using assms by (auto simp: no_safer_def demands_red_def derived_fields_ok_def int_and_int_at)

text \<open>Leaving a guard band by getting worse always lands in a stricter demand or score band.\<close>

lemma no_safer_edge:
  assumes ns: "no_safer p d" and p: "derived_fields_ok p" and d: "derived_fields_ok d"
    and edge: "derive_trust_edge_trigger_codes p \<noteq> []"
  shows "Amber \<le> score_band_of (int_at d ''trust_score'') \<or> demands_amber d"
proof (rule ccontr)
  assume contra: "\<not> ?thesis"
  have no_edge: "derive_trust_edge_trigger_codes d = []"
    using contra d by (auto simp: demands_amber_def derived_fields_ok_def split: if_splits)
  have score: "int_at d ''trust_score'' \<ge> 85"
    using contra by (auto simp: score_band_of_def split: if_splits)
  have risk: "40 - int_at d ''risk_score'' \<ge> 2"
    using contra d by (auto simp: demands_amber_def derived_fields_ok_def)
  have auth: "live_requested d \<Longrightarrow> int_at d ''authority_uncertainty_score'' < 35"
    using contra d by (auto simp: demands_amber_def derived_fields_ok_def int_and_int_at)
  have same: "get d ''completeness_score'' = get p ''completeness_score''"
    "get d ''graph_quality_score'' = get p ''graph_quality_score''"
    "live_requested d \<longleftrightarrow> live_requested p"
    and le: "int_at d ''trust_score'' \<le> int_at p ''trust_score''"
    "int_at p ''risk_score'' \<le> int_at d ''risk_score''"
    "int_at p ''authority_uncertainty_score'' \<le> int_at d ''authority_uncertainty_score''"
    using ns by (simp_all add: no_safer_def)
  have margins: "get p ''trust_green_margin'' = JInt (int_at p ''trust_score'' - 85)"
    "get p ''trust_amber_margin'' = JInt (int_at p ''trust_score'' - 65)"
    "get p ''risk_automation_margin'' = JInt (40 - int_at p ''risk_score'')"
    and auth_int: "is_int (get p ''authority_uncertainty_score'')"
      "is_int (get d ''authority_uncertainty_score'')"
    and margins_d: "get d ''trust_green_margin'' = JInt (int_at d ''trust_score'' - 85)"
    using p d by (simp_all add: derived_fields_ok_def)
  note clear = no_edge [unfolded no_edge_trigger_iff same]
  have "int_at d ''trust_score'' \<ge> 87"
    using clear score by (simp add: margins_d)
  then have "derive_trust_edge_trigger_codes p = []"
    unfolding no_edge_trigger_iff
    using clear le risk auth by (intro conjI) (auto simp: margins same int_and_int_at auth_int)
  with edge show False by simp
qed

lemma no_safer_amber:
  assumes ns: "no_safer p d" and p: "derived_fields_ok p" and d: "derived_fields_ok d"
    and amber: "demands_amber p"
  shows "Amber \<le> score_band_of (int_at d ''trust_score'') \<or> demands_amber d \<or> demands_insufficient d"
proof (cases "derive_trust_edge_trigger_codes p = []")
  case False
  then show ?thesis using no_safer_edge [OF ns p d] by blast
next
  case True
  then have stable: "get p ''threshold_stability_state'' = JStr ''STABLE''"
    using p by (simp add: derived_fields_ok_def)
  have margins: "get p ''risk_automation_margin'' = JInt (40 - int_at p ''risk_score'')"
    "get d ''risk_automation_margin'' = JInt (40 - int_at d ''risk_score'')"
    and auth_int: "is_int (get p ''authority_uncertainty_score'')"
      "is_int (get d ''authority_uncertainty_score'')"
    using p d by (simp_all add: derived_fields_ok_def)
  have le: "int_at p ''risk_score'' \<le> int_at d ''risk_score''"
    "int_at p ''authority_uncertainty_score'' \<le> int_at d ''authority_uncertainty_score''"
    and same: "live_requested d \<longleftrightarrow> live_requested p"
    "get d ''upstream_gate_cap'' = get p ''upstream_gate_cap''"
    "get d ''execution_mode'' = get p ''execution_mode''"
    "get d ''baseline_submission_state'' = get p ''baseline_submission_state''"
    "get d ''active_filing_critical_override_count'' = get p ''active_filing_critical_override_count''"
    "get d ''critical_retention_limited_count'' = get p ''critical_retention_limited_count''"
    using ns by (simp_all add: no_safer_def)
  have states: "get d ''trust_input_state'' = get p ''trust_input_state'' \<or>
      get p ''trust_input_state'' = JStr ''ADMISSIBLE_CURRENT'' \<or> demands_insufficient d"
    and flags: "has_human_steps p \<longrightarrow> has_human_steps d"
    "get p ''unresolved_material_blocking_risk_flag'' = JBool True \<longrightarrow>
     get d ''unresolved_material_blocking_risk_flag'' = JBool True"
    using ns by (auto simp: no_safer_def demands_insufficient_def)
  have "demands_amber d \<or> demands_insufficient d"
    using amber states flags le unfolding demands_amber_def same stable margins
    by (elim disjE conjE) (auto simp: int_and_int_at auth_int)
  then show ?thesis by blast
qed

lemma final_band_mono:
  assumes "no_safer p d" and "derived_fields_ok p" and "derived_fields_ok d"
  shows "final_band p \<le> final_band d"
proof -
  have score: "score_band_of (int_at p ''trust_score'') \<le> score_band_of (int_at d ''trust_score'')"
    using assms(1) by (auto simp: no_safer_def intro: score_band_antimono)
  have amber: "Amber \<le> final_band d" if "demands_amber p"
    using no_safer_amber [OF assms that] by (auto simp: final_band_def le_max_iff_disj cap_of_ladder)
  have red: "Red \<le> final_band d" if "demands_red p"
    using no_safer_red [OF assms that] by (auto simp: final_band_def le_max_iff_disj cap_of_ladder)
  have insufficient: "Insufficient \<le> final_band d" if "demands_insufficient p"
    using no_safer_insufficient [OF assms(1) that]
    by (simp add: final_band_def le_max_iff_disj cap_of_ladder)
  have "cap_of p \<le> final_band d"
    using amber red insufficient by (simp add: cap_of_ladder)
  with score show ?thesis by (auto simp: final_band_def le_max_iff_disj)
qed

section \<open>What a projection looks like\<close>

definition posture_of :: "band \<Rightarrow> bool \<Rightarrow> json" where
  "posture_of b eligible =
    (if b = Green then (if eligible then JStr ''ALLOWED'' else JNull)
     else if b = Amber then JStr ''LIMITED'' else JStr ''BLOCKED'')"

definition readiness_of :: "json \<Rightarrow> json" where
  "readiness_of automation =
    (if automation = JStr ''ALLOWED'' then JStr ''READY_TO_SUBMIT''
     else if automation = JStr ''LIMITED'' then JStr ''READY_REVIEW''
     else if automation = JStr ''BLOCKED'' then JStr ''NOT_READY'' else JNull)"

lemma readiness_table:
  "table_get TRUST_FILING_READINESS_BY_AUTOMATION (posture_of b e)
     = Inr (case readiness_of (posture_of b e) of JStr s \<Rightarrow> Some s | _ \<Rightarrow> None)"
  by (simp add: posture_of_def readiness_of_def TRUST_FILING_READINESS_BY_AUTOMATION_def)

lemma projection_bands_result:
  assumes r: "projection_bands d = Inr r" and int: "is_int (get d ''trust_score'')"
  shows "get r ''score_band'' = JStr (band_name (score_band_of (int_at r ''trust_score'')))"
    and "get r ''cap_band'' = JStr (band_name (cap_of r))"
    and "get r ''trust_band'' = JStr (band_name (final_band r))"
    and "get r ''automation_level'' = posture_of (final_band r) (automation_eligible r)"
    and "get r ''filing_readiness'' = readiness_of (get r ''automation_level'')"
    and "get r ''threshold_stability_state''
          = JStr (if derive_trust_edge_trigger_codes r \<noteq> [] then ''EDGE_REVIEW'' else ''STABLE'')"
    and "\<And>k. k \<notin> {''threshold_stability_state'', ''score_band'', ''cap_band'', ''trust_band'',
           ''automation_level'', ''filing_readiness''} \<Longrightarrow> get r k = get d k"
proof -
  obtain ts where ts: "as_int (get d ''trust_score'') = Some ts"
    using int by (auto simp: is_int_def)
  define d2 where "d2 = dict_set ''score_band'' (JStr (band_name (score_band_of ts)))
    (dict_set ''threshold_stability_state''
       (JStr (if derive_trust_edge_trigger_codes d \<noteq> [] then ''EDGE_REVIEW'' else ''STABLE'')) d)"
  obtain cap where cap: "derive_trust_cap_band d2 = Inr cap"
    using r by (auto simp: projection_bands_def Let_def score_band_refines [OF ts]
        d2_def [symmetric] bindE_eq_Inr_iff)
  then have cap_eq: "cap = JStr (band_name (cap_of d2))" by (rule cap_band_Inr)
  have sb: "get d2 ''score_band'' = JStr (band_name (score_band_of ts))"
    by (simp add: d2_def)
  define b where "b = max (score_band_of ts) (cap_of d2)"
  define d4 where "d4 = dict_set ''trust_band'' (JStr (band_name b)) (dict_set ''cap_band'' cap d2)"
  have "bindE (derive_trust_automation_level d4 (JStr (band_name b))) (\<lambda>automation_level.
          bindE (table_get TRUST_FILING_READINESS_BY_AUTOMATION automation_level) (\<lambda>readiness.
            Inr (dict_set ''filing_readiness'' (opt_str readiness)
                   (dict_set ''automation_level'' automation_level d4)))) = Inr r"
    using r cap by (simp add: projection_bands_def Let_def d2_def [symmetric] cap_eq
        score_band_refines [OF ts] most_restrictive_bands b_def d4_def)
  then obtain al where al: "derive_trust_automation_level d4 (JStr (band_name b)) = Inr al"
    and r1: "bindE (table_get TRUST_FILING_READINESS_BY_AUTOMATION al) (\<lambda>readiness.
            Inr (dict_set ''filing_readiness'' (opt_str readiness)
                   (dict_set ''automation_level'' al d4))) = Inr r"
    by (auto simp: bindE_eq_Inr_iff)
  have al_eq: "al = posture_of b (automation_eligible d4)"
    using automation_level_Inr [OF al] by (simp add: posture_of_def)
  have r2: "r = dict_set ''filing_readiness'' (readiness_of al) (dict_set ''automation_level'' al d4)"
    using r1 unfolding al_eq readiness_table by (auto simp: readiness_of_def)
  have ts_r: "int_at r ''trust_score'' = ts"
    by (simp add: r2 d4_def d2_def int_at_def ts)
  have "demands_insufficient r = demands_insufficient d2" "demands_red r = demands_red d2"
    "demands_amber r = demands_amber d2"
    by (simp_all add: demands_insufficient_def demands_red_def demands_amber_def
        has_human_steps_def r2 d4_def)
  then have cap_r: "cap_of r = cap_of d2" by (simp add: cap_of_ladder)
  have eligible_r: "automation_eligible r = automation_eligible d4"
    by (simp add: automation_eligible_def trust_source_required_human_step_count_def r2
        cong: json.case_cong)
  have edge_r: "derive_trust_edge_trigger_codes r = derive_trust_edge_trigger_codes d"
    by (simp add: derive_trust_edge_trigger_codes_def r2 d4_def d2_def)
  show "get r ''score_band'' = JStr (band_name (score_band_of (int_at r ''trust_score'')))"
    by (simp add: ts_r) (simp add: r2 d4_def sb)
  show "get r ''cap_band'' = JStr (band_name (cap_of r))"
    by (simp add: cap_r) (simp add: r2 d4_def cap_eq)
  show "get r ''trust_band'' = JStr (band_name (final_band r))"
    by (simp add: final_band_def ts_r cap_r) (simp add: r2 d4_def b_def)
  show "get r ''automation_level'' = posture_of (final_band r) (automation_eligible r)"
    by (simp add: final_band_def ts_r cap_r eligible_r) (simp add: r2 al_eq b_def)
  show "get r ''filing_readiness'' = readiness_of (get r ''automation_level'')"
    by (simp add: r2)
  show "get r ''threshold_stability_state''
      = JStr (if derive_trust_edge_trigger_codes r \<noteq> [] then ''EDGE_REVIEW'' else ''STABLE'')"
    by (simp add: edge_r) (simp add: r2 d4_def d2_def)
  show "\<And>k. k \<notin> {''threshold_stability_state'', ''score_band'', ''cap_band'', ''trust_band'',
           ''automation_level'', ''filing_readiness''} \<Longrightarrow> get r k = get d k"
    by (simp add: r2 d4_def d2_def)
qed

text \<open>Frames of the single steps.\<close>

lemma apply_probe_frame:
  "apply_probe p c b = Some x \<Longrightarrow> k \<notin> {''trust_score'', ''risk_score'', ''authority_uncertainty_score'',
     ''late_data_invalidation_state'', ''trust_input_state'', ''override_dependency_state''} \<Longrightarrow>
   get x k = get b k"
  by (auto simp: apply_probe_def split: if_splits)

lemma apply_probe_known: "apply_probe p c b = Some x \<Longrightarrow> c \<in> set TRUST_SENSITIVITY_CASE_ORDER"
  by (auto simp: apply_probe_def TRUST_SENSITIVITY_CASE_ORDER_def split: if_splits)

lemma apply_probe_ints:
  "apply_probe p c b = Some x \<Longrightarrow> k \<in> {''trust_score'', ''risk_score'', ''authority_uncertainty_score''} \<Longrightarrow>
   is_int (get b k) \<Longrightarrow> is_int (get x k)"
  by (auto simp: apply_probe_def split: if_splits)

lemma recompute_frame:
  "projection_recompute p c x = Some y \<Longrightarrow> k \<notin> {''authority_penalty'', ''trust_score''} \<Longrightarrow>
   get y k = get x k"
  by (auto simp: projection_recompute_def Let_def split: if_splits)

lemma recompute_int:
  assumes "projection_recompute p c x = Some y" and "is_int (get x ''trust_score'')"
  shows "is_int (get y ''trust_score'')"
proof (cases "c \<in> {''TRUST_SCORE_MINUS_ONE'', ''TRUST_SCORE_PLUS_ONE''}")
  case True
  with assms show ?thesis by (simp add: projection_recompute_def)
next
  case False
  then obtain q pp g rr ov li b a where y:
      "get y ''trust_score'' = derive_projected_trust_score q pp g rr ov li b a"
      "get y ''trust_score'' \<noteq> JNull"
    using assms(1) by (auto simp: projection_recompute_def Let_def split: if_splits)
  with projected_score_cases [of q pp g rr ov li b a] show ?thesis by auto
qed

lemma margins_frame:
  "k \<notin> {''trust_green_margin'', ''trust_amber_margin'', ''risk_automation_margin'',
     ''completeness_margin'', ''graph_filing_margin_or_null'', ''authority_review_margin_or_null'',
     ''authority_block_margin_or_null''} \<Longrightarrow> get (projection_margins y) k = get y k"
  by (simp add: projection_margins_def Let_def)

lemma margins_values:
  "get (projection_margins y) ''trust_green_margin'' = JInt (int_at y ''trust_score'' - 85)"
  "get (projection_margins y) ''trust_amber_margin'' = JInt (int_at y ''trust_score'' - 65)"
  "get (projection_margins y) ''risk_automation_margin'' = JInt (40 - int_at y ''risk_score'')"
  by (simp_all add: projection_margins_def Let_def)

text \<open>The fields a projection copies from the summary, and those it does not carry at all.\<close>

definition projected_copies :: "string set" where
  "projected_copies = {''execution_mode'', ''live_authority_progression_requested'',
     ''baseline_submission_state'', ''upstream_gate_cap'', ''active_filing_critical_override_count'',
     ''critical_retention_limited_count'', ''completeness_score'', ''graph_quality_score''}"

lemma projection_steps:
  assumes "derive_trust_projection_payload p code = Inr (Some r)"
  obtains b x y where "projection_base p = Some b" and "apply_probe p code b = Some x"
    and "projection_recompute p code x = Some y"
    and "projection_bands (projection_margins y) = Inr r"
  using assms by (auto simp: derive_trust_projection_payload_def bindE_eq_Inr_iff split: option.splits)

lemma projection_base_gets:
  assumes "projection_base p = Some b"
  shows "k \<in> projected_copies \<union> {''trust_score'', ''risk_score'', ''authority_uncertainty_score'',
      ''trust_input_state''} \<Longrightarrow> get b k = get p k"
    and "get b ''required_human_step_count'' = trust_source_required_human_step_count p"
    and "k \<in> {''unresolved_blocking_risk_flag'', ''unresolved_material_blocking_risk_flag'',
      ''required_human_steps''} \<Longrightarrow> get b k = JNull"
    and "k \<in> {''trust_score'', ''risk_score'', ''authority_uncertainty_score'',
      ''completeness_score'', ''graph_quality_score''} \<Longrightarrow> is_int (get p k)"
  using assms by (auto simp: projection_base_def projected_copies_def split: if_splits)

lemma projection_frame:
  assumes r: "derive_trust_projection_payload p code = Inr (Some r)"
  shows "k \<in> projected_copies \<Longrightarrow> get r k = get p k"
    and "k \<in> {''unresolved_blocking_risk_flag'', ''unresolved_material_blocking_risk_flag'',
      ''required_human_steps''} \<Longrightarrow> get r k = JNull"
    and "get r ''required_human_step_count'' = trust_source_required_human_step_count p"
    and "code \<in> set TRUST_SENSITIVITY_CASE_ORDER"
proof -
  obtain b x y where s: "projection_base p = Some b" "apply_probe p code b = Some x"
    "projection_recompute p code x = Some y" "projection_bands (projection_margins y) = Inr r"
    using r by (rule projection_steps)
  have int_x: "is_int (get x ''trust_score'')"
    using apply_probe_ints [OF s(2), of "''trust_score''"] projection_base_gets [OF s(1)] by simp
  have int: "is_int (get (projection_margins y) ''trust_score'')"
    using recompute_int [OF s(3) int_x] by (simp add: margins_frame)
  note frame = projection_bands_result(7) [OF s(4) int] margins_frame recompute_frame [OF s(3)]
    apply_probe_frame [OF s(2)]
  show "k \<in> projected_copies \<Longrightarrow> get r k = get p k"
    using projection_base_gets(1) [OF s(1), of k]
    by (auto simp: projected_copies_def frame)
  show "k \<in> {''unresolved_blocking_risk_flag'', ''unresolved_material_blocking_risk_flag'',
      ''required_human_steps''} \<Longrightarrow> get r k = JNull"
    using projection_base_gets(3) [OF s(1), of k] by (auto simp: frame)
  show "get r ''required_human_step_count'' = trust_source_required_human_step_count p"
    using projection_base_gets(2) [OF s(1)] by (simp add: frame)
  show "code \<in> set TRUST_SENSITIVITY_CASE_ORDER" by (rule apply_probe_known [OF s(2)])
qed

lemma projection_posture:
  assumes r: "derive_trust_projection_payload p code = Inr (Some r)"
  shows "derived_fields_ok r"
    and "get r ''score_band'' = JStr (band_name (score_band_of (int_at r ''trust_score'')))"
    and "get r ''cap_band'' = JStr (band_name (cap_of r))"
    and "get r ''trust_band'' = JStr (band_name (final_band r))"
    and "get r ''automation_level'' = posture_of (final_band r) (automation_eligible r)"
    and "get r ''filing_readiness'' = readiness_of (get r ''automation_level'')"
proof -
  obtain b x y where s: "projection_base p = Some b" "apply_probe p code b = Some x"
    "projection_recompute p code x = Some y" "projection_bands (projection_margins y) = Inr r"
    using r by (rule projection_steps)
  have ints_x: "is_int (get x ''trust_score'')" "is_int (get x ''risk_score'')"
    "is_int (get x ''authority_uncertainty_score'')"
    using apply_probe_ints [OF s(2)] projection_base_gets [OF s(1)] by simp_all
  have int: "is_int (get (projection_margins y) ''trust_score'')"
    using recompute_int [OF s(3) ints_x(1)] by (simp add: margins_frame)
  note result = projection_bands_result [OF s(4) int]
  have ats: "int_at r k = int_at y k" if "k \<in> {''trust_score'', ''risk_score''}" for k
    using that by (auto simp: int_at_def result(7) margins_frame)
  show "derived_fields_ok r"
    unfolding derived_fields_ok_def result(6)
    using ints_x recompute_int [OF s(3) ints_x(1)]
    by (simp add: ats) (simp add: result(7) margins_values margins_frame recompute_frame [OF s(3)])
  show "get r ''score_band'' = JStr (band_name (score_band_of (int_at r ''trust_score'')))"
    by (rule result(1))
  show "get r ''cap_band'' = JStr (band_name (cap_of r))" by (rule result(2))
  show "get r ''trust_band'' = JStr (band_name (final_band r))" by (rule result(3))
  show "get r ''automation_level'' = posture_of (final_band r) (automation_eligible r)"
    by (rule result(4))
  show "get r ''filing_readiness'' = readiness_of (get r ''automation_level'')" by (rule result(5))
qed

section \<open>What each probe changes\<close>

definition projected_score :: "obj \<Rightarrow> obj \<Rightarrow> json" where
  "projected_score p r = derive_projected_trust_score
     (get p ''data_quality_score'') (get p ''parity_score'') (get p ''graph_quality_score'')
     (get r ''risk_score'') (get p ''active_filing_critical_override_count'')
     (get p ''critical_retention_limited_count'') (get p ''baseline_submission_state'')
     (get r ''authority_uncertainty_score'')"

lemma projection_effects:
  assumes r: "derive_trust_projection_payload p code = Inr (Some r)"
  shows "get r ''risk_score'' = (if code = ''RISK_SCORE_PLUS_ONE''
           then JInt (min 100 (int_at p ''risk_score'' + 1)) else get p ''risk_score'')"
    and "get r ''authority_uncertainty_score'' = (if code = ''AUTHORITY_UNCERTAINTY_PLUS_ONE''
           then JInt (min 100 (int_at p ''authority_uncertainty_score'' + 1))
           else get p ''authority_uncertainty_score'')"
    and "get r ''trust_input_state'' =
          (if code = ''FRESHNESS_INVALIDATED'' \<and> get p ''trust_input_state'' = JStr ''ADMISSIBLE_CURRENT''
           then JStr ''ADMISSIBLE_STALE''
           else if code = ''INVALID_OVERRIDE_RELIED_UPON'' then JStr ''CONTRADICTED''
           else get p ''trust_input_state'')"
    and "get r ''trust_score'' =
          (if code = ''TRUST_SCORE_MINUS_ONE'' then JInt (max 0 (int_at p ''trust_score'' - 1))
           else if code = ''TRUST_SCORE_PLUS_ONE'' then JInt (min 100 (int_at p ''trust_score'' + 1))
           else projected_score p r)"
    and "code = ''FRESHNESS_INVALIDATED'' \<Longrightarrow>
           get r ''late_data_invalidation_state'' = JStr ''INVALIDATING_FINDING_PRESENT''"
    and "code = ''INVALID_OVERRIDE_RELIED_UPON'' \<Longrightarrow>
           get r ''override_dependency_state'' = JStr ''INVALID_OVERRIDE_RELIED_UPON''"
    and "get r ''trust_input_basis_contract'' = JNull"
proof -
  obtain b x y where s: "projection_base p = Some b" "apply_probe p code b = Some x"
    "projection_recompute p code x = Some y" "projection_bands (projection_margins y) = Inr r"
    using r by (rule projection_steps)
  have int_x: "is_int (get x ''trust_score'')"
    using apply_probe_ints [OF s(2), of "''trust_score''"] projection_base_gets [OF s(1)] by simp
  have int: "is_int (get (projection_margins y) ''trust_score'')"
    using recompute_int [OF s(3) int_x] by (simp add: margins_frame)
  note ry = projection_bands_result(7) [OF s(4) int] margins_frame
  note rx = ry recompute_frame [OF s(3)]
  note base = projection_base_gets(1) [OF s(1)]
  show "get r ''risk_score'' = (if code = ''RISK_SCORE_PLUS_ONE''
           then JInt (min 100 (int_at p ''risk_score'' + 1)) else get p ''risk_score'')"
    using s(2) by (auto simp: rx apply_probe_def base split: if_splits)
  show "get r ''authority_uncertainty_score'' = (if code = ''AUTHORITY_UNCERTAINTY_PLUS_ONE''
           then JInt (min 100 (int_at p ''authority_uncertainty_score'' + 1))
           else get p ''authority_uncertainty_score'')"
    using s(2) by (auto simp: rx apply_probe_def base split: if_splits)
  show "get r ''trust_input_state'' =
          (if code = ''FRESHNESS_INVALIDATED'' \<and> get p ''trust_input_state'' = JStr ''ADMISSIBLE_CURRENT''
           then JStr ''ADMISSIBLE_STALE''
           else if code = ''INVALID_OVERRIDE_RELIED_UPON'' then JStr ''CONTRADICTED''
           else get p ''trust_input_state'')"
    using s(2) by (auto simp: rx apply_probe_def base split: if_splits)
  show "code = ''FRESHNESS_INVALIDATED'' \<Longrightarrow>
      get r ''late_data_invalidation_state'' = JStr ''INVALIDATING_FINDING_PRESENT''"
    using s(2) by (auto simp: rx apply_probe_def)
  show "code = ''INVALID_OVERRIDE_RELIED_UPON'' \<Longrightarrow>
      get r ''override_dependency_state'' = JStr ''INVALID_OVERRIDE_RELIED_UPON''"
    using s(2) by (auto simp: rx apply_probe_def)
  have "get b ''trust_input_basis_contract'' = JNull"
    using s(1) by (auto simp: projection_base_def split: if_splits)
  then show "get r ''trust_input_basis_contract'' = JNull"
    by (simp add: rx apply_probe_frame [OF s(2)])
  have px: "get x k = get p k" if "k \<in> projected_copies" for k
    using that base [of k] apply_probe_frame [OF s(2), of k] by (auto simp: projected_copies_def)
  have "get y ''trust_score'' = projected_score p r"
    if "code \<notin> {''TRUST_SCORE_MINUS_ONE'', ''TRUST_SCORE_PLUS_ONE''}"
    using s(3) that
    by (auto simp: projection_recompute_def Let_def projected_score_def rx px projected_copies_def
        split: if_splits)
  moreover have "get y ''trust_score'' = get x ''trust_score''"
    if "code \<in> {''TRUST_SCORE_MINUS_ONE'', ''TRUST_SCORE_PLUS_ONE''}"
    using s(3) that by (simp add: projection_recompute_def)
  ultimately show "get r ''trust_score'' =
          (if code = ''TRUST_SCORE_MINUS_ONE'' then JInt (max 0 (int_at p ''trust_score'' - 1))
           else if code = ''TRUST_SCORE_PLUS_ONE'' then JInt (min 100 (int_at p ''trust_score'' + 1))
           else projected_score p r)"
    using s(2) by (auto simp: ry apply_probe_def)
qed

lemma projected_score_le:
  assumes "int_at p ''risk_score'' \<le> int_at r ''risk_score''"
    and "int_at p ''authority_uncertainty_score'' \<le> int_at r ''authority_uncertainty_score''"
    and "is_int (get p ''risk_score'')" "is_int (get r ''risk_score'')"
    and "is_int (get p ''authority_uncertainty_score'')" "is_int (get r ''authority_uncertainty_score'')"
    and "is_int (get p ''trust_score'')" "is_int (get r ''trust_score'')"
    and "get r ''trust_score'' = projected_score p r" and "get p ''trust_score'' = projected_score p p"
  shows "int_at r ''trust_score'' \<le> int_at p ''trust_score''"
proof -
  obtain s s' where s: "projected_score p p = JInt s" "projected_score p r = JInt s'"
    using assms(7-10) projected_score_cases by (metis is_int_simps(3) projected_score_def)
  obtain i i' a a' where ints: "as_int (get p ''risk_score'') = Some i"
    "as_int (get r ''risk_score'') = Some i'"
    "as_int (get p ''authority_uncertainty_score'') = Some a"
    "as_int (get r ''authority_uncertainty_score'') = Some a'"
    using assms(3-6) unfolding is_int_def by blast
  have le: "i \<le> i'" "a \<le> a'" using assms(1,2) by (simp_all add: int_at_def ints)
  have as_ints: "derive_projected_trust_score q pp g r1 ov li b u = derive_projected_trust_score q pp g (JInt k) ov li b (JInt l)"
    if "as_int r1 = Some k" "as_int u = Some l" for q pp g r1 ov li b u k l
  proof -
    have same: "as_int r1 = as_int (JInt k)" "as_int u = as_int (JInt l)" using that by simp_all
    show ?thesis unfolding derive_projected_trust_score_def is_int_def same by (rule refl)
  qed
  have "s' \<le> s"
    by (rule projected_score_antimono [OF _ _ le])
       (rule s [unfolded projected_score_def as_ints [OF ints(1,3)] as_ints [OF ints(2,4)]])+
  then show ?thesis using assms(9,10) s by (simp add: int_at_def)
qed

section \<open>When a projection exists\<close>

lemma projection_bands_total:
  assumes "is_int (get d ''trust_score'')" and "hashable (get d ''trust_input_state'')"
    and "hashable (get d ''baseline_submission_state'')" and "hashable (get d ''upstream_gate_cap'')"
  shows "\<exists>r. projection_bands d = Inr r"
proof -
  obtain ts where ts: "as_int (get d ''trust_score'') = Some ts"
    using assms by (auto simp: is_int_def)
  define d2 where "d2 = dict_set ''score_band'' (JStr (band_name (score_band_of ts)))
    (dict_set ''threshold_stability_state''
       (JStr (if derive_trust_edge_trigger_codes d \<noteq> [] then ''EDGE_REVIEW'' else ''STABLE'')) d)"
  define d4 where "d4 = dict_set ''trust_band'' (JStr (band_name (max (score_band_of ts) (cap_of d2))))
    (dict_set ''cap_band'' (JStr (band_name (cap_of d2))) d2)"
  have cap: "derive_trust_cap_band d2 = Inr (JStr (band_name (cap_of d2)))"
    by (rule cap_band_refines) (simp add: cap_hashable_def d2_def assms)
  have auto_h: "automation_hashable d4"
    by (simp add: automation_hashable_def d4_def d2_def assms)
  have sb: "get d2 ''score_band'' = JStr (band_name (score_band_of ts))" by (simp add: d2_def)
  have tb: "get d4 ''trust_band'' = JStr (band_name (max (score_band_of ts) (cap_of d2)))"
    by (simp add: d4_def)
  have "projection_bands d = bindE (derive_trust_automation_level d4 (get d4 ''trust_band''))
      (\<lambda>automation_level. bindE (table_get TRUST_FILING_READINESS_BY_AUTOMATION automation_level)
        (\<lambda>readiness. Inr (dict_set ''filing_readiness'' (opt_str readiness)
           (dict_set ''automation_level'' automation_level d4))))"
    by (simp add: projection_bands_def Let_def score_band_refines [OF ts] d2_def [symmetric] cap sb
        most_restrictive_bands d4_def)
  then show ?thesis
    by (simp add: tb automation_level_cases [OF auto_h] posture_of_def [symmetric] readiness_table)
qed

lemma projected_score_ints:
  assumes "is_int q" "is_int p" "is_int g" "is_int r" "is_int ov" "is_int li" "is_int a"
  shows "derive_projected_trust_score q p g r ov li b a \<noteq> JNull"
proof -
  obtain i1 i2 i3 i4 i5 i6 where "as_int q = Some i1" "as_int p = Some i2" "as_int g = Some i3"
    "as_int r = Some i4" "as_int ov = Some i5" "as_int li = Some i6"
    using assms unfolding is_int_def by blast
  with assms(7) show ?thesis by (simp add: derive_projected_trust_score_def Let_def)
qed

definition projectable :: "obj \<Rightarrow> bool" where
  "projectable p \<longleftrightarrow>
     (\<forall>k \<in> {''trust_score'', ''risk_score'', ''completeness_score'', ''graph_quality_score'',
        ''authority_uncertainty_score'', ''authority_penalty'', ''data_quality_score'',
        ''parity_score'', ''active_filing_critical_override_count'',
        ''critical_retention_limited_count''}. is_int (get p k)) \<and>
     (\<forall>k \<in> {''trust_input_state'', ''baseline_submission_state'', ''upstream_gate_cap''}.
        hashable (get p k))"

lemma projection_exists:
  assumes p: "projectable p" and code: "code \<in> set TRUST_SENSITIVITY_CASE_ORDER"
  shows "\<exists>r. derive_trust_projection_payload p code = Inr (Some r)"
proof -
  have "projection_base p \<noteq> None"
    using p by (simp add: projectable_def projection_base_def)
  then obtain b where b: "projection_base p = Some b" by blast
  obtain x where x: "apply_probe p code b = Some x"
    using code by (auto simp: TRUST_SENSITIVITY_CASE_ORDER_def apply_probe_def)
  note frame = apply_probe_frame [OF x] projection_base_gets(1) [OF b]
  have ints: "is_int (get x ''trust_score'')" "is_int (get x ''risk_score'')"
    "is_int (get x ''authority_uncertainty_score'')"
    using apply_probe_ints [OF x] projection_base_gets [OF b] by simp_all
  have more: "is_int (get x ''graph_quality_score'')"
    "is_int (get x ''active_filing_critical_override_count'')"
    "is_int (get x ''critical_retention_limited_count'')"
    "is_int (get p ''data_quality_score'')" "is_int (get p ''parity_score'')"
    using p by (simp_all add: frame projected_copies_def projectable_def)
  have "derive_projected_trust_score (get p ''data_quality_score'') (get p ''parity_score'')
      (get x ''graph_quality_score'') (get x ''risk_score'')
      (get x ''active_filing_critical_override_count'') (get x ''critical_retention_limited_count'')
      (get x ''baseline_submission_state'') (get x ''authority_uncertainty_score'') \<noteq> JNull"
    using ints more by (intro projected_score_ints)
  then have "projection_recompute p code x \<noteq> None"
    by (simp add: projection_recompute_def Let_def)
  then obtain y where y: "projection_recompute p code x = Some y" by blast
  have "hashable (get x ''trust_input_state'')"
    using x p projection_base_gets(1) [OF b, of "''trust_input_state''"]
    by (auto simp: apply_probe_def projectable_def split: if_splits)
  then have "\<exists>r. projection_bands (projection_margins y) = Inr r"
    using recompute_int [OF y ints(1)] p
    by (intro projection_bands_total)
       (simp_all add: margins_frame recompute_frame [OF y] frame projected_copies_def projectable_def)
  then show ?thesis by (auto simp: derive_trust_projection_payload_def b x y)
qed

end
