(* ===== verification/Trust_Sensitivity.thy ===== *)
theory Trust_Sensitivity
  imports Trust_Projection
begin

text \<open>
  What the trust sensitivity analyser guarantees: the combined band, the posture of a projection, and
  the monotonicity of the probes. The dictionary \<open>clean_summary\<close> is a summary at the best posture,
  used to instantiate the theorems.
\<close>

definition clean_summary :: obj where
  "clean_summary =
    [(''trust_score'', JInt 100), (''risk_score'', JInt 0), (''completeness_score'', JInt 100),
     (''graph_quality_score'', JInt 100), (''data_quality_score'', JInt 100),
     (''parity_score'', JInt 100), (''authority_uncertainty_score'', JInt 0),
     (''authority_penalty'', JInt 0), (''execution_mode'', JStr ''COMPLIANCE''),
     (''live_authority_progression_requested'', JBool True),
     (''baseline_submission_state'', JStr ''NOT_APPLICABLE''),
     (''upstream_gate_cap'', JStr ''AUTO_ELIGIBLE''),
     (''trust_input_state'', JStr ''ADMISSIBLE_CURRENT''),
     (''active_filing_critical_override_count'', JInt 0),
     (''critical_retention_limited_count'', JInt 0), (''required_human_step_count'', JInt 0),
     (''trust_green_margin'', JInt 15), (''trust_amber_margin'', JInt 35),
     (''risk_automation_margin'', JInt 40), (''threshold_stability_state'', JStr ''STABLE'')]"

lemma clean_edges: "derive_trust_edge_trigger_codes clean_summary = []"
  by (simp add: no_edge_trigger_iff clean_summary_def)

lemma clean_projectable: "projectable clean_summary"
  by (simp add: projectable_def clean_summary_def)

lemma case_codes:
  "''TRUST_SCORE_MINUS_ONE'' \<in> set TRUST_SENSITIVITY_CASE_ORDER"
  "''TRUST_SCORE_PLUS_ONE'' \<in> set TRUST_SENSITIVITY_CASE_ORDER"
  "''RISK_SCORE_PLUS_ONE'' \<in> set TRUST_SENSITIVITY_CASE_ORDER"
  "''AUTHORITY_UNCERTAINTY_PLUS_ONE'' \<in> set TRUST_SENSITIVITY_CASE_ORDER"
  "''FRESHNESS_INVALIDATED'' \<in> set TRUST_SENSITIVITY_CASE_ORDER"
  "''INVALID_OVERRIDE_RELIED_UPON'' \<in> set TRUST_SENSITIVITY_CASE_ORDER"
  by (simp_all add: TRUST_SENSITIVITY_CASE_ORDER_def)

lemma clean_derived_fields: "derived_fields_ok clean_summary"
  unfolding derived_fields_ok_def by (simp add: clean_edges) (simp add: clean_summary_def int_at_def)

lemma clean_gets [simp]:
  "get clean_summary ''trust_score'' = JInt 100" "get clean_summary ''risk_score'' = JInt 0"
  "get clean_summary ''completeness_score'' = JInt 100"
  "get clean_summary ''graph_quality_score'' = JInt 100"
  "get clean_summary ''data_quality_score'' = JInt 100" "get clean_summary ''parity_score'' = JInt 100"
  "get clean_summary ''authority_uncertainty_score'' = JInt 0"
  "get clean_summary ''execution_mode'' = JStr ''COMPLIANCE''"
  "get clean_summary ''live_authority_progression_requested'' = JBool True"
  "get clean_summary ''baseline_submission_state'' = JStr ''NOT_APPLICABLE''"
  "get clean_summary ''upstream_gate_cap'' = JStr ''AUTO_ELIGIBLE''"
  "get clean_summary ''trust_input_state'' = JStr ''ADMISSIBLE_CURRENT''"
  "get clean_summary ''active_filing_critical_override_count'' = JInt 0"
  "get clean_summary ''critical_retention_limited_count'' = JInt 0"
  "get clean_summary ''required_human_step_count'' = JInt 0"
  "get clean_summary ''risk_automation_margin'' = JInt 40"
  "get clean_summary ''threshold_stability_state'' = JStr ''STABLE''"
  "get clean_summary ''required_human_steps'' = JNull"
  "get clean_summary ''unresolved_blocking_risk_flag'' = JNull"
  "get clean_summary ''unresolved_material_blocking_risk_flag'' = JNull"
  by (simp_all add: clean_summary_def)

text \<open>A projection at top scores in the other respects of the clean summary is automatically
  fileable.\<close>

lemma allowed_projection:
  assumes r: "derive_trust_projection_payload p code = Inr (Some r)"
    and same: "\<And>k. k \<in> projected_copies \<Longrightarrow> get p k = get clean_summary k"
    and steps: "trust_source_required_human_step_count p = JInt 0"
    and score: "int_at r ''trust_score'' \<ge> 87" and risk: "int_at r ''risk_score'' \<le> 38"
    and unc: "int_at r ''authority_uncertainty_score'' < 20"
    and current: "get r ''trust_input_state'' = JStr ''ADMISSIBLE_CURRENT''"
  shows "final_band r = Green \<and> get r ''automation_level'' = JStr ''ALLOWED''"
proof -
  note posture = projection_posture [OF r]
  have copies: "get r k = get clean_summary k" if "k \<in> projected_copies" for k
    using that by (simp add: projection_frame(1) [OF r] same)
  note gets = copies [unfolded projected_copies_def, simplified]
  have none: "get r ''unresolved_blocking_risk_flag'' = JNull"
    "get r ''unresolved_material_blocking_risk_flag'' = JNull" "get r ''required_human_steps'' = JNull"
    by (simp_all add: projection_frame(2) [OF r])
  have margins: "get r ''trust_green_margin'' = JInt (int_at r ''trust_score'' - 85)"
    "get r ''trust_amber_margin'' = JInt (int_at r ''trust_score'' - 65)"
    "get r ''risk_automation_margin'' = JInt (40 - int_at r ''risk_score'')"
    and ints: "is_int (get r ''authority_uncertainty_score'')"
    using posture(1) by (simp_all add: derived_fields_ok_def)
  have "derive_trust_edge_trigger_codes r = []"
    unfolding no_edge_trigger_iff using score risk unc
    by (simp add: margins gets int_and_int_at ints)
  then have stable: "get r ''threshold_stability_state'' = JStr ''STABLE''"
    using posture(1) by (simp add: derived_fields_ok_def)
  have "\<not> demands_insufficient r" by (simp add: demands_insufficient_def gets current)
  moreover have "\<not> demands_red r"
    using unc by (simp add: demands_red_def gets none int_and_int_at ints)
  moreover have "\<not> demands_amber r"
    using risk unc
    by (simp add: demands_amber_def has_human_steps_def gets none margins stable current int_and_int_at ints)
  ultimately have green: "final_band r = Green"
    using score by (simp add: final_band_def cap_of_ladder score_band_of_def)
  moreover have "get r ''required_human_step_count'' = JInt 0"
    by (simp only: projection_frame(3) [OF r] steps)
  then have "trust_source_required_human_step_count r = JInt 0"
    by (simp add: trust_source_required_human_step_count_def none)
  then have "automation_eligible r"
    using risk unc
    by (simp add: automation_eligible_def gets margins stable current int_and_int_at ints)
  ultimately show ?thesis using posture(5) by (simp add: posture_of_def)
qed

section \<open>Combining bands\<close>

text \<open>C17: for a summary with an integer score whose hashed fields are hashable, the reported band is
  the strictest of the score band and of everything the other inputs demand (insufficient data, red,
  amber), whatever the order in which the code tests them; the code's chain of early returns and the
  severity table compute exactly that maximum.\<close>

theorem combined_band_is_strictest_demand:
  assumes "cap_hashable p"
  shows "bindE (derive_trust_cap_band p)
           (most_restrictive_trust_band (derive_trust_score_band (JInt s)))
         = Inr (JStr (band_name (Max (insert (score_band_of s) (cap_demands p)))))"
proof -
  have fin: "finite (cap_demands p)" by (simp add: cap_demands_def)
  have "max (score_band_of s) (cap_of p) = Max (insert (score_band_of s) (insert Green (cap_demands p)))"
    using fin by (simp add: cap_of_def)
  also have "\<dots> = Max (insert (score_band_of s) (cap_demands p))"
    using fin by (cases "cap_demands p = {}") (auto simp: max.absorb2 insert_commute max_def)
  finally show ?thesis
    by (simp add: cap_band_refines [OF assms] score_band_refines most_restrictive_bands)
qed

theorem combined_band_is_strictest_demand_witness:
  "bindE (derive_trust_cap_band (dict_set ''execution_mode'' (JStr ''ANALYSIS'') clean_summary))
     (most_restrictive_trust_band (derive_trust_score_band (JInt 64))) = Inr (JStr ''RED'')"
proof -
  let ?p = "dict_set ''execution_mode'' (JStr ''ANALYSIS'') clean_summary"
  have "cap_demands ?p = {Amber}"
    by (simp add: cap_demands_def demands_insufficient_def demands_red_def demands_amber_def)
  moreover have "cap_hashable ?p" by (simp add: cap_hashable_def)
  ultimately show ?thesis
    using combined_band_is_strictest_demand [of ?p 64] by (simp add: score_band_of_def max_def)
qed

text \<open>Combining any sequence of known trust bands with the code's most-restrictive operation
  depends only on which bands occur, not on their order or multiplicity.\<close>

theorem trust_bands_combine_in_any_order:
  assumes "set (a # xs) = set (b # ys)" and "\<forall>x \<in> set (a # xs). x \<in> fst ` set TRUST_BAND_SEVERITY"
  shows "foldl stricter_trust_band a xs = foldl stricter_trust_band b ys"
proof (rule trust_order.foldl_stricter_order_irrelevant)
  have known: "map_of TRUST_BAND_SEVERITY x \<noteq> None" if "x \<in> set (a # xs)" for x
    using assms(2) that by (auto simp: map_of_eq_None_iff)
  show "map_of TRUST_BAND_SEVERITY a \<noteq> None" by (rule known) simp
  show "map_of TRUST_BAND_SEVERITY b \<noteq> None" by (rule known) (simp only: assms(1), simp)
  show "\<forall>x \<in> set xs \<union> set ys. map_of TRUST_BAND_SEVERITY x \<noteq> None"
    using known assms(1) by auto
  show "insert a (set xs) = insert b (set ys)" using assms(1) by simp
qed

theorem trust_bands_combine_in_any_order_witness:
  "foldl stricter_trust_band ''GREEN'' [''RED'', ''AMBER''] = ''RED''
   \<and> foldl stricter_trust_band ''AMBER'' [''GREEN'', ''RED'', ''GREEN''] = ''RED''"
proof -
  have "foldl stricter_trust_band ''GREEN'' [''RED'', ''AMBER''] = ''RED''"
    by (simp add: stricter_trust_band_def most_restrictive_trust_band_def TRUST_BAND_SEVERITY_def)
  moreover have "foldl stricter_trust_band ''GREEN'' [''RED'', ''AMBER'']
      = foldl stricter_trust_band ''AMBER'' [''GREEN'', ''RED'', ''GREEN'']"
  proof (rule trust_bands_combine_in_any_order)
    show "set [''GREEN'', ''RED'', ''AMBER''] = set [''AMBER'', ''GREEN'', ''RED'', ''GREEN'']"
      unfolding set_simps by blast
  qed (simp add: TRUST_BAND_SEVERITY_def)
  ultimately show ?thesis by simp
qed

section \<open>The posture of a projection\<close>

text \<open>C33: a projection is reported as automatically fileable only when every input is clear of its
  threshold and of its guard band: score at least 87, risk at most 38, completeness at least 63, no
  override, retention limit or human step, a current input state, a compliance run behind an open
  gate and, for live authority progression, graph quality at least 53, uncertainty below 20 and a
  reconciled baseline.\<close>

theorem automation_allowed_only_when_clear:
  assumes r: "derive_trust_projection_payload p code = Inr (Some r)"
    and allowed: "get r ''automation_level'' = JStr ''ALLOWED''"
  shows "int_at r ''trust_score'' \<ge> 87 \<and> int_at r ''risk_score'' \<le> 38 \<and>
    int_at p ''completeness_score'' \<ge> 63 \<and>
    get r ''trust_input_state'' = JStr ''ADMISSIBLE_CURRENT'' \<and>
    get p ''execution_mode'' = JStr ''COMPLIANCE'' \<and>
    get p ''upstream_gate_cap'' \<in> {JStr ''AUTO_ELIGIBLE'', JStr ''NOTICE_ONLY''} \<and>
    int_at p ''active_filing_critical_override_count'' = 0 \<and>
    int_at p ''critical_retention_limited_count'' = 0 \<and>
    int_and (trust_source_required_human_step_count p) (\<lambda>n. n = 0) \<and>
    (live_requested p \<longrightarrow> int_at p ''graph_quality_score'' \<ge> 53 \<and>
       int_at r ''authority_uncertainty_score'' < 20 \<and>
       get p ''baseline_submission_state'' \<notin> {JStr ''UNKNOWN'', JStr ''OUT_OF_BAND_UNRECONCILED''})"
proof -
  note posture = projection_posture [OF r]
  have green: "final_band r = Green" and eligible: "automation_eligible r"
    using allowed posture(5) by (auto simp: posture_of_def split: if_splits)
  have score: "int_at r ''trust_score'' \<ge> 85" and cap: "cap_of r = Green"
    using green by (auto simp: final_band_def max_def score_band_of_def split: if_splits)
  have no_insufficient: "\<not> demands_insufficient r"
    using cap by (auto simp: cap_of_ladder split: if_splits)
  have "get r ''threshold_stability_state'' = JStr ''STABLE''"
    using eligible by (simp add: automation_eligible_def)
  then have "derive_trust_edge_trigger_codes r = []"
    using posture(1) by (auto simp: derived_fields_ok_def split: if_splits)
  note clear = this [unfolded no_edge_trigger_iff]
  have ints: "is_int (get p ''completeness_score'')" "is_int (get p ''graph_quality_score'')"
    "is_int (get r ''authority_uncertainty_score'')"
    using r posture(1) by (auto elim!: projection_steps simp: projection_base_gets(4) derived_fields_ok_def)
  note copies = projection_frame(1) [OF r, unfolded projected_copies_def, simplified]
  have margins: "get r ''trust_green_margin'' = JInt (int_at r ''trust_score'' - 85)"
    "get r ''risk_automation_margin'' = JInt (40 - int_at r ''risk_score'')"
    using posture(1) by (simp_all add: derived_fields_ok_def)
  have risk: "int_and (get r ''risk_automation_margin'') (\<lambda>m. m \<ge> 2)"
    and counts: "int_and (get r ''active_filing_critical_override_count'') (\<lambda>n. n = 0)"
      "int_and (get r ''critical_retention_limited_count'') (\<lambda>n. n = 0)"
      "int_and (trust_source_required_human_step_count r) (\<lambda>n. n = 0)"
    and live: "live_requested r \<Longrightarrow>
        \<not> int_and (get r ''authority_uncertainty_score'') (\<lambda>a. a \<ge> 20) \<and>
        get r ''baseline_submission_state'' \<notin> {JStr ''UNKNOWN'', JStr ''OUT_OF_BAND_UNRECONCILED''}"
    using eligible unfolding automation_eligible_def by blast+
  have steps: "trust_source_required_human_step_count r = (let count = get r ''required_human_step_count''
      in if int_and count (\<lambda>n. n \<ge> 0) then count else JNull)"
    using projection_frame(2) [OF r, of "''required_human_steps''"]
    by (simp add: trust_source_required_human_step_count_def)
  show ?thesis
  proof (intro conjI impI)
    show "87 \<le> int_at r ''trust_score''" using clear(1) score by (simp add: margins)
    show "int_at r ''risk_score'' \<le> 38" using risk by (simp add: margins)
    show "63 \<le> int_at p ''completeness_score''"
      using clear no_insufficient ints(1)
      by (simp add: demands_insufficient_def copies int_and_int_at)
    show "get r ''trust_input_state'' = JStr ''ADMISSIBLE_CURRENT''"
      using eligible by (simp add: automation_eligible_def)
    show "get p ''execution_mode'' = JStr ''COMPLIANCE''"
      "get p ''upstream_gate_cap'' \<in> {JStr ''AUTO_ELIGIBLE'', JStr ''NOTICE_ONLY''}"
      using eligible copies unfolding automation_eligible_def by metis+
    show "int_at p ''active_filing_critical_override_count'' = 0"
      "int_at p ''critical_retention_limited_count'' = 0"
      using counts(1,2) by (auto simp: copies int_and_iff int_at_def)
    show "int_and (trust_source_required_human_step_count p) (\<lambda>n. n = 0)"
      using counts(3) by (auto simp: steps projection_frame(3) [OF r] Let_def split: if_splits)
  next
    assume "live_requested p"
    then have lr: "live_requested r" by (simp add: copies)
    show "53 \<le> int_at p ''graph_quality_score''"
      using clear no_insufficient ints(2) lr
      by (simp add: demands_insufficient_def copies int_and_int_at)
    show "int_at r ''authority_uncertainty_score'' < 20"
      using live [OF lr] ints(3) by (simp add: int_and_int_at)
    show "get p ''baseline_submission_state'' \<notin> {JStr ''UNKNOWN'', JStr ''OUT_OF_BAND_UNRECONCILED''}"
      using live [OF lr] by (simp add: copies)
  qed
qed

theorem automation_allowed_only_when_clear_witness:
  "\<exists>r. derive_trust_projection_payload clean_summary ''TRUST_SCORE_MINUS_ONE'' = Inr (Some r)
     \<and> get r ''automation_level'' = JStr ''ALLOWED'' \<and> int_at r ''trust_score'' \<ge> 87"
proof -
  obtain r where r: "derive_trust_projection_payload clean_summary ''TRUST_SCORE_MINUS_ONE'' = Inr (Some r)"
    using projection_exists [OF clean_projectable case_codes(1)] by blast
  note effects = projection_effects [OF r, simplified]
  have allowed: "get r ''automation_level'' = JStr ''ALLOWED''"
    using allowed_projection [OF r]
    by (simp add: effects int_at_def trust_source_required_human_step_count_def)
  then show ?thesis using r automation_allowed_only_when_clear [OF r allowed] by blast
qed

text \<open>The probe that relies on an invalid override always ends at insufficient data: the
  projected band is \<open>INSUFFICIENT_DATA\<close>, automation is blocked and the filing is not ready, whatever
  the scores.\<close>

theorem invalid_override_blocks:
  assumes r: "derive_trust_projection_payload p ''INVALID_OVERRIDE_RELIED_UPON'' = Inr (Some r)"
  shows "get r ''trust_band'' = JStr ''INSUFFICIENT_DATA'' \<and>
    get r ''automation_level'' = JStr ''BLOCKED'' \<and> get r ''filing_readiness'' = JStr ''NOT_READY''"
proof -
  note posture = projection_posture [OF r]
  have "demands_insufficient r"
    using projection_effects(3) [OF r] by (simp add: demands_insufficient_def)
  then have "final_band r = Insufficient"
    by (simp add: final_band_def cap_of_ladder max_absorb2)
  then show ?thesis using posture(4-6) by (simp add: posture_of_def readiness_of_def)
qed

theorem invalid_override_blocks_witness:
  "\<exists>r. derive_trust_projection_payload clean_summary ''INVALID_OVERRIDE_RELIED_UPON'' = Inr (Some r)
     \<and> get r ''automation_level'' = JStr ''BLOCKED''"
proof -
  obtain r where r: "derive_trust_projection_payload clean_summary ''INVALID_OVERRIDE_RELIED_UPON''
      = Inr (Some r)"
    using projection_exists [OF clean_projectable case_codes(6)] by blast
  then show ?thesis using invalid_override_blocks [OF r] by blast
qed

text \<open>The freshness probe never leaves a filing automatically allowed, and its reason codes name
  the invalidation: both the recalculation requirement and the stale input.\<close>

theorem freshness_invalidation_stops_automation:
  assumes r: "derive_trust_projection_payload p ''FRESHNESS_INVALIDATED'' = Inr (Some r)"
    and codes: "derive_trust_compact_reason_codes r = Inr cs"
  shows "get r ''automation_level'' \<noteq> JStr ''ALLOWED'' \<and>
    {''TRUST_RECALCULATION_REQUIRED'', ''TRUST_INPUT_STALE''} \<subseteq> set cs"
proof
  have "\<not> automation_eligible r"
    using projection_effects(3) [OF r] by (auto simp: automation_eligible_def)
  then show "get r ''automation_level'' \<noteq> JStr ''ALLOWED''"
    using projection_posture(5) [OF r] by (auto simp: posture_of_def)
  have "get r ''late_data_invalidation_state'' = JStr ''INVALIDATING_FINDING_PRESENT''"
    using projection_effects(5) [OF r] by simp
  then have "trust_source_basis_state r ''late_data_invalidation_state''
      = JStr ''INVALIDATING_FINDING_PRESENT''"
    by (simp add: trust_source_basis_state_def nested_or_own_def projection_effects(7) [OF r])
  then show "{''TRUST_RECALCULATION_REQUIRED'', ''TRUST_INPUT_STALE''} \<subseteq> set cs"
    using codes
    by (auto simp only: derive_trust_compact_reason_codes_def bindE_eq_Inr_iff Let_def sum.inject
        set_sort set_remdups set_append if_True list.set simp_thms)
qed

theorem freshness_invalidation_stops_automation_witness:
  "\<exists>r cs. derive_trust_projection_payload clean_summary ''FRESHNESS_INVALIDATED'' = Inr (Some r)
     \<and> derive_trust_compact_reason_codes r = Inr cs \<and> ''TRUST_RECALCULATION_REQUIRED'' \<in> set cs"
proof -
  obtain r where r: "derive_trust_projection_payload clean_summary ''FRESHNESS_INVALIDATED''
      = Inr (Some r)"
    using projection_exists [OF clean_projectable case_codes(5)] by blast
  have "get r k = get clean_summary k" if "k \<in> projected_copies" for k
    by (rule projection_frame(1) [OF r that])
  then have gets: "get r ''upstream_gate_cap'' = JStr ''AUTO_ELIGIBLE''"
    "get r ''baseline_submission_state'' = JStr ''NOT_APPLICABLE''"
    by (simp_all add: projected_copies_def)
  have "\<exists>cs. derive_trust_compact_reason_codes r = Inr cs"
    by (simp add: derive_trust_compact_reason_codes_def Let_def gets projection_posture(4) [OF r] andE_def)
  then obtain cs where cs: "derive_trust_compact_reason_codes r = Inr cs" by blast
  then show ?thesis using r freshness_invalidation_stops_automation [OF r cs] by blast
qed

section \<open>Monotone probes\<close>

text \<open>A summary whose trust score is the one the engine computes from its components.\<close>

definition score_recomputed :: "obj \<Rightarrow> bool" where
  "score_recomputed p \<longleftrightarrow> get p ''trust_score'' = projected_score p p"

definition scores_in_range :: "obj \<Rightarrow> bool" where
  "scores_in_range p \<longleftrightarrow> (\<forall>k \<in> {''trust_score'', ''risk_score'', ''authority_uncertainty_score''}.
     0 \<le> int_at p k \<and> int_at p k \<le> 100)"

text \<open>Raising the trust score by one point never makes the projected band stricter than the band
  of the summary it was taken from (the one probe declared \<open>NON_DEGRADING\<close>), for every summary whose
  margins and stability state agree with its scores.\<close>

theorem plus_one_never_degrades:
  assumes r: "derive_trust_projection_payload p ''TRUST_SCORE_PLUS_ONE'' = Inr (Some r)"
    and p: "derived_fields_ok p" and range: "int_at p ''trust_score'' \<le> 100"
  shows "get r ''trust_band'' = JStr (band_name (final_band r)) \<and> final_band r \<le> final_band p"
proof
  show "get r ''trust_band'' = JStr (band_name (final_band r))" by (rule projection_posture(4) [OF r])
  note effects = projection_effects [OF r, simplified]
  note copies = projection_frame(1) [OF r, unfolded projected_copies_def, simplified]
  have "no_safer r p"
    unfolding no_safer_def using range
    by (simp add: copies effects projection_frame(2) [OF r] has_human_steps_def int_at_def)
  then show "final_band r \<le> final_band p"
    by (rule final_band_mono) (rule projection_posture(1) [OF r] p)+
qed

theorem plus_one_never_degrades_witness:
  "\<exists>r. derive_trust_projection_payload clean_summary ''TRUST_SCORE_PLUS_ONE'' = Inr (Some r)
     \<and> final_band r \<le> final_band clean_summary"
proof -
  obtain r where r: "derive_trust_projection_payload clean_summary ''TRUST_SCORE_PLUS_ONE'' = Inr (Some r)"
    using projection_exists [OF clean_projectable case_codes(2)] by blast
  then show ?thesis
    using plus_one_never_degrades [OF r clean_derived_fields] by (simp add: int_at_def)
qed

text \<open>Every probe declared \<open>NON_IMPROVING\<close> yields a score that is no higher and a band that is no
  less strict than the summary's own, for a summary whose trust score is the computed one, whose
  derived fields agree with its scores, and which carries no open blocking-risk flag and no list of
  required human steps (the fields a projection leaves out).\<close>

theorem probes_never_improve:
  assumes r: "derive_trust_projection_payload p code = Inr (Some r)"
    and code: "code \<notin> set TRUST_SENSITIVITY_NON_DEGRADING_CASES"
    and p: "derived_fields_ok p" "score_recomputed p" "scores_in_range p"
    and no_flags: "get p ''unresolved_blocking_risk_flag'' \<noteq> JBool True"
      "get p ''unresolved_material_blocking_risk_flag'' \<noteq> JBool True" "\<not> has_human_steps p"
  shows "int_at r ''trust_score'' \<le> int_at p ''trust_score'' \<and> final_band p \<le> final_band r"
proof -
  note copies = projection_frame(1) [OF r, unfolded projected_copies_def, simplified]
  note effects = projection_effects [OF r]
  have ints: "is_int (get p ''trust_score'')" "is_int (get p ''risk_score'')"
    "is_int (get p ''authority_uncertainty_score'')" "is_int (get r ''trust_score'')"
    "is_int (get r ''risk_score'')" "is_int (get r ''authority_uncertainty_score'')"
    using p(1) projection_posture(1) [OF r] by (simp_all add: derived_fields_ok_def)
  have risk: "int_at p ''risk_score'' \<le> int_at r ''risk_score''"
    using p(3) by (auto simp: int_at_def effects(1) scores_in_range_def)
  have unc: "int_at p ''authority_uncertainty_score'' \<le> int_at r ''authority_uncertainty_score''"
    using p(3) by (auto simp: int_at_def effects(2) scores_in_range_def)
  have score: "int_at r ''trust_score'' \<le> int_at p ''trust_score''"
  proof (cases "code = ''TRUST_SCORE_MINUS_ONE''")
    case True
    then show ?thesis using p(3) by (simp add: int_at_def [of r] effects(4) scores_in_range_def)
  next
    case False
    then have "get r ''trust_score'' = projected_score p r"
      using code effects(4) by (simp add: TRUST_SENSITIVITY_NON_DEGRADING_CASES_def)
    moreover have "get p ''trust_score'' = projected_score p p"
      using p(2) by (simp add: score_recomputed_def)
    ultimately show ?thesis
      using projected_score_le [OF risk unc ints(2,5,3,6) ints(1,4)] by simp
  qed
  have "no_safer p r"
    unfolding no_safer_def using score risk unc no_flags by (simp add: copies effects(3))
  then show ?thesis using score final_band_mono [OF _ p(1) projection_posture(1) [OF r]] by blast
qed

lemma clean_recomputed: "score_recomputed clean_summary"
  by (simp add: score_recomputed_def projected_score_def derive_projected_trust_score_def
      trust_core_score_def authority_penalty_of_def Let_def round_score_def)

theorem probes_never_improve_witness:
  "\<exists>r. derive_trust_projection_payload clean_summary ''FRESHNESS_INVALIDATED'' = Inr (Some r)
     \<and> int_at r ''trust_score'' \<le> 100 \<and> final_band clean_summary \<le> final_band r"
proof -
  obtain r where r: "derive_trust_projection_payload clean_summary ''FRESHNESS_INVALIDATED'' = Inr (Some r)"
    using projection_exists [OF clean_projectable case_codes(5)] by blast
  have "int_at r ''trust_score'' \<le> int_at clean_summary ''trust_score''
      \<and> final_band clean_summary \<le> final_band r"
    by (rule probes_never_improve [OF r _ clean_derived_fields clean_recomputed])
       (simp_all add: TRUST_SENSITIVITY_NON_DEGRADING_CASES_def scores_in_range_def int_at_def
          has_human_steps_def)
  with r show ?thesis by (simp add: int_at_def)
qed

text \<open>C38: a blocked summary can be improved by a probe. A summary with an unresolved blocking
  risk is red and blocked, yet taking a point off its trust score projects a green, automatically
  fileable posture, because the projection drops the flag.\<close>

theorem blocking_flag_lost_by_projection:
  "\<exists>p r. get p ''unresolved_blocking_risk_flag'' = JBool True
     \<and> derived_fields_ok p \<and> score_recomputed p \<and> scores_in_range p
     \<and> derive_trust_cap_band p = Inr (JStr ''RED'')
     \<and> derive_trust_projection_payload p ''TRUST_SCORE_MINUS_ONE'' = Inr (Some r)
     \<and> get r ''trust_band'' = JStr ''GREEN'' \<and> get r ''automation_level'' = JStr ''ALLOWED''"
proof -
  let ?p = "dict_set ''unresolved_blocking_risk_flag'' (JBool True) clean_summary"
  have "projectable ?p" using clean_projectable by (simp add: projectable_def)
  then obtain r where r: "derive_trust_projection_payload ?p ''TRUST_SCORE_MINUS_ONE'' = Inr (Some r)"
    using projection_exists [OF _ case_codes(1)] by blast
  note effects = projection_effects [OF r, simplified]
  have "final_band r = Green \<and> get r ''automation_level'' = JStr ''ALLOWED''"
  proof (rule allowed_projection [OF r])
    show "get ?p k = get clean_summary k" if "k \<in> projected_copies" for k
      using that by (auto simp: projected_copies_def)
  qed (simp_all add: effects int_at_def trust_source_required_human_step_count_def)
  moreover have "get r ''trust_band'' = JStr (band_name (final_band r))"
    by (rule projection_posture(4) [OF r])
  moreover have "derive_trust_edge_trigger_codes ?p = []"
    using clean_edges by (simp add: no_edge_trigger_iff)
  then have "derived_fields_ok ?p"
    using clean_derived_fields by (simp add: derived_fields_ok_def clean_edges int_at_def)
  moreover have "score_recomputed ?p"
    using clean_recomputed by (simp add: score_recomputed_def projected_score_def)
  moreover have "scores_in_range ?p" by (simp add: scores_in_range_def int_at_def)
  moreover have "derive_trust_cap_band ?p = Inr (JStr ''RED'')"
    by (simp add: cap_band_refines cap_hashable_def cap_of_ladder demands_insufficient_def demands_red_def)
  ultimately show ?thesis using r by (intro exI [of _ ?p] exI [of _ r]) simp
qed

end
