(* ===== verification/Trust_Contract.thy ===== *)
theory Trust_Contract
  imports Trust_Sensitivity
begin

text \<open>
  The frozen trust sensitivity contract of \<open>Algorithm/scripts/validate_contracts.py\<close>: its derivation
  from a trust summary, its canonical hash payload, and its validator. \<open>stable_json_hash\<close> (SHA-256 of
  the canonical JSON text) is the parameter \<open>H\<close> of the definitions.
\<close>

definition TRUST_SENSITIVITY_CONTRACT_VERSION :: string where
  "TRUST_SENSITIVITY_CONTRACT_VERSION = ''TRUST_SENSITIVITY_V1''"

section \<open>Derivation\<close>

fun derive_case_results :: "obj \<Rightarrow> string list \<Rightarrow> py_exn + obj list option" where
  "derive_case_results payload [] = Inr (Some [])"
| "derive_case_results payload (case_code # codes) =
    bindE (derive_trust_sensitivity_case_result payload case_code) (\<lambda>case_result.
      case case_result of None \<Rightarrow> Inr None
      | Some d \<Rightarrow> bindE (derive_case_results payload codes) (\<lambda>rest. Inr (map_option (Cons d) rest)))"

text \<open>The fields a contract copies from its payload, and those that must not be \<open>None\<close>.\<close>

definition sensitivity_required_values :: "obj \<Rightarrow> json list" where
  "sensitivity_required_values payload =
    [trust_source_basis_hash payload, trust_source_execution_boundary_hash payload,
     trust_source_legal_effect_boundary payload, trust_source_required_human_step_count payload,
     trust_source_basis_state payload ''late_data_invalidation_state'',
     trust_source_basis_state payload ''override_dependency_state''] @
    map (get payload)
      [''execution_mode'', ''trust_score'', ''risk_score'', ''completeness_score'',
       ''graph_quality_score'', ''authority_uncertainty_score'', ''authority_penalty'',
       ''baseline_submission_state'', ''live_authority_progression_requested'',
       ''active_filing_critical_override_count'', ''critical_retention_limited_count'',
       ''score_band'', ''cap_band'', ''trust_band'', ''trust_input_state'',
       ''threshold_stability_state'', ''upstream_gate_cap'', ''automation_level'',
       ''filing_readiness'', ''trust_green_margin'', ''trust_amber_margin'',
       ''risk_automation_margin'']"

definition sensitivity_contract_body ::
  "obj \<Rightarrow> json \<Rightarrow> string list \<Rightarrow> string list \<Rightarrow> obj list \<Rightarrow> obj" where
  "sensitivity_contract_body payload alignment_state cap_driver_reason_codes edge_trigger_codes
     projected_case_results =
    (let copy = (\<lambda>k. (k, get payload k));
         live = (get payload ''live_authority_progression_requested'' = JBool True)
     in [(''contract_version'', JStr TRUST_SENSITIVITY_CONTRACT_VERSION),
         (''sensitivity_contract_hash'', JStr []),
         (''trust_input_basis_contract_hash'', trust_source_basis_hash payload),
         (''execution_mode_boundary_hash'', trust_source_execution_boundary_hash payload),
         copy ''execution_mode'',
         (''execution_legal_effect_boundary'', trust_source_legal_effect_boundary payload),
         copy ''trust_score'', copy ''risk_score'', copy ''completeness_score'',
         copy ''graph_quality_score'', copy ''authority_uncertainty_score'',
         copy ''authority_penalty'', copy ''baseline_submission_state'',
         copy ''live_authority_progression_requested'',
         copy ''active_filing_critical_override_count'', copy ''critical_retention_limited_count'',
         (''required_human_step_count'', trust_source_required_human_step_count payload),
         (''late_data_invalidation_state'',
            trust_source_basis_state payload ''late_data_invalidation_state''),
         (''override_dependency_state'', trust_source_basis_state payload ''override_dependency_state''),
         copy ''score_band'', copy ''cap_band'', copy ''trust_band'', copy ''trust_input_state'',
         copy ''threshold_stability_state'', copy ''upstream_gate_cap'', copy ''automation_level'',
         copy ''filing_readiness'', copy ''trust_green_margin'', copy ''trust_amber_margin'',
         copy ''risk_automation_margin'',
         (''completeness_margin'', JInt (int_at payload ''completeness_score'' - 60)),
         (''graph_filing_margin_or_null'',
            if live then JInt (int_at payload ''graph_quality_score'' - 50) else JNull),
         (''authority_review_margin_or_null'',
            if live then JInt (35 - int_at payload ''authority_uncertainty_score'') else JNull),
         (''authority_block_margin_or_null'',
            if live then JInt (70 - int_at payload ''authority_uncertainty_score'') else JNull),
         (''score_cap_alignment_state'', alignment_state),
         (''cap_driver_reason_codes'', JList (map JStr cap_driver_reason_codes)),
         (''edge_trigger_codes'', JList (map JStr edge_trigger_codes)),
         (''projected_case_results'', JList (map JObj projected_case_results))])"

section \<open>Canonical hash payload\<close>

definition sensitivity_string_fields :: "string list" where
  "sensitivity_string_fields =
    [''contract_version'', ''trust_input_basis_contract_hash'', ''execution_mode_boundary_hash'',
     ''execution_mode'', ''execution_legal_effect_boundary'', ''baseline_submission_state'',
     ''late_data_invalidation_state'', ''override_dependency_state'', ''score_band'', ''cap_band'',
     ''trust_band'', ''trust_input_state'', ''threshold_stability_state'', ''upstream_gate_cap'',
     ''automation_level'', ''filing_readiness'', ''score_cap_alignment_state'']"

definition sensitivity_int_fields :: "string list" where
  "sensitivity_int_fields =
    [''trust_score'', ''risk_score'', ''completeness_score'', ''graph_quality_score'',
     ''authority_uncertainty_score'', ''authority_penalty'',
     ''active_filing_critical_override_count'', ''critical_retention_limited_count'',
     ''required_human_step_count'', ''trust_green_margin'', ''trust_amber_margin'',
     ''risk_automation_margin'', ''completeness_margin'']"

definition live_margin_fields :: "string list" where
  "live_margin_fields =
    [''graph_filing_margin_or_null'', ''authority_review_margin_or_null'',
     ''authority_block_margin_or_null'']"

definition projected_margin_fields :: "string list" where
  "projected_margin_fields =
    [''projected_graph_filing_margin_or_null'', ''projected_authority_review_margin_or_null'',
     ''projected_authority_block_margin_or_null'']"

text \<open>Live margins are integers when live progression is requested and absent otherwise.\<close>

definition margins_match_live :: "bool \<Rightarrow> obj \<Rightarrow> string list \<Rightarrow> bool" where
  "margins_match_live live d names \<longleftrightarrow>
    (if live then list_all (\<lambda>f. is_int (get d f)) names else list_all (\<lambda>f. get d f = JNull) names)"

definition str_values :: "json list \<Rightarrow> string list option" where
  "str_values values = those (map (\<lambda>v. case v of JStr s \<Rightarrow> if s \<noteq> [] then Some s else None | _ \<Rightarrow> None) values)"

definition canonical_codes :: "string list \<Rightarrow> json \<Rightarrow> string list option" where
  "canonical_codes order v =
    (case v of
       JList values \<Rightarrow> (case str_values values of
           None \<Rightarrow> None
         | Some cs \<Rightarrow> if (\<forall>c \<in> set cs. c \<in> set order) \<and> distinct cs
                      then Some (sort_key (position order) cs) else None)
     | _ \<Rightarrow> None)"

definition canonical_case :: "bool \<Rightarrow> obj \<Rightarrow> obj option" where
  "canonical_case live result =
    (case (get result ''case_code'', get result ''monotonicity_expectation'') of
       (JStr case_code, JStr monotonicity_expectation) \<Rightarrow>
         if case_code = [] \<or> monotonicity_expectation = [] \<or>
            case_code \<notin> set TRUST_SENSITIVITY_CASE_ORDER \<or>
            monotonicity_expectation \<noteq>
              (if case_code \<in> set TRUST_SENSITIVITY_NON_DEGRADING_CASES then ''NON_DEGRADING''
               else ''NON_IMPROVING'')
         then None
         else (case (get result ''projected_edge_trigger_codes'',
                     get result ''projected_reason_code_additions'',
                     get result ''projected_reason_code_removals'') of
             (JList edges, JList additions, JList removals) \<Rightarrow>
               (case (str_values edges, str_values additions, str_values removals) of
                  (Some es, Some as, Some rs) \<Rightarrow>
                    if \<not> (distinct es \<and> distinct as \<and> distinct rs) \<or>
                       \<not> (\<forall>c \<in> set es. c \<in> set TRUST_SENSITIVITY_EDGE_TRIGGER_CODES) \<or>
                       \<not> list_all (\<lambda>f. is_int (get result f))
                           [''projected_trust_score'', ''projected_trust_green_margin'',
                            ''projected_trust_amber_margin'', ''projected_risk_automation_margin'',
                            ''projected_completeness_margin''] \<or>
                       \<not> list_all (\<lambda>f. get result f = JNull \<or> is_int (get result f)) projected_margin_fields \<or>
                       \<not> margins_match_live live result projected_margin_fields
                    then None
                    else Some ([(''case_code'', JStr case_code),
                       (''monotonicity_expectation'', JStr monotonicity_expectation)] @
                      map (\<lambda>f. (f, get result f))
                        [''projected_trust_score'', ''projected_score_band'', ''projected_cap_band'',
                         ''projected_trust_band'', ''projected_trust_input_state'',
                         ''projected_threshold_stability_state'', ''projected_automation_level'',
                         ''projected_filing_readiness'', ''projected_trust_green_margin'',
                         ''projected_trust_amber_margin'', ''projected_risk_automation_margin'',
                         ''projected_completeness_margin'',
                         ''projected_graph_filing_margin_or_null'',
                         ''projected_authority_review_margin_or_null'',
                         ''projected_authority_block_margin_or_null''] @
                      [(''projected_edge_trigger_codes'', JList (map JStr
                          (sort_key (position TRUST_SENSITIVITY_EDGE_TRIGGER_CODES) es))),
                       (''projected_reason_code_additions'', JList (map JStr
                          (sort_key (position TRUST_SENSITIVITY_REASON_ORDER) as))),
                       (''projected_reason_code_removals'', JList (map JStr
                          (sort_key (position TRUST_SENSITIVITY_REASON_ORDER) rs)))])
                | _ \<Rightarrow> None)
           | _ \<Rightarrow> None)
     | _ \<Rightarrow> None)"

text \<open>The loop over \<open>projected_case_results\<close> with its set of case codes already seen.\<close>

fun canonical_cases :: "bool \<Rightarrow> string list \<Rightarrow> json list \<Rightarrow> (obj list \<times> string list) option" where
  "canonical_cases live seen [] = Some ([], seen)"
| "canonical_cases live seen (v # vs) =
    (case v of
       JObj result \<Rightarrow> (case get result ''case_code'' of
           JStr case_code \<Rightarrow>
             if case_code \<in> set seen then None
             else (case canonical_case live result of
                 None \<Rightarrow> None
               | Some d \<Rightarrow> map_option (\<lambda>(ds, seen'). (d # ds, seen'))
                             (canonical_cases live (case_code # seen) vs))
         | _ \<Rightarrow> None)
     | _ \<Rightarrow> None)"

definition case_position :: "obj \<Rightarrow> nat" where
  "case_position d = (case get d ''case_code'' of
     JStr s \<Rightarrow> position TRUST_SENSITIVITY_CASE_ORDER s | _ \<Rightarrow> length TRUST_SENSITIVITY_CASE_ORDER)"

definition canonical_case_results :: "bool \<Rightarrow> json \<Rightarrow> obj list option" where
  "canonical_case_results live v =
    (case v of
       JList cases \<Rightarrow> (case canonical_cases live [] cases of
           None \<Rightarrow> None
         | Some (ds, seen) \<Rightarrow> if set seen \<noteq> set TRUST_SENSITIVITY_CASE_ORDER then None
                              else Some (sort_key case_position ds))
     | _ \<Rightarrow> None)"

definition sensitivity_scalars :: "string list" where
  "sensitivity_scalars =
    [''contract_version'', ''trust_input_basis_contract_hash'', ''execution_mode_boundary_hash'',
     ''execution_mode'', ''execution_legal_effect_boundary'', ''trust_score'', ''risk_score'',
     ''completeness_score'', ''graph_quality_score'', ''authority_uncertainty_score'',
     ''authority_penalty'', ''baseline_submission_state'', ''live_authority_progression_requested'',
     ''active_filing_critical_override_count'', ''critical_retention_limited_count'',
     ''required_human_step_count'', ''late_data_invalidation_state'', ''override_dependency_state'',
     ''score_band'', ''cap_band'', ''trust_band'', ''trust_input_state'',
     ''threshold_stability_state'', ''upstream_gate_cap'', ''automation_level'',
     ''filing_readiness'', ''trust_green_margin'', ''trust_amber_margin'',
     ''risk_automation_margin'', ''completeness_margin'', ''graph_filing_margin_or_null'',
     ''authority_review_margin_or_null'', ''authority_block_margin_or_null'',
     ''score_cap_alignment_state'']"

text \<open>The scalar checks at the head of the hash derivation, and the payload it hashes.\<close>

definition sensitivity_scalars_ok :: "obj \<Rightarrow> bool" where
  "sensitivity_scalars_ok contract \<longleftrightarrow>
     list_all (\<lambda>f. nonempty_str (get contract f)) sensitivity_string_fields \<and>
     list_all (\<lambda>f. is_int (get contract f)) sensitivity_int_fields \<and>
     (case get contract ''live_authority_progression_requested'' of
        JBool live \<Rightarrow> margins_match_live live contract live_margin_fields
      | _ \<Rightarrow> False)"

definition canonical_sensitivity_payload :: "obj \<Rightarrow> obj option" where
  "canonical_sensitivity_payload contract =
    (if \<not> sensitivity_scalars_ok contract then None
     else (case (canonical_codes TRUST_SENSITIVITY_CAP_DRIVER_REASON_CODES
                   (get contract ''cap_driver_reason_codes''),
                 canonical_codes TRUST_SENSITIVITY_EDGE_TRIGGER_CODES
                   (get contract ''edge_trigger_codes''),
                 canonical_case_results
                   (get contract ''live_authority_progression_requested'' = JBool True)
                   (get contract ''projected_case_results'')) of
         (Some drivers, Some edges, Some cases) \<Rightarrow>
           Some (map (\<lambda>f. (f, get contract f)) sensitivity_scalars @
             [(''cap_driver_reason_codes'', JList (map JStr drivers)),
              (''edge_trigger_codes'', JList (map JStr edges)),
              (''projected_case_results'', JList (map JObj cases))])
       | _ \<Rightarrow> None))"

definition derive_trust_sensitivity_contract_hash :: "(json \<Rightarrow> string) \<Rightarrow> obj \<Rightarrow> string option" where
  "derive_trust_sensitivity_contract_hash H contract =
     map_option (\<lambda>p. H (JObj p)) (canonical_sensitivity_payload contract)"

definition derive_trust_sensitivity_contract ::
  "(json \<Rightarrow> string) \<Rightarrow> obj \<Rightarrow> py_exn + obj option" where
  "derive_trust_sensitivity_contract H payload =
    (if JNull \<in> set (sensitivity_required_values payload) then Inr None
     else if \<not> is_int (get payload ''completeness_score'') \<or>
             \<not> is_int (get payload ''graph_quality_score'') then Inr None
     else if \<not> is_int (get payload ''authority_uncertainty_score'') then Inr None
     else bindE (derive_case_results payload TRUST_SENSITIVITY_CASE_ORDER) (\<lambda>results.
       case results of None \<Rightarrow> Inr None
       | Some projected_case_results \<Rightarrow>
         bindE (derive_trust_score_cap_alignment_state (get payload ''score_band'')
                  (get payload ''cap_band'')) (\<lambda>alignment_state.
         bindE (derive_trust_cap_driver_reason_codes payload) (\<lambda>drivers.
           let contract = sensitivity_contract_body payload alignment_state drivers
                 (derive_trust_edge_trigger_codes payload) projected_case_results;
               digest = (case derive_trust_sensitivity_contract_hash H contract of
                   Some h \<Rightarrow> if h \<noteq> [] then h else ''trust-sensitivity-contract-invalid''
                 | None \<Rightarrow> ''trust-sensitivity-contract-invalid'')
           in Inr (Some (dict_set ''sensitivity_contract_hash'' (JStr digest) contract))))))"

section \<open>Validation\<close>

datatype sensitivity_issue =
    Missing_Contract | Not_An_Object | Version_Mismatch | Incomplete_Basis | Hash_Mismatch
  | Field_Mismatch string

definition check_contract_fields :: "string \<Rightarrow> obj \<Rightarrow> obj \<Rightarrow> sensitivity_issue issue list" where
  "check_contract_fields loc contract expected =
    [custom loc (Field_Mismatch field_name).
       (field_name, expected_value) \<leftarrow> expected, \<not> py_eq (get contract field_name) expected_value]"

text \<open>The second component is the dictionary the validator hands on. An \<open>expected_owner_payload\<close> that
  is not a dictionary is \<open>None\<close> here.\<close>

definition validate_trust_sensitivity_contract ::
  "(json \<Rightarrow> string) \<Rightarrow> json \<Rightarrow> string \<Rightarrow> obj option \<Rightarrow> bool \<Rightarrow>
   py_exn + (sensitivity_issue issue list \<times> obj)" where
  "validate_trust_sensitivity_contract H contract loc expected_owner_payload require_non_null =
    (case contract of
       JNull \<Rightarrow> Inr (if require_non_null then [custom loc Missing_Contract] else [], [])
     | JObj c \<Rightarrow>
        (let version = (if get c ''contract_version'' \<noteq> JStr TRUST_SENSITIVITY_CONTRACT_VERSION
                        then [custom loc Version_Mismatch] else [])
         in case derive_trust_sensitivity_contract_hash H c of
              None \<Rightarrow> Inr (version @ [custom loc Incomplete_Basis], c)
            | Some derived_hash \<Rightarrow>
               (let issues = version @ (if get c ''sensitivity_contract_hash'' \<noteq> JStr derived_hash
                                        then [custom loc Hash_Mismatch] else [])
                in case expected_owner_payload of
                     None \<Rightarrow> Inr (issues, c)
                   | Some owner \<Rightarrow>
                      bindE (derive_trust_sensitivity_contract H owner) (\<lambda>r. case r of
                        None \<Rightarrow> Inr (issues @ [custom loc Incomplete_Basis], c)
                      | Some expected_contract \<Rightarrow>
                          Inr (issues @ check_contract_fields loc c expected_contract, c))))
     | _ \<Rightarrow> Inr ([custom loc Not_An_Object], []))"

section \<open>The hash does not see list order\<close>

lemma those_map:
  "those (map f xs) = (if \<forall>x \<in> set xs. f x \<noteq> None then Some (map (the \<circ> f) xs) else None)"
  by (induction xs) (auto split: option.splits)

lemma str_values_perm:
  assumes "mset xs = mset ys"
  shows "rel_option (\<lambda>a b. mset a = mset b) (str_values xs) (str_values ys)"
proof -
  have same: "set xs = set ys" using assms by (rule mset_eq_setD)
  show ?thesis unfolding str_values_def those_map same by (auto simp: assms)
qed

lemma canonical_codes_perm:
  assumes "mset xs = mset ys"
  shows "canonical_codes order (JList xs) = canonical_codes order (JList ys)"
proof (cases "str_values xs")
  case None
  with str_values_perm [OF assms] show ?thesis by (simp add: canonical_codes_def)
next
  case (Some a)
  then obtain b where b: "str_values ys = Some b" and ab: "mset a = mset b"
    using str_values_perm [OF assms] by (auto simp: option_rel_Some1)
  have same: "set a = set b" "distinct a \<longleftrightarrow> distinct b"
    using ab by (auto dest: mset_eq_setD mset_eq_imp_distinct_iff)
  have "sort_key (position order) a = sort_key (position order) b"
    if "distinct b" "\<forall>c \<in> set b. c \<in> set order"
    using that same inj_on_subset [OF position_inj [of order], of "set b"]
    by (intro sort_key_unique) auto
  then show ?thesis using Some b same by (simp add: canonical_codes_def)
qed

definition result_code :: "json \<Rightarrow> string" where
  "result_code v = (case v of JObj d \<Rightarrow> (case get d ''case_code'' of JStr s \<Rightarrow> s | _ \<Rightarrow> []) | _ \<Rightarrow> [])"

definition result_canonical :: "bool \<Rightarrow> json \<Rightarrow> obj option" where
  "result_canonical live v = (case v of JObj d \<Rightarrow> canonical_case live d | _ \<Rightarrow> None)"

lemma canonical_case_code:
  "canonical_case live d = Some d' \<Longrightarrow> \<exists>s \<in> set TRUST_SENSITIVITY_CASE_ORDER.
     get d ''case_code'' = JStr s \<and> get d' ''case_code'' = JStr s"
  unfolding canonical_case_def by (auto split: json.splits option.splits if_splits)

lemma canonical_cases_alt:
  "canonical_cases live seen vs =
    (if (\<forall>v \<in> set vs. result_canonical live v \<noteq> None) \<and> distinct (map result_code vs) \<and>
        set (map result_code vs) \<inter> set seen = {}
     then Some (map (the \<circ> result_canonical live) vs, rev (map result_code vs) @ seen) else None)"
proof (induction vs arbitrary: seen)
  case (Cons v vs)
  show ?case
  proof (cases "result_canonical live v")
    case None
    then show ?thesis
      by (auto simp: result_canonical_def split: json.splits)
  next
    case (Some d')
    then obtain d where d: "v = JObj d" "canonical_case live d = Some d'"
      by (auto simp: result_canonical_def split: json.splits)
    then obtain s where s: "get d ''case_code'' = JStr s" using canonical_case_code by blast
    with d Some show ?thesis by (auto simp: Cons.IH result_code_def)
  qed
qed simp

lemma result_positions:
  assumes "result_canonical live v = Some d"
  shows "case_position d = position TRUST_SENSITIVITY_CASE_ORDER (result_code v)"
    and "result_code v \<in> set TRUST_SENSITIVITY_CASE_ORDER"
proof -
  obtain r where r: "v = JObj r" "canonical_case live r = Some d"
    using assms by (auto simp: result_canonical_def split: json.splits)
  with canonical_case_code [OF r(2)]
  show "case_position d = position TRUST_SENSITIVITY_CASE_ORDER (result_code v)"
    and "result_code v \<in> set TRUST_SENSITIVITY_CASE_ORDER"
    by (auto simp: case_position_def result_code_def)
qed

lemma canonical_case_results_perm:
  assumes "mset xs = mset ys"
  shows "canonical_case_results live (JList xs) = canonical_case_results live (JList ys)"
proof -
  have same: "set xs = set ys" using assms by (rule mset_eq_setD)
  have codes: "mset (map result_code xs) = mset (map result_code ys)"
    using assms by (simp add: mset_map)
  then have dist: "distinct (map result_code xs) \<longleftrightarrow> distinct (map result_code ys)"
    by (rule mset_eq_imp_distinct_iff)
  have seen: "set (rev (map result_code xs)) = set (rev (map result_code ys))"
    using same by simp
  let ?f = "the \<circ> result_canonical live"
  have "sort_key case_position (map ?f xs) = sort_key case_position (map ?f ys)"
    if ok: "\<forall>v \<in> set ys. result_canonical live v \<noteq> None" and d: "distinct (map result_code ys)"
  proof -
    have pos: "case_position (?f v) = position TRUST_SENSITIVITY_CASE_ORDER (result_code v)"
      "result_code v \<in> set TRUST_SENSITIVITY_CASE_ORDER" if "v \<in> set ys" for v
      using result_positions [of live v] ok that by auto
    have eq: "u = v" if "u \<in> set ys" "v \<in> set ys" "case_position (?f u) = case_position (?f v)" for u v
    proof -
      have "result_code u = result_code v"
        using that pos inj_onD [OF position_inj] by metis
      then show ?thesis using d that by (auto simp: distinct_map inj_on_def)
    qed
    show ?thesis
    proof (rule sort_key_unique)
      show "inj_on case_position (set (map ?f ys))" using eq by (auto intro!: inj_onI)
      have "inj_on ?f (set ys)" using eq by (auto intro!: inj_onI)
      then show "distinct (map ?f ys)" "distinct (map ?f xs)"
        using d dist same by (auto simp: distinct_map)
    qed (use same in simp)
  qed
  then show ?thesis
    unfolding canonical_case_results_def using same dist seen by (simp add: canonical_cases_alt)
qed

definition hashed_fields :: "string list" where
  "hashed_fields = sensitivity_scalars @ sensitivity_string_fields @ sensitivity_int_fields @
     live_margin_fields"

text \<open>The hash of a contract does not depend on the order in which its cap drivers, edge triggers
  and projected case results are listed: two contracts that agree on their scalar fields and list the
  same items get the same hash (or are both refused).\<close>

theorem contract_hash_ignores_list_order:
  assumes scalars: "\<And>f. f \<in> set hashed_fields \<Longrightarrow> get c f = get c' f"
    and drivers: "get c ''cap_driver_reason_codes'' = JList xs1"
      "get c' ''cap_driver_reason_codes'' = JList ys1" "mset xs1 = mset ys1"
    and edges: "get c ''edge_trigger_codes'' = JList xs2"
      "get c' ''edge_trigger_codes'' = JList ys2" "mset xs2 = mset ys2"
    and results: "get c ''projected_case_results'' = JList xs3"
      "get c' ''projected_case_results'' = JList ys3" "mset xs3 = mset ys3"
  shows "derive_trust_sensitivity_contract_hash H c = derive_trust_sensitivity_contract_hash H c'"
proof -
  have agree: "list_all (\<lambda>f. P (get c f)) fs = list_all (\<lambda>f. P (get c' f)) fs"
    "map (\<lambda>f. (f, get c f)) fs = map (\<lambda>f. (f, get c' f)) fs"
    if "set fs \<subseteq> set hashed_fields" for P fs
    using that scalars by (auto simp: list_all_iff subset_iff)
  have parts: "set sensitivity_scalars \<subseteq> set hashed_fields"
    "set sensitivity_string_fields \<subseteq> set hashed_fields" "set sensitivity_int_fields \<subseteq> set hashed_fields"
    "set live_margin_fields \<subseteq> set hashed_fields"
    by (auto simp: hashed_fields_def)
  have live: "get c ''live_authority_progression_requested''
      = get c' ''live_authority_progression_requested''"
    by (rule scalars) (simp add: hashed_fields_def sensitivity_scalars_def)
  have "sensitivity_scalars_ok c = sensitivity_scalars_ok c'"
    unfolding sensitivity_scalars_ok_def margins_match_live_def live
      agree(1) [OF parts(2), of nonempty_str] agree(1) [OF parts(3), of is_int]
      agree(1) [OF parts(4), of is_int] agree(1) [OF parts(4), of "\<lambda>v. v = JNull"] by (rule refl)
  then show ?thesis
    unfolding derive_trust_sensitivity_contract_hash_def canonical_sensitivity_payload_def
      drivers edges results live agree(2) [OF parts(1)]
      canonical_codes_perm [OF drivers(3)] canonical_codes_perm [OF edges(3)]
      canonical_case_results_perm [OF results(3)] by simp
qed

definition sample_result :: "string \<Rightarrow> json" where
  "sample_result code = JObj
    [(''case_code'', JStr code),
     (''monotonicity_expectation'', JStr (if code = ''TRUST_SCORE_PLUS_ONE'' then ''NON_DEGRADING''
        else ''NON_IMPROVING'')),
     (''projected_trust_score'', JInt 90), (''projected_trust_green_margin'', JInt 5),
     (''projected_trust_amber_margin'', JInt 25), (''projected_risk_automation_margin'', JInt 40),
     (''projected_completeness_margin'', JInt 40), (''projected_edge_trigger_codes'', JList []),
     (''projected_reason_code_additions'', JList []), (''projected_reason_code_removals'', JList [])]"

definition sample_contract :: "string list \<Rightarrow> string list \<Rightarrow> obj" where
  "sample_contract drivers codes =
     map (\<lambda>f. (f, JStr ''x'')) sensitivity_string_fields @
     map (\<lambda>f. (f, JInt 1)) sensitivity_int_fields @
     [(''live_authority_progression_requested'', JBool False),
      (''cap_driver_reason_codes'', JList (map JStr drivers)), (''edge_trigger_codes'', JList []),
      (''projected_case_results'', JList (map sample_result codes))]"

lemma sample_contract_gets:
  "f \<in> set hashed_fields \<Longrightarrow> get (sample_contract ds cs) f = get (sample_contract ds' cs') f"
  "get (sample_contract ds cs) ''cap_driver_reason_codes'' = JList (map JStr ds)"
  "get (sample_contract ds cs) ''edge_trigger_codes'' = JList []"
  "get (sample_contract ds cs) ''projected_case_results'' = JList (map sample_result cs)"
  by (auto simp: sample_contract_def hashed_fields_def sensitivity_string_fields_def
      sensitivity_int_fields_def sensitivity_scalars_def live_margin_fields_def)

lemma sample_result_canonical:
  assumes "code \<in> set TRUST_SENSITIVITY_CASE_ORDER"
  shows "result_canonical False (sample_result code) \<noteq> None" and "result_code (sample_result code) = code"
  using assms
  by (auto simp: sample_result_def result_canonical_def result_code_def canonical_case_def str_values_def
      projected_margin_fields_def margins_match_live_def TRUST_SENSITIVITY_CASE_ORDER_def
      TRUST_SENSITIVITY_NON_DEGRADING_CASES_def)

lemma sample_contract_scalars: "sensitivity_scalars_ok (sample_contract ds cs)"
  by (simp add: sensitivity_scalars_ok_def sample_contract_def sensitivity_string_fields_def
      sensitivity_int_fields_def live_margin_fields_def margins_match_live_def)

lemma sample_results_canonical:
  "canonical_case_results False (JList (map sample_result TRUST_SENSITIVITY_CASE_ORDER)) \<noteq> None"
proof -
  have codes: "map result_code (map sample_result TRUST_SENSITIVITY_CASE_ORDER) = TRUST_SENSITIVITY_CASE_ORDER"
    unfolding map_map by (rule map_idI) (simp add: sample_result_canonical(2))
  have "distinct TRUST_SENSITIVITY_CASE_ORDER" by (simp add: TRUST_SENSITIVITY_CASE_ORDER_def)
  moreover have "\<forall>v \<in> set (map sample_result TRUST_SENSITIVITY_CASE_ORDER). result_canonical False v \<noteq> None"
    using sample_result_canonical(1) by auto
  ultimately show ?thesis
    unfolding canonical_case_results_def by (simp add: canonical_cases_alt codes del: map_map)
qed

theorem contract_hash_ignores_list_order_witness:
  "(\<forall>H. derive_trust_sensitivity_contract_hash H
     (sample_contract [''TRUST_INPUT_STALE'', ''TRUST_INPUT_INCOMPLETE''] TRUST_SENSITIVITY_CASE_ORDER)
   = derive_trust_sensitivity_contract_hash H
     (sample_contract [''TRUST_INPUT_INCOMPLETE'', ''TRUST_INPUT_STALE''] (rev TRUST_SENSITIVITY_CASE_ORDER)))
   \<and> canonical_sensitivity_payload
     (sample_contract [''TRUST_INPUT_STALE'', ''TRUST_INPUT_INCOMPLETE''] TRUST_SENSITIVITY_CASE_ORDER) \<noteq> None"
proof (intro conjI allI)
  fix H
  show "derive_trust_sensitivity_contract_hash H
     (sample_contract [''TRUST_INPUT_STALE'', ''TRUST_INPUT_INCOMPLETE''] TRUST_SENSITIVITY_CASE_ORDER)
   = derive_trust_sensitivity_contract_hash H
     (sample_contract [''TRUST_INPUT_INCOMPLETE'', ''TRUST_INPUT_STALE''] (rev TRUST_SENSITIVITY_CASE_ORDER))"
    by (rule contract_hash_ignores_list_order [OF sample_contract_gets(1) sample_contract_gets(2)
          sample_contract_gets(2) _ sample_contract_gets(3) sample_contract_gets(3) _
          sample_contract_gets(4) sample_contract_gets(4)])
       (simp_all add: add_mset_commute)
next
  let ?c = "sample_contract [''TRUST_INPUT_STALE'', ''TRUST_INPUT_INCOMPLETE''] TRUST_SENSITIVITY_CASE_ORDER"
  have "get ?c ''live_authority_progression_requested'' = JBool False"
    by (simp add: sample_contract_def sensitivity_string_fields_def sensitivity_int_fields_def)
  moreover have "canonical_codes TRUST_SENSITIVITY_CAP_DRIVER_REASON_CODES
      (JList (map JStr [''TRUST_INPUT_STALE'', ''TRUST_INPUT_INCOMPLETE''])) \<noteq> None"
    by (simp add: canonical_codes_def str_values_def TRUST_SENSITIVITY_CAP_DRIVER_REASON_CODES_def)
  moreover have "canonical_codes TRUST_SENSITIVITY_EDGE_TRIGGER_CODES (JList []) \<noteq> None"
    by (simp add: canonical_codes_def str_values_def)
  ultimately show "canonical_sensitivity_payload ?c \<noteq> None"
    using sample_results_canonical
    by (auto simp: canonical_sensitivity_payload_def sample_contract_scalars sample_contract_gets
        simp del: list.map)
qed

end
