(* ===== verification/Gate_Semantics.thy ===== *)
theory Gate_Semantics
  imports Py_Prelude
begin

text \<open>
  The gate semantics contract of \<open>Algorithm/scripts/validate_contracts.py\<close>: the rank, progression and
  blocking tables of the non-access gates, the override dependency of a decision, and the validator
  of the frozen \<open>gate_semantics_contract\<close>.
\<close>

definition GATE_DECISION_RANK_BY_DECISION :: "(string \<times> int) list" where
  "GATE_DECISION_RANK_BY_DECISION =
    [(''PASS'', 0), (''PASS_WITH_NOTICE'', 1), (''MANUAL_REVIEW'', 2), (''OVERRIDABLE_BLOCK'', 3),
     (''HARD_BLOCK'', 4)]"

definition GATE_PROGRESSION_RANK_BY_DECISION :: "(string \<times> int) list" where
  "GATE_PROGRESSION_RANK_BY_DECISION =
    [(''PASS'', 2), (''PASS_WITH_NOTICE'', 2), (''MANUAL_REVIEW'', 1), (''OVERRIDABLE_BLOCK'', 0),
     (''HARD_BLOCK'', 0)]"

definition GATE_BLOCKING_CLASS_BY_DECISION :: "(string \<times> string) list" where
  "GATE_BLOCKING_CLASS_BY_DECISION =
    [(''PASS'', ''NON_BLOCKING''), (''PASS_WITH_NOTICE'', ''NON_BLOCKING''),
     (''MANUAL_REVIEW'', ''REVIEW_REQUIRED''), (''OVERRIDABLE_BLOCK'', ''BLOCKED''),
     (''HARD_BLOCK'', ''BLOCKED'')]"

definition GATE_PROGRESSION_SEMANTICS_BY_DECISION :: "(string \<times> string) list" where
  "GATE_PROGRESSION_SEMANTICS_BY_DECISION =
    [(''PASS'', ''AUTOMATED_CONTINUE''), (''PASS_WITH_NOTICE'', ''AUTOMATED_CONTINUE_WITH_NOTICE''),
     (''MANUAL_REVIEW'', ''REVIEW_ONLY''), (''OVERRIDABLE_BLOCK'', ''BLOCKED''),
     (''HARD_BLOCK'', ''BLOCKED'')]"

definition derive_gate_override_dependency_state :: "json \<Rightarrow> json \<Rightarrow> py_exn + string option" where
  "derive_gate_override_dependency_state decision override_resolution_state =
    (if decision = JStr ''OVERRIDABLE_BLOCK'' then Inr (Some ''OVERRIDE_REQUIRED_MISSING'')
     else if decision = JStr ''HARD_BLOCK'' then Inr (Some ''OVERRIDE_FORBIDDEN'')
     else if override_resolution_state = JStr ''VALID_OVERRIDE_ACTIVE''
       then Inr (Some ''VALID_OVERRIDE_GOVERNED'')
     else bindE (in_strs decision [''PASS'', ''PASS_WITH_NOTICE'', ''MANUAL_REVIEW'']) (\<lambda>known.
       Inr (if known then Some ''OVERRIDE_INDEPENDENT'' else None)))"

datatype gate_issue =
    Gate_Not_Object | Gate_Version | Gate_Order_Profile | Gate_Reason_Profile | Gate_Severity_Profile
  | Gate_Decision_Rank int | Gate_Progression_Rank int | Gate_Blocking_Class string
  | Gate_Progression_Semantics string | Gate_Override_Dependency string

definition report_differs :: "json \<Rightarrow> json option \<Rightarrow> 'i \<Rightarrow> py_exn + 'i list" where
  "report_differs v expected i =
     report_if (case expected of None \<Rightarrow> False | Some e \<Rightarrow> \<not> py_eq v e) i"

definition validate_gate_semantics_contract :: "json \<Rightarrow> string \<Rightarrow> json \<Rightarrow> json \<Rightarrow> gate_issue verdict" where
  "validate_gate_semantics_contract payload loc expected_decision expected_override_resolution_state =
    (case payload of
       JObj p \<Rightarrow> run_checks
        [report_if (get p ''contract_version'' \<noteq> JStr ''GATE_SEMANTICS_CONTRACT_V1'')
           (custom loc Gate_Version),
         report_if (get p ''evaluation_order_profile_code'' \<noteq> JStr ''NON_ACCESS_GATE_ORDER_V1'')
           (custom loc Gate_Order_Profile),
         report_if (get p ''reason_order_profile_code'' \<noteq> JStr ''NON_ACCESS_GATE_REASON_PRIORITY_V1'')
           (custom loc Gate_Reason_Profile),
         report_if (get p ''severity_profile_code'' \<noteq> JStr ''NON_ACCESS_GATE_SEVERITY_V1'')
           (custom loc Gate_Severity_Profile),
         bindE (table_get GATE_DECISION_RANK_BY_DECISION expected_decision) (\<lambda>e.
           report_differs (get p ''decision_rank'') (map_option JInt e)
             (custom loc (Gate_Decision_Rank (the e)))),
         bindE (table_get GATE_PROGRESSION_RANK_BY_DECISION expected_decision) (\<lambda>e.
           report_differs (get p ''progression_rank'') (map_option JInt e)
             (custom loc (Gate_Progression_Rank (the e)))),
         bindE (table_get GATE_BLOCKING_CLASS_BY_DECISION expected_decision) (\<lambda>e.
           report_differs (get p ''blocking_class'') (map_option JStr e)
             (custom loc (Gate_Blocking_Class (the e)))),
         bindE (table_get GATE_PROGRESSION_SEMANTICS_BY_DECISION expected_decision) (\<lambda>e.
           report_differs (get p ''progression_semantics'') (map_option JStr e)
             (custom loc (Gate_Progression_Semantics (the e)))),
         bindE (derive_gate_override_dependency_state expected_decision
                  expected_override_resolution_state) (\<lambda>e.
           report_differs (get p ''override_dependency_state'') (map_option JStr e)
             (custom loc (Gate_Override_Dependency (the e))))]
     | _ \<Rightarrow> Inr [custom loc Gate_Not_Object])"

lemma report_differs_clean [simp]:
  "report_differs v e i = Inr [] \<longleftrightarrow> (case e of None \<Rightarrow> True | Some w \<Rightarrow> py_eq v w)"
  by (auto simp: report_differs_def split: option.splits)

definition gate_decisions :: "string list" where
  "gate_decisions = [''PASS'', ''PASS_WITH_NOTICE'', ''MANUAL_REVIEW'', ''OVERRIDABLE_BLOCK'', ''HARD_BLOCK'']"

lemma gate_contract_clean:
  assumes "validate_gate_semantics_contract (JObj p) loc (JStr d) ov = Inr []"
    and "d \<in> set gate_decisions"
  shows "num_is (get p ''decision_rank'') (of_int (the (map_of GATE_DECISION_RANK_BY_DECISION d)))"
    and "num_is (get p ''progression_rank'') (of_int (the (map_of GATE_PROGRESSION_RANK_BY_DECISION d)))"
    and "get p ''blocking_class'' = JStr (the (map_of GATE_BLOCKING_CLASS_BY_DECISION d))"
    and "get p ''progression_semantics'' = JStr (the (map_of GATE_PROGRESSION_SEMANTICS_BY_DECISION d))"
    and "\<exists>s. derive_gate_override_dependency_state (JStr d) ov = Inr (Some s)
           \<and> get p ''override_dependency_state'' = JStr s"
proof -
  note checks = assms(1) [unfolded validate_gate_semantics_contract_def json.case run_checks_clean,
      simplified, THEN conjunct2, THEN conjunct2, THEN conjunct2, THEN conjunct2]
  have known: "map_of GATE_DECISION_RANK_BY_DECISION d \<noteq> None"
    "map_of GATE_PROGRESSION_RANK_BY_DECISION d \<noteq> None"
    "map_of GATE_BLOCKING_CLASS_BY_DECISION d \<noteq> None"
    "map_of GATE_PROGRESSION_SEMANTICS_BY_DECISION d \<noteq> None"
    using assms(2)
    by (auto simp: gate_decisions_def GATE_DECISION_RANK_BY_DECISION_def
        GATE_PROGRESSION_RANK_BY_DECISION_def GATE_BLOCKING_CLASS_BY_DECISION_def
        GATE_PROGRESSION_SEMANTICS_BY_DECISION_def)
  show "num_is (get p ''decision_rank'') (of_int (the (map_of GATE_DECISION_RANK_BY_DECISION d)))"
    using checks known(1) by (auto simp: py_eq_JInt_right)
  show "num_is (get p ''progression_rank'') (of_int (the (map_of GATE_PROGRESSION_RANK_BY_DECISION d)))"
    using checks known(2) by (auto simp: py_eq_JInt_right)
  show "get p ''blocking_class'' = JStr (the (map_of GATE_BLOCKING_CLASS_BY_DECISION d))"
    using checks known(3) by auto
  show "get p ''progression_semantics'' = JStr (the (map_of GATE_PROGRESSION_SEMANTICS_BY_DECISION d))"
    using checks known(4) by auto
  have "\<exists>s. derive_gate_override_dependency_state (JStr d) ov = Inr (Some s)"
    using assms(2) by (auto simp: derive_gate_override_dependency_state_def gate_decisions_def)
  then show "\<exists>s. derive_gate_override_dependency_state (JStr d) ov = Inr (Some s)
           \<and> get p ''override_dependency_state'' = JStr s"
    using checks by auto
qed

lemmas gate_tables = gate_decisions_def GATE_DECISION_RANK_BY_DECISION_def
  GATE_PROGRESSION_RANK_BY_DECISION_def GATE_BLOCKING_CLASS_BY_DECISION_def
  GATE_PROGRESSION_SEMANTICS_BY_DECISION_def

lemma gate_progression_of_rank:
  "d \<in> set gate_decisions \<Longrightarrow> the (map_of GATE_PROGRESSION_RANK_BY_DECISION d) =
     (let r = the (map_of GATE_DECISION_RANK_BY_DECISION d) in if r \<le> 1 then 2 else if r = 2 then 1 else 0)"
  by (auto simp: gate_tables Let_def)

lemma gate_ranks_antitone:
  assumes "d \<in> set gate_decisions" "e \<in> set gate_decisions"
    and "the (map_of GATE_DECISION_RANK_BY_DECISION d) \<le> the (map_of GATE_DECISION_RANK_BY_DECISION e)"
  shows "the (map_of GATE_PROGRESSION_RANK_BY_DECISION e)
          \<le> the (map_of GATE_PROGRESSION_RANK_BY_DECISION d)"
  using assms(3) by (simp add: gate_progression_of_rank assms(1,2) Let_def)

lemma gate_blocked_iff_no_progression:
  "d \<in> set gate_decisions \<Longrightarrow> the (map_of GATE_BLOCKING_CLASS_BY_DECISION d) = ''BLOCKED''
     \<longleftrightarrow> the (map_of GATE_PROGRESSION_RANK_BY_DECISION d) = 0"
  by (auto simp: gate_tables)

text \<open>Of two accepted gate contracts, the one whose decision ranks as more severe never claims more
  progression, and a contract claims no progression at all exactly when its blocking class is
  \<open>BLOCKED\<close>; a hard block always records that no override is allowed.\<close>

theorem accepted_gate_contracts_are_antitone:
  assumes p: "validate_gate_semantics_contract (JObj p) loc (JStr d) ov = Inr []"
    and q: "validate_gate_semantics_contract (JObj q) loc' (JStr e) ov' = Inr []"
    and known: "d \<in> set gate_decisions" "e \<in> set gate_decisions"
    and ranks: "num_is (get p ''decision_rank'') a" "num_is (get q ''decision_rank'') b" "a \<le> b"
    and progress: "num_is (get p ''progression_rank'') x" "num_is (get q ''progression_rank'') y"
  shows "y \<le> x \<and> (get q ''blocking_class'' = JStr ''BLOCKED'' \<longleftrightarrow> y = 0) \<and>
    (e = ''HARD_BLOCK'' \<longrightarrow> get q ''override_dependency_state'' = JStr ''OVERRIDE_FORBIDDEN'')"
proof -
  note cp = gate_contract_clean [OF p known(1)] and cq = gate_contract_clean [OF q known(2)]
  have a: "a = of_int (the (map_of GATE_DECISION_RANK_BY_DECISION d))"
    and b: "b = of_int (the (map_of GATE_DECISION_RANK_BY_DECISION e))"
    and x: "x = of_int (the (map_of GATE_PROGRESSION_RANK_BY_DECISION d))"
    and y: "y = of_int (the (map_of GATE_PROGRESSION_RANK_BY_DECISION e))"
    using num_is_unique cp(1,2) cq(1,2) ranks(1,2) progress by blast+
  have "y \<le> x"
    using gate_ranks_antitone [OF known] ranks(3) by (simp add: a b x y)
  moreover have "get q ''blocking_class'' = JStr ''BLOCKED'' \<longleftrightarrow> y = 0"
    using gate_blocked_iff_no_progression [OF known(2)] cq(3) by (simp add: y)
  moreover have "get q ''override_dependency_state'' = JStr ''OVERRIDE_FORBIDDEN''" if "e = ''HARD_BLOCK''"
    using cq(5) that by (auto simp: derive_gate_override_dependency_state_def)
  ultimately show ?thesis by blast
qed

definition sample_gate_contract :: "int \<Rightarrow> int \<Rightarrow> string \<Rightarrow> string \<Rightarrow> string \<Rightarrow> obj" where
  "sample_gate_contract rank progression blocking semantics override =
    [(''contract_version'', JStr ''GATE_SEMANTICS_CONTRACT_V1''),
     (''evaluation_order_profile_code'', JStr ''NON_ACCESS_GATE_ORDER_V1''),
     (''reason_order_profile_code'', JStr ''NON_ACCESS_GATE_REASON_PRIORITY_V1''),
     (''severity_profile_code'', JStr ''NON_ACCESS_GATE_SEVERITY_V1''),
     (''decision_rank'', JInt rank), (''progression_rank'', JInt progression),
     (''blocking_class'', JStr blocking), (''progression_semantics'', JStr semantics),
     (''override_dependency_state'', JStr override)]"

theorem accepted_gate_contracts_are_antitone_witness:
  "get (sample_gate_contract 4 0 ''BLOCKED'' ''BLOCKED'' ''OVERRIDE_FORBIDDEN'') ''override_dependency_state''
     = JStr ''OVERRIDE_FORBIDDEN'' \<and> (0::rat) \<le> 1"
proof -
  let ?p = "sample_gate_contract 2 1 ''REVIEW_REQUIRED'' ''REVIEW_ONLY'' ''OVERRIDE_INDEPENDENT''"
  let ?q = "sample_gate_contract 4 0 ''BLOCKED'' ''BLOCKED'' ''OVERRIDE_FORBIDDEN''"
  have p: "validate_gate_semantics_contract (JObj ?p) ''p'' (JStr ''MANUAL_REVIEW'') JNull = Inr []"
    by (simp add: validate_gate_semantics_contract_def run_checks_clean sample_gate_contract_def
        gate_tables derive_gate_override_dependency_state_def num_is_def)
  have q: "validate_gate_semantics_contract (JObj ?q) ''q'' (JStr ''HARD_BLOCK'') JNull = Inr []"
    by (simp add: validate_gate_semantics_contract_def run_checks_clean sample_gate_contract_def
        gate_tables derive_gate_override_dependency_state_def num_is_def)
  show ?thesis
    using accepted_gate_contracts_are_antitone [OF p q, of 2 4 1 0]
    by (simp add: gate_decisions_def sample_gate_contract_def num_is_def)
qed

end
