(* ===== verification/Access_Chain.thy ===== *)
theory Access_Chain
  imports Restriction_Order
begin

text \<open>
  Access outcomes of \<open>Algorithm/scripts/validate_contracts.py\<close>: the most restrictive outcome of the
  layers of an authority chain, and the validator of the chain.
\<close>

definition AUTHORITY_CHAIN_LAYER_ORDER :: "string list" where
  "AUTHORITY_CHAIN_LAYER_ORDER =
    [''SESSION_AUTHN_POSTURE'', ''TENANT_OPERATIONAL_AUTHORITY'', ''CLIENT_DELEGATION_COVERAGE'',
     ''EXTERNAL_AUTHORITY_LINK_READINESS'', ''AUTHORITY_OF_RECORD_OUTCOME'']"

definition ACCESS_DECISION_SEVERITY :: "(string \<times> int) list" where
  "ACCESS_DECISION_SEVERITY =
    [(''ALLOW'', 0), (''ALLOW_MASKED'', 1), (''REQUIRE_STEP_UP'', 2), (''REQUIRE_APPROVAL'', 3),
     (''DENY'', 4)]"

text \<open>One turn of the loop: the strongest outcome so far and its severity (\<open>-1\<close> for none).\<close>

definition access_step :: "json option \<times> int \<Rightarrow> json \<Rightarrow> py_exn + (json option \<times> int)" where
  "access_step s layer =
    (case layer of
       JObj d \<Rightarrow>
         (let layer_outcome = get d ''layer_outcome''
          in if layer_outcome = JStr ''NOT_APPLICABLE'' then Inr s
             else bindE (table_get ACCESS_DECISION_SEVERITY layer_outcome) (\<lambda>severity.
               case severity of None \<Rightarrow> Inr s
               | Some v \<Rightarrow> if v > snd s then Inr (Some layer_outcome, v) else Inr s))
     | _ \<Rightarrow> Inr s)"

definition most_restrictive_access_outcome :: "json \<Rightarrow> py_exn + json option" where
  "most_restrictive_access_outcome layers =
    (case layers of
       JList ls \<Rightarrow> bindE (foldE access_step (None, -1) ls) (\<lambda>s. Inr (fst s))
     | _ \<Rightarrow> Inr None)"

datatype chain_issue = Chain_Order | Chain_Decision

definition layer_codes :: "json list \<Rightarrow> json list" where
  "layer_codes ls = concat (map (\<lambda>l. case l of JObj d \<Rightarrow> [get d ''layer_code''] | _ \<Rightarrow> []) ls)"

definition validate_authority_chain_layers :: "json \<Rightarrow> json \<Rightarrow> string \<Rightarrow> chain_issue verdict" where
  "validate_authority_chain_layers layers expected_decision loc =
    (case layers of
       JList ls \<Rightarrow>
         (let codes = layer_codes ls
          in run_checks
           [report_if (length codes \<notin> {4, 5} \<or>
                take 4 codes \<noteq> map JStr (take 4 AUTHORITY_CHAIN_LAYER_ORDER) \<or>
                (length codes = 5 \<and> codes ! 4 \<noteq> JStr (AUTHORITY_CHAIN_LAYER_ORDER ! 4)))
              (custom loc Chain_Order),
            bindE (most_restrictive_access_outcome layers) (\<lambda>strongest_outcome.
              report_if (is_str expected_decision \<and>
                  (case strongest_outcome of None \<Rightarrow> False | Some o' \<Rightarrow> o' \<noteq> expected_decision))
                (custom loc Chain_Decision))])
     | _ \<Rightarrow> Inr [])"

section \<open>The strongest outcome is the strictest\<close>

text \<open>The outcomes that count: those of the object layers that are in the severity table.\<close>

definition applicable_outcomes :: "json list \<Rightarrow> string list" where
  "applicable_outcomes ls = concat (map (\<lambda>l. case l of JObj d \<Rightarrow>
      (case get d ''layer_outcome'' of JStr s \<Rightarrow>
         if s \<in> fst ` set ACCESS_DECISION_SEVERITY then [s] else [] | _ \<Rightarrow> []) | _ \<Rightarrow> []) ls)"

definition layers_hashable :: "json list \<Rightarrow> bool" where
  "layers_hashable ls \<longleftrightarrow> (\<forall>d. JObj d \<in> set ls \<longrightarrow> hashable (get d ''layer_outcome''))"

definition access_severity :: "string \<Rightarrow> int" where
  "access_severity s = the (map_of ACCESS_DECISION_SEVERITY s)"

definition stronger_access :: "string \<Rightarrow> string \<Rightarrow> string" where
  "stronger_access a b = (if access_severity b > access_severity a then b else a)"

lemma access_table:
  "map_of ACCESS_DECISION_SEVERITY s \<noteq> None \<longleftrightarrow> s \<in> fst ` set ACCESS_DECISION_SEVERITY"
  by (simp add: map_of_eq_None_iff)

lemma access_severity_nonneg: "s \<in> fst ` set ACCESS_DECISION_SEVERITY \<Longrightarrow> 0 \<le> access_severity s"
  by (auto simp: access_severity_def ACCESS_DECISION_SEVERITY_def)

lemma not_applicable_unknown: "''NOT_APPLICABLE'' \<notin> fst ` set ACCESS_DECISION_SEVERITY"
  by (simp add: ACCESS_DECISION_SEVERITY_def)

lemma access_severity_inj:
  "inj_on access_severity (fst ` set ACCESS_DECISION_SEVERITY)"
  unfolding ACCESS_DECISION_SEVERITY_def access_severity_def by (simp add: inj_on_def)

interpretation access_order: restriction_order "map_of ACCESS_DECISION_SEVERITY" stronger_access
proof
  fix a b :: string and i j :: int
  assume a: "map_of ACCESS_DECISION_SEVERITY a = Some i"
  have known: "x \<in> fst ` set ACCESS_DECISION_SEVERITY" if "map_of ACCESS_DECISION_SEVERITY x = Some k" for x k
    using that access_table [of x] by simp
  show "a = b" if b: "map_of ACCESS_DECISION_SEVERITY b = Some i"
    using inj_onD [OF access_severity_inj] known [OF a] known [OF b] a b by (simp add: access_severity_def)
  show "stronger_access a b = (if j \<le> i then a else b)" if "map_of ACCESS_DECISION_SEVERITY b = Some j"
    using a that by (simp add: stronger_access_def access_severity_def)
qed

text \<open>The state of the loop after the outcomes \<open>os\<close>.\<close>

fun strongest :: "string list \<Rightarrow> json option \<times> int" where
  "strongest [] = (None, -1)"
| "strongest (o' # os) = (let s = foldl stronger_access o' os in (Some (JStr s), access_severity s))"

lemma strongest_append:
  assumes "o' \<in> fst ` set ACCESS_DECISION_SEVERITY"
  shows "strongest (os @ [o']) = (if access_severity o' > snd (strongest os)
           then (Some (JStr o'), access_severity o') else strongest os)"
  using assms access_severity_nonneg [OF assms]
  by (cases os) (auto simp: Let_def stronger_access_def)

lemma access_step_outcomes:
  assumes "\<And>d. l = JObj d \<Longrightarrow> hashable (get d ''layer_outcome'')"
  shows "access_step (strongest os) l = Inr (strongest (os @ applicable_outcomes [l]))"
proof (cases l)
  case (JObj d)
  show ?thesis
  proof (cases "get d ''layer_outcome''")
    case (JStr s)
    show ?thesis
    proof (cases "map_of ACCESS_DECISION_SEVERITY s")
      case None
      then have "s \<notin> fst ` set ACCESS_DECISION_SEVERITY" using access_table [of s] by simp
      with None JStr JObj show ?thesis by (simp add: access_step_def applicable_outcomes_def Let_def)
    next
      case (Some v)
      then have s: "s \<in> fst ` set ACCESS_DECISION_SEVERITY" using access_table [of s] by simp
      then have "s \<noteq> ''NOT_APPLICABLE''" using not_applicable_unknown by metis
      with Some s JStr JObj show ?thesis
        by (simp add: access_step_def applicable_outcomes_def Let_def strongest_append [OF s])
           (simp add: access_severity_def)
    qed
  qed (use assms [OF JObj] JObj in \<open>auto simp: access_step_def applicable_outcomes_def Let_def\<close>)
qed (simp_all add: access_step_def applicable_outcomes_def)

lemma applicable_outcomes_Cons: "applicable_outcomes (l # ls) = applicable_outcomes [l] @ applicable_outcomes ls"
  by (simp add: applicable_outcomes_def)

lemma access_fold:
  assumes "layers_hashable ls"
  shows "foldE access_step (strongest os) ls = Inr (strongest (os @ applicable_outcomes ls))"
  using assms
proof (induction ls arbitrary: os)
  case (Cons l ls)
  have "access_step (strongest os) l = Inr (strongest (os @ applicable_outcomes [l]))"
    by (rule access_step_outcomes) (use Cons.prems in \<open>auto simp: layers_hashable_def\<close>)
  moreover have "layers_hashable ls" using Cons.prems by (simp add: layers_hashable_def)
  ultimately show ?case
    using Cons.IH [of "os @ applicable_outcomes [l]"] by (simp add: applicable_outcomes_Cons [of l ls])
qed (simp add: applicable_outcomes_def)

lemma most_restrictive_access:
  assumes "layers_hashable ls"
  shows "most_restrictive_access_outcome (JList ls) =
    Inr (case applicable_outcomes ls of [] \<Rightarrow> None | o' # os \<Rightarrow> Some (JStr (foldl stronger_access o' os)))"
  using access_fold [OF assms, of "[]"]
  by (simp add: most_restrictive_access_outcome_def Let_def split: list.splits)

lemma applicable_known: "set (applicable_outcomes ls) \<subseteq> fst ` set ACCESS_DECISION_SEVERITY"
  by (auto simp: applicable_outcomes_def split: json.splits if_splits)

lemma strongest_access_is_max:
  assumes "set (o' # os) \<subseteq> fst ` set ACCESS_DECISION_SEVERITY"
  shows "foldl stronger_access o' os \<in> set (o' # os)"
    and "x \<in> set (o' # os) \<Longrightarrow> access_severity x \<le> access_severity (foldl stronger_access o' os)"
proof -
  have known: "map_of ACCESS_DECISION_SEVERITY y = Some (access_severity y)" if "y \<in> set (o' # os)" for y
    using assms that access_table [of y] by (auto simp: access_severity_def)
  show "foldl stronger_access o' os \<in> set (o' # os)"
    using access_order.foldl_stricter_mem [of o' os] known by auto
  have "map_of ACCESS_DECISION_SEVERITY (foldl stronger_access o' os)
      = Some (Max (insert (access_severity o') (the ` map_of ACCESS_DECISION_SEVERITY ` set os)))"
    by (rule access_order.foldl_stricter_severity) (use known in auto)
  also have "the ` map_of ACCESS_DECISION_SEVERITY ` set os = access_severity ` set os"
    by (simp add: access_severity_def image_image)
  finally have "access_severity (foldl stronger_access o' os) = Max (access_severity ` set (o' # os))"
    by (simp add: access_severity_def)
  then show "x \<in> set (o' # os) \<Longrightarrow> access_severity x \<le> access_severity (foldl stronger_access o' os)"
    by (simp only:) (rule Max_ge, auto)
qed

lemma deny_strongest:
  "s \<in> fst ` set ACCESS_DECISION_SEVERITY \<Longrightarrow> access_severity ''DENY'' \<le> access_severity s \<Longrightarrow> s = ''DENY''"
  by (auto simp: access_severity_def ACCESS_DECISION_SEVERITY_def)

lemma applicable_mem:
  "JObj d \<in> set ls \<Longrightarrow> get d ''layer_outcome'' = JStr s \<Longrightarrow> s \<in> fst ` set ACCESS_DECISION_SEVERITY \<Longrightarrow>
     s \<in> set (applicable_outcomes ls)"
  by (force simp: applicable_outcomes_def)

text \<open>The combined access outcome of a list of layers is an outcome of one of the applicable layers
  and at least as severe as every applicable layer's; it is absent exactly when no layer applies.\<close>

theorem access_outcome_is_strictest:
  assumes "layers_hashable ls"
  shows "case most_restrictive_access_outcome (JList ls) of
      Inl e \<Rightarrow> False
    | Inr None \<Rightarrow> applicable_outcomes ls = []
    | Inr (Some v) \<Rightarrow> \<exists>s \<in> set (applicable_outcomes ls). v = JStr s \<and>
        (\<forall>t \<in> set (applicable_outcomes ls). access_severity t \<le> access_severity s)"
proof (cases "applicable_outcomes ls")
  case Nil
  then show ?thesis by (simp add: most_restrictive_access [OF assms])
next
  case (Cons o' os)
  note max = strongest_access_is_max [of o' os, folded Cons, OF applicable_known]
  have "most_restrictive_access_outcome (JList ls) = Inr (Some (JStr (foldl stronger_access o' os)))"
    by (simp add: most_restrictive_access [OF assms] Cons)
  then show ?thesis using max by auto
qed

definition sample_layer :: "string \<Rightarrow> string \<Rightarrow> json" where
  "sample_layer code outcome = JObj [(''layer_code'', JStr code), (''layer_outcome'', JStr outcome)]"

theorem access_outcome_is_strictest_witness:
  "most_restrictive_access_outcome (JList [sample_layer ''a'' ''ALLOW'', JNull,
     sample_layer ''b'' ''NOT_APPLICABLE'', sample_layer ''c'' ''REQUIRE_STEP_UP'']) = Inr (Some (JStr ''REQUIRE_STEP_UP''))"
proof -
  let ?ls = "[sample_layer ''a'' ''ALLOW'', JNull, sample_layer ''b'' ''NOT_APPLICABLE'',
    sample_layer ''c'' ''REQUIRE_STEP_UP'']"
  have h: "layers_hashable ?ls" by (simp add: layers_hashable_def sample_layer_def)
  have o: "applicable_outcomes ?ls = [''ALLOW'', ''REQUIRE_STEP_UP'']"
    by (simp add: applicable_outcomes_def sample_layer_def ACCESS_DECISION_SEVERITY_def)
  have sev: "access_severity ''ALLOW'' = 0" "access_severity ''REQUIRE_STEP_UP'' = 2"
    by (simp_all add: access_severity_def ACCESS_DECISION_SEVERITY_def)
  show ?thesis
    using access_outcome_is_strictest [OF h] unfolding o by (auto simp: sev split: sum.splits option.splits)
qed

text \<open>The combined access outcome does not depend on the order of the layers.\<close>

theorem access_outcome_ignores_layer_order:
  assumes "layers_hashable ls" and "mset ls = mset ms"
  shows "most_restrictive_access_outcome (JList ls) = most_restrictive_access_outcome (JList ms)"
proof -
  have same: "set ls = set ms" using assms(2) by (rule mset_eq_setD)
  then have h: "layers_hashable ms" using assms(1) by (simp add: layers_hashable_def)
  have outcomes: "set (applicable_outcomes ls) = set (applicable_outcomes ms)"
    using same by (auto simp: applicable_outcomes_def)
  have known: "map_of ACCESS_DECISION_SEVERITY x \<noteq> None" if "x \<in> set (applicable_outcomes ls)" for x
    using that applicable_known [of ls] access_table [of x] by auto
  show ?thesis
  proof (cases "applicable_outcomes ls")
    case Nil
    then show ?thesis using outcomes
      by (simp add: most_restrictive_access [OF assms(1)] most_restrictive_access [OF h])
  next
    case (Cons a as)
    then obtain b bs where b: "applicable_outcomes ms = b # bs"
      using outcomes by (cases "applicable_outcomes ms") auto
    have sets: "insert a (set as) = insert b (set bs)" using outcomes Cons b by simp
    have "foldl stronger_access a as = foldl stronger_access b bs"
    proof (rule access_order.foldl_stricter_order_irrelevant)
      show "map_of ACCESS_DECISION_SEVERITY a \<noteq> None" "map_of ACCESS_DECISION_SEVERITY b \<noteq> None"
        "\<forall>x \<in> set as \<union> set bs. map_of ACCESS_DECISION_SEVERITY x \<noteq> None"
        using known Cons b outcomes by auto
    qed (rule sets)
    then show ?thesis
      by (simp add: most_restrictive_access [OF assms(1)] most_restrictive_access [OF h] Cons b)
  qed
qed

theorem access_outcome_ignores_layer_order_witness:
  "most_restrictive_access_outcome (JList [sample_layer ''a'' ''DENY'', sample_layer ''b'' ''ALLOW''])
   = most_restrictive_access_outcome (JList [sample_layer ''b'' ''ALLOW'', sample_layer ''a'' ''DENY''])"
  by (rule access_outcome_ignores_layer_order)
     (simp_all add: layers_hashable_def sample_layer_def add_mset_commute)

text \<open>A chain that the validator accepts for a decision has the four mandatory layers in their
  canonical order, and the decision is never weaker than any applicable layer; in particular a chain
  with a denying layer is only accepted for \<open>DENY\<close>.\<close>

theorem accepted_chain_never_weakens:
  assumes ok: "validate_authority_chain_layers (JList ls) (JStr decision) loc = Inr []"
    and layer: "JObj d \<in> set ls" "get d ''layer_outcome'' = JStr s" "s \<in> fst ` set ACCESS_DECISION_SEVERITY"
    and h: "layers_hashable ls"
  shows "take 4 (layer_codes ls) = map JStr (take 4 AUTHORITY_CHAIN_LAYER_ORDER) \<and>
    decision \<in> set (applicable_outcomes ls) \<and> access_severity s \<le> access_severity decision \<and>
    (s = ''DENY'' \<longrightarrow> decision = ''DENY'')"
proof -
  have mem: "s \<in> set (applicable_outcomes ls)" by (rule applicable_mem [OF layer])
  then obtain a as where outcomes: "applicable_outcomes ls = a # as"
    by (cases "applicable_outcomes ls") auto
  note max = strongest_access_is_max [of a as, folded outcomes, OF applicable_known]
  have codes: "take 4 (layer_codes ls) = map JStr (take 4 AUTHORITY_CHAIN_LAYER_ORDER)"
    and decision: "decision = foldl stronger_access a as"
    using ok by (auto simp: validate_authority_chain_layers_def Let_def most_restrictive_access [OF h] outcomes)
  have d: "decision \<in> set (applicable_outcomes ls)" "access_severity s \<le> access_severity decision"
    using max(1) max(2) [OF mem] by (simp_all add: decision)
  have known: "decision \<in> fst ` set ACCESS_DECISION_SEVERITY" using d(1) applicable_known by blast
  have "decision = ''DENY''" if "s = ''DENY''"
    using deny_strongest [OF known] d(2) that by blast
  then show ?thesis using codes d by blast
qed

theorem accepted_chain_never_weakens_witness:
  "validate_authority_chain_layers (JList (map (\<lambda>c. sample_layer c ''DENY'') (take 4 AUTHORITY_CHAIN_LAYER_ORDER)))
     (JStr ''DENY'') ''x'' = Inr []
   \<and> access_severity ''DENY'' \<le> access_severity ''DENY''"
proof -
  let ?ls = "map (\<lambda>c. sample_layer c ''DENY'') (take 4 AUTHORITY_CHAIN_LAYER_ORDER)"
  have h: "layers_hashable ?ls"
    by (simp add: layers_hashable_def sample_layer_def AUTHORITY_CHAIN_LAYER_ORDER_def)
  have o: "applicable_outcomes ?ls = replicate 4 ''DENY''"
    by (simp add: applicable_outcomes_def sample_layer_def ACCESS_DECISION_SEVERITY_def
        AUTHORITY_CHAIN_LAYER_ORDER_def numeral_eq_Suc)
  have mr: "most_restrictive_access_outcome (JList ?ls) = Inr (Some (JStr ''DENY''))"
    by (simp only: most_restrictive_access [OF h] o) (simp add: numeral_eq_Suc stronger_access_def)
  have codes: "layer_codes ?ls = map JStr (take 4 AUTHORITY_CHAIN_LAYER_ORDER)"
    by (simp add: layer_codes_def sample_layer_def AUTHORITY_CHAIN_LAYER_ORDER_def)
  have ok: "validate_authority_chain_layers (JList ?ls) (JStr ''DENY'') ''x'' = Inr []"
    by (simp only: validate_authority_chain_layers_def json.case Let_def codes mr bindE_Inr)
       (simp add: AUTHORITY_CHAIN_LAYER_ORDER_def)
  have "sample_layer ''SESSION_AUTHN_POSTURE'' ''DENY'' \<in> set ?ls"
    by (simp add: AUTHORITY_CHAIN_LAYER_ORDER_def)
  then show ?thesis
    using accepted_chain_never_weakens [OF ok _ _ _ h, of _ "''DENY''"] ok
    by (auto simp: sample_layer_def ACCESS_DECISION_SEVERITY_def)
qed

end
