(* ===== verification/Scope_Sequence.thy ===== *)
theory Scope_Sequence
  imports Py_Prelude "HOL-Library.List_Lexorder" "HOL-Library.Char_ord"
begin

text \<open>
  Frozen scopes of \<open>Algorithm/scripts/validate_contracts.py\<close>: the validator of a scope-token sequence,
  the scope family and atomicity it stands for, and the validators of sorted reference lists.
  Python compares strings by code point: the lexicographic order of the library on \<open>string\<close>.
\<close>

definition SCOPE_TOKEN_ORDER :: "(string \<times> nat) list" where
  "SCOPE_TOKEN_ORDER =
    [(''year_end'', 0), (''quarterly_update'', 1), (''estimate_only'', 2), (''prepare_submission'', 3),
     (''submit'', 4), (''amendment_intent'', 5), (''amendment_submit'', 6)]"

definition REPORTING_SCOPE_TOKENS :: "string list" where
  "REPORTING_SCOPE_TOKENS = [''year_end'', ''quarterly_update'', ''estimate_only'']"

definition LIVE_SCOPE_TOKENS :: "string list" where
  "LIVE_SCOPE_TOKENS = [''prepare_submission'', ''submit'', ''amendment_intent'', ''amendment_submit'']"

definition SCOPE_FAMILY_BY_ACTION_TOKENS :: "(string list \<times> string) list" where
  "SCOPE_FAMILY_BY_ACTION_TOKENS =
    [([], ''READ_ONLY''), ([''prepare_submission''], ''PREPARE_ONLY''),
     ([''prepare_submission'', ''submit''], ''PREPARE_AND_SUBMIT''),
     ([''amendment_intent''], ''AMENDMENT_INTENT''), ([''amendment_submit''], ''AMENDMENT_SUBMIT'')]"

datatype scope_issue =
    Scope_Empty | Unknown_Tokens "json list" | Reporting_Count | Reporting_First
  | Scope_Order "string list" | Estimate_With_Action | Submit_Without_Prepare
  | Intent_Anchor | Intent_Mixed "string list" | Amendment_Submit_Anchor
  | Amendment_Submit_Mixed "string list" | Sequence_Empty | Sequence_Order "string list"
  | Spine_Missing_Manifest | Spine_First | Spine_Tail_Order "string list"

definition scope_rank :: "string \<Rightarrow> nat" where
  "scope_rank token = the (map_of SCOPE_TOKEN_ORDER token)"

text \<open>The checks on a sequence of known tokens.\<close>

definition scope_checks :: "string \<Rightarrow> string list \<Rightarrow> scope_issue verdict" where
  "scope_checks loc scope =
    (let reporting_tokens = filter (\<lambda>t. t \<in> set REPORTING_SCOPE_TOKENS) scope;
         expected_scope = sort_key scope_rank scope;
         action_tokens = remdups (filter (\<lambda>t. t \<notin> set REPORTING_SCOPE_TOKENS) scope);
         unexpected = (\<lambda>token. sort (filter (\<lambda>t. t \<noteq> token) action_tokens))
     in run_checks
      [report_if (length reporting_tokens \<noteq> 1) (custom loc Reporting_Count),
       report_if (hd scope \<notin> set REPORTING_SCOPE_TOKENS) (custom loc Reporting_First),
       report_if (scope \<noteq> expected_scope) (custom loc (Scope_Order expected_scope)),
       report_if (hd scope = ''estimate_only'' \<and> action_tokens \<noteq> []) (custom loc Estimate_With_Action),
       report_if (''submit'' \<in> set action_tokens \<and> ''prepare_submission'' \<notin> set action_tokens)
         (custom loc Submit_Without_Prepare),
       report_if (''amendment_intent'' \<in> set action_tokens \<and> hd scope \<noteq> ''year_end'')
         (custom loc Intent_Anchor),
       report_if (''amendment_intent'' \<in> set action_tokens \<and> unexpected ''amendment_intent'' \<noteq> [])
         (custom loc (Intent_Mixed (unexpected ''amendment_intent''))),
       report_if (''amendment_submit'' \<in> set action_tokens \<and> hd scope \<noteq> ''year_end'')
         (custom loc Amendment_Submit_Anchor),
       report_if (''amendment_submit'' \<in> set action_tokens \<and> unexpected ''amendment_submit'' \<noteq> [])
         (custom loc (Amendment_Submit_Mixed (unexpected ''amendment_submit'')))])"

definition strings_of :: "json list \<Rightarrow> string list" where
  "strings_of vs = concat (map (\<lambda>v. case v of JStr s \<Rightarrow> [s] | _ \<Rightarrow> []) vs)"

definition validate_scope_sequence :: "json \<Rightarrow> string \<Rightarrow> bool \<Rightarrow> scope_issue verdict" where
  "validate_scope_sequence scope loc allow_empty =
    (case scope of
       JList tokens \<Rightarrow>
         if tokens = [] then report_if (\<not> allow_empty) (custom loc Scope_Empty)
         else bindE (mapE (\<lambda>token. notE (in_strs token (map fst SCOPE_TOKEN_ORDER))) tokens) (\<lambda>unknown.
           let unknown_tokens = map fst (filter snd (zip tokens unknown))
           in if unknown_tokens \<noteq> [] then Inr [custom loc (Unknown_Tokens unknown_tokens)]
              else scope_checks loc (strings_of tokens))
     | _ \<Rightarrow> Inr [])"

definition derive_scope_family :: "json \<Rightarrow> py_exn + string option" where
  "derive_scope_family scope =
    (case scope of
       JList tokens \<Rightarrow>
         bindE (mapE (\<lambda>token. notE (in_strs token REPORTING_SCOPE_TOKENS)) tokens) (\<lambda>action.
           let action_tokens = map fst (filter snd (zip tokens action))
           in Inr (map_option snd (find (\<lambda>(names, family). set action_tokens = JStr ` set names)
                SCOPE_FAMILY_BY_ACTION_TOKENS)))
     | _ \<Rightarrow> Inr None)"

text \<open>\<open>any(...)\<close> stops at the first live token.\<close>

fun any_live :: "json list \<Rightarrow> py_exn + bool" where
  "any_live [] = Inr False"
| "any_live (token # tokens) = orE (in_strs token LIVE_SCOPE_TOKENS) (any_live tokens)"

definition expected_scope_mutation_atomicity :: "json \<Rightarrow> py_exn + string option" where
  "expected_scope_mutation_atomicity scope =
    (case scope of
       JList tokens \<Rightarrow> bindE (any_live tokens) (\<lambda>live.
         Inr (Some (if live then ''ATOMIC_REQUIRED'' else ''NARROWING_ALLOWED'')))
     | _ \<Rightarrow> Inr None)"

section \<open>Sorted references\<close>

definition validate_sorted_string_sequence :: "json \<Rightarrow> string \<Rightarrow> bool \<Rightarrow> scope_issue verdict" where
  "validate_sorted_string_sequence values loc allow_empty =
    (case values of
       JList vs \<Rightarrow>
         if vs = [] then report_if (\<not> allow_empty) (custom loc Sequence_Empty)
         else if \<not> list_all is_str vs then Inr []
         else (let expected = sort (strings_of vs)
               in report_if (strings_of vs \<noteq> expected) (custom loc (Sequence_Order expected)))
     | _ \<Rightarrow> Inr [])"

definition validate_manifest_ref_spine :: "json \<Rightarrow> json \<Rightarrow> string \<Rightarrow> scope_issue verdict" where
  "validate_manifest_ref_spine manifest_id manifest_refs loc =
    (case manifest_refs of
       JList vs \<Rightarrow>
         if \<not> list_all is_str vs then Inr []
         else if vs = [] then Inr [custom loc Sequence_Empty]
         else if \<not> nonempty_str manifest_id then Inr []
         else if manifest_id \<notin> set vs then Inr [custom loc Spine_Missing_Manifest]
         else (let tail = tl (strings_of vs); expected_tail = sort tail
               in run_checks
                 [report_if (hd vs \<noteq> manifest_id) (custom loc Spine_First),
                  report_if (tail \<noteq> expected_tail) (custom loc (Spine_Tail_Order expected_tail))])
     | _ \<Rightarrow> Inr [])"

section \<open>What a valid scope is\<close>

text \<open>The declarative reading: one reporting token, then the action tokens in frozen order, and the
  set of action tokens is one the reporting token supports.\<close>

definition supported_actions :: "string \<Rightarrow> string set \<Rightarrow> bool" where
  "supported_actions r A \<longleftrightarrow> A = {} \<or>
     r \<noteq> ''estimate_only'' \<and> (A = {''prepare_submission''} \<or> A = {''prepare_submission'', ''submit''}) \<or>
     r = ''year_end'' \<and> (A = {''amendment_intent''} \<or> A = {''amendment_submit''})"

definition valid_scope :: "string list \<Rightarrow> bool" where
  "valid_scope scope \<longleftrightarrow> (\<exists>r acts. scope = r # acts \<and> r \<in> set REPORTING_SCOPE_TOKENS \<and>
     set acts \<subseteq> set LIVE_SCOPE_TOKENS \<and> sorted (map scope_rank acts) \<and> supported_actions r (set acts))"

lemma known_tokens:
  "fst ` set SCOPE_TOKEN_ORDER = set REPORTING_SCOPE_TOKENS \<union> set LIVE_SCOPE_TOKENS"
  by (simp add: SCOPE_TOKEN_ORDER_def REPORTING_SCOPE_TOKENS_def LIVE_SCOPE_TOKENS_def insert_commute)

lemma reporting_live_disjoint: "set REPORTING_SCOPE_TOKENS \<inter> set LIVE_SCOPE_TOKENS = {}"
  by (simp add: REPORTING_SCOPE_TOKENS_def LIVE_SCOPE_TOKENS_def)

lemma reporting_rank: "t \<in> set REPORTING_SCOPE_TOKENS \<Longrightarrow> scope_rank t \<le> 2"
  by (auto simp: REPORTING_SCOPE_TOKENS_def scope_rank_def SCOPE_TOKEN_ORDER_def)

lemma live_rank: "t \<in> set LIVE_SCOPE_TOKENS \<Longrightarrow> 3 \<le> scope_rank t"
  by (auto simp: LIVE_SCOPE_TOKENS_def scope_rank_def SCOPE_TOKEN_ORDER_def)

lemma sort_key_fixed: "sort_key f xs = xs \<longleftrightarrow> sorted (map f xs)"
  by (metis sort_key_id sorted_sort_key)

text \<open>The membership conditions of the code against the set of action tokens, for four distinct
  action tokens \<open>p\<close>, \<open>s\<close>, \<open>i\<close>, \<open>m\<close>.\<close>

lemma action_conditions:
  assumes "A \<subseteq> {p, s, i, m}" and "distinct [p, s, i, m]" and "est \<noteq> year"
  shows "A = {} \<or> r \<noteq> est \<and> (A = {p} \<or> A = {p, s}) \<or> r = year \<and> (A = {i} \<or> A = {m}) \<longleftrightarrow>
    \<not> (r = est \<and> A \<noteq> {}) \<and> \<not> (s \<in> A \<and> p \<notin> A) \<and>
    \<not> (i \<in> A \<and> r \<noteq> year) \<and> \<not> (i \<in> A \<and> A - {i} \<noteq> {}) \<and>
    \<not> (m \<in> A \<and> r \<noteq> year) \<and> \<not> (m \<in> A \<and> A - {m} \<noteq> {})"
  (is "?l \<longleftrightarrow> ?r")
proof
  assume ?l
  then show ?r using assms(2,3) by (elim disjE conjE) auto
next
  assume r: ?r
  consider (intent) "i \<in> A" | (submit) "m \<in> A" "i \<notin> A" | (other) "m \<notin> A" "i \<notin> A" by blast
  then show ?l
  proof cases
    case intent
    then have "A = {i}" "r = year" using r by blast+
    then show ?thesis by blast
  next
    case submit
    then have "A = {m}" "r = year" using r by blast+
    then show ?thesis by blast
  next
    case other
    then have sub: "A \<subseteq> {p, s}" using assms(1) by blast
    have "s \<in> A \<longrightarrow> p \<in> A" using r by blast
    with sub have "A = {} \<or> A = {p} \<or> A = {p, s}" by blast
    moreover have "r \<noteq> est \<or> A = {}" using r by blast
    ultimately show ?thesis by blast
  qed
qed

lemma supported_actions_checks:
  assumes "A \<subseteq> set LIVE_SCOPE_TOKENS"
  shows "supported_actions r A \<longleftrightarrow>
    \<not> (r = ''estimate_only'' \<and> A \<noteq> {}) \<and>
    \<not> (''submit'' \<in> A \<and> ''prepare_submission'' \<notin> A) \<and>
    \<not> (''amendment_intent'' \<in> A \<and> r \<noteq> ''year_end'') \<and>
    \<not> (''amendment_intent'' \<in> A \<and> A - {''amendment_intent''} \<noteq> {}) \<and>
    \<not> (''amendment_submit'' \<in> A \<and> r \<noteq> ''year_end'') \<and>
    \<not> (''amendment_submit'' \<in> A \<and> A - {''amendment_submit''} \<noteq> {})"
  unfolding supported_actions_def
proof (rule action_conditions)
  show "A \<subseteq> {''prepare_submission'', ''submit'', ''amendment_intent'', ''amendment_submit''}"
    using assms unfolding LIVE_SCOPE_TOKENS_def by (simp only: list.set)
qed simp_all

lemma set_filter_remdups_minus: "set (filter (\<lambda>t. t \<noteq> k) (remdups xs)) = set xs - {k}"
  by auto

lemma filter_reporting_once:
  assumes "scope = r # acts" and "r \<in> set REPORTING_SCOPE_TOKENS"
  shows "length (filter (\<lambda>t. t \<in> set REPORTING_SCOPE_TOKENS) scope) = 1
     \<longleftrightarrow> set acts \<inter> set REPORTING_SCOPE_TOKENS = {}"
  using assms by (auto simp: filter_empty_conv)

lemma scope_checks_iff:
  assumes "scope \<noteq> []" and known: "set scope \<subseteq> fst ` set SCOPE_TOKEN_ORDER"
  shows "scope_checks loc scope = Inr [] \<longleftrightarrow> valid_scope scope"
proof -
  obtain r acts where scope: "scope = r # acts" using assms(1) by (cases scope) auto
  show ?thesis
  proof (cases "r \<in> set REPORTING_SCOPE_TOKENS \<and> set acts \<inter> set REPORTING_SCOPE_TOKENS = {}")
    case False
    have "\<not> valid_scope scope"
      using False reporting_live_disjoint by (auto simp: valid_scope_def scope)
    moreover have "scope_checks loc scope \<noteq> Inr []"
      using False filter_reporting_once [OF scope] by (auto simp: scope_checks_def Let_def scope)
    ultimately show ?thesis by simp
  next
    case True
    then have r: "r \<in> set REPORTING_SCOPE_TOKENS" and live: "set acts \<subseteq> set LIVE_SCOPE_TOKENS"
      using known known_tokens by (auto simp: scope)
    have actions: "filter (\<lambda>t. t \<notin> set REPORTING_SCOPE_TOKENS) scope = acts"
      using True by (auto simp: scope filter_id_conv)
    have "sorted (map scope_rank scope) \<longleftrightarrow> sorted (map scope_rank acts)"
      using reporting_rank [OF r] live_rank live by (fastforce simp: scope)
    moreover have "sort (filter (\<lambda>t. t \<noteq> k) (remdups acts)) \<noteq> [] \<longleftrightarrow> set acts - {k} \<noteq> {}" for k
    proof -
      have "sort (filter (\<lambda>t. t \<noteq> k) (remdups acts)) = [] \<longleftrightarrow> set acts - {k} = {}"
        by (metis set_filter_remdups_minus set_sort set_empty)
      then show ?thesis by simp
    qed
    moreover have "acts \<noteq> [] \<longleftrightarrow> set acts \<noteq> {}" by simp
    moreover have "scope = sort_key scope_rank scope \<longleftrightarrow> sorted (map scope_rank scope)"
      by (metis sort_key_fixed)
    ultimately show ?thesis
      using True live filter_reporting_once [OF scope r] supported_actions_checks [OF live, of r]
      unfolding scope_checks_def Let_def actions valid_scope_def
      by (simp add: scope)
  qed
qed

lemma mapE_in_strs:
  "mapE (\<lambda>token. notE (in_strs token names)) (map JStr scope) = Inr (map (\<lambda>t. t \<notin> set names) scope)"
  by (induction scope) simp_all

lemma zip_filter_map: "map fst (filter snd (zip xs (map P xs))) = filter P xs"
  by (induction xs) simp_all

lemma mapE_unknown_strs:
  assumes "mapE (\<lambda>token. notE (in_strs token names)) vs = Inr us" and "\<not> (\<exists>u \<in> set us. u)"
  shows "\<exists>scope. vs = map JStr scope \<and> set scope \<subseteq> set names"
  using assms
proof (induction vs arbitrary: us)
  case (Cons v vs)
  then obtain u us' where "notE (in_strs v names) = Inr u"
    "mapE (\<lambda>token. notE (in_strs token names)) vs = Inr us'" "us = u # us'"
    by (auto simp: bindE_eq_Inr_iff)
  with Cons obtain scope s where "vs = map JStr scope" "set scope \<subseteq> set names" "v = JStr s" "s \<in> set names"
    by (auto simp: notE_Inr_iff in_strs_True_iff)
  then show ?case by (intro exI [of _ "s # scope"]) simp
qed simp

lemma strings_of_map [simp]: "strings_of (map JStr xs) = xs"
  by (induction xs) (simp_all add: strings_of_def)

lemma strings_of_strs: "list_all is_str vs \<Longrightarrow> map JStr (strings_of vs) = vs"
  by (induction vs) (auto simp: strings_of_def is_str_def split: json.splits)

lemma zip_filter_map_JStr:
  "map fst (filter snd (zip (map JStr xs) (map P xs))) = map JStr (filter P xs)"
  by (induction xs) simp_all

lemma zip_filter_JStr_Nil [simp]:
  "filter snd (zip (map JStr xs) (map P xs)) = [] \<longleftrightarrow> (\<forall>x \<in> set xs. \<not> P x)"
  by (induction xs) simp_all

lemma no_unknown_tokens:
  "length us = length vs \<Longrightarrow> map fst (filter snd (zip vs us)) = [] \<longleftrightarrow> \<not> (\<exists>u \<in> set us. u)"
  by (induction vs us rule: list_induct2') auto

lemma accepted_scope:
  assumes "tokens \<noteq> []" and ok: "validate_scope_sequence (JList tokens) loc allow_empty = Inr []"
  shows "\<exists>scope. tokens = map JStr scope \<and> valid_scope scope"
proof -
  obtain us where us: "mapE (\<lambda>token. notE (in_strs token (map fst SCOPE_TOKEN_ORDER))) tokens = Inr us"
    using assms by (auto simp: validate_scope_sequence_def bindE_eq_Inr_iff)
  with ok assms have none: "map fst (filter snd (zip tokens us)) = []"
    and checks: "scope_checks loc (strings_of tokens) = Inr []"
    by (auto simp: validate_scope_sequence_def Let_def split: if_splits)
  obtain scope where scope: "tokens = map JStr scope" "set scope \<subseteq> set (map fst SCOPE_TOKEN_ORDER)"
    using mapE_unknown_strs [OF us] none no_unknown_tokens [OF mapE_Inr_length [OF us]] by blast
  then have "valid_scope scope"
    using checks assms by (simp add: scope_checks_iff)
  with scope(1) show ?thesis by blast
qed

lemma valid_scope_accepted:
  assumes "valid_scope scope"
  shows "validate_scope_sequence (JList (map JStr scope)) loc allow_empty = Inr []"
proof -
  have ne: "scope \<noteq> []" and known: "set scope \<subseteq> fst ` set SCOPE_TOKEN_ORDER"
    using assms known_tokens by (auto simp: valid_scope_def)
  have "\<forall>t \<in> set scope. t \<in> fst ` set SCOPE_TOKEN_ORDER" using known by blast
  then have "validate_scope_sequence (JList (map JStr scope)) loc allow_empty = scope_checks loc scope"
    using ne by (simp add: validate_scope_sequence_def mapE_in_strs zip_filter_map_JStr Let_def)
  then show ?thesis using assms ne known by (simp add: scope_checks_iff)
qed

text \<open>C26: the validator accepts a non-empty list as a frozen scope exactly when it is one reporting
  token followed by action tokens in the frozen order, and the set of action tokens is one that the
  reporting token supports: none; prepare or prepare and submit, unless the scope is estimate-only;
  a single amendment token for a year-end scope.\<close>

theorem scope_accepted_iff_valid:
  assumes "tokens \<noteq> []"
  shows "validate_scope_sequence (JList tokens) loc allow_empty = Inr [] \<longleftrightarrow>
    (\<exists>scope. tokens = map JStr scope \<and> valid_scope scope)"
  using accepted_scope [OF assms] valid_scope_accepted by blast

lemma year_end_submit_valid: "valid_scope [''year_end'', ''prepare_submission'', ''submit'']"
  unfolding valid_scope_def
  by (intro exI conjI, rule refl)
     (simp_all add: REPORTING_SCOPE_TOKENS_def LIVE_SCOPE_TOKENS_def scope_rank_def SCOPE_TOKEN_ORDER_def
        supported_actions_def)

theorem scope_accepted_iff_valid_witness:
  "validate_scope_sequence (JList (map JStr [''year_end'', ''prepare_submission'', ''submit''])) ''scope'' False
     = Inr []"
  using scope_accepted_iff_valid [of "map JStr [''year_end'', ''prepare_submission'', ''submit'']" "''scope''" False]
    year_end_submit_valid by blast

lemma family_of_actions:
  assumes "set acts \<subseteq> set LIVE_SCOPE_TOKENS" and "r \<in> set REPORTING_SCOPE_TOKENS"
  shows "derive_scope_family (JList (map JStr (r # acts))) = Inr (map_option snd
    (find (\<lambda>(names, family). set acts = set names) SCOPE_FAMILY_BY_ACTION_TOKENS))"
proof -
  have acts: "filter (\<lambda>t. t \<notin> set REPORTING_SCOPE_TOKENS) (r # acts) = acts"
    using assms reporting_live_disjoint by (auto simp: filter_id_conv)
  have img: "set (map JStr acts) = JStr ` set names \<longleftrightarrow> set acts = set names" for names
    unfolding set_map by (rule inj_image_eq_iff) (simp add: inj_def)
  show ?thesis
    unfolding derive_scope_family_def json.case mapE_in_strs bindE_Inr Let_def zip_filter_map_JStr acts img
    by (rule refl)
qed

lemma supported_family:
  assumes "supported_actions r A"
  shows "\<exists>f. map_option snd (find (\<lambda>(names, family). A = set names) SCOPE_FAMILY_BY_ACTION_TOKENS) = Some f
    \<and> (f = ''READ_ONLY'' \<longleftrightarrow> A = {})"
proof -
  have ne: "{''prepare_submission''} \<noteq> {''prepare_submission'', ''submit''}"
    "{''amendment_intent''} \<noteq> {''prepare_submission'', ''submit''}"
    "{''amendment_submit''} \<noteq> {''prepare_submission'', ''submit''}" by auto
  show ?thesis
    using assms unfolding supported_actions_def
    by (elim disjE conjE) (simp_all add: SCOPE_FAMILY_BY_ACTION_TOKENS_def ne ne [symmetric])
qed

lemma any_live_strs: "any_live (map JStr xs) = Inr (\<exists>x \<in> set xs. x \<in> set LIVE_SCOPE_TOKENS)"
  by (induction xs) (auto simp: orE_def)

text \<open>Every accepted scope has a scope family, and it must be mutated atomically exactly when that
  family is not \<open>READ_ONLY\<close>.\<close>

theorem accepted_scope_has_family:
  assumes "tokens \<noteq> []" and "validate_scope_sequence (JList tokens) loc allow_empty = Inr []"
  shows "\<exists>family. derive_scope_family (JList tokens) = Inr (Some family) \<and>
    expected_scope_mutation_atomicity (JList tokens)
      = Inr (Some (if family = ''READ_ONLY'' then ''NARROWING_ALLOWED'' else ''ATOMIC_REQUIRED''))"
proof -
  obtain r acts where tokens: "tokens = map JStr (r # acts)" and r: "r \<in> set REPORTING_SCOPE_TOKENS"
    and acts: "set acts \<subseteq> set LIVE_SCOPE_TOKENS" "supported_actions r (set acts)"
    using accepted_scope [OF assms] by (auto simp: valid_scope_def)
  have "(\<exists>x \<in> set (r # acts). x \<in> set LIVE_SCOPE_TOKENS) \<longleftrightarrow> set acts \<noteq> {}"
    using r acts(1) reporting_live_disjoint by (cases acts) auto
  then have "expected_scope_mutation_atomicity (JList tokens)
      = Inr (Some (if set acts = {} then ''NARROWING_ALLOWED'' else ''ATOMIC_REQUIRED''))"
    unfolding expected_scope_mutation_atomicity_def json.case tokens any_live_strs by simp
  then show ?thesis
    using supported_family [OF acts(2)] unfolding tokens family_of_actions [OF acts(1) r] by auto
qed

theorem accepted_scope_has_family_witness:
  "\<exists>family. derive_scope_family (JList (map JStr [''year_end'', ''prepare_submission'', ''submit'']))
     = Inr (Some family)"
proof -
  have "validate_scope_sequence (JList (map JStr [''year_end'', ''prepare_submission'', ''submit''])) ''scope'' False
     = Inr []"
    by (rule valid_scope_accepted [OF year_end_submit_valid])
  then show ?thesis
    using accepted_scope_has_family [of "map JStr [''year_end'', ''prepare_submission'', ''submit'']" "''scope''" False]
    by blast
qed

text \<open>A manifest reference spine with a non-empty identifier is accepted exactly when it starts with
  the owning manifest and lists the other references in sorted order.\<close>

theorem spine_accepted_iff:
  assumes "m \<noteq> []"
  shows "validate_manifest_ref_spine (JStr m) (JList (map JStr refs)) loc = Inr [] \<longleftrightarrow>
    (\<exists>rest. refs = m # rest \<and> sorted rest)"
proof (cases refs)
  case (Cons x xs)
  have fixed: "ys = sort ys \<longleftrightarrow> sorted ys" for ys :: "string list"
    by (metis sort_key_fixed list.map_ident)
  have parts: "list_all is_str (map JStr refs) = True" "tl (strings_of (map JStr refs)) = xs"
    "(hd (map JStr refs) \<noteq> JStr m) = (x \<noteq> m)" "(map JStr refs = []) = False"
    "(JStr m \<notin> set (map JStr refs)) = (m \<notin> set refs)" "nonempty_str (JStr m) = True"
    using assms unfolding strings_of_map by (auto simp: list_all_iff Cons)
  show ?thesis
    unfolding validate_manifest_ref_spine_def json.case Let_def parts fixed by (auto simp: Cons)
qed (simp add: validate_manifest_ref_spine_def)

theorem spine_accepted_iff_witness:
  "validate_manifest_ref_spine (JStr ''m2'') (JList (map JStr [''m2'', ''m1'', ''m3''])) ''x'' = Inr []"
proof -
  have "sorted [''m1'', ''m3'']" by (simp add: less_eq_char_def)
  then show ?thesis
    using spine_accepted_iff [of "''m2''" "[''m2'', ''m1'', ''m3'']" "''x''"] by simp
qed

end
