(* ===== verification/Manifest_Branch.thy ===== *)
theory Manifest_Branch
  imports Scope_Sequence
begin

text \<open>
  Manifest branch decisions of \<open>Algorithm/scripts/validate_contracts.py\<close>: which manifest a request
  continues, reuses or opens, and the validator of the frozen decision.
\<close>

definition REPLAY_CLASSES :: "string list" where
  "REPLAY_CLASSES = [''STANDARD_REPLAY'', ''AUDIT_REPLAY'', ''COUNTERFACTUAL_ANALYSIS'']"

definition MANIFEST_BRANCH_REASON_CODES :: "string list" where
  "MANIFEST_BRANCH_REASON_CODES =
    [''NO_PRIOR_MANIFEST'', ''TERMINAL_IDEMPOTENT_RETRY'', ''PRESTART_SEALED_CONTEXT_REUSE'',
     ''REPLAY_REQUESTED_EXACT'', ''STARTED_ATTEMPT_RECOVERY'', ''POST_TERMINAL_CONTINUATION_REQUIRED'',
     ''REQUEST_IDENTITY_CHANGED'', ''NIGHTLY_WINDOW_ADVANCED'']"

definition MANIFEST_BRANCH_ACTIONS :: "string list" where
  "MANIFEST_BRANCH_ACTIONS =
    [''NEW_MANIFEST'', ''RETURN_EXISTING_BUNDLE'', ''REUSE_SEALED_MANIFEST'', ''REPLAY_CHILD'',
     ''RECOVERY_CHILD'', ''CONTINUATION_CHILD'', ''NEW_REQUEST_CHILD'']"

definition CHILD_CONTINUATION_BASES :: "string list" where
  "CHILD_CONTINUATION_BASES =
    [''REPLAY_CHILD'', ''RECOVERY_CHILD'', ''CONTINUATION_CHILD'', ''NEW_REQUEST_CHILD'']"

definition TERMINAL_MANIFEST_LIFECYCLE_STATES :: "string list" where
  "TERMINAL_MANIFEST_LIFECYCLE_STATES =
    [''COMPLETED'', ''BLOCKED'', ''FAILED'', ''SUPERSEDED'', ''REPLAY_ONLY'', ''RETIRED'']"

definition expected_manifest_branch_reason_code :: "json \<Rightarrow> json \<Rightarrow> string option" where
  "expected_manifest_branch_reason_code branch_action run_kind =
    (if branch_action = JStr ''NEW_MANIFEST'' then Some ''NO_PRIOR_MANIFEST''
     else if branch_action = JStr ''RETURN_EXISTING_BUNDLE'' then Some ''TERMINAL_IDEMPOTENT_RETRY''
     else if branch_action = JStr ''REUSE_SEALED_MANIFEST'' then Some ''PRESTART_SEALED_CONTEXT_REUSE''
     else if branch_action = JStr ''REPLAY_CHILD'' then Some ''REPLAY_REQUESTED_EXACT''
     else if branch_action = JStr ''RECOVERY_CHILD'' then Some ''STARTED_ATTEMPT_RECOVERY''
     else if branch_action = JStr ''CONTINUATION_CHILD'' then
       Some (if run_kind = JStr ''NIGHTLY'' then ''NIGHTLY_WINDOW_ADVANCED''
             else ''POST_TERMINAL_CONTINUATION_REQUIRED'')
     else if branch_action = JStr ''NEW_REQUEST_CHILD'' then Some ''REQUEST_IDENTITY_CHANGED''
     else None)"

datatype branch_issue =
    In_Scope scope_issue | Unknown_Action | Unknown_Reason | Missing_Request_Hash
  | Scope_Widened "json list" | Reason_Mismatch string | Nightly_Key_Missing | Nightly_Key_Unexpected
  | Replay_Class_Missing | Replay_Class_Unexpected | Prior_Unpaired
  | Root_Generation | Root_Mismatch | Root_Lineage "string list"
  | Child_Generation | Child_Parent_Missing | Replay_Parent_Mismatch | Bundle_Hash_Unexpected
  | New_Basis | New_Prior | New_Inheritance
  | Return_Prior | Return_Not_Terminal | Return_Bundle_Missing | Return_Inheritance
  | Reuse_Prior | Reuse_Not_Sealed | Reuse_Inheritance
  | Child_Basis string | Child_Prior | Child_Same_Manifest
  | Replay_Of_Mismatch | Replay_Inheritance | Recovery_Inheritance
  | Child_Config_Inheritance | Child_Input_Inheritance

text \<open>\<open>a != b\<close> on JSON values.\<close>

abbreviation differ :: "json \<Rightarrow> json \<Rightarrow> bool" where
  "differ a b \<equiv> \<not> py_eq a b"

text \<open>The validator in the order of its sections: scopes, identity, run kind, lineage, action.\<close>

definition branch_scope_checks :: "obj \<Rightarrow> string \<Rightarrow> branch_issue verdict" where
  "branch_scope_checks d loc = run_checks
    [lift_issues In_Scope (validate_scope_sequence (get d ''requested_scope'') loc False),
     lift_issues In_Scope (validate_scope_sequence (get d ''effective_scope'') loc False)]"

definition branch_identity_checks :: "obj \<Rightarrow> string \<Rightarrow> branch_issue verdict" where
  "branch_identity_checks d loc =
    (let branch_action = get d ''branch_action''; branch_reason_code = get d ''branch_reason_code'';
         expected_reason_code =
           expected_manifest_branch_reason_code branch_action (get d ''run_kind'')
     in run_checks
      [report_ifE (notE (in_strs branch_action MANIFEST_BRANCH_ACTIONS)) (custom loc Unknown_Action),
       report_ifE (notE (in_strs branch_reason_code MANIFEST_BRANCH_REASON_CODES))
         (custom loc Unknown_Reason),
       report_if (\<not> nonempty_str (get d ''request_identity_hash'')) (custom loc Missing_Request_Hash),
       (case (get d ''requested_scope'', get d ''effective_scope'') of
          (JList requested, JList effective) \<Rightarrow>
            (let widened = filter (\<lambda>token. \<not> in_list token requested) effective
             in report_if (widened \<noteq> []) (custom loc (Scope_Widened widened)))
        | _ \<Rightarrow> Inr []),
       (case expected_reason_code of
          None \<Rightarrow> Inr []
        | Some code \<Rightarrow> report_if (branch_reason_code \<noteq> JStr code) (custom loc (Reason_Mismatch code)))])"

definition branch_run_checks :: "obj \<Rightarrow> string \<Rightarrow> branch_issue verdict" where
  "branch_run_checks d loc =
    (let run_kind = get d ''run_kind''; replay_class = get d ''replay_class_or_null'';
         nightly_window_key = get d ''nightly_window_key_or_null'';
         no_id = (get d ''prior_manifest_id_or_null'' = JNull)
     in run_checks
      [report_if (run_kind = JStr ''NIGHTLY'' \<and> \<not> is_str nightly_window_key)
         (custom loc Nightly_Key_Missing),
       report_if (run_kind \<noteq> JStr ''NIGHTLY'' \<and> nightly_window_key \<noteq> JNull)
         (custom loc Nightly_Key_Unexpected),
       report_ifE (andE (Inr (run_kind = JStr ''REPLAY'')) (notE (in_strs replay_class REPLAY_CLASSES)))
         (custom loc Replay_Class_Missing),
       report_if (run_kind \<noteq> JStr ''REPLAY'' \<and> replay_class \<noteq> JNull)
         (custom loc Replay_Class_Unexpected),
       report_if (no_id \<noteq> (get d ''prior_manifest_hash_at_decision_or_null'' = JNull) \<or>
                  no_id \<noteq> (get d ''prior_manifest_lifecycle_state_or_null'' = JNull))
         (custom loc Prior_Unpaired)])"

definition root_lineage_fields :: "string list" where
  "root_lineage_fields =
    [''parent_manifest_id_or_null'', ''continuation_of_manifest_id_or_null'',
     ''replay_of_manifest_id_or_null'', ''supersedes_manifest_id_or_null'']"

definition branch_lineage_checks :: "obj \<Rightarrow> string \<Rightarrow> branch_issue verdict" where
  "branch_lineage_checks d loc =
    (let basis = get d ''selected_manifest_continuation_basis'';
         generation = get d ''selected_manifest_generation'';
         parent = get d ''parent_manifest_id_or_null'';
         unexpected = filter (\<lambda>f. get d f \<noteq> JNull) root_lineage_fields
     in if basis = JStr ''NEW_MANIFEST'' then run_checks
         [report_if (differ generation (JInt 0)) (custom loc Root_Generation),
          report_if (differ (get d ''root_manifest_id'') (get d ''selected_manifest_id''))
            (custom loc Root_Mismatch),
          report_if (unexpected \<noteq> []) (custom loc (Root_Lineage unexpected))]
        else whenE (in_strs basis CHILD_CONTINUATION_BASES) (run_checks
         [report_if (\<not> int_and generation (\<lambda>g. g \<ge> 1)) (custom loc Child_Generation),
          report_if (\<not> nonempty_str parent) (custom loc Child_Parent_Missing),
          report_if (basis = JStr ''REPLAY_CHILD'' \<and>
              differ parent (get d ''replay_of_manifest_id_or_null''))
            (custom loc Replay_Parent_Mismatch)]))"

definition inheritance_set :: "obj \<Rightarrow> bool" where
  "inheritance_set d \<longleftrightarrow> get d ''config_inheritance_mode_or_null'' \<noteq> JNull \<or>
     get d ''input_inheritance_mode_or_null'' \<noteq> JNull"

text \<open>The checks of a child allocation, by the kind of child.\<close>

definition child_action_checks :: "obj \<Rightarrow> string \<Rightarrow> branch_issue verdict" where
  "child_action_checks d loc =
    (let branch_action = get d ''branch_action'';
         prior = get d ''prior_manifest_id_or_null'';
         config = get d ''config_inheritance_mode_or_null'';
         inputs = get d ''input_inheritance_mode_or_null''
     in run_checks
      [report_if (differ (get d ''selected_manifest_continuation_basis'') branch_action)
         (custom loc (Child_Basis (case branch_action of JStr s \<Rightarrow> s | _ \<Rightarrow> []))),
       report_if (differ prior (get d ''parent_manifest_id_or_null'')) (custom loc Child_Prior),
       report_if (py_eq (get d ''selected_manifest_id'') prior) (custom loc Child_Same_Manifest),
       (if branch_action = JStr ''REPLAY_CHILD'' then run_checks
          [report_if (differ (get d ''replay_of_manifest_id_or_null'') prior) (custom loc Replay_Of_Mismatch),
           report_if (config \<noteq> JStr ''REPLAY_EXACT'' \<or> inputs \<noteq> JStr ''REPLAY_EXACT'')
             (custom loc Replay_Inheritance)]
        else if branch_action = JStr ''RECOVERY_CHILD'' then
          report_if (config \<noteq> JStr ''RECOVERY_EXACT'' \<or> inputs \<noteq> JStr ''RECOVERY_EXACT'')
            (custom loc Recovery_Inheritance)
        else whenE (in_strs branch_action [''CONTINUATION_CHILD'', ''NEW_REQUEST_CHILD'']) (run_checks
          [report_ifE (notE (in_strs config [''FRESH_CHILD_RESOLUTION'', ''HISTORICAL_EXPLICIT'']))
             (custom loc Child_Config_Inheritance),
           report_ifE (notE (in_strs inputs [''FRESH_CHILD_COLLECTION'', ''HISTORICAL_EXPLICIT'']))
             (custom loc Child_Input_Inheritance)]))])"

definition branch_action_checks :: "obj \<Rightarrow> string \<Rightarrow> branch_issue verdict" where
  "branch_action_checks d loc =
    (let branch_action = get d ''branch_action'';
         prior = get d ''prior_manifest_id_or_null'';
         state = get d ''prior_manifest_lifecycle_state_or_null'';
         selected = get d ''selected_manifest_id'';
         returned = get d ''returned_decision_bundle_hash_or_null''
     in run_checks
      [report_if (returned \<noteq> JNull \<and> branch_action \<noteq> JStr ''RETURN_EXISTING_BUNDLE'')
         (custom loc Bundle_Hash_Unexpected),
       (if branch_action = JStr ''NEW_MANIFEST'' then run_checks
          [report_if (get d ''selected_manifest_continuation_basis'' \<noteq> JStr ''NEW_MANIFEST'')
             (custom loc New_Basis),
           report_if (prior \<noteq> JNull) (custom loc New_Prior),
           report_if (inheritance_set d) (custom loc New_Inheritance)]
        else if branch_action = JStr ''RETURN_EXISTING_BUNDLE'' then run_checks
          [report_if (differ prior selected) (custom loc Return_Prior),
           report_ifE (notE (in_strs state TERMINAL_MANIFEST_LIFECYCLE_STATES))
             (custom loc Return_Not_Terminal),
           report_if (returned = JNull) (custom loc Return_Bundle_Missing),
           report_if (inheritance_set d) (custom loc Return_Inheritance)]
        else if branch_action = JStr ''REUSE_SEALED_MANIFEST'' then run_checks
          [report_if (differ prior selected) (custom loc Reuse_Prior),
           report_if (state \<noteq> JStr ''SEALED'') (custom loc Reuse_Not_Sealed),
           report_if (inheritance_set d) (custom loc Reuse_Inheritance)]
        else whenE (in_strs branch_action CHILD_CONTINUATION_BASES) (child_action_checks d loc))])"

definition validate_manifest_branch_decision ::
  "json \<Rightarrow> string \<Rightarrow> py_exn + (branch_issue issue list \<times> obj option)" where
  "validate_manifest_branch_decision decision loc =
    (case decision of
       JObj d \<Rightarrow> bindE (run_checks
          [branch_scope_checks d loc, branch_identity_checks d loc, branch_run_checks d loc,
           branch_lineage_checks d loc, branch_action_checks d loc]) (\<lambda>issues. Inr (issues, Some d))
     | _ \<Rightarrow> Inr ([], None))"

section \<open>What an accepted decision guarantees\<close>

abbreviation branch_accepted :: "obj \<Rightarrow> string \<Rightarrow> bool" where
  "branch_accepted d loc \<equiv> validate_manifest_branch_decision (JObj d) loc = Inr ([], Some d)"

lemma branch_sections:
  assumes "branch_accepted d loc"
  shows "branch_scope_checks d loc = Inr []" "branch_identity_checks d loc = Inr []"
    "branch_run_checks d loc = Inr []" "branch_lineage_checks d loc = Inr []"
    "branch_action_checks d loc = Inr []"
proof -
  have "run_checks [branch_scope_checks d loc, branch_identity_checks d loc, branch_run_checks d loc,
           branch_lineage_checks d loc, branch_action_checks d loc] = Inr []"
    using assms unfolding validate_manifest_branch_decision_def json.case
    by (auto simp only: bindE_eq_Inr_iff prod.inject sum.inject)
  then show "branch_scope_checks d loc = Inr []" "branch_identity_checks d loc = Inr []"
    "branch_run_checks d loc = Inr []" "branch_lineage_checks d loc = Inr []"
    "branch_action_checks d loc = Inr []"
    by simp_all
qed

lemma branch_accepted_intro:
  assumes "branch_scope_checks d loc = Inr []" "branch_identity_checks d loc = Inr []"
    "branch_run_checks d loc = Inr []" "branch_lineage_checks d loc = Inr []"
    "branch_action_checks d loc = Inr []"
  shows "branch_accepted d loc"
  by (simp add: validate_manifest_branch_decision_def run_checks.simps assms)

lemma branch_known_action:
  assumes "branch_accepted d loc"
  obtains a where "get d ''branch_action'' = JStr a" and "a \<in> set MANIFEST_BRANCH_ACTIONS"
    and "get d ''branch_reason_code'' =
      JStr (the (expected_manifest_branch_reason_code (JStr a) (get d ''run_kind'')))"
proof -
  have checks: "branch_identity_checks d loc = Inr []" by (rule branch_sections(2) [OF assms])
  then obtain a where a: "get d ''branch_action'' = JStr a" "a \<in> set MANIFEST_BRANCH_ACTIONS"
    by (auto simp: branch_identity_checks_def Let_def notE_Inr_iff in_strs_True_iff)
  have "expected_manifest_branch_reason_code (JStr a) (get d ''run_kind'') \<noteq> None"
    using a(2) by (auto simp: MANIFEST_BRANCH_ACTIONS_def expected_manifest_branch_reason_code_def)
  then obtain code where code: "expected_manifest_branch_reason_code (JStr a) (get d ''run_kind'') = Some code"
    by blast
  then have "get d ''branch_reason_code'' =
      JStr (the (expected_manifest_branch_reason_code (JStr a) (get d ''run_kind'')))"
    using checks a(1) by (simp add: branch_identity_checks_def Let_def)
  with a show thesis by (rule that)
qed

text \<open>An accepted decision to open a new manifest opens a root: generation 0, its own root, no
  parent or other lineage reference, no prior manifest in any of its three fields, no inheritance, no
  returned bundle, and the reason \<open>NO_PRIOR_MANIFEST\<close>.\<close>

theorem new_manifest_is_root:
  assumes ok: "branch_accepted d loc" and a: "get d ''branch_action'' = JStr ''NEW_MANIFEST''"
  shows "num_is (get d ''selected_manifest_generation'') 0 \<and>
    py_eq (get d ''root_manifest_id'') (get d ''selected_manifest_id'') \<and>
    (\<forall>f \<in> set root_lineage_fields \<union> {''prior_manifest_id_or_null'',
       ''prior_manifest_hash_at_decision_or_null'', ''prior_manifest_lifecycle_state_or_null'',
       ''config_inheritance_mode_or_null'', ''input_inheritance_mode_or_null'',
       ''returned_decision_bundle_hash_or_null''}. get d f = JNull) \<and>
    get d ''branch_reason_code'' = JStr ''NO_PRIOR_MANIFEST''"
proof -
  note sections = branch_sections [OF ok]
  have act: "get d ''selected_manifest_continuation_basis'' = JStr ''NEW_MANIFEST''"
    "get d ''prior_manifest_id_or_null'' = JNull" "\<not> inheritance_set d"
    "get d ''returned_decision_bundle_hash_or_null'' = JNull"
    using sections(5) by (simp_all add: branch_action_checks_def Let_def a)
  have lin: "py_eq (get d ''selected_manifest_generation'') (JInt 0)"
    "py_eq (get d ''root_manifest_id'') (get d ''selected_manifest_id'')"
    "filter (\<lambda>f. get d f \<noteq> JNull) root_lineage_fields = []"
    using sections(4) by (simp_all add: branch_lineage_checks_def Let_def act(1))
  have prior: "get d ''prior_manifest_hash_at_decision_or_null'' = JNull"
    "get d ''prior_manifest_lifecycle_state_or_null'' = JNull"
    using sections(3) act(2) by (simp_all add: branch_run_checks_def Let_def)
  obtain b where "get d ''branch_action'' = JStr b" "get d ''branch_reason_code'' =
      JStr (the (expected_manifest_branch_reason_code (JStr b) (get d ''run_kind'')))"
    using branch_known_action [OF ok] by blast
  then have "get d ''branch_reason_code'' = JStr ''NO_PRIOR_MANIFEST''"
    using a by (simp add: expected_manifest_branch_reason_code_def)
  then show ?thesis
    using act lin prior by (auto simp: py_eq_JInt_right inheritance_set_def filter_empty_conv)
qed

text \<open>An accepted decision to stay on the prior manifest selects exactly that manifest and inherits
  nothing: a bundle is returned only from a manifest in a terminal state and with its hash, a sealed
  manifest is reused only in state \<open>SEALED\<close> and returns no bundle.\<close>

theorem same_manifest_actions_keep_prior:
  assumes ok: "branch_accepted d loc"
    and a: "get d ''branch_action'' = JStr a" "a \<in> {''RETURN_EXISTING_BUNDLE'', ''REUSE_SEALED_MANIFEST''}"
  shows "py_eq (get d ''prior_manifest_id_or_null'') (get d ''selected_manifest_id'') \<and>
    \<not> inheritance_set d \<and>
    (a = ''RETURN_EXISTING_BUNDLE'' \<longrightarrow>
       (\<exists>s \<in> set TERMINAL_MANIFEST_LIFECYCLE_STATES.
          get d ''prior_manifest_lifecycle_state_or_null'' = JStr s) \<and>
       get d ''returned_decision_bundle_hash_or_null'' \<noteq> JNull \<and>
       get d ''prior_manifest_hash_at_decision_or_null'' \<noteq> JNull) \<and>
    (a = ''REUSE_SEALED_MANIFEST'' \<longrightarrow>
       get d ''prior_manifest_lifecycle_state_or_null'' = JStr ''SEALED'' \<and>
       get d ''returned_decision_bundle_hash_or_null'' = JNull \<and>
       get d ''prior_manifest_hash_at_decision_or_null'' \<noteq> JNull)"
proof (cases "a = ''RETURN_EXISTING_BUNDLE''")
  case True
  have act: "py_eq (get d ''prior_manifest_id_or_null'') (get d ''selected_manifest_id'')"
    "\<not> inheritance_set d" "get d ''returned_decision_bundle_hash_or_null'' \<noteq> JNull"
    "\<exists>s \<in> set TERMINAL_MANIFEST_LIFECYCLE_STATES.
       get d ''prior_manifest_lifecycle_state_or_null'' = JStr s"
    using branch_sections(5) [OF ok]
    by (simp_all add: branch_action_checks_def Let_def a(1) True notE_Inr_iff in_strs_True_iff)
  then have "get d ''prior_manifest_hash_at_decision_or_null'' \<noteq> JNull"
    using branch_sections(3) [OF ok] by (auto simp: branch_run_checks_def Let_def)
  with act True show ?thesis by simp
next
  case False
  then have reuse: "a = ''REUSE_SEALED_MANIFEST''" using a(2) by simp
  have act: "py_eq (get d ''prior_manifest_id_or_null'') (get d ''selected_manifest_id'')"
    "\<not> inheritance_set d" "get d ''returned_decision_bundle_hash_or_null'' = JNull"
    "get d ''prior_manifest_lifecycle_state_or_null'' = JStr ''SEALED''"
    using branch_sections(5) [OF ok] by (simp_all add: branch_action_checks_def Let_def a(1) reuse)
  then have "get d ''prior_manifest_hash_at_decision_or_null'' \<noteq> JNull"
    using branch_sections(3) [OF ok] by (auto simp: branch_run_checks_def Let_def)
  with act reuse show ?thesis by simp
qed

lemma child_actions_known:
  assumes "a \<in> set CHILD_CONTINUATION_BASES"
  shows "a \<noteq> ''NEW_MANIFEST''" "a \<noteq> ''RETURN_EXISTING_BUNDLE''" "a \<noteq> ''REUSE_SEALED_MANIFEST''"
    and "a \<noteq> ''REPLAY_CHILD'' \<Longrightarrow> a \<noteq> ''RECOVERY_CHILD'' \<Longrightarrow> a \<in> {''CONTINUATION_CHILD'', ''NEW_REQUEST_CHILD''}"
  using assms by (auto simp: CHILD_CONTINUATION_BASES_def)

text \<open>An accepted decision to allocate a child manifest names a parent: the continuation basis is
  the action itself, the generation is at least 1, the prior manifest is the parent and differs from
  the selected manifest, and no bundle is returned. A replay child replays its parent with exact
  inheritance, a recovery child recovers with exact inheritance, and the ordinary children inherit
  freshly or by an explicit historical choice.\<close>

theorem child_allocation_names_parent:
  assumes ok: "branch_accepted d loc"
    and a: "get d ''branch_action'' = JStr a" "a \<in> set CHILD_CONTINUATION_BASES"
  shows "get d ''selected_manifest_continuation_basis'' = JStr a \<and>
    int_and (get d ''selected_manifest_generation'') (\<lambda>g. g \<ge> 1) \<and>
    nonempty_str (get d ''parent_manifest_id_or_null'') \<and>
    get d ''prior_manifest_id_or_null'' = get d ''parent_manifest_id_or_null'' \<and>
    get d ''selected_manifest_id'' \<noteq> get d ''parent_manifest_id_or_null'' \<and>
    get d ''returned_decision_bundle_hash_or_null'' = JNull \<and>
    (a = ''REPLAY_CHILD'' \<longrightarrow>
       get d ''replay_of_manifest_id_or_null'' = get d ''parent_manifest_id_or_null'' \<and>
       get d ''config_inheritance_mode_or_null'' = JStr ''REPLAY_EXACT'' \<and>
       get d ''input_inheritance_mode_or_null'' = JStr ''REPLAY_EXACT'') \<and>
    (a = ''RECOVERY_CHILD'' \<longrightarrow>
       get d ''config_inheritance_mode_or_null'' = JStr ''RECOVERY_EXACT'' \<and>
       get d ''input_inheritance_mode_or_null'' = JStr ''RECOVERY_EXACT'') \<and>
    (a \<notin> {''REPLAY_CHILD'', ''RECOVERY_CHILD''} \<longrightarrow>
       get d ''config_inheritance_mode_or_null''
         \<in> {JStr ''FRESH_CHILD_RESOLUTION'', JStr ''HISTORICAL_EXPLICIT''} \<and>
       get d ''input_inheritance_mode_or_null''
         \<in> {JStr ''FRESH_CHILD_COLLECTION'', JStr ''HISTORICAL_EXPLICIT''})"
proof -
  note kinds = child_actions_known [OF a(2)]
  have act: "get d ''returned_decision_bundle_hash_or_null'' = JNull"
    and child: "child_action_checks d loc = Inr []"
    using branch_sections(5) [OF ok]
    by (simp_all add: branch_action_checks_def Let_def a kinds)
  have basis: "get d ''selected_manifest_continuation_basis'' = JStr a"
    and prior: "py_eq (get d ''prior_manifest_id_or_null'') (get d ''parent_manifest_id_or_null'')"
    and selected: "\<not> py_eq (get d ''selected_manifest_id'') (get d ''prior_manifest_id_or_null'')"
    using child by (simp_all add: child_action_checks_def Let_def a(1))
  have lin: "int_and (get d ''selected_manifest_generation'') (\<lambda>g. g \<ge> 1)"
    "nonempty_str (get d ''parent_manifest_id_or_null'')"
    using branch_sections(4) [OF ok] by (simp_all add: branch_lineage_checks_def Let_def basis a(2) kinds)
  then obtain m where m: "get d ''parent_manifest_id_or_null'' = JStr m" by (auto elim: nonempty_strE)
  have prior_m: "get d ''prior_manifest_id_or_null'' = JStr m" using prior m by simp
  have replay: "get d ''replay_of_manifest_id_or_null'' = JStr m \<and>
       get d ''config_inheritance_mode_or_null'' = JStr ''REPLAY_EXACT'' \<and>
       get d ''input_inheritance_mode_or_null'' = JStr ''REPLAY_EXACT''" if "a = ''REPLAY_CHILD''"
    using child by (simp add: child_action_checks_def Let_def a(1) that prior_m)
  have recovery: "get d ''config_inheritance_mode_or_null'' = JStr ''RECOVERY_EXACT'' \<and>
       get d ''input_inheritance_mode_or_null'' = JStr ''RECOVERY_EXACT''" if "a = ''RECOVERY_CHILD''"
    using child by (simp add: child_action_checks_def Let_def a(1) that)
  have ordinary: "get d ''config_inheritance_mode_or_null''
         \<in> {JStr ''FRESH_CHILD_RESOLUTION'', JStr ''HISTORICAL_EXPLICIT''} \<and>
       get d ''input_inheritance_mode_or_null''
         \<in> {JStr ''FRESH_CHILD_COLLECTION'', JStr ''HISTORICAL_EXPLICIT''}"
    if "a \<noteq> ''REPLAY_CHILD''" "a \<noteq> ''RECOVERY_CHILD''"
    using child kinds(4) [OF that] that
    by (simp add: child_action_checks_def Let_def a(1) notE_Inr_iff in_strs_True_iff)
  show ?thesis
    using basis lin prior selected act m replay recovery ordinary by simp
qed

text \<open>An accepted decision never widens its scope: both scopes, when given as non-empty lists, are
  valid frozen scopes and every effective token is a requested one.\<close>

theorem effective_scope_never_widens:
  assumes ok: "branch_accepted d loc"
    and lists: "get d ''requested_scope'' = JList rs" "get d ''effective_scope'' = JList es"
  shows "\<exists>requested effective. rs = map JStr requested \<and> es = map JStr effective \<and>
    valid_scope requested \<and> valid_scope effective \<and> set effective \<subseteq> set requested"
proof -
  have seqs: "validate_scope_sequence (JList rs) loc False = Inr []"
    "validate_scope_sequence (JList es) loc False = Inr []"
    using branch_sections(1) [OF ok] by (simp_all add: branch_scope_checks_def lists)
  then have "rs \<noteq> []" "es \<noteq> []" by (auto simp: validate_scope_sequence_def)
  with seqs obtain r e where re: "rs = map JStr r" "valid_scope r" "es = map JStr e" "valid_scope e"
    using accepted_scope by metis
  have "filter (\<lambda>token. \<not> in_list token rs) es = []"
    using branch_sections(2) [OF ok] by (simp add: branch_identity_checks_def Let_def lists)
  then have "set e \<subseteq> set r" by (auto simp: re filter_empty_conv)
  with re show ?thesis by blast
qed

section \<open>Decisions that satisfy the theorems\<close>

definition base_decision :: "string \<Rightarrow> string \<Rightarrow> string \<Rightarrow> string \<Rightarrow> int \<Rightarrow> obj" where
  "base_decision action reason run_kind basis generation =
    [(''branch_action'', JStr action), (''branch_reason_code'', JStr reason),
     (''run_kind'', JStr run_kind), (''request_identity_hash'', JStr ''h''),
     (''requested_scope'', JList (map JStr [''year_end'', ''prepare_submission'', ''submit''])),
     (''effective_scope'', JList (map JStr [''year_end''])),
     (''selected_manifest_id'', JStr ''m2''), (''root_manifest_id'', JStr ''m2''),
     (''selected_manifest_continuation_basis'', JStr basis),
     (''selected_manifest_generation'', JInt generation)]"

definition prior_fields :: "string \<Rightarrow> string \<Rightarrow> obj" where
  "prior_fields m state =
    [(''prior_manifest_id_or_null'', JStr m), (''prior_manifest_hash_at_decision_or_null'', JStr ''h1''),
     (''prior_manifest_lifecycle_state_or_null'', JStr state)]"

definition root_decision :: obj where
  "root_decision = base_decision ''NEW_MANIFEST'' ''NO_PRIOR_MANIFEST'' ''MANUAL'' ''NEW_MANIFEST'' 0"

definition reuse_decision :: obj where
  "reuse_decision = base_decision ''REUSE_SEALED_MANIFEST'' ''PRESTART_SEALED_CONTEXT_REUSE'' ''MANUAL''
     ''NEW_MANIFEST'' 0 @ prior_fields ''m2'' ''SEALED''"

definition replay_decision :: obj where
  "replay_decision = base_decision ''REPLAY_CHILD'' ''REPLAY_REQUESTED_EXACT'' ''REPLAY'' ''REPLAY_CHILD'' 1
     @ prior_fields ''m1'' ''COMPLETED'' @
    [(''replay_class_or_null'', JStr ''STANDARD_REPLAY''), (''parent_manifest_id_or_null'', JStr ''m1''),
     (''replay_of_manifest_id_or_null'', JStr ''m1''),
     (''config_inheritance_mode_or_null'', JStr ''REPLAY_EXACT''),
     (''input_inheritance_mode_or_null'', JStr ''REPLAY_EXACT'')]"

lemma year_end_valid: "valid_scope [''year_end'']"
  unfolding valid_scope_def
  by (intro exI conjI, rule refl)
     (simp_all add: REPORTING_SCOPE_TOKENS_def supported_actions_def)

lemma base_scopes:
  assumes "d \<in> {root_decision, reuse_decision, replay_decision}"
  shows "branch_scope_checks d loc = Inr []"
proof -
  have "get d ''requested_scope'' = JList (map JStr [''year_end'', ''prepare_submission'', ''submit''])"
    "get d ''effective_scope'' = JList (map JStr [''year_end''])"
    using assms by (auto simp: root_decision_def reuse_decision_def replay_decision_def base_decision_def)
  then show ?thesis
    unfolding branch_scope_checks_def
    by (simp only: run_checks_clean list.set ball_simps lift_issues_clean
        valid_scope_accepted [OF year_end_valid] valid_scope_accepted [OF year_end_submit_valid])
qed

lemmas branch_eval = base_decision_def prior_fields_def Let_def
  branch_identity_checks_def branch_run_checks_def branch_lineage_checks_def branch_action_checks_def
  child_action_checks_def root_lineage_fields_def inheritance_set_def REPLAY_CLASSES_def
  MANIFEST_BRANCH_REASON_CODES_def MANIFEST_BRANCH_ACTIONS_def CHILD_CONTINUATION_BASES_def
  TERMINAL_MANIFEST_LIFECYCLE_STATES_def expected_manifest_branch_reason_code_def num_is_def

lemma root_accepted: "branch_accepted root_decision loc"
  by (rule branch_accepted_intro)
     (simp add: base_scopes, simp_all add: root_decision_def branch_eval)

lemma reuse_accepted: "branch_accepted reuse_decision loc"
  by (rule branch_accepted_intro)
     (simp add: base_scopes, simp_all add: reuse_decision_def branch_eval)

lemma replay_accepted: "branch_accepted replay_decision loc"
  by (rule branch_accepted_intro)
     (simp add: base_scopes, simp_all add: replay_decision_def branch_eval)

theorem new_manifest_is_root_witness:
  "num_is (get root_decision ''selected_manifest_generation'') 0 \<and>
   get root_decision ''prior_manifest_id_or_null'' = JNull"
  using new_manifest_is_root [OF root_accepted [of "''x''"]]
  by (simp add: root_decision_def base_decision_def)

theorem same_manifest_actions_keep_prior_witness:
  "get reuse_decision ''prior_manifest_lifecycle_state_or_null'' = JStr ''SEALED'' \<and>
   py_eq (get reuse_decision ''prior_manifest_id_or_null'') (get reuse_decision ''selected_manifest_id'')"
  using same_manifest_actions_keep_prior [OF reuse_accepted [of "''x''"], of "''REUSE_SEALED_MANIFEST''"]
  by (simp add: reuse_decision_def base_decision_def)

theorem child_allocation_names_parent_witness:
  "get replay_decision ''replay_of_manifest_id_or_null'' = get replay_decision ''parent_manifest_id_or_null''"
  using child_allocation_names_parent [OF replay_accepted [of "''x''"], of "''REPLAY_CHILD''"]
  by (simp add: replay_decision_def base_decision_def CHILD_CONTINUATION_BASES_def)

theorem effective_scope_never_widens_witness:
  "\<exists>requested effective. valid_scope requested \<and> valid_scope effective \<and> set effective \<subseteq> set requested
     \<and> get replay_decision ''effective_scope'' = JList (map JStr effective)"
proof -
  have lists: "get replay_decision ''requested_scope''
      = JList (map JStr [''year_end'', ''prepare_submission'', ''submit''])"
    "get replay_decision ''effective_scope'' = JList (map JStr [''year_end''])"
    by (simp_all add: replay_decision_def base_decision_def)
  from effective_scope_never_widens [OF replay_accepted [of "''x''"] lists] lists(2)
  show ?thesis by metis
qed

end
