(* ===== verification/Environment_Profile.thy ===== *)
theory Environment_Profile
  imports Py_Prelude
begin

text \<open>
  The environment profile resolver \<open>scripts/agent/resolve_environment_profile.py\<close>. The task catalog,
  the provider overrides, the provider matrix and the ephemeral catalog are JSON files with fixed
  keys: they are records here, and a missing key (\<open>KeyError\<close>) of those files is not represented.
  Looking a row up in a dictionary built by a comprehension finds the last row with that key.
\<close>

record command =
  argv :: "string list"

record task =
  taskRef :: string
  makeTarget :: string
  aliases :: "string list"
  summary :: string
  dependsOn :: "string list"
  conflictsWith :: "string list"
  requiredTools :: "string list"
  supportedProfileRefs :: "string list"
  destructivePosture :: string
  typedConfirmationRefOrNull :: "string option"
  requiredParams :: "string list"
  defaultParams :: "(string \<times> string) list"
  preconditions :: "string list"
  dryRunSafe :: bool
  expectedOutputs :: "string list"
  commands :: "command list"

record env_profile =
  profileRef :: string
  environmentRef :: string
  runtimeProfileRef :: "string option"
  scopeClassRefOrNull :: "string option"
  destructiveProfileAllowed :: bool
  profileNotes :: "string list"

record card_binding =
  cardId :: string
  executionTaskRefs :: "string list"
  verificationTaskRefs :: "string list"
  evidenceGlobs :: "string list"
  allowedChecklistStates :: "string list"

record catalog =
  tasks :: "task list"
  environmentProfiles :: "env_profile list"
  cardBindings :: "card_binding list"

record runtime_row =
  rt_environment_ref :: string
  safe_for_live_providers :: bool

record provider_overrides =
  runtime_profiles :: "(string \<times> runtime_row) list"
  allowed_bootstrap_profile_refs :: "string list"

text \<open>The three side files: overrides, matrix rows (environment, provider environment), scope rows
  (scope class, environment).\<close>

record side_files =
  overrides :: provider_overrides
  matrix_rows :: "(string \<times> string) list"
  scope_rows :: "(string \<times> string) list"

record resolved_profile =
  rp_taskRef :: string
  rp_profileRef :: string
  rp_environmentRef :: string
  rp_runtimeProfileRef :: "string option"
  rp_scopeClassRefOrNull :: "string option"
  rp_providerEnvironmentRef :: string
  rp_destructiveProfileAllowed :: bool
  rp_destructivePosture :: string
  rp_typedConfirmationRefOrNull :: "string option"
  rp_runtimeSafeForLive :: "bool option"
  rp_notes :: "string list"

datatype profile_error =
    Profile_Task_Unknown string | Profile_Ref_Unknown string | Task_Profile_Not_Supported string string
  | Runtime_Profile_Unknown string | Runtime_Profile_Not_Bootstrappable string
  | Runtime_Profile_Environment_Mismatch string string | Scope_Class_Unknown string
  | Scope_Class_Environment_Mismatch string string | Unsupported_Destructive string string
  | Missing_Typed_Confirmation string | Ack_Required string string
  | Provider_Environment_Not_Found string

definition profiles_by_ref :: "catalog \<Rightarrow> string \<rightharpoonup> env_profile" where
  "profiles_by_ref c = map_of (rev (map (\<lambda>p. (profileRef p, p)) (environmentProfiles c)))"

definition tasks_by_ref :: "catalog \<Rightarrow> string \<rightharpoonup> task" where
  "tasks_by_ref c = map_of (rev (map (\<lambda>t. (taskRef t, t)) (tasks c)))"

definition find_provider_environment_ref ::
  "string \<Rightarrow> (string \<times> string) list \<Rightarrow> profile_error + string" where
  "find_provider_environment_ref environment_ref rows =
    (case map_of rows environment_ref of
       None \<Rightarrow> Inl (Provider_Environment_Not_Found environment_ref) | Some p \<Rightarrow> Inr p)"

definition validate_runtime_profile :: "env_profile \<Rightarrow> provider_overrides \<Rightarrow> profile_error + unit" where
  "validate_runtime_profile profile po =
    (case runtimeProfileRef profile of
       None \<Rightarrow> Inr ()
     | Some ref \<Rightarrow> (case map_of (runtime_profiles po) ref of
         None \<Rightarrow> Inl (Runtime_Profile_Unknown ref)
       | Some row \<Rightarrow>
           if ref \<notin> set (allowed_bootstrap_profile_refs po)
             then Inl (Runtime_Profile_Not_Bootstrappable ref)
           else if scopeClassRefOrNull profile \<noteq> None then Inr ()
           else if rt_environment_ref row \<noteq> environmentRef profile
             then Inl (Runtime_Profile_Environment_Mismatch (profileRef profile) ref)
           else Inr ()))"

definition validate_scope_class :: "env_profile \<Rightarrow> (string \<times> string) list \<Rightarrow> profile_error + unit" where
  "validate_scope_class profile rows =
    (case scopeClassRefOrNull profile of
       None \<Rightarrow> Inr ()
     | Some ref \<Rightarrow> (case map_of (rev rows) ref of
         None \<Rightarrow> Inl (Scope_Class_Unknown ref)
       | Some expected_environment_ref \<Rightarrow>
           if expected_environment_ref \<noteq> environmentRef profile
             then Inl (Scope_Class_Environment_Mismatch (profileRef profile) ref)
           else Inr ()))"

definition is_destructive :: "task \<Rightarrow> bool" where
  "is_destructive t \<longleftrightarrow> destructivePosture t \<noteq> ''NON_DESTRUCTIVE''"

definition check_dangerous ::
  "task \<Rightarrow> env_profile \<Rightarrow> bool \<Rightarrow> string option \<Rightarrow> profile_error + unit" where
  "check_dangerous t profile enforce_dangerous ack_token =
    (if is_destructive t \<and> \<not> destructiveProfileAllowed profile
       then Inl (Unsupported_Destructive (profileRef profile) (taskRef t))
     else if enforce_dangerous \<and> is_destructive t then
       (case typedConfirmationRefOrNull t of
          None \<Rightarrow> Inl (Missing_Typed_Confirmation (taskRef t))
        | Some c \<Rightarrow> if c = [] then Inl (Missing_Typed_Confirmation (taskRef t))
                    else if ack_token \<noteq> Some c then Inl (Ack_Required (taskRef t) c)
                    else Inr ())
     else Inr ())"

definition resolve_environment_profile ::
  "side_files \<Rightarrow> catalog \<Rightarrow> string \<Rightarrow> string \<Rightarrow> bool \<Rightarrow> string option \<Rightarrow> profile_error + resolved_profile" where
  "resolve_environment_profile files c task_ref profile_ref enforce_dangerous ack_token =
    (case tasks_by_ref c task_ref of None \<Rightarrow> Inl (Profile_Task_Unknown task_ref)
     | Some t \<Rightarrow> (case profiles_by_ref c profile_ref of None \<Rightarrow> Inl (Profile_Ref_Unknown profile_ref)
     | Some profile \<Rightarrow>
        if profile_ref \<notin> set (supportedProfileRefs t)
          then Inl (Task_Profile_Not_Supported task_ref profile_ref)
        else bindE (validate_runtime_profile profile (overrides files)) (\<lambda>_.
             bindE (validate_scope_class profile (scope_rows files)) (\<lambda>_.
             bindE (check_dangerous t profile enforce_dangerous ack_token) (\<lambda>_.
             bindE (find_provider_environment_ref (environmentRef profile) (matrix_rows files))
               (\<lambda>provider_environment_ref.
             Inr \<lparr>rp_taskRef = task_ref, rp_profileRef = profile_ref,
                  rp_environmentRef = environmentRef profile,
                  rp_runtimeProfileRef = runtimeProfileRef profile,
                  rp_scopeClassRefOrNull = scopeClassRefOrNull profile,
                  rp_providerEnvironmentRef = provider_environment_ref,
                  rp_destructiveProfileAllowed = destructiveProfileAllowed profile,
                  rp_destructivePosture = destructivePosture t,
                  rp_typedConfirmationRefOrNull = typedConfirmationRefOrNull t,
                  rp_runtimeSafeForLive = (case runtimeProfileRef profile of None \<Rightarrow> None
                    | Some ref \<Rightarrow> map_option safe_for_live_providers
                        (map_of (runtime_profiles (overrides files)) ref)),
                  rp_notes = profileNotes profile\<rparr>))))))"

section \<open>What a resolved profile guarantees\<close>

lemma profiles_by_ref_key: "profiles_by_ref c r = Some p \<Longrightarrow> profileRef p = r \<and> p \<in> set (environmentProfiles c)"
  by (auto simp: profiles_by_ref_def dest: map_of_SomeD)

lemma tasks_by_ref_key: "tasks_by_ref c r = Some t \<Longrightarrow> taskRef t = r \<and> t \<in> set (tasks c)"
  by (auto simp: tasks_by_ref_def dest: map_of_SomeD)

lemma dom_tasks_by_ref: "dom (tasks_by_ref c) = taskRef ` set (tasks c)"
  by (simp add: tasks_by_ref_def dom_map_of_conv_image_fst image_image)

lemma tasks_by_ref_None: "tasks_by_ref c r = None \<longleftrightarrow> r \<notin> taskRef ` set (tasks c)"
  using dom_tasks_by_ref [of c] by blast

lemma resolve_profile_Inr:
  assumes "resolve_environment_profile files c task_ref profile_ref enforce ack = Inr r"
  obtains t p where "tasks_by_ref c task_ref = Some t" and "profiles_by_ref c profile_ref = Some p"
    and "profile_ref \<in> set (supportedProfileRefs t)"
    and "validate_runtime_profile p (overrides files) = Inr ()"
    and "validate_scope_class p (scope_rows files) = Inr ()"
    and "check_dangerous t p enforce ack = Inr ()"
    and "map_of (matrix_rows files) (environmentRef p) = Some (rp_providerEnvironmentRef r)"
    and "rp_environmentRef r = environmentRef p" and "rp_runtimeProfileRef r = runtimeProfileRef p"
    and "rp_scopeClassRefOrNull r = scopeClassRefOrNull p"
    and "rp_profileRef r = profile_ref" and "rp_destructiveProfileAllowed r = destructiveProfileAllowed p"
  using assms
  by (auto simp: resolve_environment_profile_def bindE_eq_Inr_iff find_provider_environment_ref_def
      split: option.splits if_splits)

lemma check_dangerous_ok:
  "check_dangerous t p enforce ack = Inr () \<longleftrightarrow>
     (is_destructive t \<longrightarrow> destructiveProfileAllowed p \<and>
        (enforce \<longrightarrow> (\<exists>c. c \<noteq> [] \<and> typedConfirmationRefOrNull t = Some c \<and> ack = Some c)))"
  by (auto simp: check_dangerous_def split: option.splits)

text \<open>C25: when dangerous commands are enforced, a destructive task resolves only on a profile that
  allows destruction and only for a caller who presents the task's own, non-empty confirmation token;
  without enforcement it still needs a profile that allows destruction.\<close>

theorem destructive_task_needs_token:
  assumes "resolve_environment_profile files c task_ref profile_ref enforce ack = Inr r"
    and "tasks_by_ref c task_ref = Some t" and "is_destructive t"
  shows "rp_destructiveProfileAllowed r \<and>
    (enforce \<longrightarrow> (\<exists>token. token \<noteq> [] \<and> typedConfirmationRefOrNull t = Some token \<and> ack = Some token))"
  using assms(1)
proof (rule resolve_profile_Inr)
  fix t' p
  assume "tasks_by_ref c task_ref = Some t'" "check_dangerous t' p enforce ack = Inr ()"
    "rp_destructiveProfileAllowed r = destructiveProfileAllowed p"
  then show ?thesis using assms(2,3) by (simp add: check_dangerous_ok)
qed

text \<open>A resolved profile names one environment consistently: the provider matrix has a row for it;
  a scope class, when present, is a catalogued one of the same environment; a runtime profile, when
  present, is a known bootstrappable one, and without a scope class it maps to the same environment.\<close>

theorem resolved_profile_is_consistent:
  assumes "resolve_environment_profile files c task_ref profile_ref enforce ack = Inr r"
  shows "map_of (matrix_rows files) (rp_environmentRef r) = Some (rp_providerEnvironmentRef r) \<and>
    (case rp_scopeClassRefOrNull r of None \<Rightarrow> True
     | Some s \<Rightarrow> map_of (rev (scope_rows files)) s = Some (rp_environmentRef r)) \<and>
    (case rp_runtimeProfileRef r of None \<Rightarrow> True
     | Some ref \<Rightarrow> ref \<in> set (allowed_bootstrap_profile_refs (overrides files)) \<and>
        (\<exists>row. map_of (runtime_profiles (overrides files)) ref = Some row \<and>
           (rp_scopeClassRefOrNull r = None \<longrightarrow> rt_environment_ref row = rp_environmentRef r)))"
  using assms
proof (rule resolve_profile_Inr)
  fix t p
  assume rt: "validate_runtime_profile p (overrides files) = Inr ()"
    and sc: "validate_scope_class p (scope_rows files) = Inr ()"
    and m: "map_of (matrix_rows files) (environmentRef p) = Some (rp_providerEnvironmentRef r)"
    and eq: "rp_environmentRef r = environmentRef p" "rp_runtimeProfileRef r = runtimeProfileRef p"
      "rp_scopeClassRefOrNull r = scopeClassRefOrNull p"
  have "case scopeClassRefOrNull p of None \<Rightarrow> True
     | Some s \<Rightarrow> map_of (rev (scope_rows files)) s = Some (environmentRef p)"
    using sc by (auto simp: validate_scope_class_def split: option.splits if_splits)
  moreover have "case runtimeProfileRef p of None \<Rightarrow> True
     | Some ref \<Rightarrow> ref \<in> set (allowed_bootstrap_profile_refs (overrides files)) \<and>
        (\<exists>row. map_of (runtime_profiles (overrides files)) ref = Some row \<and>
           (scopeClassRefOrNull p = None \<longrightarrow> rt_environment_ref row = environmentRef p))"
    using rt by (auto simp: validate_runtime_profile_def split: option.splits if_splits)
  ultimately show ?thesis using m unfolding eq by simp
qed

section \<open>The shipped durable reset\<close>

text \<open>The task \<open>local.reset.full\<close> and the profile \<open>local\<close> of \<open>scripts/tasks/task_catalog.json\<close>, with the
  rows of the side files they use.\<close>

definition reset_task :: task where
  "reset_task = \<lparr>taskRef = ''local.reset.full'', makeTarget = ''local.reset.full'',
     aliases = [''local-reset-full''], summary = ''Re-bootstrap the local substrate after purging durable and disposable stores.'',
     dependsOn = [], conflictsWith = [''local.plan''], requiredTools = [''bash'', ''docker'', ''python3'', ''node''],
     supportedProfileRefs = [''local'', ''devcontainer'', ''local-provisioning''],
     destructivePosture = ''DURABLE_RESET'',
     typedConfirmationRefOrNull = Some ''ALLOW_DURABLE_LOCAL_RESET'', requiredParams = [],
     defaultParams = [], preconditions = [], dryRunSafe = True,
     expectedOutputs = [''refreshed local runtime state after durable reset''],
     commands = [\<lparr>argv = [''./scripts/local/bootstrap_local_stack.sh'', ''--runtime-profile'',
       ''{profile.runtimeProfileRef}'', ''--full-reset'', ''--confirm-durable-reset'']\<rparr>]\<rparr>"

definition local_profile :: env_profile where
  "local_profile = \<lparr>profileRef = ''local'', environmentRef = ''env_local_authoring'',
     runtimeProfileRef = Some ''local'', scopeClassRefOrNull = Some ''LOCAL_HIGH_FIDELITY_SHARD'',
     destructiveProfileAllowed = True, profileNotes = []\<rparr>"

definition reset_catalog :: catalog where
  "reset_catalog = \<lparr>tasks = [reset_task], environmentProfiles = [local_profile], cardBindings = []\<rparr>"

definition shipped_files :: side_files where
  "shipped_files = \<lparr>overrides = \<lparr>runtime_profiles =
       [(''local'', \<lparr>rt_environment_ref = ''env_local_authoring'', safe_for_live_providers = False\<rparr>)],
       allowed_bootstrap_profile_refs = [''local'', ''devcontainer'', ''local-provisioning'']\<rparr>,
     matrix_rows = [(''env_local_authoring'', ''NONE'')],
     scope_rows = [(''LOCAL_HIGH_FIDELITY_SHARD'', ''env_local_authoring'')]\<rparr>"

lemma reset_resolves:
  "\<exists>r. resolve_environment_profile shipped_files reset_catalog ''local.reset.full'' ''local'' True
     (Some ''ALLOW_DURABLE_LOCAL_RESET'') = Inr r"
  by (simp add: resolve_environment_profile_def tasks_by_ref_def profiles_by_ref_def reset_catalog_def
      reset_task_def local_profile_def shipped_files_def validate_runtime_profile_def
      validate_scope_class_def check_dangerous_def find_provider_environment_ref_def is_destructive_def)

lemma reset_task_lookup: "tasks_by_ref reset_catalog ''local.reset.full'' = Some reset_task"
  by (simp add: tasks_by_ref_def reset_catalog_def reset_task_def)

theorem destructive_task_needs_token_witness:
  "\<exists>r. resolve_environment_profile shipped_files reset_catalog ''local.reset.full'' ''local'' True
     (Some ''ALLOW_DURABLE_LOCAL_RESET'') = Inr r \<and> rp_destructiveProfileAllowed r
   \<and> typedConfirmationRefOrNull reset_task = Some ''ALLOW_DURABLE_LOCAL_RESET''"
proof -
  obtain r where r: "resolve_environment_profile shipped_files reset_catalog ''local.reset.full'' ''local''
      True (Some ''ALLOW_DURABLE_LOCAL_RESET'') = Inr r"
    using reset_resolves by blast
  have "is_destructive reset_task" by (simp add: is_destructive_def reset_task_def)
  then show ?thesis
    using destructive_task_needs_token [OF r reset_task_lookup] r by auto
qed

theorem resolved_profile_is_consistent_witness:
  "\<exists>r. resolve_environment_profile shipped_files reset_catalog ''local.reset.full'' ''local'' True
     (Some ''ALLOW_DURABLE_LOCAL_RESET'') = Inr r
   \<and> map_of (matrix_rows shipped_files) (rp_environmentRef r) = Some (rp_providerEnvironmentRef r)"
proof -
  obtain r where r: "resolve_environment_profile shipped_files reset_catalog ''local.reset.full'' ''local''
      True (Some ''ALLOW_DURABLE_LOCAL_RESET'') = Inr r"
    using reset_resolves by blast
  then show ?thesis using resolved_profile_is_consistent [OF r] by blast
qed

end
