(* ===== verification/Dependency_Order.thy ===== *)
theory Dependency_Order
  imports Py_Prelude
begin

text \<open>
  The contract of a dependencies-first order: what the task resolver and the execution graph promise
  of the lists they return, and what their clients (acyclicity, execution in order) rely on.
\<close>

locale dependency_order =
  fixes deps :: "'a \<Rightarrow> 'a list"
    and order :: "'a list"
  assumes distinct_order: "distinct order"
    and deps_before: "i < length order \<Longrightarrow> set (deps (order ! i)) \<subseteq> set (take i order)"
begin

definition dep_edges :: "('a \<times> 'a) set" where
  "dep_edges = {(y, x). x \<in> set order \<and> y \<in> set (deps x)}"

lemma position_of: "x \<in> set order \<Longrightarrow> position order x < length order \<and> order ! position order x = x"
  by (simp add: position_less_iff nth_position)

lemma position_take: "y \<in> set (take i order) \<Longrightarrow> position order y < i"
  using distinct_order
proof (induction order arbitrary: i)
  case (Cons a xs)
  then show ?case by (cases i) auto
qed simp

lemma dependency_earlier:
  assumes "x \<in> set order" and "y \<in> set (deps x)"
  shows "y \<in> set order \<and> position order y < position order x"
proof -
  have "y \<in> set (take (position order x) order)"
    using deps_before [of "position order x"] position_of [OF assms(1)] assms(2) by auto
  then show ?thesis using position_take by (auto dest: in_set_takeD)
qed

lemma closed: "x \<in> set order \<Longrightarrow> set (deps x) \<subseteq> set order"
  using dependency_earlier by blast

lemma trancl_earlier: "(y, x) \<in> dep_edges\<^sup>+ \<Longrightarrow> position order y < position order x"
  by (induction rule: trancl_induct) (auto simp: dep_edges_def dest: dependency_earlier)

lemma acyclic_edges: "acyclic dep_edges"
  by (rule acyclicI) (auto dest: trancl_earlier)

lemma self_free: "x \<in> set order \<Longrightarrow> x \<notin> set (deps x)"
  using dependency_earlier [of x x] by blast

end

lemma dependency_order_Nil: "dependency_order deps []"
  by (simp add: dependency_order_def)

lemma dependency_order_snoc:
  assumes "dependency_order deps xs" and "x \<notin> set xs" and "set (deps x) \<subseteq> set xs"
  shows "dependency_order deps (xs @ [x])"
  using assms by (auto simp: dependency_order_def nth_append less_Suc_eq)

lemma dependency_order_prefix:
  assumes "dependency_order deps (xs @ ys)"
  shows "dependency_order deps xs"
proof
  show "distinct xs" using assms by (simp add: dependency_order_def)
  fix i assume i: "i < length xs"
  then have "set (deps ((xs @ ys) ! i)) \<subseteq> set (take i (xs @ ys))"
    using assms unfolding dependency_order_def length_append by (meson trans_less_add1)
  then show "set (deps (xs ! i)) \<subseteq> set (take i xs)"
    using i by (simp add: nth_append)
qed

end
