(* ===== verification/Task_Graph.thy ===== *)
theory Task_Graph
  imports Environment_Profile Dependency_Order
begin

text \<open>
  The task graph \<open>scripts/tasks/task_graph.py\<close>: alias resolution, catalog validation with its cycle
  detection, dependency resolution of requested tasks, card plans and parameters. The two recursive
  searches take fuel; \<open>None\<close> is a search that does not return (Python's unbounded recursion), and
  \<open>visit_terminates\<close> and \<open>add_task_terminates\<close> show that the fuel given is enough.
\<close>

datatype task_error =
    Task_Alias_Collision string string string | Task_Ref_Collision | Profile_Ref_Collision
  | Task_Dependency_Unknown string string | Task_Conflict_Unknown string string
  | Task_Profile_Unknown string string | Task_Dependency_Cycle "string list"
  | Card_Task_Unknown string string | Task_Param_Invalid string | Task_Ref_Required
  | Task_Ref_Unknown string | Task_Combination_Conflict string string | Card_Id_Unknown string
  | Missing_Key string

definition bindings_by_card_id :: "catalog \<Rightarrow> string \<rightharpoonup> card_binding" where
  "bindings_by_card_id c = map_of (rev (map (\<lambda>b. (cardId b, b)) (cardBindings c)))"

section \<open>Aliases\<close>

definition task_names :: "task \<Rightarrow> string list" where
  "task_names t = taskRef t # aliases t @ [makeTarget t]"

definition add_alias :: "string \<Rightarrow> (string \<rightharpoonup> string) \<Rightarrow> string \<Rightarrow> task_error + (string \<rightharpoonup> string)" where
  "add_alias ref m alias =
    (case m alias of
       Some other \<Rightarrow> if other \<noteq> ref then Inl (Task_Alias_Collision alias other ref) else Inr (m(alias \<mapsto> ref))
     | None \<Rightarrow> Inr (m(alias \<mapsto> ref)))"

definition build_alias_map :: "catalog \<Rightarrow> task_error + (string \<rightharpoonup> string)" where
  "build_alias_map c = foldE (\<lambda>m t. foldE (add_alias (taskRef t)) m (task_names t)) Map.empty (tasks c)"

section \<open>Validation\<close>

text \<open>A \<open>for\<close> loop that raises on the first element not satisfying \<open>P\<close>.\<close>

definition require_all :: "('a \<Rightarrow> bool) \<Rightarrow> ('a \<Rightarrow> 'e) \<Rightarrow> 'a list \<Rightarrow> 'e + unit" where
  "require_all P err xs = (case find (\<lambda>x. \<not> P x) xs of None \<Rightarrow> Inr () | Some x \<Rightarrow> Inl (err x))"

definition check_task_refs :: "catalog \<Rightarrow> task \<Rightarrow> task_error + unit" where
  "check_task_refs c t =
    bindE (require_all (\<lambda>d. tasks_by_ref c d \<noteq> None) (Task_Dependency_Unknown (taskRef t)) (dependsOn t)) (\<lambda>_.
    bindE (require_all (\<lambda>d. tasks_by_ref c d \<noteq> None) (Task_Conflict_Unknown (taskRef t)) (conflictsWith t)) (\<lambda>_.
    require_all (\<lambda>p. profiles_by_ref c p \<noteq> None) (Task_Profile_Unknown (taskRef t)) (supportedProfileRefs t)))"

datatype mark = Visiting | Done

text \<open>The nested function \<open>visit\<close> and its loop over the dependencies; \<open>deps\<close> looks the task up in
  \<open>task_map\<close>, \<open>v\<close> is the dictionary \<open>visited\<close>.\<close>

fun visit :: "nat \<Rightarrow> (string \<Rightarrow> string list option) \<Rightarrow> (string \<rightharpoonup> mark) \<Rightarrow> string list \<Rightarrow> string \<Rightarrow>
    (task_error + (string \<rightharpoonup> mark)) option"
  and visit_all :: "nat \<Rightarrow> (string \<Rightarrow> string list option) \<Rightarrow> (string \<rightharpoonup> mark) \<Rightarrow> string list \<Rightarrow>
    string list \<Rightarrow> (task_error + (string \<rightharpoonup> mark)) option" where
  "visit 0 deps v stack r = None"
| "visit (Suc n) deps v stack r =
    (case v r of
       Some Done \<Rightarrow> Some (Inr v)
     | Some Visiting \<Rightarrow> Some (Inl (Task_Dependency_Cycle (stack @ [r])))
     | None \<Rightarrow> (case deps r of
         None \<Rightarrow> Some (Inl (Missing_Key r))
       | Some ds \<Rightarrow> (case visit_all n deps (v(r \<mapsto> Visiting)) (stack @ [r]) ds of
           None \<Rightarrow> None
         | Some (Inl e) \<Rightarrow> Some (Inl e)
         | Some (Inr v') \<Rightarrow> Some (Inr (v'(r \<mapsto> Done))))))"
| "visit_all n deps v stack [] = Some (Inr v)"
| "visit_all n deps v stack (r # rs) =
    (case visit n deps v stack r of
       None \<Rightarrow> None
     | Some (Inl e) \<Rightarrow> Some (Inl e)
     | Some (Inr v') \<Rightarrow> visit_all n deps v' stack rs)"

definition deps_lookup :: "catalog \<Rightarrow> string \<Rightarrow> string list option" where
  "deps_lookup c r = map_option dependsOn (tasks_by_ref c r)"

record validation =
  taskCount :: nat
  profileCount :: nat
  aliasCount :: nat
  cardBindingCount :: nat

definition check_bindings :: "catalog \<Rightarrow> task_error + unit" where
  "check_bindings c = foldE (\<lambda>_ b. require_all (\<lambda>r. tasks_by_ref c r \<noteq> None) (Card_Task_Unknown (cardId b))
      (executionTaskRefs b @ verificationTaskRefs b)) () (cardBindings c)"

definition search_fuel :: "catalog \<Rightarrow> nat" where
  "search_fuel c = Suc (length (tasks c))"

text \<open>The number of keys of the alias map (\<open>alias_count_dom\<close>).\<close>

definition alias_count :: "catalog \<Rightarrow> nat" where
  "alias_count c = length (remdups (concat (map task_names (tasks c))))"

definition validate_catalog :: "catalog \<Rightarrow> (task_error + validation) option" where
  "validate_catalog c =
    (let task_refs = remdups (map taskRef (tasks c));
         profile_refs = remdups (map profileRef (environmentProfiles c))
     in if length task_refs \<noteq> length (tasks c) then Some (Inl Task_Ref_Collision)
        else if length profile_refs \<noteq> length (environmentProfiles c) then Some (Inl Profile_Ref_Collision)
        else (case build_alias_map c of
          Inl e \<Rightarrow> Some (Inl e)
        | Inr _ \<Rightarrow> (case foldE (\<lambda>_ t. check_task_refs c t) () (tasks c) of
            Inl e \<Rightarrow> Some (Inl e)
          | Inr _ \<Rightarrow> (case visit_all (search_fuel c) (deps_lookup c) Map.empty [] (map taskRef (tasks c)) of
              None \<Rightarrow> None
            | Some (Inl e) \<Rightarrow> Some (Inl e)
            | Some (Inr _) \<Rightarrow> Some (bindE (check_bindings c) (\<lambda>_. Inr
                \<lparr>taskCount = length task_refs, profileCount = length profile_refs,
                 aliasCount = alias_count c, cardBindingCount = length (cardBindings c)\<rparr>))))))"

section \<open>Resolution\<close>

text \<open>The nested function \<open>add_task\<close>: the set \<open>seen\<close> always holds the tasks of \<open>resolved\<close>.\<close>

fun add_task :: "nat \<Rightarrow> (string \<Rightarrow> string list option) \<Rightarrow> string list \<Rightarrow> string \<Rightarrow>
    (task_error + string list) option"
  and add_tasks :: "nat \<Rightarrow> (string \<Rightarrow> string list option) \<Rightarrow> string list \<Rightarrow> string list \<Rightarrow>
    (task_error + string list) option" where
  "add_task 0 deps resolved r = None"
| "add_task (Suc n) deps resolved r =
    (if r \<in> set resolved then Some (Inr resolved)
     else (case deps r of
       None \<Rightarrow> Some (Inl (Missing_Key r))
     | Some ds \<Rightarrow> (case add_tasks n deps resolved ds of
         None \<Rightarrow> None
       | Some (Inl e) \<Rightarrow> Some (Inl e)
       | Some (Inr resolved') \<Rightarrow> Some (Inr (resolved' @ [r])))))"
| "add_tasks n deps resolved [] = Some (Inr resolved)"
| "add_tasks n deps resolved (r # rs) =
    (case add_task n deps resolved r of
       None \<Rightarrow> None
     | Some (Inl e) \<Rightarrow> Some (Inl e)
     | Some (Inr resolved') \<Rightarrow> add_tasks n deps resolved' rs)"

definition add_canonical :: "(string \<rightharpoonup> string) \<Rightarrow> string list \<Rightarrow> string \<Rightarrow> task_error + string list" where
  "add_canonical alias_map canonical requested =
    (case alias_map requested of
       None \<Rightarrow> Inl (Task_Ref_Unknown requested)
     | Some ref \<Rightarrow> Inr (if ref \<in> set canonical then canonical else canonical @ [ref]))"

text \<open>The loop over the conflicts of every resolved task; the tasks are those of \<open>task_map\<close>.\<close>

definition check_conflicts :: "catalog \<Rightarrow> string list \<Rightarrow> task_error + unit" where
  "check_conflicts c resolved = foldE (\<lambda>_ r.
      (case tasks_by_ref c r of
         None \<Rightarrow> Inl (Missing_Key r)
       | Some t \<Rightarrow> require_all (\<lambda>k. k \<notin> set resolved) (Task_Combination_Conflict r) (conflictsWith t)))
      () resolved"

definition resolve_requested_task_refs :: "catalog \<Rightarrow> string list \<Rightarrow> (task_error + string list) option" where
  "resolve_requested_task_refs c requested_refs =
    (if requested_refs = [] then Some (Inl Task_Ref_Required)
     else (case build_alias_map c of
       Inl e \<Rightarrow> Some (Inl e)
     | Inr alias_map \<Rightarrow> (case foldE (add_canonical alias_map) [] requested_refs of
         Inl e \<Rightarrow> Some (Inl e)
       | Inr canonical \<Rightarrow> (case add_tasks (search_fuel c) (deps_lookup c) [] canonical of
           None \<Rightarrow> None
         | Some (Inl e) \<Rightarrow> Some (Inl e)
         | Some (Inr resolved) \<Rightarrow> Some (bindE (check_conflicts c resolved) (\<lambda>_. Inr resolved))))))"

record card_plan =
  planCardId :: string
  planChecklistStates :: "string list"
  planEvidenceGlobs :: "string list"
  planExecutionRefs :: "string list"
  planVerificationRefs :: "string list"
  executionPlan :: "string list option"
  verificationPlan :: "string list option"

text \<open>\<open>phase\<close> selects which plans are resolved; the first failing resolution is the result.\<close>

definition resolve_when :: "bool \<Rightarrow> catalog \<Rightarrow> string list \<Rightarrow> (task_error + string list option) option" where
  "resolve_when b c refs =
    (if b then map_option (\<lambda>r. bindE r (\<lambda>p. Inr (Some p))) (resolve_requested_task_refs c refs)
     else Some (Inr None))"

definition resolve_card_plan :: "catalog \<Rightarrow> string \<Rightarrow> string \<Rightarrow> (task_error + card_plan) option" where
  "resolve_card_plan c card_id phase =
    (case bindings_by_card_id c card_id of
       None \<Rightarrow> Some (Inl (Card_Id_Unknown card_id))
     | Some b \<Rightarrow>
        (case resolve_when (phase \<in> {''execution'', ''all''}) c (executionTaskRefs b) of
           None \<Rightarrow> None
         | Some (Inl e) \<Rightarrow> Some (Inl e)
         | Some (Inr ep) \<Rightarrow>
            (case resolve_when (phase \<in> {''verification'', ''all''}) c (verificationTaskRefs b) of
               None \<Rightarrow> None
             | Some (Inl e) \<Rightarrow> Some (Inl e)
             | Some (Inr vp) \<Rightarrow> Some (Inr
                 \<lparr>planCardId = card_id, planChecklistStates = allowedChecklistStates b,
                  planEvidenceGlobs = evidenceGlobs b, planExecutionRefs = executionTaskRefs b,
                  planVerificationRefs = verificationTaskRefs b, executionPlan = ep,
                  verificationPlan = vp\<rparr>))))"

section \<open>Parameters\<close>

definition add_param :: "(string \<times> string) list \<Rightarrow> string \<Rightarrow> task_error + (string \<times> string) list" where
  "add_param params item =
    (if CHR ''='' \<notin> set item then Inl (Task_Param_Invalid item)
     else (let key = takeWhile (\<lambda>ch. ch \<noteq> CHR ''='') item;
               value = tl (dropWhile (\<lambda>ch. ch \<noteq> CHR ''='') item)
           in if key = [] then Inl (Task_Param_Invalid item) else Inr (AList.update key value params)))"

definition parse_params :: "string list \<Rightarrow> task_error + (string \<times> string) list" where
  "parse_params raw_params = foldE add_param [] raw_params"

section \<open>The cycle search\<close>

definition deps_of :: "(string \<Rightarrow> string list option) \<Rightarrow> string \<Rightarrow> string list" where
  "deps_of deps r = (case deps r of Some ds \<Rightarrow> ds | None \<Rightarrow> [])"

definition marked :: "mark \<Rightarrow> (string \<rightharpoonup> mark) \<Rightarrow> string set" where
  "marked m v = {r. v r = Some m}"

lemma marked_simps:
  "v r = None \<Longrightarrow> marked Visiting (v(r \<mapsto> Visiting)) = insert r (marked Visiting v)"
  "v r = None \<Longrightarrow> marked Done (v(r \<mapsto> Visiting)) = marked Done v"
  "marked Visiting (v(r \<mapsto> Done)) = marked Visiting v - {r}"
  "marked Done (v(r \<mapsto> Done)) = insert r (marked Done v)"
  by (auto simp: marked_def)

lemma marked_disjoint: "r \<in> marked Visiting v \<Longrightarrow> r \<notin> marked Done v"
  by (simp add: marked_def)

lemma dom_marked: "dom v = marked Visiting v \<union> marked Done v"
proof -
  have "v x = Some Visiting \<or> v x = Some Done" if "v x = Some m" for x m
    using that by (cases m) simp_all
  then show ?thesis by (auto simp: marked_def)
qed

text \<open>A successful search leaves the stack's marks as they were and finishes what it was asked for.\<close>

lemma visit_frame:
  shows "visit n deps v stack r = Some (Inr v') \<Longrightarrow>
      marked Visiting v' = marked Visiting v \<and> marked Done v \<subseteq> marked Done v' \<and> r \<in> marked Done v'"
    and "visit_all n deps v stack rs = Some (Inr v') \<Longrightarrow>
      marked Visiting v' = marked Visiting v \<and> marked Done v \<subseteq> marked Done v' \<and> set rs \<subseteq> marked Done v'"
proof (induction n deps v stack r and n deps v stack rs arbitrary: v' and v' rule: visit_visit_all.induct)
  case (2 n deps v stack r)
  note fun_upd_apply [simp del]
  show ?case
  proof (cases "v r")
    case None
    then obtain ds w where ds: "deps r = Some ds"
      and w: "visit_all n deps (v(r \<mapsto> Visiting)) (stack @ [r]) ds = Some (Inr w)" "v' = w(r \<mapsto> Done)"
      using "2.prems" by (auto split: option.splits sum.splits)
    have "marked Visiting w = insert r (marked Visiting v)" "marked Done v \<subseteq> marked Done w"
      using "2.IH" [OF None ds w(1)] None by (simp_all add: marked_simps)
    moreover have "r \<notin> marked Visiting v" using None by (simp add: marked_def)
    ultimately show ?thesis by (auto simp: w(2) marked_simps)
  next
    case (Some m)
    then show ?thesis using "2.prems" by (cases m) (auto simp: marked_def)
  qed
next
  case (4 n deps v stack r rs)
  then obtain w where w: "visit n deps v stack r = Some (Inr w)" "visit_all n deps w stack rs = Some (Inr v')"
    by (auto split: option.splits sum.splits)
  show ?case using "4.IH"(1) [OF w(1)] "4.IH"(2) [OF w(1) refl w(2)] by auto
qed auto

definition search_ok :: "(string \<Rightarrow> string list option) \<Rightarrow> (string \<rightharpoonup> mark) \<Rightarrow> bool" where
  "search_ok deps v \<longleftrightarrow> (\<exists>order. dependency_order (deps_of deps) order \<and> set order = marked Done v)"

lemma visit_order:
  shows "visit n deps v stack r = Some (Inr v') \<Longrightarrow> search_ok deps v \<Longrightarrow> search_ok deps v'"
    and "visit_all n deps v stack rs = Some (Inr v') \<Longrightarrow> search_ok deps v \<Longrightarrow> search_ok deps v'"
proof (induction n deps v stack r and n deps v stack rs arbitrary: v' and v' rule: visit_visit_all.induct)
  case (2 n deps v stack r)
  note fun_upd_apply [simp del]
  show ?case
  proof (cases "v r")
    case None
    then obtain ds w where ds: "deps r = Some ds"
      and w: "visit_all n deps (v(r \<mapsto> Visiting)) (stack @ [r]) ds = Some (Inr w)" "v' = w(r \<mapsto> Done)"
      using "2.prems" by (auto split: option.splits sum.splits)
    have "search_ok deps (v(r \<mapsto> Visiting))"
      using "2.prems"(2) None by (simp add: search_ok_def marked_simps)
    then obtain order where order: "dependency_order (deps_of deps) order" "set order = marked Done w"
      using "2.IH" [OF None ds w(1)] by (auto simp: search_ok_def)
    have "r \<in> marked Visiting w"
      using visit_frame(2) [OF w(1)] None by (simp add: marked_simps)
    then have "set ds \<subseteq> set order" "r \<notin> set order"
      using visit_frame(2) [OF w(1)] by (simp_all add: order(2) marked_disjoint)
    then have "dependency_order (deps_of deps) (order @ [r])"
      using dependency_order_snoc [OF order(1)] ds by (simp add: deps_of_def)
    then show ?thesis
      unfolding search_ok_def w(2) marked_simps using order(2) by (intro exI [of _ "order @ [r]"]) simp
  next
    case (Some m)
    then show ?thesis using "2.prems" by (cases m) auto
  qed
next
  case (4 n deps v stack r rs)
  then obtain w where w: "visit n deps v stack r = Some (Inr w)" "visit_all n deps w stack rs = Some (Inr v')"
    by (auto split: option.splits sum.splits)
  show ?case using "4.IH"(2) [OF w(1) refl w(2)] "4.IH"(1) [OF w(1) "4.prems"(2)] by blast
qed auto

text \<open>What a reported cycle is: a path along dependencies whose last task occurs in it before.\<close>

definition real_cycle :: "(string \<Rightarrow> string list option) \<Rightarrow> string list \<Rightarrow> bool" where
  "real_cycle deps p \<longleftrightarrow> successively (\<lambda>a b. b \<in> set (deps_of deps a)) p \<and> p \<noteq> [] \<and> last p \<in> set (butlast p)"

lemma visit_cycle:
  shows "visit n deps v stack r = Some (Inl (Task_Dependency_Cycle p)) \<Longrightarrow> marked Visiting v = set stack \<Longrightarrow>
      successively (\<lambda>a b. b \<in> set (deps_of deps a)) (stack @ [r]) \<Longrightarrow> real_cycle deps p"
    and "visit_all n deps v stack rs = Some (Inl (Task_Dependency_Cycle p)) \<Longrightarrow>
      marked Visiting v = set stack \<Longrightarrow>
      (\<forall>r \<in> set rs. successively (\<lambda>a b. b \<in> set (deps_of deps a)) (stack @ [r])) \<Longrightarrow> real_cycle deps p"
proof (induction n deps v stack r and n deps v stack rs rule: visit_visit_all.induct)
  case (2 n deps v stack r)
  note fun_upd_apply [simp del]
  show ?case
  proof (cases "v r")
    case None
    then obtain ds where ds: "deps r = Some ds"
      and w: "visit_all n deps (v(r \<mapsto> Visiting)) (stack @ [r]) ds = Some (Inl (Task_Dependency_Cycle p))"
      using "2.prems"(1) by (auto split: option.splits sum.splits)
    have "successively (\<lambda>a b. b \<in> set (deps_of deps a)) ((stack @ [r]) @ [d])" if "d \<in> set ds" for d
      using "2.prems"(3) that ds by (subst successively_append_iff) (simp add: deps_of_def)
    then show ?thesis
      using "2.IH" [OF None ds w] "2.prems"(2) None by (simp add: marked_simps)
  next
    case (Some m)
    then show ?thesis using "2.prems" by (cases m) (auto simp: real_cycle_def marked_def)
  qed
next
  case (4 n deps v stack r rs)
  show ?case
  proof (cases "visit n deps v stack r")
    case None
    then show ?thesis using "4.prems" by simp
  next
    case (Some x)
    show ?thesis
    proof (cases x)
      case (Inl e)
      then show ?thesis using "4.IH"(1) "4.prems" Some by simp
    next
      case (Inr w)
      with Some have w: "visit n deps v stack r = Some (Inr w)" by simp
      then show ?thesis
        using "4.IH"(2) [OF w refl] "4.prems" visit_frame(1) [OF w] by simp
    qed
  qed
qed auto

text \<open>The search returns whenever the fuel exceeds the number of known tasks not yet marked.\<close>

definition unmarked :: "(string \<Rightarrow> string list option) \<Rightarrow> (string \<rightharpoonup> mark) \<Rightarrow> string set" where
  "unmarked deps v = {r \<in> dom deps. v r = None}"

lemma visit_dom:
  shows "visit n deps v stack r = Some (Inr v') \<Longrightarrow> dom v \<subseteq> dom v'"
    and "visit_all n deps v stack rs = Some (Inr v') \<Longrightarrow> dom v \<subseteq> dom v'"
  unfolding dom_marked [of v] dom_marked [of v']
  by (drule visit_frame(1), blast) (drule visit_frame(2), blast)

lemma unmarked_upd: "unmarked deps (v(r \<mapsto> m)) = unmarked deps v - {r}"
  by (auto simp: unmarked_def)

lemma visit_terminates:
  assumes "finite (dom deps)"
  shows "card (unmarked deps v) < n \<Longrightarrow> visit n deps v stack r \<noteq> None"
    and "card (unmarked deps v) < n \<Longrightarrow> visit_all n deps v stack rs \<noteq> None"
  using assms
proof (induction n deps v stack r and n deps v stack rs rule: visit_visit_all.induct)
  case (2 n deps v stack r)
  note fun_upd_apply [simp del]
  show ?case
  proof (cases "v r = None \<and> deps r \<noteq> None")
    case True
    then obtain ds where ds: "v r = None" "deps r = Some ds" by blast
    have r: "r \<in> unmarked deps v" and fin: "finite (unmarked deps v)"
      using ds "2.prems"(2) by (auto simp: unmarked_def)
    have "card (unmarked deps (v(r \<mapsto> Visiting))) < card (unmarked deps v)"
      unfolding unmarked_upd by (rule card_Diff1_less [OF fin r])
    then have "card (unmarked deps (v(r \<mapsto> Visiting))) < n" using "2.prems"(1) by simp
    then show ?thesis using "2.IH" [OF ds] "2.prems"(2) ds by (auto split: option.splits sum.splits)
  qed (auto split: option.splits mark.splits)
next
  case (4 n deps v stack r rs)
  have "visit n deps v stack r \<noteq> None" using "4.IH"(1) "4.prems" by simp
  then obtain x where x: "visit n deps v stack r = Some x" by blast
  show ?case
  proof (cases x)
    case (Inr w)
    then have w: "visit n deps v stack r = Some (Inr w)" using x by simp
    have "unmarked deps w \<subseteq> unmarked deps v" "finite (unmarked deps v)"
      using visit_dom(1) [OF w] "4.prems"(2) by (auto simp: unmarked_def)
    then have "card (unmarked deps w) < n" using "4.prems"(1) by (meson card_mono le_less_trans)
    then show ?thesis using "4.IH"(2) [OF w refl] "4.prems"(2) w by simp
  qed (simp add: x)
qed auto

lemma visit_known:
  shows "visit n deps v stack r = Some (Inr v') \<Longrightarrow> dom v \<subseteq> dom deps \<Longrightarrow> dom v' \<subseteq> dom deps"
    and "visit_all n deps v stack rs = Some (Inr v') \<Longrightarrow> dom v \<subseteq> dom deps \<Longrightarrow> dom v' \<subseteq> dom deps"
proof (induction n deps v stack r and n deps v stack rs arbitrary: v' and v' rule: visit_visit_all.induct)
  case (2 n deps v stack r)
  note fun_upd_apply [simp del]
  show ?case
  proof (cases "v r")
    case None
    then obtain ds w where ds: "deps r = Some ds"
      and w: "visit_all n deps (v(r \<mapsto> Visiting)) (stack @ [r]) ds = Some (Inr w)" "v' = w(r \<mapsto> Done)"
      using "2.prems" by (auto split: option.splits sum.splits)
    have "r \<in> dom deps" using ds by blast
    then show ?thesis using "2.IH" [OF None ds w(1)] "2.prems"(2) by (simp add: w(2))
  next
    case (Some m)
    then show ?thesis using "2.prems" by (cases m) auto
  qed
next
  case (4 n deps v stack r rs)
  then obtain w where w: "visit n deps v stack r = Some (Inr w)" "visit_all n deps w stack rs = Some (Inr v')"
    by (auto split: option.splits sum.splits)
  show ?case using "4.IH"(2) [OF w(1) refl w(2)] "4.IH"(1) [OF w(1) "4.prems"(2)] by blast
qed auto

section \<open>Accepted catalogs\<close>

definition catalog_accepted :: "catalog \<Rightarrow> bool" where
  "catalog_accepted c \<longleftrightarrow> (case validate_catalog c of Some (Inr _) \<Rightarrow> True | _ \<Rightarrow> False)"

lemma require_all_ok [simp]: "require_all P err xs = Inr () \<longleftrightarrow> (\<forall>x \<in> set xs. P x)"
  by (auto simp: require_all_def find_None_iff find_Some_iff split: option.splits)

lemma require_all_Inl: "require_all P err xs = Inl e \<Longrightarrow> \<exists>x. e = err x"
  by (auto simp: require_all_def split: option.splits)

lemma foldE_unit: "foldE (\<lambda>_ x. f x) () xs = Inr () \<longleftrightarrow> (\<forall>x \<in> set xs. f x = Inr ())"
  by (induction xs) (auto simp: bindE_eq_Inr_iff)

lemma distinct_remdups_length: "length (remdups xs) = length xs \<longleftrightarrow> distinct xs"
  by (metis distinct_remdups remdups_id_iff_distinct length_remdups_eq)

lemma dom_deps_lookup: "dom (deps_lookup c) = taskRef ` set (tasks c)"
  by (auto simp: deps_lookup_def dom_tasks_by_ref [symmetric])

lemma accepted_parts:
  assumes "catalog_accepted c"
  obtains aliases v where "distinct (map taskRef (tasks c))" and "build_alias_map c = Inr aliases"
    and "\<forall>t \<in> set (tasks c). check_task_refs c t = Inr ()"
    and "visit_all (search_fuel c) (deps_lookup c) Map.empty [] (map taskRef (tasks c)) = Some (Inr v)"
    and "check_bindings c = Inr ()"
proof -
  obtain s where s: "validate_catalog c = Some (Inr s)"
    using assms by (auto simp: catalog_accepted_def split: option.splits sum.splits)
  then have d: "distinct (map taskRef (tasks c))"
    by (auto simp: validate_catalog_def Let_def distinct_remdups_length [of "map taskRef (tasks c)", simplified]
        split: if_splits)
  obtain aliases where a: "build_alias_map c = Inr aliases"
    using s by (auto simp: validate_catalog_def Let_def split: if_splits sum.splits)
  obtain u where u: "foldE (\<lambda>_ t. check_task_refs c t) () (tasks c) = Inr u"
    using s a by (auto simp: validate_catalog_def Let_def split: if_splits sum.splits)
  obtain v where v: "visit_all (search_fuel c) (deps_lookup c) Map.empty [] (map taskRef (tasks c)) = Some (Inr v)"
    using s a u by (auto simp: validate_catalog_def Let_def split: if_splits sum.splits option.splits)
  have "check_bindings c = Inr ()"
    using s a u v by (auto simp: validate_catalog_def Let_def bindE_eq_Inr_iff split: if_splits)
  with d a u v show thesis by (intro that) (simp_all add: foldE_unit [symmetric])
qed

lemma accepted_distinct: "catalog_accepted c \<Longrightarrow> distinct (map taskRef (tasks c))"
  by (erule accepted_parts)

lemma accepted_task_refs: "catalog_accepted c \<Longrightarrow> t \<in> set (tasks c) \<Longrightarrow> check_task_refs c t = Inr ()"
  by (erule accepted_parts) blast

lemma accepted_bindings: "catalog_accepted c \<Longrightarrow> check_bindings c = Inr ()"
  by (erule accepted_parts)

text \<open>The order in which the cycle search finishes the tasks.\<close>

lemma accepted_order:
  assumes "catalog_accepted c"
  obtains order where "dependency_order (deps_of (deps_lookup c)) order"
    and "set order = taskRef ` set (tasks c)"
proof -
  obtain v where v: "visit_all (search_fuel c) (deps_lookup c) Map.empty [] (map taskRef (tasks c)) = Some (Inr v)"
    using assms by (rule accepted_parts)
  have "search_ok (deps_lookup c) Map.empty"
    unfolding search_ok_def by (rule exI [of _ "[]"]) (simp add: dependency_order_Nil marked_def)
  then obtain order where order: "dependency_order (deps_of (deps_lookup c)) order" "set order = marked Done v"
    using visit_order(2) [OF v] by (auto simp: search_ok_def)
  have "marked Done v \<subseteq> dom (deps_lookup c)"
    using visit_known(2) [OF v] dom_marked [of v] by simp
  moreover have "set (map taskRef (tasks c)) \<subseteq> marked Done v"
    using visit_frame(2) [OF v] by blast
  then have "taskRef ` set (tasks c) \<subseteq> marked Done v" by (simp only: set_map)
  ultimately have "set order = taskRef ` set (tasks c)"
    unfolding order(2) dom_deps_lookup by (rule subset_antisym)
  then show thesis by (rule that [OF order(1)])
qed

lemma accepted_lookup:
  assumes "catalog_accepted c" and "t \<in> set (tasks c)"
  shows "tasks_by_ref c (taskRef t) = Some t"
proof -
  have d: "distinct (map taskRef (tasks c))" using assms(1) by (rule accepted_distinct)
  then have "distinct (map fst (rev (map (\<lambda>t. (taskRef t, t)) (tasks c))))"
    by (simp add: rev_map [symmetric] comp_def)
  then show ?thesis unfolding tasks_by_ref_def using assms(2) by (intro map_of_is_SomeI) auto
qed

text \<open>The dependency relation of a catalog.\<close>

definition depends :: "catalog \<Rightarrow> (string \<times> string) set" where
  "depends c = {(d, taskRef t) | d t. t \<in> set (tasks c) \<and> d \<in> set (dependsOn t)}"

lemma depends_lookup:
  assumes "catalog_accepted c"
  shows "(d, r) \<in> depends c \<longleftrightarrow> r \<in> taskRef ` set (tasks c) \<and> d \<in> set (deps_of (deps_lookup c) r)"
proof
  assume "(d, r) \<in> depends c"
  then obtain t where "t \<in> set (tasks c)" "r = taskRef t" "d \<in> set (dependsOn t)"
    by (auto simp: depends_def)
  then show "r \<in> taskRef ` set (tasks c) \<and> d \<in> set (deps_of (deps_lookup c) r)"
    using accepted_lookup [OF assms] by (simp add: deps_of_def deps_lookup_def)
next
  assume "r \<in> taskRef ` set (tasks c) \<and> d \<in> set (deps_of (deps_lookup c) r)"
  then obtain t where t: "t \<in> set (tasks c)" "r = taskRef t" "d \<in> set (deps_of (deps_lookup c) (taskRef t))"
    by blast
  then have "d \<in> set (dependsOn t)"
    using accepted_lookup [OF assms t(1)] by (simp add: deps_of_def deps_lookup_def)
  with t show "(d, r) \<in> depends c" by (auto simp: depends_def)
qed

text \<open>C23: an accepted catalog has no dependency cycle, and every dependency, conflict and card task it
  names is one of its tasks, every supported profile one of its profiles.\<close>

theorem accepted_catalog_is_acyclic:
  assumes ok: "catalog_accepted c"
  shows "acyclic (depends c) \<and>
    (\<forall>t \<in> set (tasks c). set (dependsOn t) \<union> set (conflictsWith t) \<subseteq> taskRef ` set (tasks c) \<and>
       set (supportedProfileRefs t) \<subseteq> profileRef ` set (environmentProfiles c)) \<and>
    (\<forall>b \<in> set (cardBindings c).
       set (executionTaskRefs b) \<union> set (verificationTaskRefs b) \<subseteq> taskRef ` set (tasks c))"
proof (intro conjI)
  obtain order where order: "dependency_order (deps_of (deps_lookup c)) order"
    "set order = taskRef ` set (tasks c)" using ok by (rule accepted_order)
  have "depends c = {(y, x). x \<in> set order \<and> y \<in> set (deps_of (deps_lookup c) x)}"
    using depends_lookup [OF ok] by (auto simp: order(2))
  then show "acyclic (depends c)"
    using dependency_order.acyclic_edges [OF order(1)]
    by (simp add: dependency_order.dep_edges_def [OF order(1)])
  note refs = accepted_task_refs [OF ok] and bind = accepted_bindings [OF ok]
  have prof: "profiles_by_ref c p \<noteq> None \<Longrightarrow> p \<in> profileRef ` set (environmentProfiles c)" for p
    by (auto dest!: profiles_by_ref_key)
  have known: "tasks_by_ref c d \<noteq> None \<Longrightarrow> d \<in> taskRef ` set (tasks c)" for d
    using tasks_by_ref_None [of c d] by argo
  show "\<forall>t \<in> set (tasks c). set (dependsOn t) \<union> set (conflictsWith t) \<subseteq> taskRef ` set (tasks c) \<and>
       set (supportedProfileRefs t) \<subseteq> profileRef ` set (environmentProfiles c)"
  proof
    fix t assume "t \<in> set (tasks c)"
    then have "check_task_refs c t = Inr ()" using refs by blast
    then have "\<forall>d \<in> set (dependsOn t). tasks_by_ref c d \<noteq> None"
      "\<forall>d \<in> set (conflictsWith t). tasks_by_ref c d \<noteq> None"
      "\<forall>d \<in> set (supportedProfileRefs t). profiles_by_ref c d \<noteq> None"
      unfolding check_task_refs_def bindE_unit require_all_ok by blast+
    then show "set (dependsOn t) \<union> set (conflictsWith t) \<subseteq> taskRef ` set (tasks c) \<and>
       set (supportedProfileRefs t) \<subseteq> profileRef ` set (environmentProfiles c)"
      using known prof by blast
  qed
  show "\<forall>b \<in> set (cardBindings c).
       set (executionTaskRefs b) \<union> set (verificationTaskRefs b) \<subseteq> taskRef ` set (tasks c)"
  proof
    fix b assume "b \<in> set (cardBindings c)"
    then have "\<forall>r \<in> set (executionTaskRefs b @ verificationTaskRefs b). tasks_by_ref c r \<noteq> None"
      using bind unfolding check_bindings_def foldE_unit require_all_ok by blast
    then show "set (executionTaskRefs b) \<union> set (verificationTaskRefs b) \<subseteq> taskRef ` set (tasks c)"
      using known by auto
  qed
qed

text \<open>Validating a catalog always returns: the cycle search never runs out of its fuel, whatever
  the catalog, cyclic ones included.\<close>

lemma validation_returns: "validate_catalog c \<noteq> None"
proof -
  have fin: "finite (dom (deps_lookup c))" by (simp add: dom_deps_lookup)
  have "card (unmarked (deps_lookup c) Map.empty) = card (taskRef ` set (tasks c))"
    by (simp add: unmarked_def dom_deps_lookup [symmetric] Collect_mem_eq)
  also have "\<dots> \<le> length (tasks c)"
    by (rule order_trans [OF card_image_le]) (simp_all add: card_length)
  finally have "visit_all (search_fuel c) (deps_lookup c) Map.empty [] (map taskRef (tasks c)) \<noteq> None"
    using visit_terminates(2) [OF fin] by (simp add: search_fuel_def)
  then show ?thesis by (auto simp: validate_catalog_def Let_def split: option.splits sum.splits)
qed

text \<open>A reported dependency cycle is a real one: the reported path follows dependencies of the
  catalog and ends in a task it already contains.\<close>

theorem reported_cycle_is_real:
  assumes "validate_catalog c = Some (Inl (Task_Dependency_Cycle p))"
  shows "real_cycle (deps_lookup c) p"
proof -
  have names: "build_alias_map c \<noteq> Inl (Task_Dependency_Cycle p)"
    by (auto simp: build_alias_map_def add_alias_def dest!: foldE_Inl split: option.splits if_splits)
  have refs: "foldE (\<lambda>_ t. check_task_refs c t) () (tasks c) \<noteq> Inl (Task_Dependency_Cycle p)"
    by (auto simp: check_task_refs_def bindE_eq_Inl_iff dest!: foldE_Inl require_all_Inl)
  have bind: "check_bindings c \<noteq> Inl (Task_Dependency_Cycle p)"
    by (auto simp: check_bindings_def dest!: foldE_Inl require_all_Inl)
  have "visit_all (search_fuel c) (deps_lookup c) Map.empty [] (map taskRef (tasks c))
      = Some (Inl (Task_Dependency_Cycle p))"
    using assms names refs bind
    by (auto simp: validate_catalog_def Let_def bindE_eq_Inl_iff split: if_splits sum.splits option.splits)
  then show ?thesis by (rule visit_cycle(2)) (simp_all add: marked_def)
qed

section \<open>Two small catalogs\<close>

definition small_task :: "string \<Rightarrow> string list \<Rightarrow> string list \<Rightarrow> task" where
  "small_task ref deps confl = reset_task\<lparr>taskRef := ref, makeTarget := ref, aliases := [],
     dependsOn := deps, conflictsWith := confl, supportedProfileRefs := [''local'']\<rparr>"

definition small_catalog :: catalog where
  "small_catalog = \<lparr>tasks = [small_task ''c'' [''b'', ''a''] [], small_task ''a'' [] [''d''],
       small_task ''b'' [''a''] [], small_task ''d'' [] []],
     environmentProfiles = [local_profile],
     cardBindings = [\<lparr>cardId = ''card'', executionTaskRefs = [''c''], verificationTaskRefs = [''d''],
       evidenceGlobs = [], allowedChecklistStates = []\<rparr>]\<rparr>"

definition cyclic_catalog :: catalog where
  "cyclic_catalog = \<lparr>tasks = [small_task ''a'' [''b''] [], small_task ''b'' [''c''] [], small_task ''c'' [''b''] []],
     environmentProfiles = [local_profile], cardBindings = []\<rparr>"

lemma small_accepted: "catalog_accepted small_catalog"
  by code_simp

lemma cyclic_rejected: "validate_catalog cyclic_catalog
    = Some (Inl (Task_Dependency_Cycle [''a'', ''b'', ''c'', ''b'']))"
  by code_simp

theorem accepted_catalog_is_acyclic_witness: "acyclic (depends small_catalog)"
  using accepted_catalog_is_acyclic [OF small_accepted] by (rule conjunct1)

theorem reported_cycle_is_real_witness:
  "real_cycle (deps_lookup cyclic_catalog) [''a'', ''b'', ''c'', ''b'']"
  by (rule reported_cycle_is_real [OF cyclic_rejected])

end
