(* ===== verification/Task_Resolution.thy ===== *)
theory Task_Resolution
  imports Task_Graph
begin

text \<open>
  What \<open>resolve_requested_task_refs\<close> of \<open>scripts/tasks/task_graph.py\<close> promises: names stand for one
  task each, the resolver returns, and its plan of an accepted catalog can be executed in order.
\<close>

section \<open>The resolved plan\<close>

text \<open>Everything the resolver adds for a task is the task or one of its transitive dependencies.\<close>

definition needed :: "(string \<Rightarrow> string list option) \<Rightarrow> (string \<times> string) set" where
  "needed deps = {(y, x). y \<in> set (deps_of deps x)}\<^sup>*"

lemma add_task_sound:
  assumes order: "dependency_order (deps_of deps) order"
  shows "add_task n deps res r = Some (Inr res') \<Longrightarrow> r \<in> set order \<Longrightarrow> dependency_order (deps_of deps) res \<Longrightarrow>
      dependency_order (deps_of deps) res' \<and> r \<in> set res' \<and>
      (\<exists>new. res' = res @ new \<and> (\<forall>x \<in> set new. (x, r) \<in> needed deps \<and> position order x \<le> position order r))"
    and "add_tasks n deps res rs = Some (Inr res') \<Longrightarrow> set rs \<subseteq> set order \<Longrightarrow>
      dependency_order (deps_of deps) res \<Longrightarrow>
      dependency_order (deps_of deps) res' \<and> set rs \<subseteq> set res' \<and>
      (\<exists>new. res' = res @ new \<and> (\<forall>x \<in> set new. \<exists>r \<in> set rs. (x, r) \<in> needed deps \<and>
          position order x \<le> position order r))"
  using order
proof (induction n deps res r and n deps res rs arbitrary: res' and res' rule: add_task_add_tasks.induct)
  case (2 n deps res r)
  note order = "2.prems"(4)
  show ?case
  proof (cases "r \<in> set res")
    case True
    then show ?thesis using "2.prems" by simp
  next
    case False
    then obtain ds w where ds: "deps r = Some ds" and w: "add_tasks n deps res ds = Some (Inr w)" "res' = w @ [r]"
      using "2.prems"(1) by (auto split: option.splits sum.splits)
    have earlier: "d \<in> set order \<and> position order d < position order r" if "d \<in> set ds" for d
    proof -
      have "d \<in> set (deps_of deps r)" using that ds by (simp add: deps_of_def)
      then show ?thesis by (rule dependency_order.dependency_earlier [OF order "2.prems"(2)])
    qed
    then have "set ds \<subseteq> set order" by blast
    note IH = "2.IH" [OF False ds w(1) this "2.prems"(3) order]
    from IH have order_w: "dependency_order (deps_of deps) w" and ds_w: "set ds \<subseteq> set w" by blast+
    from IH have "\<exists>new. w = res @ new \<and> (\<forall>x \<in> set new. \<exists>d \<in> set ds. (x, d) \<in> needed deps \<and>
          position order x \<le> position order d)" by blast
    then obtain new where new: "w = res @ new"
      "\<forall>x \<in> set new. \<exists>d \<in> set ds. (x, d) \<in> needed deps \<and> position order x \<le> position order d"
      by blast
    have step: "(x, r) \<in> needed deps \<and> position order x < position order r" if "x \<in> set new" for x
    proof -
      from bspec [OF new(2) that] obtain d
        where d: "d \<in> set ds" "(x, d) \<in> needed deps" "position order x \<le> position order d"
        by (elim bexE conjE)
      have "(d, r) \<in> {(y, x). y \<in> set (deps_of deps x)}" using d(1) ds by (simp add: deps_of_def)
      then have "(x, r) \<in> needed deps" using d(2) unfolding needed_def by (rule rtrancl_into_rtrancl [rotated])
      then show ?thesis using earlier [OF d(1)] d(3) by simp
    qed
    have "r \<notin> set w" using False step new(1) by auto
    then have "dependency_order (deps_of deps) (w @ [r])"
      using dependency_order_snoc [OF order_w] ds_w ds by (simp add: deps_of_def)
    moreover have "(r, r) \<in> needed deps" by (simp add: needed_def)
    ultimately show ?thesis
      unfolding w(2) new(1) using step by (intro conjI exI [of _ "new @ [r]"]) (auto intro: less_imp_le)
  qed
next
  case (4 n deps res r rs)
  note order = "4.prems"(4)
  obtain w where w: "add_task n deps res r = Some (Inr w)" "add_tasks n deps w rs = Some (Inr res')"
    using "4.prems"(1)
    by (auto split: option.splits sum.splits)
  obtain new where new: "dependency_order (deps_of deps) w" "r \<in> set w" "w = res @ new"
    "\<forall>x \<in> set new. (x, r) \<in> needed deps \<and> position order x \<le> position order r"
    using "4.IH"(1) [OF w(1)] "4.prems" order by auto
  obtain new' where new': "dependency_order (deps_of deps) res'" "set rs \<subseteq> set res'" "res' = w @ new'"
    "\<forall>x \<in> set new'. \<exists>r \<in> set rs. (x, r) \<in> needed deps \<and> position order x \<le> position order r"
    using "4.IH"(2) [OF w(1) refl w(2)] "4.prems"(2) new(1) order by auto
  have "res' = res @ (new @ new')" using new(3) new'(3) by simp
  moreover have "\<forall>x \<in> set (new @ new'). \<exists>q \<in> set (r # rs). (x, q) \<in> needed deps \<and>
      position order x \<le> position order q"
    using new(4) new'(4) by auto
  moreover have "set (r # rs) \<subseteq> set res'" using new(2) new'(2,3) by auto
  ultimately show ?case using new'(1) by blast
qed auto

text \<open>On an ordered graph the resolver returns: a task at position \<open>i\<close> of the order needs at most
  \<open>i + 1\<close> nested calls.\<close>

lemma add_task_terminates:
  assumes order: "dependency_order (deps_of deps) order" and known: "set order \<subseteq> dom deps"
  shows "r \<in> set order \<Longrightarrow> position order r < n \<Longrightarrow> \<exists>res'. add_task n deps res r = Some (Inr res')"
    and "set rs \<subseteq> set order \<Longrightarrow> \<forall>r \<in> set rs. position order r < n \<Longrightarrow>
      \<exists>res'. add_tasks n deps res rs = Some (Inr res')"
  using order known
proof (induction n deps res r and n deps res rs rule: add_task_add_tasks.induct)
  case (2 n deps res r)
  note order = "2.prems"(3)
  obtain ds where ds: "deps r = Some ds" using "2.prems"(1,4) by blast
  have "d \<in> set order \<and> position order d < n" if "d \<in> set ds" for d
  proof -
    have "d \<in> set (deps_of deps r)" using that ds by (simp add: deps_of_def)
    then show ?thesis
      using dependency_order.dependency_earlier [OF order "2.prems"(1), of d] "2.prems"(2) by simp
  qed
  then show ?case using "2.IH" [OF _ ds] "2.prems"(3,4) ds by (cases "r \<in> set res") (fastforce split: option.splits)+
next
  case (4 n deps res r rs)
  then obtain w where w: "add_task n deps res r = Some (Inr w)" by auto
  then show ?case using "4.IH"(2) [OF w refl] "4.prems" by simp
qed auto

section \<open>Aliases name one task\<close>

lemma add_alias_Inr:
  assumes "add_alias r m a = Inr m'"
  shows "m' = m(a \<mapsto> r)" and "m \<subseteq>\<^sub>m m'"
  using assms by (auto simp: add_alias_def map_le_def split: option.splits if_splits)

lemma ran_upd_subset: "ran (m(a \<mapsto> r)) \<subseteq> insert r (ran m)"
  by (auto simp: ran_def)

lemma add_aliases_Inr:
  "foldE (add_alias r) m as = Inr m' \<Longrightarrow> m \<subseteq>\<^sub>m m' \<and> (\<forall>a \<in> set as. m' a = Some r) \<and>
     dom m' = set as \<union> dom m \<and> ran m' \<subseteq> insert r (ran m)"
proof (induction as arbitrary: m)
  case (Cons a as)
  then obtain w where w: "add_alias r m a = Inr w" "foldE (add_alias r) w as = Inr m'"
    by (auto simp: bindE_eq_Inr_iff)
  note wm = add_alias_Inr [OF w(1)]
  from Cons.IH [OF w(2)] have le: "w \<subseteq>\<^sub>m m'" and rest: "\<forall>a \<in> set as. m' a = Some r"
    and dom: "dom m' = set as \<union> dom w" and ran: "ran m' \<subseteq> insert r (ran w)" by blast+
  have "m' a = Some r" using le wm(1) by (simp add: map_le_def)
  moreover have "m \<subseteq>\<^sub>m m'" by (rule map_le_trans [OF wm(2) le])
  moreover have "dom m' = set (a # as) \<union> dom m" unfolding dom wm(1) by simp
  moreover have "ran m' \<subseteq> insert r (ran m)" using ran ran_upd_subset [of m a r] unfolding wm(1) by blast
  ultimately show ?case using rest by simp
qed auto

lemma alias_fold_Inr:
  "foldE (\<lambda>m t. foldE (add_alias (taskRef t)) m (task_names t)) m ts = Inr m' \<Longrightarrow> m \<subseteq>\<^sub>m m' \<and>
     (\<forall>t \<in> set ts. \<forall>a \<in> set (task_names t). m' a = Some (taskRef t)) \<and>
     dom m' = (\<Union>t \<in> set ts. set (task_names t)) \<union> dom m \<and> ran m' \<subseteq> taskRef ` set ts \<union> ran m"
proof (induction ts arbitrary: m)
  case (Cons t ts)
  then obtain w where w: "foldE (add_alias (taskRef t)) m (task_names t) = Inr w"
    "foldE (\<lambda>m t. foldE (add_alias (taskRef t)) m (task_names t)) w ts = Inr m'"
    by (auto simp: bindE_eq_Inr_iff)
  from add_aliases_Inr [OF w(1)] have le: "m \<subseteq>\<^sub>m w"
    and names: "\<And>a. a \<in> set (task_names t) \<Longrightarrow> w a = Some (taskRef t)"
    and dom: "dom w = set (task_names t) \<union> dom m" and ran: "ran w \<subseteq> insert (taskRef t) (ran m)" by blast+
  from Cons.IH [OF w(2)] have le': "w \<subseteq>\<^sub>m m'"
    and names': "\<And>t a. t \<in> set ts \<Longrightarrow> a \<in> set (task_names t) \<Longrightarrow> m' a = Some (taskRef t)"
    and dom': "dom m' = (\<Union>t \<in> set ts. set (task_names t)) \<union> dom w"
    and ran': "ran m' \<subseteq> taskRef ` set ts \<union> ran w" by blast+
  have "m \<subseteq>\<^sub>m m'" by (rule map_le_trans [OF le le'])
  moreover have "\<forall>u \<in> set (t # ts). \<forall>a \<in> set (task_names u). m' a = Some (taskRef u)"
  proof (intro ballI)
    fix u a assume u: "u \<in> set (t # ts)" "a \<in> set (task_names u)"
    show "m' a = Some (taskRef u)"
    proof (cases "u = t")
      case True
      then have "w a = Some (taskRef u)" using names u(2) by simp
      then show ?thesis using le' by (metis map_le_def domI)
    qed (use names' u in simp)
  qed
  moreover have "dom m' = (\<Union>t \<in> set (t # ts). set (task_names t)) \<union> dom m"
    unfolding dom' dom by (simp add: Un_assoc Un_left_commute)
  moreover have "ran m' \<subseteq> taskRef ` set (t # ts) \<union> ran m" using ran ran' by auto
  ultimately show ?case by (intro conjI)
qed simp

text \<open>The alias map gives every task reference, alias and make target of a task exactly that task,
  and knows no other name; so no name can stand for two tasks.\<close>

lemma alias_map_is_unambiguous:
  assumes "build_alias_map c = Inr m"
  shows "dom m = (\<Union>t \<in> set (tasks c). set (task_names t)) \<and>
    (\<forall>t \<in> set (tasks c). \<forall>name \<in> set (task_names t). m name = Some (taskRef t))"
  using alias_fold_Inr [OF assms [unfolded build_alias_map_def]] by simp

lemma alias_count_dom: "build_alias_map c = Inr m \<Longrightarrow> alias_count c = card (dom m)"
  using alias_map_is_unambiguous [of c m] by (simp add: alias_count_def length_remdups_card_conv)

lemma alias_range:
  assumes "build_alias_map c = Inr m" and "m a = Some r"
  shows "r \<in> taskRef ` set (tasks c)"
proof -
  have "ran m \<subseteq> taskRef ` set (tasks c)"
    using alias_fold_Inr [OF assms(1) [unfolded build_alias_map_def]] by simp
  moreover have "r \<in> ran m" using assms(2) by (rule ranI)
  ultimately show ?thesis by (rule subsetD)
qed

lemma canonical_Inr:
  "foldE (add_canonical m) xs reqs = Inr ys \<Longrightarrow>
     set ys = set xs \<union> {r. \<exists>q \<in> set reqs. m q = Some r} \<and> (\<forall>q \<in> set reqs. m q \<noteq> None)"
proof (induction reqs arbitrary: xs)
  case (Cons q reqs)
  then obtain w where w: "add_canonical m xs q = Inr w" "foldE (add_canonical m) w reqs = Inr ys"
    by (auto simp: bindE_eq_Inr_iff)
  then obtain r where r: "m q = Some r" "set w = insert r (set xs)"
    by (auto simp: add_canonical_def split: option.splits if_splits)
  then show ?case using Cons.IH [OF w(2)] by auto
qed simp

section \<open>Resolved plans\<close>

lemma resolve_Inr:
  assumes "resolve_requested_task_refs c reqs = Some (Inr plan)"
  obtains m canonical where "build_alias_map c = Inr m"
    and "set canonical = {r. \<exists>q \<in> set reqs. m q = Some r}" and "\<forall>q \<in> set reqs. m q \<noteq> None"
    and "add_tasks (search_fuel c) (deps_lookup c) [] canonical = Some (Inr plan)"
    and "check_conflicts c plan = Inr ()"
proof -
  obtain m where m: "build_alias_map c = Inr m"
    using assms by (auto simp: resolve_requested_task_refs_def split: if_splits sum.splits)
  obtain canonical where can: "foldE (add_canonical m) [] reqs = Inr canonical"
    using assms m by (auto simp: resolve_requested_task_refs_def split: if_splits sum.splits)
  have "add_tasks (search_fuel c) (deps_lookup c) [] canonical = Some (Inr plan) \<and> check_conflicts c plan = Inr ()"
    using assms m can
    by (auto simp: resolve_requested_task_refs_def bindE_unit split: if_splits sum.splits option.splits)
  with m canonical_Inr [OF can] show thesis by (intro that) auto
qed

lemma resolved_order:
  assumes ok: "catalog_accepted c" and r: "resolve_requested_task_refs c reqs = Some (Inr plan)"
  shows "dependency_order (deps_of (deps_lookup c)) plan"
proof -
  obtain order where order: "dependency_order (deps_of (deps_lookup c)) order"
    "set order = taskRef ` set (tasks c)" using ok by (rule accepted_order)
  from r obtain m canonical where m: "build_alias_map c = Inr m"
    and can: "set canonical = {r. \<exists>q \<in> set reqs. m q = Some r}"
    and plan: "add_tasks (search_fuel c) (deps_lookup c) [] canonical = Some (Inr plan)"
    by (rule resolve_Inr)
  have "set canonical \<subseteq> set order" using alias_range [OF m] can order(2) by auto
  then show ?thesis using add_task_sound(2) [OF order(1) plan] dependency_order_Nil by blast
qed

text \<open>The plan of an accepted catalog, empty when the resolution reports an error, is a
  dependencies-first order.\<close>

definition plan_of :: "catalog \<Rightarrow> string list \<Rightarrow> string list" where
  "plan_of c reqs = (if catalog_accepted c then
     (case resolve_requested_task_refs c reqs of Some (Inr p) \<Rightarrow> p | _ \<Rightarrow> []) else [])"

interpretation plan: dependency_order "deps_of (deps_lookup c)" "plan_of c reqs" for c reqs
proof -
  show "dependency_order (deps_of (deps_lookup c)) (plan_of c reqs)"
    by (auto simp: plan_of_def dependency_order_Nil resolved_order split: option.splits sum.splits)
qed

lemma plan_of_resolved:
  "catalog_accepted c \<Longrightarrow> resolve_requested_task_refs c reqs = Some (Inr p) \<Longrightarrow> plan_of c reqs = p"
  by (simp add: plan_of_def)

lemma needed_depends:
  assumes "catalog_accepted c"
  shows "needed (deps_lookup c) \<subseteq> (depends c)\<^sup>*"
proof -
  have "(y, x) \<in> depends c" if "y \<in> set (deps_of (deps_lookup c) x)" for x y
  proof -
    have "x \<in> dom (deps_lookup c)"
      using that by (cases "deps_lookup c x") (simp_all add: deps_of_def domI)
    then show ?thesis using that by (simp add: depends_lookup [OF assms] dom_deps_lookup)
  qed
  then have "{(y, x). y \<in> set (deps_of (deps_lookup c) x)} \<subseteq> depends c" by blast
  then show ?thesis unfolding needed_def by (rule rtrancl_mono)
qed

text \<open>C1: the plan resolved from an accepted catalog can be executed in its order: no task is repeated,
  every dependency of a task comes before it, no two of its tasks conflict, every requested name is in
  it, and nothing is in it that no requested task needs.\<close>

theorem resolved_plan_is_executable:
  assumes ok: "catalog_accepted c" and r: "resolve_requested_task_refs c reqs = Some (Inr p)"
    and m: "build_alias_map c = Inr m"
  shows "distinct p \<and>
    (\<forall>i < length p. \<forall>t. tasks_by_ref c (p ! i) = Some t \<longrightarrow>
       set (dependsOn t) \<subseteq> set (take i p) \<and> set (conflictsWith t) \<inter> set p = {}) \<and>
    (\<forall>q \<in> set reqs. \<exists>x \<in> set p. m q = Some x) \<and>
    (\<forall>x \<in> set p. \<exists>q \<in> set reqs. \<exists>y. m q = Some y \<and> (x, y) \<in> (depends c)\<^sup>*)"
proof -
  note plan = plan_of_resolved [OF ok r, symmetric]
  from r obtain m' canonical where m': "build_alias_map c = Inr m'"
    and can: "set canonical = {r. \<exists>q \<in> set reqs. m' q = Some r}" "\<forall>q \<in> set reqs. m' q \<noteq> None"
    and adds: "add_tasks (search_fuel c) (deps_lookup c) [] canonical = Some (Inr p)"
    and conf: "check_conflicts c p = Inr ()" by (rule resolve_Inr)
  have mm: "m' = m" using m m' by simp
  obtain order where order: "dependency_order (deps_of (deps_lookup c)) order"
    "set order = taskRef ` set (tasks c)" using ok by (rule accepted_order)
  have sub: "set canonical \<subseteq> set order" using alias_range [OF m] can(1) order(2) mm by auto
  note sound = add_task_sound(2) [OF order(1) adds sub dependency_order_Nil]
  have "set (dependsOn t) \<subseteq> set (take i p) \<and> set (conflictsWith t) \<inter> set p = {}"
    if i: "i < length p" and t: "tasks_by_ref c (p ! i) = Some t" for i t
  proof
    have "deps_of (deps_lookup c) (p ! i) = dependsOn t" using t by (simp add: deps_of_def deps_lookup_def)
    then show "set (dependsOn t) \<subseteq> set (take i p)"
      using plan.deps_before [of i c reqs] i unfolding plan [symmetric] by simp
    have "(case tasks_by_ref c (p ! i) of None \<Rightarrow> Inl (Missing_Key (p ! i))
       | Some t \<Rightarrow> require_all (\<lambda>k. k \<notin> set p) (Task_Combination_Conflict (p ! i)) (conflictsWith t)) = Inr ()"
      using conf nth_mem [OF i] unfolding check_conflicts_def foldE_unit by (rule bspec)
    then show "set (conflictsWith t) \<inter> set p = {}" using t by auto
  qed
  moreover have "\<exists>x \<in> set p. m q = Some x" if q: "q \<in> set reqs" for q
  proof -
    obtain x where x: "m q = Some x" using can(2) q mm by blast
    then have "x \<in> set canonical" using can(1) q mm by blast
    moreover have "set canonical \<subseteq> set p" using sound by blast
    ultimately show ?thesis using x by blast
  qed
  moreover have "\<exists>q \<in> set reqs. \<exists>y. m q = Some y \<and> (x, y) \<in> (depends c)\<^sup>*" if x: "x \<in> set p" for x
  proof -
    from sound obtain new where "p = [] @ new" "\<forall>x \<in> set new. \<exists>y \<in> set canonical.
        (x, y) \<in> needed (deps_lookup c) \<and> position order x \<le> position order y" by blast
    then obtain y where y: "y \<in> set canonical" "(x, y) \<in> needed (deps_lookup c)" using x by auto
    then obtain q where q: "q \<in> set reqs" "m q = Some y" using can(1) mm by blast
    have "(x, y) \<in> (depends c)\<^sup>*" using y(2) by (rule subsetD [OF needed_depends [OF ok]])
    with q show ?thesis by blast
  qed
  moreover have "distinct p" using plan.distinct_order [of c reqs] by (simp add: plan [symmetric])
  ultimately show ?thesis by blast
qed

text \<open>Resolving requested names against an accepted catalog always returns a plan or an error.\<close>

lemma resolution_returns:
  assumes "catalog_accepted c"
  shows "resolve_requested_task_refs c reqs \<noteq> None"
proof -
  obtain order where order: "dependency_order (deps_of (deps_lookup c)) order"
    "set order = taskRef ` set (tasks c)" using assms by (rule accepted_order)
  have len: "length order \<le> length (tasks c)"
    using order by (metis card_image_le card_length dependency_order.distinct_order distinct_card
        finite_set order_trans)
  have "add_tasks (search_fuel c) (deps_lookup c) [] canonical \<noteq> None"
    if m: "build_alias_map c = Inr m" and f: "foldE (add_canonical m) [] reqs = Inr canonical" for m canonical
  proof -
    have sub: "set canonical \<subseteq> set order"
      using canonical_Inr [OF f] alias_range [OF m] order(2) by auto
    have "\<forall>r \<in> set canonical. position order r < search_fuel c"
    proof
      fix r assume "r \<in> set canonical"
      then have "position order r < length order" using sub position_less_iff [of order r] by blast
      then show "position order r < search_fuel c" using len by (simp add: search_fuel_def)
    qed
    moreover have "set order \<subseteq> dom (deps_lookup c)" by (simp add: order(2) dom_deps_lookup)
    ultimately show ?thesis using add_task_terminates(2) [OF order(1) _ sub] by fastforce
  qed
  then have search: "\<exists>x. add_tasks (search_fuel c) (deps_lookup c) [] canonical = Some x"
    if "build_alias_map c = Inr m" and "foldE (add_canonical m) [] reqs = Inr canonical" for m canonical
    using that by blast
  show ?thesis
  proof (cases "build_alias_map c")
    case (Inr m)
    show ?thesis
    proof (cases "foldE (add_canonical m) [] reqs")
      case (Inr canonical)
      with search [OF \<open>build_alias_map c = Inr m\<close> Inr] \<open>build_alias_map c = Inr m\<close>
      show ?thesis by (auto simp: resolve_requested_task_refs_def split: sum.split)
    qed (simp add: Inr resolve_requested_task_refs_def)
  qed (simp add: resolve_requested_task_refs_def)
qed

text \<open>C34: neither search of the task graph can run forever: validating a catalog returns whatever the
  catalog (the fuel of the model is never used up), and so does resolving requested names against a
  catalog that was accepted.\<close>

theorem task_graph_returns:
  "validate_catalog c \<noteq> None \<and> (catalog_accepted c \<longrightarrow> resolve_requested_task_refs c reqs \<noteq> None)"
  using validation_returns resolution_returns by blast

section \<open>Parameters\<close>

definition print_param :: "string \<times> string \<Rightarrow> string" where
  "print_param kv = fst kv @ ''='' @ snd kv"

lemma add_param_print:
  assumes "key \<noteq> []" and "CHR ''='' \<notin> set key"
  shows "add_param params (print_param (key, value)) = Inr (AList.update key value params)"
proof -
  have "takeWhile (\<lambda>ch. ch \<noteq> CHR ''='') (key @ CHR ''='' # value) = key"
    "dropWhile (\<lambda>ch. ch \<noteq> CHR ''='') (key @ CHR ''='' # value) = CHR ''='' # value"
    using assms(2) by (induction key) auto
  then show ?thesis using assms(1) by (simp add: add_param_def print_param_def)
qed

lemma update_fresh: "key \<notin> fst ` set params \<Longrightarrow> AList.update key value params = params @ [(key, value)]"
  by (induction params) auto

text \<open>The command line's \<open>KEY=VALUE\<close> parameters are read back as they were given, also when a value
  contains \<open>=\<close> or is empty, for distinct non-empty keys without \<open>=\<close>.\<close>

theorem params_roundtrip:
  assumes "distinct (map fst kvs)" and "\<forall>k \<in> fst ` set kvs. k \<noteq> [] \<and> CHR ''='' \<notin> set k"
  shows "parse_params (map print_param kvs) = Inr kvs"
proof -
  have "foldE add_param acc (map print_param kvs) = Inr (acc @ kvs)"
    if "distinct (map fst (acc @ kvs))" for acc
    using assms(2) that
  proof (induction kvs arbitrary: acc)
    case (Cons kv kvs)
    obtain k v where kv: "kv = (k, v)" by (rule prod.exhaust)
    have "add_param acc (print_param kv) = Inr (acc @ [kv])"
      using Cons.prems by (simp add: kv add_param_print update_fresh)
    then show ?case using Cons.IH [of "acc @ [kv]"] Cons.prems by simp
  qed simp
  from this [of "[]"] show ?thesis using assms(1) by (simp add: parse_params_def)
qed

section \<open>Witnesses\<close>

lemma small_resolves: "resolve_requested_task_refs small_catalog [''c''] = Some (Inr [''a'', ''b'', ''c''])"
  by code_simp

theorem resolved_plan_is_executable_witness:
  "\<exists>m. build_alias_map small_catalog = Inr m \<and> (\<exists>x \<in> set [''a'', ''b'', ''c'']. m ''c'' = Some x)"
proof -
  obtain m where m: "build_alias_map small_catalog = Inr m"
    using small_accepted by (rule accepted_parts)
  show ?thesis
    using resolved_plan_is_executable [OF small_accepted small_resolves m] m by (metis list.set_intros(1))
qed

theorem task_graph_returns_witness: "resolve_requested_task_refs small_catalog [''d'', ''a''] \<noteq> None"
  using task_graph_returns small_accepted by blast

theorem params_roundtrip_witness:
  "parse_params [''a=1=2'', ''b=''] = Inr [(''a'', ''1=2''), (''b'', [])]"
  using params_roundtrip [of "[(''a'', ''1=2''), (''b'', [])]"] by (simp add: print_param_def)

end
