(* ===== verification/Task_Runner.thy ===== *)
theory Task_Runner
  imports Task_Resolution
begin

text \<open>
  The runner half of \<open>scripts/tasks/task_graph.py\<close>: templates, task plans, preconditions and
  \<open>run_tasks\<close>. Its effects are an explicit trace of events (plan files, commands, logs, result files) and
  an external world. The subprocess, the local runtime state files and the process environment are the
  fields of a record \<open>host\<close>: a parameter of the definitions. Every function that has effects returns
  the state with its value or its error, so that what ran before an error is still visible.
\<close>

section \<open>Templates\<close>

datatype run_error =
    Graph_Error task_error | Profile_Error profile_error | Template_Token_Unknown string
  | Param_Required string "string list" | Local_Stack_Unhealthy | Precondition_Unknown string string
  | State_Key_Missing | Command_Not_Started "string list" | Resolution_Diverged

definition token_char :: "char \<Rightarrow> bool" where
  "token_char ch \<longleftrightarrow>
     ch \<in> set ''abcdefghijklmnopqrstuvwxyzABCDEFGHIJKLMNOPQRSTUVWXYZ0123456789_.-''"

text \<open>\<open>TOKEN_PATTERN.sub\<close> scans from the left; at an opening brace it takes the longest run of token
  characters, which must be non-empty and followed by a closing brace.\<close>

definition match_token :: "string \<Rightarrow> (string \<times> string) option" where
  "match_token cs =
    (let token = takeWhile token_char cs
     in case dropWhile token_char cs of
          [] \<Rightarrow> None
        | ch # rest \<Rightarrow> if token \<noteq> [] \<and> ch = CHR ''}'' then Some (token, rest) else None)"

lemma match_token_length: "match_token cs = Some (token, rest) \<Longrightarrow> length rest < length cs"
proof -
  assume "match_token cs = Some (token, rest)"
  then have "dropWhile token_char cs = CHR ''}'' # rest"
    by (auto simp: match_token_def Let_def split: list.splits if_splits)
  then show ?thesis by (metis length_Cons length_dropWhile_le less_eq_Suc_le)
qed

function render_template :: "(string \<rightharpoonup> string) \<Rightarrow> string \<Rightarrow> run_error + string" where
  "render_template context [] = Inr []"
| "render_template context (ch # cs) =
    (if ch = CHR ''{'' then
       (case match_token cs of
          Some (token, rest) \<Rightarrow>
            (case context token of
               None \<Rightarrow> Inl (Template_Token_Unknown token)
             | Some v \<Rightarrow> bindE (render_template context rest) (\<lambda>r. Inr (v @ r)))
        | None \<Rightarrow> bindE (render_template context cs) (\<lambda>r. Inr (ch # r)))
     else bindE (render_template context cs) (\<lambda>r. Inr (ch # r)))"
  by pat_completeness auto
termination
  by (relation "measure (\<lambda>(_, s). length s)") (auto dest: match_token_length)

text \<open>\<open>str(None)\<close> is \<open>None\<close>: a profile without runtime profile renders that word.\<close>

definition py_str :: "string option \<Rightarrow> string" where
  "py_str v = (case v of None \<Rightarrow> ''None'' | Some s \<Rightarrow> s)"

definition flatten_context :: "string \<Rightarrow> resolved_profile \<Rightarrow> (string \<times> string) list \<Rightarrow> string \<rightharpoonup> string" where
  "flatten_context repo_root profile params =
    [''repo_root'' \<mapsto> repo_root,
     ''profile.profileRef'' \<mapsto> rp_profileRef profile,
     ''profile.environmentRef'' \<mapsto> rp_environmentRef profile,
     ''profile.runtimeProfileRef'' \<mapsto> py_str (rp_runtimeProfileRef profile),
     ''profile.scopeClassRef'' \<mapsto> (case rp_scopeClassRefOrNull profile of None \<Rightarrow> [] | Some s \<Rightarrow> s),
     ''profile.providerEnvironmentRef'' \<mapsto> rp_providerEnvironmentRef profile]
    ++ map_of (rev (map (\<lambda>(k, v). (''param.'' @ k, v)) params))"

definition render_all :: "(string \<rightharpoonup> string) \<Rightarrow> string list \<Rightarrow> run_error + string list" where
  "render_all context parts = mapE (render_template context) parts"

definition render_command ::
  "string \<Rightarrow> command \<Rightarrow> resolved_profile \<Rightarrow> (string \<times> string) list \<Rightarrow> run_error + string list" where
  "render_command repo_root cmd profile params = render_all (flatten_context repo_root profile params) (argv cmd)"

definition render_expected_outputs ::
  "string \<Rightarrow> task \<Rightarrow> resolved_profile \<Rightarrow> (string \<times> string) list \<Rightarrow> run_error + string list" where
  "render_expected_outputs repo_root t profile params =
    render_all (flatten_context repo_root profile params) (expectedOutputs t)"

section \<open>Plans\<close>

definition ensure_required_params :: "task \<Rightarrow> (string \<times> string) list \<Rightarrow> run_error + unit" where
  "ensure_required_params t params =
    (let missing = filter (\<lambda>k. k \<notin> fst ` set params) (requiredParams t)
     in if missing \<noteq> [] then Inl (Param_Required (taskRef t) missing) else Inr ())"

definition merged_params :: "task \<Rightarrow> (string \<times> string) list \<Rightarrow> (string \<times> string) list" where
  "merged_params t cli_params = fold (\<lambda>(k, v) m. AList.update k v m) cli_params (defaultParams t)"

record task_plan =
  tp_taskRef :: string
  tp_makeTarget :: string
  tp_summary :: string
  tp_destructivePosture :: string
  tp_typedConfirmationRefOrNull :: "string option"
  tp_requiredTools :: "string list"
  tp_params :: "(string \<times> string) list"
  tp_commands :: "string list list"
  tp_expectedOutputs :: "string list"
  tp_dryRunSafe :: bool

definition build_task_plan ::
  "string \<Rightarrow> task \<Rightarrow> resolved_profile \<Rightarrow> (string \<times> string) list \<Rightarrow> run_error + task_plan" where
  "build_task_plan repo_root t profile cli_params =
    (let params = merged_params t cli_params in
     bindE (ensure_required_params t params) (\<lambda>_.
     bindE (mapE (\<lambda>cmd. render_command repo_root cmd profile params) (commands t)) (\<lambda>rendered.
     bindE (render_expected_outputs repo_root t profile params) (\<lambda>outputs.
     Inr \<lparr>tp_taskRef = taskRef t, tp_makeTarget = makeTarget t, tp_summary = summary t,
          tp_destructivePosture = destructivePosture t,
          tp_typedConfirmationRefOrNull = typedConfirmationRefOrNull t,
          tp_requiredTools = requiredTools t, tp_params = params, tp_commands = rendered,
          tp_expectedOutputs = outputs, tp_dryRunSafe = dryRunSafe t\<rparr>))))"

section \<open>Preconditions\<close>

text \<open>Where the local runtime state is read from, and what the file holds: the keys the runner reads.\<close>

datatype state_source = Explicit_Dir string | Env_Dir string | Home_Default

record stack_state =
  validator_status :: "string option"
  smoke_results :: "(string \<times> string) list"
  stack_runtime_profile_ref :: "string option"

record 'w host =
  repo_root_path :: string
  env_state_dir :: "string option"
  read_state :: "'w \<Rightarrow> state_source \<Rightarrow> stack_state option"
  execute :: "string list \<Rightarrow> 'w \<Rightarrow> (int \<times> string \<times> string) option \<times> 'w"

definition local_runtime_state_path :: "'w host \<Rightarrow> (string \<times> string) list \<Rightarrow> state_source" where
  "local_runtime_state_path h params =
    (case map_of params ''local_state_dir'' of
       Some (ch # cs) \<Rightarrow> Explicit_Dir (ch # cs)
     | _ \<Rightarrow> (case env_state_dir h of Some (ch # cs) \<Rightarrow> Env_Dir (ch # cs) | _ \<Rightarrow> Home_Default))"

definition required_smoke_paths :: "string list" where
  "required_smoke_paths = [''command_path'', ''queue_path'', ''object_store_path'', ''cache_path'', ''audit_path'']"

definition check_local_stack_semantic_ready ::
  "'w host \<Rightarrow> 'w \<Rightarrow> (string \<times> string) list \<Rightarrow> run_error + stack_state" where
  "check_local_stack_semantic_ready h w params =
    (case read_state h w (local_runtime_state_path h params) of
       None \<Rightarrow> Inl Local_Stack_Unhealthy
     | Some payload \<Rightarrow>
        if validator_status payload \<noteq> Some ''PASSED'' then Inl Local_Stack_Unhealthy
        else if filter (\<lambda>k. map_of (smoke_results payload) k \<noteq> Some ''PASS'') required_smoke_paths \<noteq> []
          then Inl Local_Stack_Unhealthy
        else Inr payload)"

datatype precondition_result =
  Passed string state_source string | Skipped_Dry_Run string

definition enforce_precondition ::
  "'w host \<Rightarrow> 'w \<Rightarrow> task \<Rightarrow> (string \<times> string) list \<Rightarrow> string \<Rightarrow> run_error + precondition_result" where
  "enforce_precondition h w t params precondition =
    (if precondition = ''LOCAL_STACK_SEMANTIC_READY'' then
       bindE (check_local_stack_semantic_ready h w params) (\<lambda>state.
         (case stack_runtime_profile_ref state of
            None \<Rightarrow> Inl State_Key_Missing
          | Some ref \<Rightarrow> Inr (Passed precondition (local_runtime_state_path h params) ref)))
     else Inl (Precondition_Unknown precondition (taskRef t)))"

definition enforce_preconditions ::
  "'w host \<Rightarrow> 'w \<Rightarrow> task \<Rightarrow> (string \<times> string) list \<Rightarrow> run_error + precondition_result list" where
  "enforce_preconditions h w t params = mapE (enforce_precondition h w t params) (preconditions t)"

section \<open>Running tasks\<close>

record command_result =
  cr_argv :: "string list"
  cr_exitCode :: int

datatype command_or_plan = Planned "string list" | Executed command_result

record task_result =
  tr_ok :: bool
  tr_taskRef :: string
  tr_profileRef :: string
  tr_dryRun :: bool
  tr_preconditions :: "precondition_result list"
  tr_commands :: "command_or_plan list"

text \<open>The files written are named by \<open>result_paths\<close> through the sanitized task reference.\<close>

datatype event =
    Plan_Written string task_plan | Command_Run "string list" int
  | Log_Appended string string string | Result_Written string task_result

record 'w run_state =
  events :: "event list"
  world :: 'w

definition emit_event :: "event \<Rightarrow> 'w run_state \<Rightarrow> 'w run_state" where
  "emit_event e s = s\<lparr>events := events s @ [e]\<rparr>"

record run_options =
  profile_ref :: string
  cli_params :: "(string \<times> string) list"
  dry_run :: bool
  verbose :: bool
  fail_fast :: bool
  allow_dangerous :: "string option"

text \<open>Every run of other characters becomes one underscore; the flag is on inside such a run.\<close>

fun sanitize_from :: "bool \<Rightarrow> string \<Rightarrow> string" where
  "sanitize_from b [] = []"
| "sanitize_from b (ch # cs) =
    (if token_char ch then ch # sanitize_from False cs
     else if b then sanitize_from True cs else CHR ''_'' # sanitize_from True cs)"

definition sanitize_ref :: "string \<Rightarrow> string" where
  "sanitize_ref ref = sanitize_from False ref"

text \<open>The record of a finished command: its output goes to the log files unless it is shown.\<close>

definition record_command ::
  "run_options \<Rightarrow> string \<Rightarrow> string list \<Rightarrow> int \<Rightarrow> string \<Rightarrow> string \<Rightarrow> 'w run_state \<Rightarrow> 'w run_state" where
  "record_command opts ref cmd code out err s =
    (let s1 = emit_event (Command_Run cmd code) s
     in if verbose opts then s1 else emit_event (Log_Appended (sanitize_ref ref) out err) s1)"

text \<open>The loop over the commands of one plan: the result list and whether every command succeeded.\<close>

fun run_commands :: "'w host \<Rightarrow> run_options \<Rightarrow> string \<Rightarrow> string list list \<Rightarrow> 'w run_state \<Rightarrow>
    (run_error + command_result list \<times> bool) \<times> 'w run_state" where
  "run_commands h opts ref [] s = (Inr ([], True), s)"
| "run_commands h opts ref (cmd # cmds) s =
    (case execute h cmd (world s) of
       (None, w) \<Rightarrow> (Inl (Command_Not_Started cmd), s\<lparr>world := w\<rparr>)
     | (Some (code, out, err), w) \<Rightarrow>
        (let s2 = record_command opts ref cmd code out err (s\<lparr>world := w\<rparr>);
             result = \<lparr>cr_argv = cmd, cr_exitCode = code\<rparr>
         in if code \<noteq> 0 \<and> fail_fast opts then (Inr ([result], False), s2)
            else (case run_commands h opts ref cmds s2 of
                    (Inl e, s3) \<Rightarrow> (Inl e, s3)
                  | (Inr (results, ok), s3) \<Rightarrow> (Inr (result # results, code = 0 \<and> ok), s3))))"

text \<open>The body of the loop over the tasks. The catalog the profile resolver reads from \<open>catalog_path\<close> is
  the one the runner was given.\<close>

definition plan_task :: "'w host \<Rightarrow> side_files \<Rightarrow> catalog \<Rightarrow> run_options \<Rightarrow> string \<Rightarrow> run_error + task \<times> task_plan" where
  "plan_task h files c opts ref =
    (case tasks_by_ref c ref of
       None \<Rightarrow> Inl (Graph_Error (Missing_Key ref))
     | Some t \<Rightarrow>
        (case resolve_environment_profile files c ref (profile_ref opts) (\<not> dry_run opts) (allow_dangerous opts) of
           Inl e \<Rightarrow> Inl (Profile_Error e)
         | Inr profile \<Rightarrow>
             bindE (build_task_plan (repo_root_path h) t profile (cli_params opts)) (\<lambda>plan. Inr (t, plan))))"

definition run_task :: "'w host \<Rightarrow> side_files \<Rightarrow> catalog \<Rightarrow> run_options \<Rightarrow> string \<Rightarrow> 'w run_state \<Rightarrow>
    (run_error + task_result) \<times> 'w run_state" where
  "run_task h files c opts ref s =
    (case plan_task h files c opts ref of
       Inl e \<Rightarrow> (Inl e, s)
     | Inr (t, plan) \<Rightarrow>
        (let s1 = emit_event (Plan_Written (sanitize_ref ref) plan) s in
         if dry_run opts then
           (let result = \<lparr>tr_ok = True, tr_taskRef = ref, tr_profileRef = profile_ref opts, tr_dryRun = True,
                  tr_preconditions = map Skipped_Dry_Run (preconditions t),
                  tr_commands = map Planned (tp_commands plan)\<rparr>
            in (Inr result, emit_event (Result_Written (sanitize_ref ref) result) s1))
         else (case enforce_preconditions h (world s1) t (tp_params plan) of
           Inl e \<Rightarrow> (Inl e, s1)
         | Inr pre \<Rightarrow> (case run_commands h opts ref (tp_commands plan) s1 of
             (Inl e, s2) \<Rightarrow> (Inl e, s2)
           | (Inr (results, ok), s2) \<Rightarrow>
              (let result = \<lparr>tr_ok = ok, tr_taskRef = ref, tr_profileRef = profile_ref opts, tr_dryRun = False,
                     tr_preconditions = pre, tr_commands = map Executed results\<rparr>
               in (Inr result, emit_event (Result_Written (sanitize_ref ref) result) s2))))))"

fun run_loop :: "'w host \<Rightarrow> side_files \<Rightarrow> catalog \<Rightarrow> run_options \<Rightarrow> string list \<Rightarrow> 'w run_state \<Rightarrow>
    (run_error + task_result list) \<times> 'w run_state" where
  "run_loop h files c opts [] s = (Inr [], s)"
| "run_loop h files c opts (ref # refs) s =
    (case run_task h files c opts ref s of
       (Inl e, s') \<Rightarrow> (Inl e, s')
     | (Inr result, s') \<Rightarrow>
        if fail_fast opts \<and> \<not> tr_ok result then (Inr [result], s')
        else (case run_loop h files c opts refs s' of
                (Inl e, s'') \<Rightarrow> (Inl e, s'')
              | (Inr results, s'') \<Rightarrow> (Inr (result # results), s'')))"

record run_summary =
  rs_ok :: bool
  rs_profile :: resolved_profile
  rs_requested :: "string list"
  rs_resolved :: "string list"
  rs_results :: "task_result list"
  rs_dryRun :: bool

definition run_tasks :: "'w host \<Rightarrow> side_files \<Rightarrow> catalog \<Rightarrow> run_options \<Rightarrow> string list \<Rightarrow> 'w run_state \<Rightarrow>
    (run_error + run_summary) \<times> 'w run_state" where
  "run_tasks h files c opts requested s =
    (case resolve_requested_task_refs c requested of
       None \<Rightarrow> (Inl Resolution_Diverged, s)
     | Some (Inl e) \<Rightarrow> (Inl (Graph_Error e), s)
     | Some (Inr resolved) \<Rightarrow>
        (case resolve_environment_profile files c (last resolved) (profile_ref opts) False (allow_dangerous opts) of
           Inl e \<Rightarrow> (Inl (Profile_Error e), s)
         | Inr profile \<Rightarrow>
            (case run_loop h files c opts resolved s of
               (Inl e, s') \<Rightarrow> (Inl e, s')
             | (Inr results, s') \<Rightarrow>
                 (Inr \<lparr>rs_ok = (\<forall>r \<in> set results. tr_ok r), rs_profile = profile, rs_requested = requested,
                    rs_resolved = resolved, rs_results = results, rs_dryRun = dry_run opts\<rparr>, s'))))"

section \<open>What the trace of a run holds\<close>

definition command_event :: "string list list \<Rightarrow> event \<Rightarrow> bool" where
  "command_event cmds e \<longleftrightarrow> (\<exists>cmd \<in> set cmds. \<exists>code. e = Command_Run cmd code) \<or> (\<exists>ref out err. e = Log_Appended ref out err)"

lemma emit_simps [simp]: "events (emit_event e s) = events s @ [e]" "world (emit_event e s) = world s"
  by (simp_all add: emit_event_def)

lemma run_commands_trace:
  "run_commands h opts ref cmds s = (r, s') \<Longrightarrow>
     \<exists>new. events s' = events s @ new \<and> (\<forall>e \<in> set new. command_event cmds e)"
proof (induction cmds arbitrary: s r s')
  case (Cons cmd cmds)
  obtain res w where x: "execute h cmd (world s) = (res, w)" by (rule prod.exhaust)
  have weaken: "command_event (cmd # cmds) e" if "command_event cmds e" for e
    using that by (auto simp: command_event_def)
  show ?case
  proof (cases res)
    case None
    then show ?thesis using Cons.prems x by auto
  next
    case (Some y)
    obtain code out err where y: "y = (code, out, err)" by (rule prod_cases3)
    define s2 where "s2 = record_command opts ref cmd code out err (s\<lparr>world := w\<rparr>)"
    have "\<exists>new. events s2 = events s @ new \<and> (\<forall>e \<in> set new. command_event (cmd # cmds) e)"
      by (auto simp: s2_def record_command_def Let_def command_event_def)
    then obtain new where new: "events s2 = events s @ new" "\<forall>e \<in> set new. command_event (cmd # cmds) e" by blast
    obtain r3 s3 where r3: "run_commands h opts ref cmds s2 = (r3, s3)" by (rule prod.exhaust)
    obtain new' where new': "events s3 = events s2 @ new'" "\<forall>e \<in> set new'. command_event cmds e"
      using Cons.IH [OF r3] by blast
    have "s' = s2 \<or> s' = s3"
      using Cons.prems x Some y r3
      by (auto simp: Let_def s2_def [symmetric] split: if_splits sum.splits)
    then show ?thesis
    proof
      assume "s' = s3"
      then show ?thesis using new new' weaken by (intro exI [of _ "new @ new'"]) auto
    qed (use new in auto)
  qed
qed simp

text \<open>The trace of one task: nothing when it cannot be planned; otherwise its plan, then events of the
  planned commands, then its result unless the task ends in an error.\<close>

lemma run_task_trace:
  assumes "run_task h files c opts ref s = (r, s')"
  obtains (unplanned) e where "plan_task h files c opts ref = Inl e" and "r = Inl e" and "s' = s"
  | (dry) t plan res where "plan_task h files c opts ref = Inr (t, plan)" and "dry_run opts"
      and "r = Inr res" and "tr_ok res" and "tr_taskRef res = ref" and "world s' = world s"
      and "events s' = events s @ [Plan_Written (sanitize_ref ref) plan, Result_Written (sanitize_ref ref) res]"
  | (failed) t plan e evs where "plan_task h files c opts ref = Inr (t, plan)" and "\<not> dry_run opts"
      and "r = Inl e" and "events s' = events s @ Plan_Written (sanitize_ref ref) plan # evs"
      and "\<forall>e \<in> set evs. command_event (tp_commands plan) e"
      and "evs \<noteq> [] \<Longrightarrow> \<exists>pre. enforce_preconditions h (world s) t (tp_params plan) = Inr pre"
  | (ran) t plan res evs pre where "plan_task h files c opts ref = Inr (t, plan)" and "\<not> dry_run opts"
      and "r = Inr res" and "tr_taskRef res = ref"
      and "events s' = events s @ Plan_Written (sanitize_ref ref) plan # evs @ [Result_Written (sanitize_ref ref) res]"
      and "\<forall>e \<in> set evs. command_event (tp_commands plan) e"
      and "enforce_preconditions h (world s) t (tp_params plan) = Inr pre"
proof (cases "plan_task h files c opts ref")
  case (Inl e)
  then show thesis using assms by (intro unplanned) (auto simp: run_task_def)
next
  case (Inr tp)
  obtain t plan where tp: "plan_task h files c opts ref = Inr (t, plan)" using Inr by (cases tp) simp
  define s1 where "s1 = emit_event (Plan_Written (sanitize_ref ref) plan) s"
  show thesis
  proof (cases "dry_run opts")
    case True
    then show thesis using assms tp by (intro dry [OF tp True]) (auto simp: run_task_def Let_def)
  next
    case False
    note live = False
    show thesis
    proof (cases "enforce_preconditions h (world s) t (tp_params plan)")
      case (Inl e)
      then have "r = Inl e" "s' = s1"
        using assms tp False by (simp_all add: run_task_def Let_def s1_def)
      then show thesis by (intro failed [OF tp live, of e "[]"]) (simp_all add: s1_def)
    next
      case (Inr pre)
      note pre = Inr
      obtain rc s2 where rc: "run_commands h opts ref (tp_commands plan) s1 = (rc, s2)" by (rule prod.exhaust)
      obtain evs where evs: "events s2 = events s1 @ evs" "\<forall>e \<in> set evs. command_event (tp_commands plan) e"
        using run_commands_trace [OF rc] by blast
      have run: "run_task h files c opts ref s = (case rc of Inl e \<Rightarrow> (Inl e, s2)
           | Inr (results, ok) \<Rightarrow>
              (let result = \<lparr>tr_ok = ok, tr_taskRef = ref, tr_profileRef = profile_ref opts, tr_dryRun = False,
                     tr_preconditions = pre, tr_commands = map Executed results\<rparr>
               in (Inr result, emit_event (Result_Written (sanitize_ref ref) result) s2)))"
        using tp live pre rc by (simp add: run_task_def Let_def s1_def split: sum.split)
      show thesis
      proof (cases rc)
        case (Inl e)
        then have "r = Inl e" "s' = s2" using assms run by simp_all
        then show thesis using evs pre by (intro failed [OF tp live, of e evs]) (simp_all add: s1_def)
      next
        case (Inr rs)
        then show thesis using assms run evs pre
          by (cases rs) (auto simp: s1_def Let_def intro!: ran [OF tp live])
      qed
    qed
  qed
qed

lemma plan_task_Inr:
  assumes "plan_task h files c opts ref = Inr (t, plan)"
  obtains profile where "tasks_by_ref c ref = Some t"
    and "resolve_environment_profile files c ref (profile_ref opts) (\<not> dry_run opts) (allow_dangerous opts) = Inr profile"
    and "build_task_plan (repo_root_path h) t profile (cli_params opts) = Inr plan"
  using assms by (auto simp: plan_task_def bindE_eq_Inr_iff split: option.splits sum.splits)



text \<open>The loop over the tasks, step by step: either it stops after a task, or it goes on.\<close>

lemma run_loop_step:
  assumes "run_loop h files c opts (ref # refs) s = (r, s')"
    and "run_task h files c opts ref s = (r1, s1)"
  obtains (stop_error) e where "r1 = Inl e" and "r = Inl e" and "s' = s1"
  | (stop_failed) res where "r1 = Inr res" and "fail_fast opts" and "\<not> tr_ok res" and "s' = s1" and "r = Inr [res]"
  | (continue) res r2 where "r1 = Inr res" and "fail_fast opts \<longrightarrow> tr_ok res"
      and "run_loop h files c opts refs s1 = (r2, s')" and "r = bindE r2 (\<lambda>rs. Inr (res # rs))"
proof (cases r1)
  case (Inl e)
  then show thesis using assms by (intro stop_error) auto
next
  case (Inr res)
  show thesis
  proof (cases "fail_fast opts \<and> \<not> tr_ok res")
    case True
    then show thesis using assms Inr by (intro stop_failed) auto
  next
    case False
    obtain r2 s2 where r2: "run_loop h files c opts refs s1 = (r2, s2)" by (rule prod.exhaust)
    have "s' = s2 \<and> r = bindE r2 (\<lambda>rs. Inr (res # rs))"
      using assms Inr False r2 by (cases r2) auto
    then show thesis using False r2 Inr by (intro continue) auto
  qed
qed

lemma run_tasks_loop:
  assumes "run_tasks h files c opts requested s = (r, s')"
  obtains "s' = s" and "\<exists>e. r = Inl e"
  | resolved r1 where "resolve_requested_task_refs c requested = Some (Inr resolved)"
      and "run_loop h files c opts resolved s = (r1, s')"
      and "(case r1 of Inl e \<Rightarrow> r = Inl e
          | Inr results \<Rightarrow> \<exists>sum. r = Inr sum \<and> rs_results sum = results \<and> rs_resolved sum = resolved \<and>
              rs_ok sum = (\<forall>x \<in> set results. tr_ok x))"
  using assms
  by (auto simp: run_tasks_def split: option.splits sum.splits prod.splits)

section \<open>Dry runs\<close>

definition file_event :: "event \<Rightarrow> bool" where
  "file_event e \<longleftrightarrow> (\<exists>ref plan. e = Plan_Written ref plan) \<or> (\<exists>ref res. e = Result_Written ref res \<and> tr_dryRun res)"

lemma dry_task_result:
  "dry_run opts \<Longrightarrow> run_task h files c opts ref s = (Inr res, s') \<Longrightarrow> tr_dryRun res"
  by (auto simp: run_task_def Let_def split: sum.splits)

lemma dry_loop:
  assumes "dry_run opts"
  shows "run_loop h files c opts refs s = (r, s') \<Longrightarrow> world s' = world s \<and>
    (\<exists>new. events s' = events s @ new \<and> (\<forall>e \<in> set new. file_event e))"
proof (induction refs arbitrary: s r s')
  case (Cons ref refs)
  obtain r1 s1 where r1: "run_task h files c opts ref s = (r1, s1)" by (rule prod.exhaust)
  have task: "world s1 = world s \<and> (\<exists>new. events s1 = events s @ new \<and> (\<forall>e \<in> set new. file_event e))"
    using r1
  proof (cases rule: run_task_trace)
    case (dry t plan res)
    have "tr_dryRun res" using dry_task_result [OF assms] r1 dry(3) by simp
    then show ?thesis using dry by (auto simp: file_event_def)
  qed (use assms in auto)
  from Cons.prems r1 show ?case
  proof (cases rule: run_loop_step)
    case (continue res r2)
    obtain new new' where "world s' = world s1" "events s' = events s1 @ new'" "\<forall>e \<in> set new'. file_event e"
      and "world s1 = world s" "events s1 = events s @ new" "\<forall>e \<in> set new. file_event e"
      using Cons.IH [OF continue(3)] task by blast
    then show ?thesis by (intro conjI exI [of _ "new @ new'"]) auto
  qed (use task in auto)
qed simp

text \<open>A dry run executes nothing: whatever it ends in, the external world is as before and the only
  events are plan files and result files that say they are a dry run.\<close>

theorem dry_run_executes_nothing:
  assumes "dry_run opts" and "run_tasks h files c opts requested s = (r, s')"
  shows "world s' = world s \<and> (\<exists>new. events s' = events s @ new \<and> (\<forall>e \<in> set new. file_event e))"
  using assms(2)
proof (cases rule: run_tasks_loop)
  case (2 resolved r1)
  then show ?thesis using dry_loop [OF assms(1)] by blast
qed simp

section \<open>Which commands run\<close>

text \<open>A command of a task's rendered plan, of a task that may run: its typed confirmation was given when
  it is destructive.\<close>

definition authorised :: "'w host \<Rightarrow> side_files \<Rightarrow> catalog \<Rightarrow> run_options \<Rightarrow> string list \<Rightarrow> string list \<Rightarrow> bool" where
  "authorised h files c opts refs cmd \<longleftrightarrow>
    (\<exists>ref \<in> set refs. \<exists>t plan. tasks_by_ref c ref = Some t \<and> plan_task h files c opts ref = Inr (t, plan) \<and>
       cmd \<in> set (tp_commands plan) \<and>
       (is_destructive t \<longrightarrow> (\<exists>token. allow_dangerous opts = Some token \<and>
          typedConfirmationRefOrNull t = Some token)))"

text \<open>A task whose preconditions fail in the world it starts in leaves only its plan file.\<close>

lemma unmet_precondition_runs_nothing:
  assumes "plan_task h files c opts ref = Inr (t, plan)" and "\<not> dry_run opts"
    and "enforce_preconditions h (world s) t (tp_params plan) = Inl e"
  shows "run_task h files c opts ref s = (Inl e, emit_event (Plan_Written (sanitize_ref ref) plan) s)"
  using assms by (simp add: run_task_def Let_def)

lemma planned_destructive:
  assumes "plan_task h files c opts ref = Inr (t, plan)" and "\<not> dry_run opts" and "is_destructive t"
  shows "\<exists>token. allow_dangerous opts = Some token \<and> typedConfirmationRefOrNull t = Some token"
proof -
  from assms(1) obtain profile where t: "tasks_by_ref c ref = Some t"
    and p: "resolve_environment_profile files c ref (profile_ref opts) (\<not> dry_run opts) (allow_dangerous opts) = Inr profile"
    by (rule plan_task_Inr)
  from p obtain t' p' where "tasks_by_ref c ref = Some t'"
    and "check_dangerous t' p' (\<not> dry_run opts) (allow_dangerous opts) = Inr ()"
    by (rule resolve_profile_Inr)
  then show ?thesis using t assms(2,3) by (auto simp: check_dangerous_ok)
qed

lemma loop_authorised:
  assumes "\<not> dry_run opts"
  shows "run_loop h files c opts refs s = (r, s') \<Longrightarrow>
    (\<exists>new. events s' = events s @ new \<and>
       (\<forall>cmd code. Command_Run cmd code \<in> set new \<longrightarrow> authorised h files c opts refs cmd))"
proof (induction refs arbitrary: s r s')
  case (Cons ref refs)
  obtain r1 s1 where r1: "run_task h files c opts ref s = (r1, s1)" by (rule prod.exhaust)
  have auth: "authorised h files c opts (ref # refs) cmd"
    if "plan_task h files c opts ref = Inr (t, plan)" and "\<forall>e \<in> set evs. command_event (tp_commands plan) e"
      and "Command_Run cmd code \<in> set evs"
    for t plan evs cmd code
  proof -
    have "tasks_by_ref c ref = Some t" using that(1) by (rule plan_task_Inr)
    moreover have "cmd \<in> set (tp_commands plan)" using that(2,3) by (auto simp: command_event_def)
    ultimately show ?thesis
      using that(1) planned_destructive [OF that(1) assms] unfolding authorised_def
      by (intro bexI [of _ ref] exI [of _ t] exI [of _ plan]) simp_all
  qed
  have task: "\<exists>new. events s1 = events s @ new \<and>
      (\<forall>cmd code. Command_Run cmd code \<in> set new \<longrightarrow> authorised h files c opts (ref # refs) cmd)"
    using r1
  proof (cases rule: run_task_trace)
    case (failed t plan e evs)
    then show ?thesis using auth [OF failed(1,5)] by fastforce
  next
    case (ran t plan res evs pre)
    then show ?thesis using auth [OF ran(1,6)] by fastforce
  qed (use assms in auto)
  from Cons.prems r1 show ?case
  proof (cases rule: run_loop_step)
    case (continue res r2)
    have weaken: "authorised h files c opts (ref # refs) cmd" if "authorised h files c opts refs cmd" for cmd
      using that unfolding authorised_def by auto
    obtain new new' where "events s' = events s1 @ new'" "events s1 = events s @ new"
      and "\<forall>cmd code. Command_Run cmd code \<in> set new' \<longrightarrow> authorised h files c opts refs cmd"
      and "\<forall>cmd code. Command_Run cmd code \<in> set new \<longrightarrow> authorised h files c opts (ref # refs) cmd"
      using Cons.IH [OF continue(3)] task by blast
    then show ?thesis using weaken by (intro exI [of _ "new @ new'"]) auto
  qed (use task in auto)
qed simp

text \<open>C2: whatever a live run ends in, every command it executed is a rendered command of a task of the
  resolved plan, whose typed confirmation token was given when the task is destructive and whose
  preconditions held when it started.\<close>

theorem executed_commands_are_authorised:
  assumes "\<not> dry_run opts" and "run_tasks h files c opts requested s = (r, s')"
  shows "\<exists>new. events s' = events s @ new \<and>
    (\<forall>cmd code. Command_Run cmd code \<in> set new \<longrightarrow>
       (\<exists>resolved. resolve_requested_task_refs c requested = Some (Inr resolved) \<and>
          authorised h files c opts resolved cmd))"
  using assms(2)
proof (cases rule: run_tasks_loop)
  case (2 resolved r1)
  then show ?thesis using loop_authorised [OF assms(1)] by meson
qed simp

section \<open>Failing fast\<close>



lemma run_commands_Cons:
  assumes "execute h cmd (world s) = (Some (code, out, err), w)"
    and "run_commands h opts ref' cmds (record_command opts ref' cmd code out err (s\<lparr>world := w\<rparr>)) = (r3, s3)"
  shows "run_commands h opts ref' (cmd # cmds) s =
    (if code \<noteq> 0 \<and> fail_fast opts
     then (Inr ([\<lparr>cr_argv = cmd, cr_exitCode = code\<rparr>], False), record_command opts ref' cmd code out err (s\<lparr>world := w\<rparr>))
     else (case r3 of Inl e \<Rightarrow> (Inl e, s3)
       | Inr (results, good) \<Rightarrow> (Inr (\<lparr>cr_argv = cmd, cr_exitCode = code\<rparr> # results, code = 0 \<and> good), s3)))"
  using assms by (auto simp: Let_def split: sum.splits)





section \<open>A run that succeeds\<close>

definition commands_of :: "event list \<Rightarrow> string list list" where
  "commands_of es = concat (map (\<lambda>e. case e of Command_Run cmd code \<Rightarrow> [cmd] | _ \<Rightarrow> []) es)"

lemma commands_of_simps [simp]:
  "commands_of [] = []" "commands_of (es @ es') = commands_of es @ commands_of es'"
  "commands_of (Command_Run cmd code # es) = cmd # commands_of es"
  "commands_of (Plan_Written f plan # es) = commands_of es"
  "commands_of (Result_Written f res # es) = commands_of es"
  "commands_of (Log_Appended f out err # es) = commands_of es"
  by (simp_all add: commands_of_def)

text \<open>A rehearsal in the external world alone: every task can be planned, its preconditions hold in the world it
  starts in, and every command exits with 0. It ends in a world and the list of the commands.\<close>

fun rehearse_commands :: "'w host \<Rightarrow> string list list \<Rightarrow> 'w \<Rightarrow> 'w option" where
  "rehearse_commands h [] w = Some w"
| "rehearse_commands h (cmd # cmds) w =
    (case execute h cmd w of
       (Some (code, out, err), w') \<Rightarrow> if code = 0 then rehearse_commands h cmds w' else None
     | (None, w') \<Rightarrow> None)"

fun rehearse :: "'w host \<Rightarrow> side_files \<Rightarrow> catalog \<Rightarrow> run_options \<Rightarrow> string list \<Rightarrow> 'w \<Rightarrow> ('w \<times> string list list) option" where
  "rehearse h files c opts [] w = Some (w, [])"
| "rehearse h files c opts (ref # refs) w =
    (case plan_task h files c opts ref of
       Inl e \<Rightarrow> None
     | Inr (t, plan) \<Rightarrow> (case enforce_preconditions h w t (tp_params plan) of
         Inl e \<Rightarrow> None
       | Inr pre \<Rightarrow> (case rehearse_commands h (tp_commands plan) w of
           None \<Rightarrow> None
         | Some w' \<Rightarrow> map_option (\<lambda>(w'', cmds). (w'', tp_commands plan @ cmds)) (rehearse h files c opts refs w'))))"

lemma commands_rehearsed:
  assumes "run_commands h opts ref' cmds s = (r, s')"
  shows "case rehearse_commands h cmds (world s) of
      Some w \<Rightarrow> world s' = w \<and> (\<exists>results new. r = Inr (results, True) \<and> events s' = events s @ new \<and> commands_of new = cmds)
    | None \<Rightarrow> \<forall>results good. r = Inr (results, good) \<longrightarrow> \<not> good"
  using assms
proof (induction cmds arbitrary: s r s')
  case (Cons cmd cmds)
  obtain res w where x: "execute h cmd (world s) = (res, w)" by (rule prod.exhaust)
  show ?case
  proof (cases res)
    case None
    then show ?thesis using Cons.prems x by auto
  next
    case (Some y)
    obtain code out err where y: "y = (code, out, err)" by (rule prod_cases3)
    define s2 where "s2 = record_command opts ref' cmd code out err (s\<lparr>world := w\<rparr>)"
    have s2: "world s2 = w" "\<exists>new. events s2 = events s @ new \<and> commands_of new = [cmd]"
      by (simp_all add: s2_def record_command_def Let_def)
    obtain r3 s3 where r3: "run_commands h opts ref' cmds s2 = (r3, s3)" by (rule prod.exhaust)
    note IH = Cons.IH [OF r3, unfolded s2(1)]
    show ?thesis
    proof (cases "code = 0")
      case True
      then have "s' = s3 \<and> (case r3 of Inl e \<Rightarrow> r = Inl e
          | Inr (results, good) \<Rightarrow> r = Inr (\<lparr>cr_argv = cmd, cr_exitCode = code\<rparr> # results, good))"
        using Cons.prems run_commands_Cons [OF x [unfolded Some y] r3 [unfolded s2_def]]
        by (auto split: sum.splits)
      then show ?thesis
        using IH s2(2) x Some y True by (auto split: option.splits sum.splits)
    next
      case False
      then have "\<forall>results good. r = Inr (results, good) \<longrightarrow> \<not> good"
        using Cons.prems run_commands_Cons [OF x [unfolded Some y] r3 [unfolded s2_def]]
        by (auto split: sum.splits if_splits)
      then show ?thesis using x Some y False by simp
    qed
  qed
qed simp

lemma task_rehearsed:
  assumes live: "\<not> dry_run opts" and plan: "plan_task h files c opts ref = Inr (t, plan)"
    and run: "run_task h files c opts ref s = (r, s')"
  shows "case (enforce_preconditions h (world s) t (tp_params plan), rehearse_commands h (tp_commands plan) (world s)) of
      (Inr pre, Some w) \<Rightarrow> world s' = w \<and> (\<exists>res new. r = Inr res \<and> tr_ok res \<and> tr_taskRef res = ref \<and>
        events s' = events s @ new \<and> commands_of new = tp_commands plan)
    | _ \<Rightarrow> \<forall>res. r = Inr res \<longrightarrow> \<not> tr_ok res"
proof -
  define s1 where "s1 = emit_event (Plan_Written (sanitize_ref ref) plan) s"
  obtain rc s2 where rc: "run_commands h opts ref (tp_commands plan) s1 = (rc, s2)" by (rule prod.exhaust)
  have s1: "world s1 = world s" "events s1 = events s @ [Plan_Written (sanitize_ref ref) plan]" by (simp_all add: s1_def)
  note commands = commands_rehearsed [OF rc, unfolded s1(1)]
  show ?thesis
  proof (cases "enforce_preconditions h (world s) t (tp_params plan)")
    case (Inl e)
    then show ?thesis using run live plan by (auto simp: run_task_def Let_def)
  next
    case (Inr pre)
    show ?thesis
    proof (cases rc)
      case (Inl e)
      then have "r = Inl e" using run live plan Inr rc by (simp add: run_task_def Let_def s1_def)
      then show ?thesis using commands Inl Inr by (simp split: option.splits)
    next
      case ran: (Inr rs)
      obtain results good where rs: "rs = (results, good)" by (cases rs)
      define res where "res = \<lparr>tr_ok = good, tr_taskRef = ref, tr_profileRef = profile_ref opts, tr_dryRun = False,
        tr_preconditions = pre, tr_commands = map Executed results\<rparr>"
      have r: "r = Inr res" "s' = emit_event (Result_Written (sanitize_ref ref) res) s2"
        using run live plan Inr rc ran rs by (simp_all add: run_task_def Let_def s1_def res_def)
      have res: "tr_taskRef res = ref" "tr_ok res = good" by (simp_all add: res_def)
      show ?thesis
        using commands Inr ran rs s1(2) unfolding r by (auto simp: res split: option.splits)
    qed
  qed
qed

lemma loop_rehearsed:
  assumes live: "\<not> dry_run opts"
  shows "run_loop h files c opts refs s = (r, s') \<Longrightarrow>
    (case rehearse h files c opts refs (world s) of
       Some (w, cmds) \<Rightarrow> world s' = w \<and> (\<exists>results new. r = Inr results \<and> (\<forall>x \<in> set results. tr_ok x) \<and>
         map tr_taskRef results = refs \<and> events s' = events s @ new \<and> commands_of new = cmds)
     | None \<Rightarrow> \<forall>results. r = Inr results \<longrightarrow> \<not> (\<forall>x \<in> set results. tr_ok x))"
proof (induction refs arbitrary: s r s')
  case (Cons ref refs)
  obtain r1 s1 where r1: "run_task h files c opts ref s = (r1, s1)" by (rule prod.exhaust)
  show ?case
  proof (cases "plan_task h files c opts ref")
    case (Inl e)
    then show ?thesis using Cons.prems by (auto simp: run_task_def)
  next
    case (Inr tp)
    obtain t plan where tp: "plan_task h files c opts ref = Inr (t, plan)" using Inr by (cases tp) simp
    note task = task_rehearsed [OF live tp r1]
    show ?thesis
    proof (cases "\<exists>pre w. enforce_preconditions h (world s) t (tp_params plan) = Inr pre \<and>
        rehearse_commands h (tp_commands plan) (world s) = Some w")
      case False
      then have bad: "\<forall>res. r1 = Inr res \<longrightarrow> \<not> tr_ok res" "rehearse h files c opts (ref # refs) (world s) = None"
        using task tp by (auto split: sum.splits option.splits)
      from Cons.prems r1 have "\<forall>results. r = Inr results \<longrightarrow> \<not> (\<forall>x \<in> set results. tr_ok x)"
      proof (cases rule: run_loop_step)
        case (continue res r2)
        then show ?thesis using bad(1) by (auto simp: bindE_eq_Inr_iff)
      qed (use bad in auto)
      then show ?thesis using bad(2) by simp
    next
      case True
      then obtain pre w where good: "enforce_preconditions h (world s) t (tp_params plan) = Inr pre"
        "rehearse_commands h (tp_commands plan) (world s) = Some w" by blast
      obtain res new where res: "r1 = Inr res" "tr_ok res" "tr_taskRef res = ref" "world s1 = w"
        "events s1 = events s @ new" "commands_of new = tp_commands plan"
        using task good by auto
      obtain r2 where rest: "run_loop h files c opts refs s1 = (r2, s')" "r = bindE r2 (\<lambda>rs. Inr (res # rs))"
        using Cons.prems r1 by (cases rule: run_loop_step) (use res in auto)
      show ?thesis
        using Cons.IH [OF rest(1)] res tp good unfolding rest(2)
        by (fastforce simp: bindE_eq_Inr_iff split: option.splits)
    qed
  qed
qed simp

text \<open>C31: exactly when a live run succeeds. A run that is not dry reports success if and only if the requested names
  resolve, the profile of the last task resolves and the rehearsal of the plan succeeds: every task can be planned, its
  preconditions hold in the world it starts in, and every command exits with 0. Then it has one result per task of the
  plan, has executed exactly the commands of the rehearsal, which are the rendered commands of the plan in its order,
  and leaves the world of the rehearsal.\<close>

theorem run_completes:
  assumes live: "\<not> dry_run opts"
  shows "((\<exists>sum s'. run_tasks h files c opts requested s = (Inr sum, s') \<and> rs_ok sum) \<longleftrightarrow>
      (\<exists>resolved profile out. resolve_requested_task_refs c requested = Some (Inr resolved) \<and>
         resolve_environment_profile files c (last resolved) (profile_ref opts) False (allow_dangerous opts) = Inr profile \<and>
         rehearse h files c opts resolved (world s) = Some out)) \<and>
    (\<forall>sum s'. run_tasks h files c opts requested s = (Inr sum, s') \<and> rs_ok sum \<longrightarrow>
      resolve_requested_task_refs c requested = Some (Inr (rs_resolved sum)) \<and>
      map tr_taskRef (rs_results sum) = rs_resolved sum \<and>
      (\<exists>new. events s' = events s @ new \<and>
         rehearse h files c opts (rs_resolved sum) (world s) = Some (world s', commands_of new)))"
proof (cases "\<exists>resolved profile. resolve_requested_task_refs c requested = Some (Inr resolved) \<and>
    resolve_environment_profile files c (last resolved) (profile_ref opts) False (allow_dangerous opts) = Inr profile")
  case False
  then have "\<nexists>sum s'. run_tasks h files c opts requested s = (Inr sum, s')"
    by (auto simp: run_tasks_def split: option.splits sum.splits)
  then show ?thesis using False by blast
next
  case True
  then obtain resolved profile where p: "resolve_requested_task_refs c requested = Some (Inr resolved)"
    "resolve_environment_profile files c (last resolved) (profile_ref opts) False (allow_dangerous opts) = Inr profile"
    by blast
  obtain r s1 where loop: "run_loop h files c opts resolved s = (r, s1)" by (rule prod.exhaust)
  have run: "run_tasks h files c opts requested s = (Inr sum, s') \<longleftrightarrow> s' = s1 \<and> (\<exists>results. r = Inr results \<and>
      sum = \<lparr>rs_ok = (\<forall>x \<in> set results. tr_ok x), rs_profile = profile, rs_requested = requested,
        rs_resolved = resolved, rs_results = results, rs_dryRun = dry_run opts\<rparr>)" for sum s'
    using p loop by (auto simp: run_tasks_def split: sum.splits)
  show ?thesis
  proof (cases "rehearse h files c opts resolved (world s)")
    case None
    then show ?thesis using loop_rehearsed [OF live loop] p unfolding run by auto
  next
    case (Some out)
    obtain w cmds where out: "out = (w, cmds)" by (rule prod.exhaust)
    obtain results new where res: "r = Inr results" "\<forall>x \<in> set results. tr_ok x" "map tr_taskRef results = resolved"
      "events s1 = events s @ new" "commands_of new = cmds" "world s1 = w"
      using loop_rehearsed [OF live loop] Some out by auto
    then show ?thesis using Some out p unfolding run by auto
  qed
qed


section \<open>Rendering\<close>

text \<open>A template as a person reads it: text without an opening brace, and tokens.\<close>

datatype segment = Text string | Token string

fun segment_source :: "segment \<Rightarrow> string" where
  "segment_source (Text s) = s"
| "segment_source (Token t) = CHR ''{'' # t @ [CHR ''}'']"

fun segment_value :: "(string \<rightharpoonup> string) \<Rightarrow> segment \<Rightarrow> string" where
  "segment_value context (Text s) = s"
| "segment_value context (Token t) = the (context t)"

fun segment_ok :: "(string \<rightharpoonup> string) \<Rightarrow> segment \<Rightarrow> bool" where
  "segment_ok context (Text s) \<longleftrightarrow> CHR ''{'' \<notin> set s"
| "segment_ok context (Token t) \<longleftrightarrow> t \<noteq> [] \<and> (\<forall>ch \<in> set t. token_char ch) \<and> t \<in> dom context"

lemma render_text:
  "CHR ''{'' \<notin> set s \<Longrightarrow> render_template context (s @ rest) = bindE (render_template context rest) (\<lambda>r. Inr (s @ r))"
  by (induction s) (auto simp: bindE_assoc)

lemma match_token_token:
  assumes "t \<noteq> []" and "\<forall>ch \<in> set t. token_char ch"
  shows "match_token (t @ CHR ''}'' # rest) = Some (t, rest)"
proof -
  have "\<not> token_char (CHR ''}'')" by (simp add: token_char_def)
  then have "takeWhile token_char (t @ CHR ''}'' # rest) = t"
    and "dropWhile token_char (t @ CHR ''}'' # rest) = CHR ''}'' # rest"
    using assms(2) by (simp_all add: takeWhile_append2 dropWhile_append2)
  then show ?thesis using assms(1) by (simp add: match_token_def Let_def)
qed

text \<open>Rendering replaces every token of a template by its value and keeps the text between them,
  values that contain braces themselves included: they are not rendered again.\<close>

theorem render_template_segments:
  assumes "\<forall>seg \<in> set segs. segment_ok context seg"
  shows "render_template context (concat (map segment_source segs))
    = Inr (concat (map (segment_value context) segs))"
  using assms
proof (induction segs)
  case (Cons seg segs)
  then have IH: "render_template context (concat (map segment_source segs))
    = Inr (concat (map (segment_value context) segs))" by simp
  show ?case
  proof (cases seg)
    case (Text s)
    then show ?thesis using Cons.prems IH by (simp add: render_text)
  next
    case (Token t)
    then obtain v where "context t = Some v" using Cons.prems by auto
    then show ?thesis using Token Cons.prems IH by (simp add: match_token_token)
  qed
qed simp

section \<open>A concrete host\<close>

text \<open>Commands that succeed, in a world that counts them, and the small catalog of \<open>Task_Graph\<close>, whose
  tasks are durable resets.\<close>

definition counting_host :: "nat host" where
  "counting_host = \<lparr>repo_root_path = ''/repo'', env_state_dir = None, read_state = (\<lambda>w src. None),
     execute = (\<lambda>cmd w. (Some (0, [], []), Suc w))\<rparr>"

lemma counting_execute: "execute counting_host cmd w = (Some (0, [], []), Suc w)"
  by (simp add: counting_host_def)

definition small_options :: "bool \<Rightarrow> run_options" where
  "small_options dry = \<lparr>profile_ref = ''local'', cli_params = [], dry_run = dry, verbose = False,
     fail_fast = True, allow_dangerous = Some ''ALLOW_DURABLE_LOCAL_RESET''\<rparr>"

definition start_state :: "nat run_state" where
  "start_state = \<lparr>events = [], world = 0\<rparr>"

definition small_plan :: "string \<Rightarrow> task_plan" where
  "small_plan ref = \<lparr>tp_taskRef = ref, tp_makeTarget = ref, tp_summary = summary reset_task,
     tp_destructivePosture = ''DURABLE_RESET'',
     tp_typedConfirmationRefOrNull = Some ''ALLOW_DURABLE_LOCAL_RESET'',
     tp_requiredTools = requiredTools reset_task, tp_params = [],
     tp_commands = [[''./scripts/local/bootstrap_local_stack.sh'', ''--runtime-profile'', ''local'',
        ''--full-reset'', ''--confirm-durable-reset'']],
     tp_expectedOutputs = expectedOutputs reset_task, tp_dryRunSafe = True\<rparr>"

lemma small_plan_a: "plan_task counting_host shipped_files small_catalog (small_options False) ''a''
    = Inr (small_task ''a'' [] [''d''], small_plan ''a'')"
  by code_simp

lemma small_plan_b: "plan_task counting_host shipped_files small_catalog (small_options False) ''b''
    = Inr (small_task ''b'' [''a''] [], small_plan ''b'')"
  by code_simp

lemma small_plan_c: "plan_task counting_host shipped_files small_catalog (small_options False) ''c''
    = Inr (small_task ''c'' [''b'', ''a''] [], small_plan ''c'')"
  by code_simp

lemmas small_plans = small_plan_a small_plan_b small_plan_c

lemma start_state_simps: "events start_state = []" "world start_state = 0"
  by (simp_all add: start_state_def)

lemma small_profile: "\<exists>p. resolve_environment_profile shipped_files small_catalog ''c'' ''local'' False
    (Some ''ALLOW_DURABLE_LOCAL_RESET'') = Inr p"
  by (simp add: resolve_environment_profile_def tasks_by_ref_def profiles_by_ref_def small_catalog_def
      small_task_def reset_task_def local_profile_def shipped_files_def validate_runtime_profile_def
      validate_scope_class_def check_dangerous_def find_provider_environment_ref_def is_destructive_def)

theorem dry_run_executes_nothing_witness:
  "world (snd (run_tasks counting_host shipped_files small_catalog (small_options True) [''c''] start_state)) = 0"
proof -
  obtain r s' where r: "run_tasks counting_host shipped_files small_catalog (small_options True) [''c'']
      start_state = (r, s')" by (rule prod.exhaust)
  have "dry_run (small_options True)" by (simp add: small_options_def)
  from dry_run_executes_nothing [OF this r] show ?thesis by (simp add: r start_state_simps)
qed

theorem run_completes_witness:
  "\<exists>sum s'. run_tasks counting_host shipped_files small_catalog (small_options False) [''c''] start_state
     = (Inr sum, s') \<and> rs_ok sum \<and> rs_resolved sum = [''a'', ''b'', ''c''] \<and> world s' = 3"
proof -
  obtain p where "resolve_environment_profile shipped_files small_catalog ''c'' ''local'' False
    (Some ''ALLOW_DURABLE_LOCAL_RESET'') = Inr p" using small_profile by blast
  then have prof: "resolve_environment_profile shipped_files small_catalog (last [''a'', ''b'', ''c''])
      (profile_ref (small_options False)) False (allow_dangerous (small_options False)) = Inr p"
    by (simp add: small_options_def)
  have rehearsed: "\<exists>cmds. rehearse counting_host shipped_files small_catalog (small_options False) [''a'', ''b'', ''c'']
      (world start_state) = Some (3, cmds)"
    by (simp add: small_plans small_plan_def small_task_def reset_task_def enforce_preconditions_def counting_execute
        start_state_simps)
  have live: "\<not> dry_run (small_options False)" by (simp add: small_options_def)
  note exact = run_completes [OF live, of counting_host shipped_files small_catalog "[''c'']" start_state]
  obtain sum s' where run: "run_tasks counting_host shipped_files small_catalog (small_options False) [''c''] start_state
     = (Inr sum, s')" "rs_ok sum"
    using exact [THEN conjunct1, THEN iffD2] small_resolves prof rehearsed by blast
  then have "rs_resolved sum = [''a'', ''b'', ''c'']"
    and "\<exists>cmds. rehearse counting_host shipped_files small_catalog (small_options False) (rs_resolved sum)
      (world start_state) = Some (world s', cmds)"
    using exact [THEN conjunct2] small_resolves by fastforce+
  then show ?thesis using run rehearsed by auto
qed

theorem executed_commands_are_authorised_witness:
  "\<exists>resolved. resolve_requested_task_refs small_catalog [''c''] = Some (Inr resolved) \<and>
     authorised counting_host shipped_files small_catalog (small_options False) resolved
       (hd (tp_commands (small_plan ''a'')))"
proof -
  let ?run = "run_tasks counting_host shipped_files small_catalog (small_options False) [''c''] start_state"
  obtain r s' where r: "?run = (r, s')" by (rule prod.exhaust)
  have live: "\<not> dry_run (small_options False)" by (simp add: small_options_def)
  have "Command_Run (hd (tp_commands (small_plan ''a''))) 0 \<in> set (events (snd ?run))" by code_simp
  then show ?thesis
    using executed_commands_are_authorised [OF live r] by (auto simp: r start_state_simps)
qed


theorem render_template_segments_witness:
  "render_template [''param.x'' \<mapsto> ''{v}''] ''a{param.x}}b'' = Inr ''a{v}}b''"
  using render_template_segments [of "[Text ''a'', Token ''param.x'', Text ''}b'']" "[''param.x'' \<mapsto> ''{v}'']"]
  by (simp add: token_char_def)

end
