(* ===== verification/Effects.thy ===== *)
theory Effects
  imports Py_Prelude
begin

text \<open>
  Scripts that read and write files and may end with an error: an action takes the state to its value
  or error and the state it leaves, which keeps what was written before an error. With it, the rule
  for proving that every action of a script preserves an invariant, whatever it ends in.
\<close>

type_synonym ('s, 'e, 'a) act = "'s \<Rightarrow> ('e + 'a) \<times> 's"

definition ret :: "'a \<Rightarrow> ('s, 'e, 'a) act" where
  "ret x = (\<lambda>s. (Inr x, s))"

definition lift :: "'e + 'a \<Rightarrow> ('s, 'e, 'a) act" where
  "lift r = (\<lambda>s. (r, s))"

definition get_state :: "('s \<Rightarrow> 'a) \<Rightarrow> ('s, 'e, 'a) act" where
  "get_state f = (\<lambda>s. (Inr (f s), s))"

definition modify :: "('s \<Rightarrow> 's) \<Rightarrow> ('s, 'e, unit) act" where
  "modify f = (\<lambda>s. (Inr (), f s))"

definition bindA :: "('s, 'e, 'a) act \<Rightarrow> ('a \<Rightarrow> ('s, 'e, 'b) act) \<Rightarrow> ('s, 'e, 'b) act" where
  "bindA m f = (\<lambda>s. case m s of (Inl e, s') \<Rightarrow> (Inl e, s') | (Inr x, s') \<Rightarrow> f x s')"

lemma act_simps [simp]:
  "ret x s = (Inr x, s)" "lift r s = (r, s)" "get_state g s = (Inr (g s), s)" "modify h s = (Inr (), h s)"
  by (simp_all add: ret_def lift_def get_state_def modify_def)

lemma bindA_ret [simp]: "bindA (ret x) f = f x"
  by (simp add: bindA_def ret_def)

lemma bindA_lift_Inr [simp]: "bindA (lift (Inr x)) f = f x"
  by (simp add: bindA_def lift_def)

lemma bindA_Inr:
  "bindA m f s = (Inr y, s'') \<longleftrightarrow> (\<exists>x s'. m s = (Inr x, s') \<and> f x s' = (Inr y, s''))"
  by (auto simp: bindA_def split: prod.splits sum.splits)

lemma bindA_Inr_elim:
  assumes "bindA m f s = (Inr y, s'')"
  obtains x s' where "m s = (Inr x, s')" and "f x s' = (Inr y, s'')"
  using assms by (auto simp: bindA_Inr)

text \<open>\<open>ensures P m Q\<close>: from a state with \<open>P\<close> the action ends, whether in a value or in an error, in a
  state with \<open>P\<close> again, and its value, if it has one, satisfies \<open>Q\<close>.\<close>

definition ensures :: "('s \<Rightarrow> bool) \<Rightarrow> ('s, 'e, 'a) act \<Rightarrow> ('a \<Rightarrow> bool) \<Rightarrow> bool" where
  "ensures P m Q \<longleftrightarrow> (\<forall>s r s'. P s \<longrightarrow> m s = (r, s') \<longrightarrow> P s' \<and> (\<forall>x. r = Inr x \<longrightarrow> Q x))"

lemma ensuresD: "ensures P m Q \<Longrightarrow> m s = (r, s') \<Longrightarrow> P s \<Longrightarrow> P s'"
  by (auto simp: ensures_def)

lemma ensures_ret: "Q x \<Longrightarrow> ensures P (ret x) Q"
  by (simp add: ensures_def)

lemma ensures_lift: "(\<And>x. r = Inr x \<Longrightarrow> Q x) \<Longrightarrow> ensures P (lift r) Q"
  by (simp add: ensures_def)

lemma ensures_modify: "(\<And>s. P s \<Longrightarrow> P (f s)) \<Longrightarrow> Q () \<Longrightarrow> ensures P (modify f) Q"
  by (simp add: ensures_def)

lemma ensures_get: "(\<And>s. P s \<Longrightarrow> Q (f s)) \<Longrightarrow> ensures P (get_state f) Q"
  by (simp add: ensures_def)

lemma ensures_bind:
  assumes "ensures P m R" and "\<And>x. R x \<Longrightarrow> ensures P (f x) Q"
  shows "ensures P (bindA m f) Q"
  unfolding ensures_def
proof (intro allI impI)
  fix s r s' assume s: "P s" and run: "bindA m f s = (r, s')"
  obtain r1 s1 where m: "m s = (r1, s1)" by (rule prod.exhaust)
  have s1: "P s1" "\<And>x. r1 = Inr x \<Longrightarrow> R x" using assms(1) s m by (auto simp: ensures_def)
  show "P s' \<and> (\<forall>x. r = Inr x \<longrightarrow> Q x)"
  proof (cases r1)
    case (Inl e)
    then show ?thesis using run m s1(1) by (auto simp: bindA_def)
  next
    case (Inr x)
    then have "f x s1 = (r, s')" using run m by (simp add: bindA_def)
    then show ?thesis using assms(2) [OF s1(2) [OF Inr]] s1(1) by (auto simp: ensures_def)
  qed
qed

lemma ensures_weaken: "ensures P m Q \<Longrightarrow> (\<And>x. Q x \<Longrightarrow> R x) \<Longrightarrow> ensures P m R"
  by (auto simp: ensures_def)

lemma ensures_if: "(b \<Longrightarrow> ensures P m Q) \<Longrightarrow> (\<not> b \<Longrightarrow> ensures P m' Q) \<Longrightarrow> ensures P (if b then m else m') Q"
  by simp

text \<open>\<open>yields m Q\<close>: whenever the action succeeds, its value and the state it leaves satisfy \<open>Q\<close>.\<close>

definition yields :: "('s, 'e, 'a) act \<Rightarrow> ('a \<Rightarrow> 's \<Rightarrow> bool) \<Rightarrow> bool" where
  "yields m Q \<longleftrightarrow> (\<forall>s x s'. m s = (Inr x, s') \<longrightarrow> Q x s')"

lemma yieldsD: "yields m Q \<Longrightarrow> m s = (Inr x, s') \<Longrightarrow> Q x s'"
  by (auto simp: yields_def)

lemma yields_any: "yields m (\<lambda>_ _. True)"
  by (simp add: yields_def)

lemma yields_bind: "yields m (\<lambda>x _. R x) \<Longrightarrow> (\<And>x. R x \<Longrightarrow> yields (f x) Q) \<Longrightarrow> yields (bindA m f) Q"
  unfolding yields_def bindA_Inr by metis

lemma yields_then: "(\<And>x. yields (f x) Q) \<Longrightarrow> yields (bindA m f) Q"
  by (rule yields_bind [OF yields_any])

lemma yields_lift_bind: "(\<And>x. r = Inr x \<Longrightarrow> yields (f x) Q) \<Longrightarrow> yields (bindA (lift r) f) Q"
  unfolding yields_def bindA_Inr by auto

lemma yields_stop: "yields (lift (Inl e)) Q"
  by (simp add: yields_def)

lemma yields_ret: "(\<And>s. Q x s) \<Longrightarrow> yields (ret x) Q"
  by (simp add: yields_def)

lemma yields_lift: "(\<And>x s. r = Inr x \<Longrightarrow> Q x s) \<Longrightarrow> yields (lift r) Q"
  by (simp add: yields_def)

lemma yields_if: "(c \<Longrightarrow> yields m Q) \<Longrightarrow> (\<not> c \<Longrightarrow> yields m' Q) \<Longrightarrow> yields (if c then m else m') Q"
  by simp

end
