(* ===== verification/Ephemeral_Common.thy ===== *)
theory Ephemeral_Common
  imports Effects "HOL-Library.AList" "HOL-Library.Sublist"
begin

text \<open>
  The shared part of the ephemeral test environments, \<open>scripts/test/_ephemeral_common.py\<close>: identity,
  namespaces, seed material, manifests, lifecycle transitions, reset scopes, cleanliness and evidence.
  The bundle of policy files is a record. Two library functions are parameters, the fields of \<open>lib\<close>:
  \<open>re.fullmatch\<close> on the patterns of the catalog and the SHA-256 of canonical JSON (\<open>stable_hash\<close>) on
  the payloads the code hashes. The \<open>detail\<close> texts of chronology entries are left out.
\<close>

section \<open>Policy files\<close>

record scope_class =
  sc_ref :: string
  sc_environment_ref :: string
  sc_owner_ref_pattern :: string
  sc_default_seed_profile_ref :: string

record seed_profile =
  sp_ref :: string
  sp_environment_ref :: string
  sp_embodiment_refs :: "string list"
  sp_required_fixture_ids :: "string list"
  sp_smoke_contract_refs :: "string list"
  sp_deterministic_seed_refs :: "string list"

record reset_scope =
  rsc_ref :: string
  rsc_reseed_required :: bool
  rsc_touched :: "string list"

record transition_row =
  from_state :: string
  to_state :: string
  allowed_phase_ref :: string

record env_bundle =
  catalog_id :: string
  environment_id_pattern :: string
  namespace_hash_length :: nat
  scope_classes :: "scope_class list"
  resource_templates :: "(string \<times> string) list"
  lifecycle_policy_id :: string
  transition_rows :: "transition_row list"
  reset_policy_id :: string
  reset_scopes :: "reset_scope list"
  evidence_required :: "string list"
  seed_profiles :: "seed_profile list"
  topology_id :: string
  schema_bundle_hash :: string
  golden_pack_hash :: string

datatype env_error =
    Unknown_Scope_Class string | Unknown_Seed_Profile string | Unknown_Reset_Scope string
  | Environment_Id_Invalid string | Owner_Ref_Invalid string string
  | Manifest_Id_Mismatch string string | Environment_Ref_Not_Ephemeral string
  | Resource_Class_Missing string | Illegal_Transition string string string
  | Evidence_Key_Missing string | Evidence_Action_Unsupported string
  | Unknown_Environment string | Manifest_Input_Mismatch string string | No_Default_Seed
  | Missing_Identity_Inputs | Exit_Halted | Exit_Failed

definition find_row :: "('r \<Rightarrow> string) \<Rightarrow> (string \<Rightarrow> env_error) \<Rightarrow> 'r list \<Rightarrow> string \<Rightarrow> env_error + 'r" where
  "find_row key err rows ref =
    (case find (\<lambda>row. key row = ref) rows of None \<Rightarrow> Inl (err ref) | Some row \<Rightarrow> Inr row)"

definition scope_row :: "env_bundle \<Rightarrow> string \<Rightarrow> env_error + scope_class" where
  "scope_row b ref = find_row sc_ref Unknown_Scope_Class (scope_classes b) ref"

definition seed_profile_row :: "env_bundle \<Rightarrow> string \<Rightarrow> env_error + seed_profile" where
  "seed_profile_row b ref = find_row sp_ref Unknown_Seed_Profile (seed_profiles b) ref"

definition reset_scope_row :: "env_bundle \<Rightarrow> string \<Rightarrow> env_error + reset_scope" where
  "reset_scope_row b ref = find_row rsc_ref Unknown_Reset_Scope (reset_scopes b) ref"

section \<open>Manifests\<close>

record env_identity =
  environment_id :: string
  environment_ref :: string
  scope_class_ref :: string
  owner_ref :: string
  shard_ref :: string
  runtime_profile_ref :: string
  seed_profile_ref :: string
  environment_identity_hash :: string
  namespace_hash :: string

record namespaces =
  control_schema_ref :: string
  audit_schema_ref :: string
  object_prefix_refs :: "string list"
  queue_namespace_refs :: "string list"
  dlq_namespace_refs :: "string list"
  cache_namespace_refs :: "string list"
  projection_namespace_ref :: string
  stream_cursor_namespace_ref :: string
  upload_session_namespace_ref :: string
  worker_lease_namespace_ref :: string
  audit_stream_namespace_ref :: string

record seed_material =
  sm_environment_id :: string
  sm_environment_identity_hash :: string
  sm_seed_profile_ref :: string
  sm_seed_profile_hash :: string
  sm_golden_pack_hash :: string
  sm_deterministic_seed_refs :: "string list"
  sm_embodiment_refs :: "string list"
  sm_required_fixture_ids :: "string list"
  sm_actor_alias :: string
  sm_session_ref :: string
  sm_client_ref :: string
  sm_route_identity_ref :: string
  sm_queue_flow_ref :: string
  sm_upload_object_ref :: string
  sm_upload_session_ref :: string
  sm_request_version_ref :: string
  sm_cache_partition_ref :: string
  sm_retry_rebase_token :: string

record resource_state =
  queue_available :: bool
  cache_available :: bool
  object_storage_available :: bool
  control_store_available :: bool
  audit_store_available :: bool
  active_worker_leases :: int
  queue_message_count :: int
  cache_key_count :: int
  projection_count :: int
  stream_cursor_count :: int
  upload_session_count :: int
  control_schema_row_count :: int
  audit_schema_row_count :: int
  object_prefix_object_counts :: "(string \<times> int) list"
  last_reset_scope_ref_or_null :: "string option"
  debug_retention_active :: bool

record chronology_entry =
  entry_at :: string
  event_ref :: string
  phase_ref :: string
  entry_state :: string
  status :: string

record browser_attachment =
  environment_identity_chip :: string
  session_fixture_alias :: string
  ba_route_identity_ref :: string
  ba_queue_flow_ref :: string
  ba_upload_object_ref :: string
  ba_cache_partition_ref :: string
  ba_retry_rebase_token :: string

record manifest = env_identity +
  runtime_topology_ref :: string
  control_store_schema_bundle_hash :: string
  seed_profile_hash :: string
  m_golden_pack_hash :: string
  lifecycle_state :: string
  current_phase_ref :: string
  completed_phase_refs :: "string list"
  chronology :: "chronology_entry list"
  m_namespaces :: namespaces
  resources :: resource_state
  browser :: browser_attachment
  seed_material_hash :: string
  last_cleanliness_hash_or_null :: "string option"
  reset_counter :: nat
  last_reset_evidence_ref_or_null :: "string option"

text \<open>A cleanliness failure: one of the fixed codes or the message of the failed target check.\<close>

datatype failure_code = Failure string | Target_Check env_error

text \<open>The payloads the code hashes. The resource counts of the cleanliness payload are the seven keys the
  code lists.\<close>

datatype payload =
    Identity_Payload "string list"
  | Seed_Profile_Payload "string list" string string "string list" string "string list"
  | Seed_Material_Payload seed_material
  | Cleanliness_Payload string "failure_code list" "string list" "int list" "(string \<times> int) list" string

record lib =
  fullmatch :: "string \<Rightarrow> string \<Rightarrow> bool"
  sha256 :: "payload \<Rightarrow> string"

section \<open>Identity\<close>

definition ensure_ephemeral_environment_id :: "lib \<Rightarrow> env_bundle \<Rightarrow> string \<Rightarrow> env_error + unit" where
  "ensure_ephemeral_environment_id l b env_id =
    (if \<not> fullmatch l (environment_id_pattern b) env_id then Inl (Environment_Id_Invalid env_id) else Inr ())"

definition ensure_owner_ref :: "lib \<Rightarrow> env_bundle \<Rightarrow> string \<Rightarrow> string \<Rightarrow> env_error + unit" where
  "ensure_owner_ref l b scope owner =
    bindE (scope_row b scope) (\<lambda>row.
      if \<not> fullmatch l (sc_owner_ref_pattern row) owner then Inl (Owner_Ref_Invalid owner scope) else Inr ())"

definition ensure_ephemeral_manifest :: "lib \<Rightarrow> env_bundle \<Rightarrow> manifest \<Rightarrow> string \<Rightarrow> env_error + unit" where
  "ensure_ephemeral_manifest l b m env_id =
    bindE (ensure_ephemeral_environment_id l b env_id) (\<lambda>_.
      if environment_id m \<noteq> env_id then Inl (Manifest_Id_Mismatch (environment_id m) env_id)
      else if environment_ref m \<notin> sc_environment_ref ` set (scope_classes b)
        then Inl (Environment_Ref_Not_Ephemeral (environment_ref m))
      else Inr ())"

definition identity_payload ::
  "lib \<Rightarrow> env_bundle \<Rightarrow> string \<Rightarrow> string \<Rightarrow> string \<Rightarrow> string \<Rightarrow> string \<Rightarrow> string \<Rightarrow> env_error + env_identity" where
  "identity_payload l b env_id scope_ref owner shard runtime_profile seed_ref =
    bindE (scope_row b scope_ref) (\<lambda>scope.
    bindE (ensure_ephemeral_environment_id l b env_id) (\<lambda>_.
    bindE (ensure_owner_ref l b scope_ref owner) (\<lambda>_.
    bindE (seed_profile_row b seed_ref) (\<lambda>_.
    (let identity_hash = sha256 l (Identity_Payload [env_id, sc_environment_ref scope, owner,
           runtime_profile, scope_ref, seed_ref, shard])
     in Inr \<lparr>environment_id = env_id, environment_ref = sc_environment_ref scope,
          scope_class_ref = scope_ref, owner_ref = owner, shard_ref = shard,
          runtime_profile_ref = runtime_profile, seed_profile_ref = seed_ref,
          environment_identity_hash = identity_hash,
          namespace_hash = take (namespace_hash_length b) identity_hash\<rparr>)))))"

section \<open>Namespaces\<close>

text \<open>\<open>str.replace\<close> for a non-empty pattern; the patterns here start with a dollar sign.\<close>

function replace_all :: "string \<Rightarrow> string \<Rightarrow> string \<Rightarrow> string" where
  "replace_all pat v s =
    (if pat = [] \<or> s = [] then s
     else if prefix pat s then v @ replace_all pat v (drop (length pat) s)
     else hd s # replace_all pat v (tl s))"
  by pat_completeness auto
termination
  by (relation "measure (\<lambda>(_, _, s). length s)") auto

declare replace_all.simps [simp del]

definition apply_template :: "string \<Rightarrow> (string \<times> string) list \<Rightarrow> string" where
  "apply_template template replacements =
    fold (\<lambda>(key, v) rendered. replace_all (CHR ''$'' # CHR ''{'' # key @ ''}'') v rendered) replacements template"

definition resource :: "(string \<times> string) list \<Rightarrow> string \<Rightarrow> env_error + string" where
  "resource rows ref = (case map_of (rev rows) ref of None \<Rightarrow> Inl (Resource_Class_Missing ref) | Some r \<Rightarrow> Inr r)"

definition resource_rows :: "env_bundle \<Rightarrow> ('a) env_identity_scheme \<Rightarrow> (string \<times> string) list" where
  "resource_rows b i = map (\<lambda>(ref, template). (ref, apply_template template
     [(''environment_id'', environment_id i), (''namespace_hash'', namespace_hash i)])) (resource_templates b)"

definition derive_namespaces :: "env_bundle \<Rightarrow> ('a) env_identity_scheme \<Rightarrow> env_error + namespaces" where
  "derive_namespaces b i =
    bindE (mapE (resource (resource_rows b i)) [''CONTROL_SCHEMA'', ''AUDIT_SCHEMA'', ''OBJECT_PREFIX_STAGING'',
        ''OBJECT_PREFIX_QUARANTINE'', ''OBJECT_PREFIX_DERIVED'', ''QUEUE_NAMESPACE_SET'', ''DLQ_NAMESPACE_SET'',
        ''CACHE_NAMESPACE_SET'', ''PROJECTION_NAMESPACE_SET'', ''STREAM_CURSOR_SET'', ''UPLOAD_SESSION_SET'',
        ''WORKER_LEASE_SET'', ''AUDIT_STREAM_SET'']) (\<lambda>rs.
     Inr \<lparr>control_schema_ref = rs ! 0, audit_schema_ref = rs ! 1,
       object_prefix_refs = [rs ! 2, rs ! 3, rs ! 4], queue_namespace_refs = [rs ! 5],
       dlq_namespace_refs = [rs ! 6], cache_namespace_refs = [rs ! 7], projection_namespace_ref = rs ! 8,
       stream_cursor_namespace_ref = rs ! 9, upload_session_namespace_ref = rs ! 10,
       worker_lease_namespace_ref = rs ! 11, audit_stream_namespace_ref = rs ! 12\<rparr>)"

section \<open>Seed material\<close>

definition compute_seed_profile_hash :: "lib \<Rightarrow> env_bundle \<Rightarrow> string \<Rightarrow> env_error + string" where
  "compute_seed_profile_hash l b ref =
    bindE (seed_profile_row b ref) (\<lambda>p. Inr (sha256 l (Seed_Profile_Payload (sp_embodiment_refs p)
      (sp_environment_ref p) (golden_pack_hash b) (sp_required_fixture_ids p) (sp_ref p)
      (sp_smoke_contract_refs p))))"

definition build_seed_material :: "lib \<Rightarrow> env_bundle \<Rightarrow> ('a) env_identity_scheme \<Rightarrow> env_error + seed_material" where
  "build_seed_material l b i =
    bindE (seed_profile_row b (seed_profile_ref i)) (\<lambda>p.
    bindE (compute_seed_profile_hash l b (seed_profile_ref i)) (\<lambda>h.
    (let ns = namespace_hash i in
     Inr \<lparr>sm_environment_id = environment_id i, sm_environment_identity_hash = environment_identity_hash i,
       sm_seed_profile_ref = seed_profile_ref i, sm_seed_profile_hash = h,
       sm_golden_pack_hash = golden_pack_hash b,
       sm_deterministic_seed_refs = sp_deterministic_seed_refs p,
       sm_embodiment_refs = sp_embodiment_refs p, sm_required_fixture_ids = sp_required_fixture_ids p,
       sm_actor_alias = ''fixture.operator.'' @ ns, sm_session_ref = ''session.ephemeral.'' @ ns,
       sm_client_ref = ''client.synthetic.'' @ ns,
       sm_route_identity_ref = ''/ephemeral/environments/'' @ environment_id i @ ''/work-items/'' @ ns,
       sm_queue_flow_ref = ''queue.ephemeral.'' @ ns @ ''.stage-work'',
       sm_upload_object_ref = ''object.ephemeral.upload.'' @ ns,
       sm_upload_session_ref = ''upload.session.ephemeral.'' @ ns,
       sm_request_version_ref = ''request.version.ephemeral.'' @ ns @ ''.v1'',
       sm_cache_partition_ref = ''cache.ephemeral.'' @ ns @ ''.workspace'',
       sm_retry_rebase_token = ''rebase.token.'' @ ns\<rparr>)))"

definition zero_resource_counts :: "manifest \<Rightarrow> resource_state" where
  "zero_resource_counts m = (resources m)\<lparr>active_worker_leases := 0, queue_message_count := 0,
     cache_key_count := 0, projection_count := 0, stream_cursor_count := 0, upload_session_count := 0,
     object_prefix_object_counts := map (\<lambda>(key, _). (key, 0)) (object_prefix_object_counts (resources m))\<rparr>"

definition initial_manifest ::
  "lib \<Rightarrow> env_bundle \<Rightarrow> env_identity \<Rightarrow> bool \<Rightarrow> env_error + manifest \<times> seed_material" where
  "initial_manifest l b i debug_retention =
    bindE (derive_namespaces b i) (\<lambda>ns.
    bindE (build_seed_material l b i) (\<lambda>sm.
    Inr (env_identity.extend i
      \<lparr>runtime_topology_ref = topology_id b,
       control_store_schema_bundle_hash = schema_bundle_hash b,
       seed_profile_hash = sm_seed_profile_hash sm,
       m_golden_pack_hash = golden_pack_hash b,
       lifecycle_state = ''REQUESTED'', current_phase_ref = ''IDENTITY_LOCK'', completed_phase_refs = [],
       chronology = [\<lparr>entry_at = ''2026-04-23T00:00:00Z'', event_ref = ''environment.requested'',
         phase_ref = ''IDENTITY_LOCK'', entry_state = ''REQUESTED'', status = ''SUCCEEDED''\<rparr>],
       m_namespaces = ns,
       resources = \<lparr>queue_available = True, cache_available = True, object_storage_available = True,
         control_store_available = True, audit_store_available = True,
         active_worker_leases = 0, queue_message_count = 0, cache_key_count = 0, projection_count = 0,
         stream_cursor_count = 0, upload_session_count = 0,
         control_schema_row_count = int (length (sm_required_fixture_ids sm)), audit_schema_row_count = 1,
         object_prefix_object_counts =
           fold (\<lambda>prefix counts. AList.update prefix 0 counts) (object_prefix_refs ns) [],
         last_reset_scope_ref_or_null = None, debug_retention_active = debug_retention\<rparr>,
       browser = \<lparr>environment_identity_chip = environment_id i, session_fixture_alias = sm_actor_alias sm,
         ba_route_identity_ref = sm_route_identity_ref sm, ba_queue_flow_ref = sm_queue_flow_ref sm,
         ba_upload_object_ref = sm_upload_object_ref sm, ba_cache_partition_ref = sm_cache_partition_ref sm,
         ba_retry_rebase_token = sm_retry_rebase_token sm\<rparr>,
       seed_material_hash = sha256 l (Seed_Material_Payload sm),
       last_cleanliness_hash_or_null = None, reset_counter = 0, last_reset_evidence_ref_or_null = None\<rparr>, sm)))"

section \<open>Transitions\<close>

definition transition_allowed :: "env_bundle \<Rightarrow> string \<Rightarrow> string \<Rightarrow> string \<Rightarrow> bool" where
  "transition_allowed b from to phase \<longleftrightarrow>
    (\<exists>row \<in> set (transition_rows b). from_state row = from \<and> to_state row = to \<and> allowed_phase_ref row = phase)"

definition transition_manifest ::
  "env_bundle \<Rightarrow> manifest \<Rightarrow> string \<Rightarrow> string \<Rightarrow> string \<Rightarrow> string \<Rightarrow> string \<Rightarrow> env_error + manifest" where
  "transition_manifest b m time to phase event outcome =
    (if \<not> transition_allowed b (lifecycle_state m) to phase
       then Inl (Illegal_Transition (lifecycle_state m) to phase)
     else Inr (m\<lparr>lifecycle_state := to, current_phase_ref := phase,
       completed_phase_refs := (if outcome = ''SUCCEEDED'' \<and> phase \<notin> set (completed_phase_refs m)
         then completed_phase_refs m @ [phase] else completed_phase_refs m),
       chronology := chronology m @ [\<lparr>entry_at = time, event_ref = event, phase_ref = phase,
         entry_state = to, status = outcome\<rparr>]\<rparr>))"

section \<open>Resets\<close>

definition touch :: "bool \<Rightarrow> string \<Rightarrow> (string \<times> int) list \<Rightarrow> (string \<times> int) list" where
  "touch b key counts = (if b then AList.update key 0 counts else counts)"

definition touched_reset_state :: "manifest \<Rightarrow> string list \<Rightarrow> resource_state" where
  "touched_reset_state m touched =
    (let s = resources m; prefixes = object_prefix_refs (m_namespaces m) in
     s\<lparr>active_worker_leases := (if ''WORKER_LEASE_SET'' \<in> set touched then 0 else active_worker_leases s),
       queue_message_count := (if ''QUEUE_NAMESPACE_SET'' \<in> set touched \<or> ''DLQ_NAMESPACE_SET'' \<in> set touched
         then 0 else queue_message_count s),
       cache_key_count := (if ''CACHE_NAMESPACE_SET'' \<in> set touched then 0 else cache_key_count s),
       projection_count := (if ''PROJECTION_NAMESPACE_SET'' \<in> set touched then 0 else projection_count s),
       stream_cursor_count := (if ''STREAM_CURSOR_SET'' \<in> set touched then 0 else stream_cursor_count s),
       upload_session_count := (if ''UPLOAD_SESSION_SET'' \<in> set touched then 0 else upload_session_count s),
       object_prefix_object_counts :=
         touch (''OBJECT_PREFIX_DERIVED'' \<in> set touched) (prefixes ! 2)
           (touch (''OBJECT_PREFIX_QUARANTINE'' \<in> set touched) (prefixes ! 1)
             (touch (''OBJECT_PREFIX_STAGING'' \<in> set touched) (prefixes ! 0)
               (object_prefix_object_counts s)))\<rparr>)"

definition apply_reset_scope :: "env_bundle \<Rightarrow> manifest \<Rightarrow> string \<Rightarrow> env_error + manifest" where
  "apply_reset_scope b m ref =
    bindE (reset_scope_row b ref) (\<lambda>scope.
      Inr (m\<lparr>resources := (touched_reset_state m (rsc_touched scope))\<lparr>last_reset_scope_ref_or_null := Some ref\<rparr>,
             reset_counter := reset_counter m + 1\<rparr>))"

section \<open>Cleanliness\<close>

record resource_counts =
  rc_active_worker_leases :: int
  rc_queue_message_count :: int
  rc_cache_key_count :: int
  rc_projection_count :: int
  rc_stream_cursor_count :: int
  rc_upload_session_count :: int
  rc_object_total :: int

record cleanliness_report =
  cl_environment_id :: string
  cl_environment_identity_hash :: string
  cl_ok :: bool
  cl_failure_codes :: "failure_code list"
  cl_warning_codes :: "string list"
  cl_hash :: string
  cl_counts :: resource_counts

definition code_if :: "bool \<Rightarrow> string \<Rightarrow> failure_code list" where
  "code_if c s = (if c then [Failure s] else [])"

definition object_total :: "resource_state \<Rightarrow> int" where
  "object_total s = sum_list (map snd (object_prefix_object_counts s))"

definition resource_failures :: "resource_state \<Rightarrow> failure_code list" where
  "resource_failures s =
    code_if (active_worker_leases s \<noteq> 0) ''ACTIVE_WORKER_LEASES_PRESENT''
    @ code_if (\<not> queue_available s) ''QUEUE_SERVICE_UNAVAILABLE''
    @ code_if (\<not> cache_available s) ''CACHE_SERVICE_UNAVAILABLE''
    @ code_if (\<not> object_storage_available s) ''OBJECT_STORAGE_SERVICE_UNAVAILABLE''
    @ code_if (queue_message_count s \<noteq> 0) ''QUEUE_NOT_EMPTY''
    @ code_if (cache_key_count s \<noteq> 0) ''CACHE_NOT_EMPTY''
    @ code_if (projection_count s \<noteq> 0) ''PROJECTION_NOT_EMPTY''
    @ code_if (stream_cursor_count s \<noteq> 0) ''STREAM_CURSOR_NOT_EMPTY''
    @ code_if (upload_session_count s \<noteq> 0) ''UPLOAD_SESSIONS_NOT_EMPTY''
    @ code_if (object_total s \<noteq> 0) ''OBJECT_PREFIX_NOT_EMPTY''"

definition target_failures :: "lib \<Rightarrow> env_bundle \<Rightarrow> manifest \<Rightarrow> failure_code list" where
  "target_failures l b m =
    (case ensure_ephemeral_manifest l b m (environment_id m) of Inl e \<Rightarrow> [Target_Check e] | Inr _ \<Rightarrow> [])"

definition evaluate_cleanliness ::
  "lib \<Rightarrow> env_bundle \<Rightarrow> manifest \<Rightarrow> string option \<Rightarrow> bool \<Rightarrow> env_error + cleanliness_report" where
  "evaluate_cleanliness l b m expected_seed_profile_hash require_ready_state =
    (let s = resources m;
         early = code_if (require_ready_state \<and> lifecycle_state m \<noteq> ''READY'') ''ENVIRONMENT_NOT_READY''
           @ target_failures l b m @ resource_failures s
     in bindE (compute_seed_profile_hash l b (seed_profile_ref m)) (\<lambda>current_seed_hash.
       (let expected = (case expected_seed_profile_hash of None \<Rightarrow> current_seed_hash | Some h \<Rightarrow> h);
            failures = early @ code_if (seed_profile_hash m \<noteq> expected) ''SEED_PROFILE_HASH_DRIFT'';
            warnings = (if debug_retention_active s then [''DEBUG_RETENTION_ACTIVE''] else [])
        in Inr \<lparr>cl_environment_id = environment_id m,
             cl_environment_identity_hash = environment_identity_hash m,
             cl_ok = (failures = []), cl_failure_codes = failures, cl_warning_codes = warnings,
             cl_hash = sha256 l (Cleanliness_Payload (environment_identity_hash m)
               failures warnings
               [active_worker_leases s, queue_message_count s, cache_key_count s, projection_count s,
                stream_cursor_count s, upload_session_count s] (object_prefix_object_counts s)
               (seed_profile_hash m)),
             cl_counts = \<lparr>rc_active_worker_leases = active_worker_leases s,
               rc_queue_message_count = queue_message_count s, rc_cache_key_count = cache_key_count s,
               rc_projection_count = projection_count s, rc_stream_cursor_count = stream_cursor_count s,
               rc_upload_session_count = upload_session_count s, rc_object_total = object_total s\<rparr>\<rparr>)))"

section \<open>Evidence\<close>

record evidence_event =
  ev_at :: string
  ev_ref :: string
  ev_status :: string

record reset_evidence =
  re_action_kind :: string
  re_identity :: env_identity
  re_reset_scope_ref :: string
  re_seed_profile_hash :: string
  re_golden_pack_hash :: string
  re_approved_target_pattern :: string
  re_chronology :: "evidence_event list"
  re_resource_counts :: resource_counts
  re_residual_warnings :: "string list"
  re_outcome :: string
  re_source_lineage :: "string list"

definition evidence_keys :: "string list" where
  "evidence_keys = [''evidence_version'', ''action_kind'', ''environment_id'', ''environment_identity_hash'',
     ''environment_ref'', ''reset_scope_ref'', ''seed_profile_ref'', ''seed_profile_hash'', ''golden_pack_hash'',
     ''approved_target_pattern'', ''chronology'', ''resource_counts'', ''residual_warnings'', ''outcome'',
     ''source_lineage'']"

text \<open>The version check cannot fail on evidence the code builds; the required keys are looked up among the
  keys every evidence has.\<close>

definition validate_reset_evidence :: "env_bundle \<Rightarrow> reset_evidence \<Rightarrow> env_error + unit" where
  "validate_reset_evidence b ev =
    (case find (\<lambda>k. k \<notin> set evidence_keys) (evidence_required b) of
       Some k \<Rightarrow> Inl (Evidence_Key_Missing k)
     | None \<Rightarrow> if re_action_kind ev \<notin> {''RESET'', ''DESTROY''}
         then Inl (Evidence_Action_Unsupported (re_action_kind ev)) else Inr ())"

definition build_reset_evidence ::
  "lib \<Rightarrow> env_bundle \<Rightarrow> manifest \<Rightarrow> string \<Rightarrow> evidence_event list \<Rightarrow> string \<Rightarrow> string list \<Rightarrow> string \<Rightarrow>
   env_error + reset_evidence" where
  "build_reset_evidence l b m action_kind events outcome residual_warnings scope_ref =
    bindE (evaluate_cleanliness l b m (Some (seed_profile_hash m)) (action_kind = ''RESET'')) (\<lambda>cleanliness.
    (let ev = \<lparr>re_action_kind = action_kind, re_identity = env_identity.truncate m,
         re_reset_scope_ref = scope_ref, re_seed_profile_hash = seed_profile_hash m,
         re_golden_pack_hash = m_golden_pack_hash m, re_approved_target_pattern = environment_id_pattern b,
         re_chronology = events, re_resource_counts = cl_counts cleanliness,
         re_residual_warnings = residual_warnings, re_outcome = outcome,
         re_source_lineage = [catalog_id b, lifecycle_policy_id b, reset_policy_id b, runtime_topology_ref m]\<rparr>
     in bindE (validate_reset_evidence b ev) (\<lambda>_. Inr ev)))"

end
