(* ===== verification/Ephemeral_Lifecycle.thy ===== *)
theory Ephemeral_Lifecycle
  imports Ephemeral_Common
begin

text \<open>
  The lifecycle commands on one environment: \<open>bootstrap_ephemeral_environment.py\<close>,
  \<open>reset_ephemeral_environment.py\<close>, \<open>destroy_ephemeral_environment.py\<close>,
  \<open>load_ephemeral_seed_profile.py\<close> and \<open>verify_ephemeral_cleanliness.py\<close>. The state is the directory of
  the environment: its manifest, seed material, cleanliness report and evidence files. Every
  \<open>write_json\<close> is a change of that state, in the order of the code, so a command that raises
  \<open>SystemExit\<close> leaves what it had written. What the commands print is left out.
\<close>

record env_files =
  manifest_file :: "manifest option"
  seed_file :: "seed_material option"
  report_file :: "cleanliness_report option"
  evidence_files :: "(string \<times> reset_evidence) list"

type_synonym 'a cmd = "(env_files, env_error, 'a) act"

definition write_manifest :: "manifest \<Rightarrow> unit cmd" where
  "write_manifest m = modify (\<lambda>s. s\<lparr>manifest_file := Some m\<rparr>)"

definition write_seed :: "seed_material \<Rightarrow> unit cmd" where
  "write_seed sm = modify (\<lambda>s. s\<lparr>seed_file := Some sm\<rparr>)"

definition write_report :: "cleanliness_report \<Rightarrow> unit cmd" where
  "write_report r = modify (\<lambda>s. s\<lparr>report_file := Some r\<rparr>)"

definition write_evidence :: "string \<Rightarrow> reset_evidence \<Rightarrow> unit cmd" where
  "write_evidence name ev = modify (\<lambda>s. s\<lparr>evidence_files := AList.update name ev (evidence_files s)\<rparr>)"

section \<open>Bootstrap\<close>

record bootstrap_args =
  ba_environment_id :: string
  ba_scope_class :: string
  ba_owner_ref :: string
  ba_shard_ref :: string
  ba_runtime_profile :: string
  ba_seed_profile :: "string option"
  ba_halt_after_phase :: "string option"
  ba_debug_retention_active :: bool

definition phase_clock :: "string \<Rightarrow> string" where
  "phase_clock phase = (case map_of
     [(''IDENTITY_LOCK'', ''2026-04-23T01:00:00Z''), (''RUNTIME_HEALTH_GATE'', ''2026-04-23T01:00:10Z''),
      (''NAMESPACE_PROVISION'', ''2026-04-23T01:00:20Z''), (''MIGRATION_BASIS'', ''2026-04-23T01:00:30Z''),
      (''SEED_LOAD'', ''2026-04-23T01:00:40Z''), (''CLEANLINESS_VERIFY'', ''2026-04-23T01:00:50Z'')] phase of
     Some t \<Rightarrow> t | None \<Rightarrow> [])"

definition require_equal :: "string \<Rightarrow> string \<Rightarrow> string \<Rightarrow> env_error + unit" where
  "require_equal key actual expected = (if actual \<noteq> expected then Inl (Manifest_Input_Mismatch key actual) else Inr ())"

definition current_manifest_or_new ::
  "lib \<Rightarrow> env_bundle \<Rightarrow> bootstrap_args \<Rightarrow> string \<Rightarrow> manifest option \<Rightarrow> env_error + manifest \<times> seed_material" where
  "current_manifest_or_new l b args seed_ref existing =
    (case existing of
       Some m \<Rightarrow>
         bindE (require_equal ''scope_class_ref'' (scope_class_ref m) (ba_scope_class args)) (\<lambda>_.
         bindE (require_equal ''owner_ref'' (owner_ref m) (ba_owner_ref args)) (\<lambda>_.
         bindE (require_equal ''shard_ref'' (shard_ref m) (ba_shard_ref args)) (\<lambda>_.
         bindE (require_equal ''runtime_profile_ref'' (runtime_profile_ref m) (ba_runtime_profile args)) (\<lambda>_.
         bindE (require_equal ''seed_profile_ref'' (seed_profile_ref m) seed_ref) (\<lambda>_.
         bindE (build_seed_material l b m) (\<lambda>sm. Inr (m, sm)))))))
     | None \<Rightarrow>
         bindE (identity_payload l b (ba_environment_id args) (ba_scope_class args) (ba_owner_ref args)
           (ba_shard_ref args) (ba_runtime_profile args) seed_ref) (\<lambda>i.
         initial_manifest l b i (ba_debug_retention_active args)))"

definition mark_bootstrap_step ::
  "env_bundle \<Rightarrow> manifest \<Rightarrow> string \<Rightarrow> string \<Rightarrow> string \<Rightarrow> string \<Rightarrow> env_error + manifest" where
  "mark_bootstrap_step b m phase event to outcome =
    transition_manifest b m (phase_clock phase) to phase event outcome"

definition maybe_halt_after_phase :: "env_bundle \<Rightarrow> manifest \<Rightarrow> string option \<Rightarrow> string \<Rightarrow> string \<Rightarrow> unit cmd" where
  "maybe_halt_after_phase b m halt_after phase event =
    (if halt_after \<noteq> Some phase then ret ()
     else bindA (lift (mark_bootstrap_step b m phase event ''HALTED'' ''HALTED'')) (\<lambda>halted.
          bindA (write_manifest halted) (\<lambda>_. lift (Inl Exit_Halted))))"

text \<open>A phase that is skipped when the manifest records it as completed; the manifest is written again
  either way.\<close>

definition bootstrap_phase :: "env_bundle \<Rightarrow> string \<Rightarrow> string \<Rightarrow> manifest \<Rightarrow> manifest cmd" where
  "bootstrap_phase b phase event m =
    bindA (if phase \<notin> set (completed_phase_refs m)
             then lift (mark_bootstrap_step b m phase event ''BOOTSTRAPPING'' ''SUCCEEDED'') else ret m) (\<lambda>m'.
    bindA (write_manifest m') (\<lambda>_. ret m'))"

definition seed_phase :: "lib \<Rightarrow> env_bundle \<Rightarrow> seed_material \<Rightarrow> manifest \<Rightarrow> manifest cmd" where
  "seed_phase l b sm m =
    bindA (if ''SEED_LOAD'' \<notin> set (completed_phase_refs m)
             then bindA (write_seed sm) (\<lambda>_.
               lift (mark_bootstrap_step b (m\<lparr>seed_material_hash := sha256 l (Seed_Material_Payload sm)\<rparr>)
                 ''SEED_LOAD'' ''environment.seed-material-loaded'' ''BOOTSTRAPPING'' ''SUCCEEDED''))
           else ret m) (\<lambda>m'.
    bindA (write_manifest m') (\<lambda>_. ret m'))"

definition identity_phase :: "env_bundle \<Rightarrow> manifest \<Rightarrow> manifest cmd" where
  "identity_phase b m =
    bindA (if lifecycle_state m \<in> {''REQUESTED'', ''HALTED''}
             then lift (mark_bootstrap_step b m ''IDENTITY_LOCK'' ''environment.identity-locked''
               ''BOOTSTRAPPING'' ''SUCCEEDED'') else ret m) (\<lambda>m'.
    bindA (write_manifest m') (\<lambda>_. ret m'))"

definition verify_phase :: "lib \<Rightarrow> env_bundle \<Rightarrow> string \<Rightarrow> manifest \<Rightarrow> manifest cmd" where
  "verify_phase l b seed_ref m =
    bindA (lift (compute_seed_profile_hash l b seed_ref)) (\<lambda>expected.
    bindA (lift (evaluate_cleanliness l b m (Some expected) False)) (\<lambda>cleanliness.
    bindA (write_report cleanliness) (\<lambda>_.
    if \<not> cl_ok cleanliness then
      bindA (lift (mark_bootstrap_step b m ''CLEANLINESS_VERIFY'' ''environment.cleanliness-failed'' ''FAILED''
        ''FAILED'')) (\<lambda>failed.
      bindA (write_manifest (failed\<lparr>last_cleanliness_hash_or_null := Some (cl_hash cleanliness)\<rparr>)) (\<lambda>_.
      lift (Inl Exit_Failed)))
    else
      bindA (lift (mark_bootstrap_step b m ''CLEANLINESS_VERIFY'' ''environment.cleanliness-verified'' ''READY''
        ''SUCCEEDED'')) (\<lambda>ready.
      (let ready = ready\<lparr>last_cleanliness_hash_or_null := Some (cl_hash cleanliness)\<rparr> in
       bindA (write_manifest ready) (\<lambda>_. ret ready))))))"

definition default_seed_profile :: "env_bundle \<Rightarrow> string \<Rightarrow> env_error + string" where
  "default_seed_profile b scope =
    (case find (\<lambda>row. sc_ref row = scope) (scope_classes b) of
       None \<Rightarrow> Inl No_Default_Seed | Some row \<Rightarrow> Inr (sc_default_seed_profile_ref row))"

definition or_default :: "string option \<Rightarrow> string \<Rightarrow> string" where
  "or_default v d = (case v of Some (ch # cs) \<Rightarrow> ch # cs | _ \<Rightarrow> d)"

text \<open>What \<open>main\<close> does when the environment is not ready: the phases, each written to disk.\<close>

definition bootstrap_phases ::
  "lib \<Rightarrow> env_bundle \<Rightarrow> bootstrap_args \<Rightarrow> string \<Rightarrow> manifest \<Rightarrow> seed_material \<Rightarrow> manifest cmd" where
  "bootstrap_phases l b args seed_ref m sm =
    bindA (identity_phase b m) (\<lambda>requested.
    bindA (bootstrap_phase b ''RUNTIME_HEALTH_GATE'' ''environment.runtime-health-gated'' requested) (\<lambda>gated.
    bindA (bootstrap_phase b ''NAMESPACE_PROVISION'' ''environment.namespaces-provisioned'' gated) (\<lambda>provisioned.
    bindA (bootstrap_phase b ''MIGRATION_BASIS'' ''environment.migration-basis-recorded'' provisioned) (\<lambda>migrated.
    bindA (maybe_halt_after_phase b migrated (ba_halt_after_phase args) ''MIGRATION_BASIS''
      ''migration_basis.halted'') (\<lambda>_.
    bindA (seed_phase l b sm migrated) (\<lambda>seeded.
    bindA (maybe_halt_after_phase b seeded (ba_halt_after_phase args) ''SEED_LOAD'' ''seed_load.halted'') (\<lambda>_.
    verify_phase l b seed_ref seeded)))))))"

text \<open>\<open>main\<close>; a ready environment is only reported on, whatever the report says.\<close>

definition bootstrap :: "lib \<Rightarrow> env_bundle \<Rightarrow> bootstrap_args \<Rightarrow> manifest cmd" where
  "bootstrap l b args =
    bindA (lift (default_seed_profile b (ba_scope_class args))) (\<lambda>default_seed.
    (let seed_ref = or_default (ba_seed_profile args) default_seed in
     bindA (get_state manifest_file) (\<lambda>existing.
     bindA (lift (current_manifest_or_new l b args seed_ref existing)) (\<lambda>(m, sm).
     if lifecycle_state m = ''READY'' \<and> seed_profile_ref m = seed_ref then
       bindA (lift (compute_seed_profile_hash l b seed_ref)) (\<lambda>expected.
       bindA (lift (evaluate_cleanliness l b m (Some expected) True)) (\<lambda>report.
       bindA (write_report report) (\<lambda>_. ret m)))
     else bootstrap_phases l b args seed_ref m sm))))"

section \<open>Reset\<close>

record reset_args =
  ra_environment_id :: string
  ra_reset_scope :: string
  ra_force_fence_workers :: bool

definition reset_event :: "string \<Rightarrow> string \<Rightarrow> string \<Rightarrow> evidence_event" where
  "reset_event time ref outcome = \<lparr>ev_at = time, ev_ref = ref, ev_status = outcome\<rparr>"

definition digit :: "nat \<Rightarrow> char" where
  "digit n = ''0123456789'' ! (n mod 10)"

fun decimal :: "nat \<Rightarrow> string" where
  "decimal n = (if n < 10 then [digit n] else decimal (n div 10) @ [digit n])"

declare decimal.simps [simp del]

text \<open>\<open>f"reset-{n:04d}.json"\<close>\<close>

definition reset_evidence_name :: "nat \<Rightarrow> string" where
  "reset_evidence_name n = ''reset-'' @ replicate (4 - length (decimal n)) (CHR ''0'') @ decimal n @ ''.json''"

definition load_manifest :: "string \<Rightarrow> manifest cmd" where
  "load_manifest env_id = bindA (get_state manifest_file) (\<lambda>existing.
     case existing of None \<Rightarrow> lift (Inl (Unknown_Environment env_id)) | Some m \<Rightarrow> ret m)"

definition halt_reset ::
  "lib \<Rightarrow> env_bundle \<Rightarrow> reset_args \<Rightarrow> manifest \<Rightarrow> evidence_event list \<Rightarrow> string \<Rightarrow> string \<Rightarrow> manifest cmd" where
  "halt_reset l b args resetting events time event =
    bindA (lift (transition_manifest b resetting time ''HALTED'' ''RUNTIME_HEALTH_GATE'' event ''HALTED'')) (\<lambda>halted.
    bindA (write_manifest halted) (\<lambda>_.
    bindA (lift (build_reset_evidence l b halted ''RESET'' (events @ [reset_event time event ''HALTED''])
      ''HALTED'' [] (ra_reset_scope args))) (\<lambda>ev.
    bindA (write_evidence ''reset-halted.json'' ev) (\<lambda>_. lift (Inl Exit_Halted)))))"

definition reseed :: "lib \<Rightarrow> env_bundle \<Rightarrow> manifest \<Rightarrow> manifest cmd" where
  "reseed l b m =
    bindA (lift (build_seed_material l b m)) (\<lambda>sm.
    bindA (write_seed sm) (\<lambda>_.
    bindA (lift (transition_manifest b (m\<lparr>seed_material_hash := sha256 l (Seed_Material_Payload sm)\<rparr>)
      ''2026-04-23T02:00:30Z'' ''RESETTING'' ''SEED_LOAD'' ''reset.seed-material-reloaded'' ''SUCCEEDED'')) (\<lambda>m'.
    bindA (write_manifest m') (\<lambda>_. ret m'))))"

definition finish_reset ::
  "lib \<Rightarrow> env_bundle \<Rightarrow> reset_args \<Rightarrow> manifest \<Rightarrow> evidence_event list \<Rightarrow> manifest cmd" where
  "finish_reset l b args m events =
    bindA (lift (compute_seed_profile_hash l b (seed_profile_ref m))) (\<lambda>expected.
    bindA (lift (evaluate_cleanliness l b m (Some expected) False)) (\<lambda>report.
    bindA (write_report report) (\<lambda>_.
    if \<not> cl_ok report then
      bindA (lift (transition_manifest b m ''2026-04-23T02:00:40Z'' ''FAILED'' ''CLEANLINESS_VERIFY''
        ''reset.cleanliness-failed'' ''FAILED'')) (\<lambda>failed.
      (let failed = failed\<lparr>last_cleanliness_hash_or_null := Some (cl_hash report)\<rparr> in
       bindA (write_manifest failed) (\<lambda>_.
       bindA (lift (build_reset_evidence l b failed ''RESET''
         (events @ [reset_event ''2026-04-23T02:00:40Z'' ''reset.cleanliness-failed'' ''FAILED''])
         ''FAILED'' (cl_warning_codes report) (ra_reset_scope args))) (\<lambda>ev.
       bindA (write_evidence (reset_evidence_name (reset_counter failed)) ev) (\<lambda>_. lift (Inl Exit_Failed))))))
    else
      bindA (lift (transition_manifest b m ''2026-04-23T02:00:50Z'' ''READY'' ''CLEANLINESS_VERIFY''
        ''reset.cleanliness-verified'' ''SUCCEEDED'')) (\<lambda>ready.
      (let ready = ready\<lparr>last_cleanliness_hash_or_null := Some (cl_hash report)\<rparr>;
           name = reset_evidence_name (reset_counter ready) in
       bindA (lift (build_reset_evidence l b ready ''RESET''
         (events @ [reset_event ''2026-04-23T02:00:50Z'' ''reset.cleanliness-verified'' ''SUCCEEDED''])
         ''SUCCEEDED'' (cl_warning_codes report) (ra_reset_scope args))) (\<lambda>ev.
       bindA (write_evidence name ev) (\<lambda>_.
       (let ready = ready\<lparr>last_reset_evidence_ref_or_null := Some (''evidence/'' @ name)\<rparr> in
        bindA (write_manifest ready) (\<lambda>_. ret ready)))))))))"

definition reset :: "lib \<Rightarrow> env_bundle \<Rightarrow> reset_args \<Rightarrow> manifest cmd" where
  "reset l b args =
    bindA (load_manifest (ra_environment_id args)) (\<lambda>m.
    bindA (lift (ensure_ephemeral_manifest l b m (ra_environment_id args))) (\<lambda>_.
    bindA (lift (reset_scope_row b (ra_reset_scope args))) (\<lambda>scope.
    bindA (lift (transition_manifest b m ''2026-04-23T02:00:00Z'' ''RESETTING'' ''IDENTITY_LOCK''
      ''reset.identity-locked'' ''SUCCEEDED'')) (\<lambda>resetting.
    bindA (write_manifest resetting) (\<lambda>_.
    (let events = [reset_event ''2026-04-23T02:00:00Z'' ''reset.identity-locked'' ''SUCCEEDED''];
         s = resources resetting in
     if active_worker_leases s > 0 \<and> \<not> ra_force_fence_workers args then
       halt_reset l b args resetting events ''2026-04-23T02:00:05Z'' ''reset.worker-lease-halt''
     else if \<not> queue_available s \<or> \<not> cache_available s then
       halt_reset l b args resetting events ''2026-04-23T02:00:10Z'' ''reset.service-unavailable-halt''
     else
       (let events = (if ra_force_fence_workers args \<and> active_worker_leases s > 0
              then events @ [reset_event ''2026-04-23T02:00:15Z'' ''reset.worker-leases-fenced'' ''SUCCEEDED'']
              else events) in
        bindA (lift (transition_manifest b resetting ''2026-04-23T02:00:20Z'' ''RESETTING'' ''NAMESPACE_PROVISION''
          ''reset.namespaces-recreated'' ''SUCCEEDED'')) (\<lambda>recreated.
        bindA (lift (apply_reset_scope b recreated (ra_reset_scope args))) (\<lambda>purged.
        bindA (write_manifest purged) (\<lambda>_.
        (let events = events @ [reset_event ''2026-04-23T02:00:20Z'' ''reset.namespaces-recreated'' ''SUCCEEDED''] in
         if rsc_reseed_required scope then
           bindA (reseed l b purged) (\<lambda>reseeded. finish_reset l b args reseeded
             (events @ [reset_event ''2026-04-23T02:00:30Z'' ''reset.seed-material-reloaded'' ''SUCCEEDED'']))
         else finish_reset l b args purged events))))))))))) "

section \<open>Destroy\<close>

record destroy_args =
  da_environment_id :: string
  da_override_debug_retention :: bool

definition destroy :: "lib \<Rightarrow> env_bundle \<Rightarrow> destroy_args \<Rightarrow> manifest cmd" where
  "destroy l b args =
    bindA (load_manifest (da_environment_id args)) (\<lambda>m.
    bindA (lift (ensure_ephemeral_manifest l b m (da_environment_id args))) (\<lambda>_.
    bindA (lift (transition_manifest b m ''2026-04-23T03:00:00Z'' ''DESTROY_PENDING'' ''IDENTITY_LOCK''
      ''destroy.identity-locked'' ''SUCCEEDED'')) (\<lambda>pending.
    bindA (write_manifest pending) (\<lambda>_.
    (let events = [reset_event ''2026-04-23T03:00:00Z'' ''destroy.identity-locked'' ''SUCCEEDED''] in
     if debug_retention_active (resources pending) \<and> \<not> da_override_debug_retention args then
       bindA (lift (transition_manifest b pending ''2026-04-23T03:00:10Z'' ''HALTED'' ''DESTROY_CLEANUP''
         ''destroy.debug-retention-blocked'' ''HALTED'')) (\<lambda>halted.
       bindA (write_manifest halted) (\<lambda>_.
       bindA (lift (build_reset_evidence l b halted ''DESTROY''
         (events @ [reset_event ''2026-04-23T03:00:10Z'' ''destroy.debug-retention-blocked'' ''HALTED''])
         ''HALTED'' [''DEBUG_RETENTION_ACTIVE''] ''DESTROY_ENVIRONMENT'')) (\<lambda>ev.
       bindA (write_evidence ''destroy-halted.json'' ev) (\<lambda>_. lift (Inl Exit_Halted)))))
     else
       bindA (modify (\<lambda>s. s\<lparr>seed_file := None, report_file := None\<rparr>)) (\<lambda>_.
       bindA (lift (transition_manifest b (pending\<lparr>resources := zero_resource_counts pending\<rparr>)
         ''2026-04-23T03:00:20Z'' ''DESTROYED'' ''DESTROY_CLEANUP'' ''destroy.completed'' ''SUCCEEDED'')) (\<lambda>destroyed.
       bindA (write_manifest destroyed) (\<lambda>_.
       bindA (lift (build_reset_evidence l b destroyed ''DESTROY''
         (events @ [reset_event ''2026-04-23T03:00:20Z'' ''destroy.completed'' ''SUCCEEDED''])
         ''SUCCEEDED'' [] ''DESTROY_ENVIRONMENT'')) (\<lambda>ev.
       bindA (write_evidence ''destroy-0001.json'' ev) (\<lambda>_.
       (let destroyed = destroyed\<lparr>last_reset_evidence_ref_or_null := Some ''evidence/destroy-0001.json''\<rparr> in
        bindA (write_manifest destroyed) (\<lambda>_. ret destroyed)))))))))))) "

section \<open>Seed loading and verification\<close>

record seed_args =
  la_environment_id :: string
  la_scope_class :: "string option"
  la_owner_ref :: "string option"
  la_shard_ref :: "string option"
  la_runtime_profile :: "string option"
  la_seed_profile :: "string option"

definition load_seed_profile :: "lib \<Rightarrow> env_bundle \<Rightarrow> seed_args \<Rightarrow> seed_material cmd" where
  "load_seed_profile l b args =
    bindA (get_state manifest_file) (\<lambda>existing.
    bindA (lift (case existing of
        Some m \<Rightarrow> Inr (env_identity.truncate m)
      | None \<Rightarrow>
          (let given = map (\<lambda>v. or_default v []) [la_scope_class args, la_owner_ref args, la_shard_ref args,
                 la_runtime_profile args, la_seed_profile args]
           in if [] \<in> set given then Inl Missing_Identity_Inputs
              else identity_payload l b (la_environment_id args) (given ! 0) (given ! 1) (given ! 2)
                     (given ! 3) (given ! 4)))) (\<lambda>i.
    bindA (lift (build_seed_material l b i)) (\<lambda>sm.
    bindA (write_seed sm) (\<lambda>_. ret sm))))"

record verify_args =
  va_environment_id :: string
  va_expected_seed_profile_hash :: "string option"
  va_allow_non_ready_state :: bool

definition verify :: "lib \<Rightarrow> env_bundle \<Rightarrow> verify_args \<Rightarrow> cleanliness_report cmd" where
  "verify l b args =
    bindA (load_manifest (va_environment_id args)) (\<lambda>m.
    bindA (lift (case or_default (va_expected_seed_profile_hash args) [] of
        [] \<Rightarrow> compute_seed_profile_hash l b (seed_profile_ref m) | ch # cs \<Rightarrow> Inr (ch # cs))) (\<lambda>expected.
    bindA (lift (evaluate_cleanliness l b m (Some expected) (\<not> va_allow_non_ready_state args))) (\<lambda>report.
    bindA (write_report report) (\<lambda>_.
    if \<not> cl_ok report then lift (Inl Exit_Failed) else ret report))))"

end
