(* ===== verification/Ephemeral_Safety.thy ===== *)
theory Ephemeral_Safety
  imports Ephemeral_Lifecycle
begin

text \<open>
  What the lifecycle commands guarantee together: the directory of an environment, after any sequence of
  commands, completed or aborted, and of activity inside the environment, holds a manifest whose
  chronology is a path of the transition policy. The laws of a policy that the guarantees need are the
  locale \<open>transition_policy\<close>; the shipped policy is its interpretation.
\<close>

section \<open>Histories of a transition policy\<close>

definition legal_history :: "('st \<Rightarrow> 'st \<Rightarrow> 'ph \<Rightarrow> bool) \<Rightarrow> 'st \<Rightarrow> ('st \<times> 'ph) list \<Rightarrow> bool" where
  "legal_history allowed start h \<longleftrightarrow>
    h \<noteq> [] \<and> fst (hd h) = start \<and> successively (\<lambda>x y. allowed (fst x) (fst y) (snd y)) h"

lemma legal_history_snoc:
  "legal_history allowed start h \<Longrightarrow> allowed (fst (last h)) st ph \<Longrightarrow>
    legal_history allowed start (h @ [(st, ph)])"
  by (simp add: legal_history_def successively_append_iff)

lemma legal_history_nth:
  assumes "legal_history allowed start h" and "Suc i < length h"
  shows "allowed (fst (h ! i)) (fst (h ! Suc i)) (snd (h ! Suc i))"
  using assms by (simp add: legal_history_def successively_conv_nth)

locale transition_policy =
  fixes allowed :: "'st \<Rightarrow> 'st \<Rightarrow> 'ph \<Rightarrow> bool"
    and start :: 'st and ready :: 'st and gate :: 'ph and final :: "'st set"
  assumes start_not_ready: "start \<noteq> ready"
    and ready_gate: "allowed st ready ph \<Longrightarrow> ph = gate"
    and final_stuck: "st \<in> final \<Longrightarrow> \<not> allowed st st' ph"
begin

text \<open>The ready state is entered at the gate phase only, and a final state is the last of a history.\<close>

lemma ready_at_gate:
  assumes "legal_history allowed start h" and "i < length h" and "fst (h ! i) = ready"
  shows "snd (h ! i) = gate"
proof (cases i)
  case 0
  have "h \<noteq> []" "fst (hd h) = start" using assms(1) by (simp_all add: legal_history_def)
  then show ?thesis using assms(3) start_not_ready 0 by (simp add: hd_conv_nth)
next
  case (Suc j)
  then show ?thesis using legal_history_nth [OF assms(1), of j] assms(2,3) ready_gate by simp
qed

lemma final_is_last:
  assumes "legal_history allowed start h" and "i < length h" and "fst (h ! i) \<in> final"
  shows "i = length h - 1"
proof (rule ccontr)
  assume "i \<noteq> length h - 1"
  then have "Suc i < length h" using assms(2) by linarith
  then show False using legal_history_nth [OF assms(1)] final_stuck [OF assms(3)] by blast
qed

end

section \<open>The manifest invariant\<close>

definition history :: "chronology_entry list \<Rightarrow> (string \<times> string) list" where
  "history = map (\<lambda>e. (entry_state e, phase_ref e))"

definition manifest_ok :: "env_bundle \<Rightarrow> manifest \<Rightarrow> bool" where
  "manifest_ok b m \<longleftrightarrow>
    legal_history (transition_allowed b) ''REQUESTED'' (history (chronology m)) \<and>
    last (history (chronology m)) = (lifecycle_state m, current_phase_ref m) \<and>
    distinct (completed_phase_refs m) \<and>
    set (completed_phase_refs m) = phase_ref ` {e \<in> set (tl (chronology m)). status e = ''SUCCEEDED''}"

lemma manifest_ok_fields [simp]:
  "manifest_ok b (m\<lparr>seed_material_hash := x\<rparr>) = manifest_ok b m"
  "manifest_ok b (m\<lparr>last_cleanliness_hash_or_null := y\<rparr>) = manifest_ok b m"
  "manifest_ok b (m\<lparr>last_reset_evidence_ref_or_null := y\<rparr>) = manifest_ok b m"
  "manifest_ok b (m\<lparr>resources := rs\<rparr>) = manifest_ok b m"
  "manifest_ok b (m\<lparr>resources := rs, reset_counter := n\<rparr>) = manifest_ok b m"
  by (simp_all add: manifest_ok_def)

lemma transition_manifest_Inr:
  assumes "transition_manifest b m time to phase event outcome = Inr m'"
  shows "transition_allowed b (lifecycle_state m) to phase" and "lifecycle_state m' = to"
    and "resources m' = resources m" and "seed_profile_hash m' = seed_profile_hash m"
    and "seed_profile_ref m' = seed_profile_ref m" and "environment_id m' = environment_id m"
    and "environment_ref m' = environment_ref m"
  using assms by (auto simp: transition_manifest_def split: if_splits)

lemma transition_ok:
  assumes "transition_manifest b m time to phase event outcome = Inr m'" and ok: "manifest_ok b m"
  shows "manifest_ok b m'"
proof -
  let ?e = "\<lparr>entry_at = time, event_ref = event, phase_ref = phase, entry_state = to, status = outcome\<rparr>"
  have allowed: "transition_allowed b (lifecycle_state m) to phase"
    using assms(1) by (rule transition_manifest_Inr(1))
  have m': "m' = m\<lparr>lifecycle_state := to, current_phase_ref := phase,
       completed_phase_refs := (if outcome = ''SUCCEEDED'' \<and> phase \<notin> set (completed_phase_refs m)
         then completed_phase_refs m @ [phase] else completed_phase_refs m),
       chronology := chronology m @ [?e]\<rparr>"
    using assms(1) allowed by (simp add: transition_manifest_def split del: if_split)
  have ne: "chronology m \<noteq> []" using ok by (auto simp: manifest_ok_def legal_history_def history_def)
  have "legal_history (transition_allowed b) ''REQUESTED'' (history (chronology m) @ [(to, phase)])"
    using ok allowed by (intro legal_history_snoc) (auto simp: manifest_ok_def)
  moreover have "tl (chronology m @ [?e]) = tl (chronology m) @ [?e]" using ne by simp
  moreover have "{e \<in> set (tl (chronology m) @ [?e]). status e = ''SUCCEEDED''} =
      (if outcome = ''SUCCEEDED'' then insert ?e {e \<in> set (tl (chronology m)). status e = ''SUCCEEDED''}
       else {e \<in> set (tl (chronology m)). status e = ''SUCCEEDED''})" by auto
  ultimately show ?thesis using ok unfolding m' manifest_ok_def by (auto simp: history_def)
qed

lemma initial_ok: "initial_manifest l b i debug = Inr (m, sm) \<Longrightarrow> manifest_ok b m"
  by (auto simp: initial_manifest_def bindE_eq_Inr_iff manifest_ok_def history_def legal_history_def
      env_identity.defs)

section \<open>Reachable directories\<close>

text \<open>A step is one command, completed or aborted, or activity that changes only the resource state the
  manifest records.\<close>

inductive env_step :: "lib \<Rightarrow> env_bundle \<Rightarrow> env_files \<Rightarrow> env_files \<Rightarrow> bool" for l b where
  bootstrap_step: "bootstrap l b args s = (r, s') \<Longrightarrow> env_step l b s s'"
| reset_step: "reset l b args s = (r, s') \<Longrightarrow> env_step l b s s'"
| destroy_step: "destroy l b args s = (r, s') \<Longrightarrow> env_step l b s s'"
| seed_step: "load_seed_profile l b args s = (r, s') \<Longrightarrow> env_step l b s s'"
| verify_step: "verify l b args s = (r, s') \<Longrightarrow> env_step l b s s'"
| activity: "manifest_file s = Some m \<Longrightarrow> env_step l b s (s\<lparr>manifest_file := Some (m\<lparr>resources := rs\<rparr>)\<rparr>)"

inductive_cases env_stepE: "env_step l b s s'"

definition empty_files :: env_files where
  "empty_files = \<lparr>manifest_file = None, seed_file = None, report_file = None, evidence_files = []\<rparr>"

inductive reachable :: "lib \<Rightarrow> env_bundle \<Rightarrow> env_files \<Rightarrow> bool" for l b where
  start: "reachable l b empty_files"
| step: "reachable l b s \<Longrightarrow> env_step l b s s' \<Longrightarrow> reachable l b s'"

lemma seed_keeps_manifest: "load_seed_profile l b args s = (r, s') \<Longrightarrow> manifest_file s' = manifest_file s"
  by (auto simp: load_seed_profile_def bindA_def write_seed_def split: sum.splits)

lemma verify_keeps_manifest: "verify l b args s = (r, s') \<Longrightarrow> manifest_file s' = manifest_file s"
  by (auto simp: verify_def load_manifest_def bindA_def write_report_def split: sum.splits option.splits if_splits)

section \<open>Every command keeps an invariant of its manifests\<close>

text \<open>The reasoning is the same for every property \<open>I\<close> of manifests that transitions preserve and that does
  not depend on resources, hashes or counters; with \<open>present\<close>, also that the manifest is never removed.\<close>

locale manifest_invariant =
  fixes b :: env_bundle and I :: "manifest \<Rightarrow> bool" and present :: bool
  assumes transition: "transition_manifest b m time to phase event outcome = Inr m' \<Longrightarrow> I m \<Longrightarrow> I m'"
    and seed_hash: "I m \<Longrightarrow> I (m\<lparr>seed_material_hash := x\<rparr>)"
    and cleanliness_hash: "I m \<Longrightarrow> I (m\<lparr>last_cleanliness_hash_or_null := y\<rparr>)"
    and evidence_ref: "I m \<Longrightarrow> I (m\<lparr>last_reset_evidence_ref_or_null := y\<rparr>)"
    and resource_state: "I m \<Longrightarrow> I (m\<lparr>resources := rs\<rparr>)"
    and reset_count: "I m \<Longrightarrow> I (m\<lparr>resources := rs, reset_counter := n\<rparr>)"
begin

definition on_disk :: "env_files \<Rightarrow> bool" where
  "on_disk s \<longleftrightarrow> (\<forall>m. manifest_file s = Some m \<longrightarrow> I m) \<and> (present \<longrightarrow> manifest_file s \<noteq> None)"

lemma keep_write: "I m \<Longrightarrow> ensures on_disk (write_manifest m) (\<lambda>_. True)"
  unfolding write_manifest_def by (rule ensures_modify) (simp_all add: on_disk_def)

lemma keep_seed: "ensures on_disk (write_seed sm) (\<lambda>_. True)"
  unfolding write_seed_def by (rule ensures_modify) (simp_all add: on_disk_def)

lemma keep_report: "ensures on_disk (write_report r) (\<lambda>_. True)"
  unfolding write_report_def by (rule ensures_modify) (simp_all add: on_disk_def)

lemma keep_evidence: "ensures on_disk (write_evidence n ev) (\<lambda>_. True)"
  unfolding write_evidence_def by (rule ensures_modify) (simp_all add: on_disk_def)

lemma keep_cleanup: "ensures on_disk (modify (\<lambda>s. s\<lparr>seed_file := None, report_file := None\<rparr>)) (\<lambda>_. True)"
  by (rule ensures_modify) (simp_all add: on_disk_def)

lemma keep_step: "I m \<Longrightarrow> ensures on_disk (lift (transition_manifest b m t to ph ev out)) I"
  by (rule ensures_lift) (rule transition)

lemma keep_mark: "I m \<Longrightarrow> ensures on_disk (lift (mark_bootstrap_step b m ph ev to out)) I"
  unfolding mark_bootstrap_step_def by (rule keep_step)

lemma keep_any: "ensures on_disk (lift r) (\<lambda>_. True)"
  by (rule ensures_lift) simp

lemma keep_stop: "ensures on_disk (lift (Inl e)) Q"
  by (rule ensures_lift) simp

lemma keep_load: "ensures on_disk (load_manifest i) I"
  unfolding load_manifest_def
proof (rule ensures_bind)
  show "ensures on_disk (get_state manifest_file) (\<lambda>x. \<forall>m. x = Some m \<longrightarrow> I m)"
    by (rule ensures_get) (simp add: on_disk_def)
  show "ensures on_disk (case x of None \<Rightarrow> lift (Inl (Unknown_Environment i)) | Some m \<Rightarrow> ret m) I"
    if "\<forall>m. x = Some m \<longrightarrow> I m" for x
    using that by (cases x) (simp_all add: keep_stop ensures_ret)
qed

lemma keep_apply: "I m \<Longrightarrow> ensures on_disk (lift (apply_reset_scope b m ref)) I"
  by (rule ensures_lift) (auto simp: apply_reset_scope_def bindE_eq_Inr_iff intro: reset_count)

lemma keep_hash: "ensures on_disk (lift (compute_seed_profile_hash l b ref)) (\<lambda>_. True)"
  and keep_eval: "ensures on_disk (lift (evaluate_cleanliness l b m h rq)) (\<lambda>_. True)"
  and keep_material: "ensures on_disk (lift (build_seed_material l b m)) (\<lambda>_. True)"
  and keep_build: "ensures on_disk (lift (build_reset_evidence l b m k evs out ws ref)) (\<lambda>_. True)"
  and keep_scope: "ensures on_disk (lift (reset_scope_row b ref)) (\<lambda>_. True)"
  and keep_target: "ensures on_disk (lift (ensure_ephemeral_manifest l b m i)) (\<lambda>_. True)"
  and keep_default: "ensures on_disk (lift (default_seed_profile b sc)) (\<lambda>_. True)"
  by (rule keep_any)+

lemma keep_ret: "I m \<Longrightarrow> ensures on_disk (ret m) I"
  by (rule ensures_ret)

lemma bind_choice:
  "ensures on_disk m I \<Longrightarrow> ensures on_disk m' I \<Longrightarrow> (\<And>x. I x \<Longrightarrow> ensures on_disk (f x) Q) \<Longrightarrow>
    ensures on_disk (bindA (if c then m else m') f) Q"
  by (rule ensures_bind [where R = I]) simp_all

lemmas keep_binds = ensures_bind [OF keep_write] ensures_bind [OF keep_seed] ensures_bind [OF keep_report]
  ensures_bind [OF keep_evidence] ensures_bind [OF keep_cleanup] ensures_bind [OF keep_step]
  ensures_bind [OF keep_mark] ensures_bind [OF keep_load] ensures_bind [OF keep_apply]
  ensures_bind [OF keep_hash] ensures_bind [OF keep_eval] ensures_bind [OF keep_material]
  ensures_bind [OF keep_build] ensures_bind [OF keep_scope] ensures_bind [OF keep_target]
  ensures_bind [OF keep_default] bind_choice

lemmas keep_rules = keep_binds ensures_if keep_stop keep_ret keep_mark seed_hash cleanliness_hash
  evidence_ref resource_state

lemma keep_halt: "I m \<Longrightarrow> ensures on_disk (maybe_halt_after_phase b m h ph ev) (\<lambda>_. True)"
  unfolding maybe_halt_after_phase_def by (intro keep_rules ensures_ret TrueI)

lemma keep_phase: "I m \<Longrightarrow> ensures on_disk (bootstrap_phase b ph ev m) I"
  unfolding bootstrap_phase_def by (intro keep_rules)

lemma keep_identity_phase: "I m \<Longrightarrow> ensures on_disk (identity_phase b m) I"
  unfolding identity_phase_def by (intro keep_rules)

lemma keep_seed_phase: "I m \<Longrightarrow> ensures on_disk (seed_phase l b sm m) I"
  unfolding seed_phase_def by (intro keep_rules)

lemma keep_verify_phase: "I m \<Longrightarrow> ensures on_disk (verify_phase l b ref m) I"
  unfolding verify_phase_def Let_def by (intro keep_rules)

lemmas phase_binds = ensures_bind [OF keep_identity_phase] ensures_bind [OF keep_phase]
  ensures_bind [OF keep_halt] ensures_bind [OF keep_seed_phase] keep_verify_phase

lemma keep_bootstrap:
  assumes new: "\<And>args ref existing m sm. current_manifest_or_new l b args ref existing = Inr (m, sm) \<Longrightarrow>
      (\<forall>m. existing = Some m \<longrightarrow> I m) \<Longrightarrow> (present \<longrightarrow> existing \<noteq> None) \<Longrightarrow> I m"
  shows "ensures on_disk (bootstrap l b args) I"
proof -
  have get: "ensures on_disk (get_state manifest_file)
      (\<lambda>x. (\<forall>m. x = Some m \<longrightarrow> I m) \<and> (present \<longrightarrow> x \<noteq> None))"
    by (rule ensures_get) (simp add: on_disk_def)
  have current: "ensures on_disk (bindA (lift (current_manifest_or_new l b args ref existing)) (\<lambda>(m, sm). f m sm)) Q"
    if "(\<forall>m. existing = Some m \<longrightarrow> I m) \<and> (present \<longrightarrow> existing \<noteq> None)" and "\<And>m sm. I m \<Longrightarrow> ensures on_disk (f m sm) Q"
    for ref existing f and Q :: "manifest \<Rightarrow> bool"
  proof (rule ensures_bind)
    show "ensures on_disk (lift (current_manifest_or_new l b args ref existing)) (\<lambda>(m, sm). I m)"
      using that(1) new by (intro ensures_lift) auto
  qed (use that(2) in auto)
  show ?thesis
    unfolding bootstrap_def bootstrap_phases_def Let_def
    by (intro ensures_bind [OF keep_default] ensures_bind [OF get] current phase_binds keep_rules)
qed

lemma keep_halt_reset: "I m \<Longrightarrow> ensures on_disk (halt_reset l b args m evs t ev) I"
  unfolding halt_reset_def by (intro keep_rules)

lemma keep_reseed: "I m \<Longrightarrow> ensures on_disk (reseed l b m) I"
  unfolding reseed_def by (intro keep_rules)

lemma keep_finish_reset: "I m \<Longrightarrow> ensures on_disk (finish_reset l b args m evs) I"
  unfolding finish_reset_def Let_def by (intro keep_rules)

lemma keep_reset: "ensures on_disk (reset l b args) I"
  unfolding reset_def Let_def
  by (intro keep_rules keep_halt_reset ensures_bind [OF keep_reseed] keep_finish_reset)

lemma keep_destroy: "ensures on_disk (destroy l b args) I"
  unfolding destroy_def Let_def by (intro keep_rules)

lemma keep_env_step:
  assumes boot: "\<And>l args. ensures on_disk (bootstrap l b args) I"
    and step: "env_step l b s s'" and ok: "on_disk s"
  shows "on_disk s'"
  using step
proof cases
  case (seed_step args r)
  then show ?thesis using ok seed_keeps_manifest by (metis on_disk_def)
next
  case (verify_step args r)
  then show ?thesis using ok verify_keeps_manifest by (metis on_disk_def)
next
  case (activity m rs)
  then show ?thesis using ok resource_state by (simp add: on_disk_def)
qed (use ok in \<open>auto dest: ensuresD [OF boot] ensuresD [OF keep_reset] ensuresD [OF keep_destroy]\<close>)

end

section \<open>The chronology of a reachable manifest\<close>

lemma current_manifest_Inr:
  assumes "current_manifest_or_new l b args ref existing = Inr (m, sm)"
  shows "existing = Some m \<or> (existing = None \<and> (\<exists>i. initial_manifest l b i (ba_debug_retention_active args) = Inr (m, sm)))"
  using assms by (auto simp: current_manifest_or_new_def bindE_eq_Inr_iff split: option.splits)

interpretation legal: manifest_invariant b "manifest_ok b" False for b
  by unfold_locales (auto intro: transition_ok)

lemma legal_bootstrap: "ensures (legal.on_disk b) (bootstrap l b args) (manifest_ok b)"
proof (rule legal.keep_bootstrap)
  fix args ref existing m sm
  assume "current_manifest_or_new l b args ref existing = Inr (m, sm)" and "\<forall>m. existing = Some m \<longrightarrow> manifest_ok b m"
  then show "manifest_ok b m" using current_manifest_Inr initial_ok by blast
qed

lemma env_step_ok: "env_step l b s s' \<Longrightarrow> legal.on_disk b s \<Longrightarrow> legal.on_disk b s'"
  by (rule legal.keep_env_step [OF legal_bootstrap])

lemma reachable_on_disk: "reachable l b s \<Longrightarrow> legal.on_disk b s"
proof (induction rule: reachable.induct)
  case start
  show ?case by (simp add: legal.on_disk_def empty_files_def)
next
  case (step s s')
  from step.hyps(2) step.IH show ?case by (rule env_step_ok)
qed

lemma reachable_ok: "reachable l b s \<Longrightarrow> manifest_file s = Some m \<Longrightarrow> manifest_ok b m"
  using reachable_on_disk [of l b s] by (simp add: legal.on_disk_def)

text \<open>C16: whatever commands ran on an environment, completed or aborted, its manifest on disk has a
  chronology that starts with the request and follows the transition policy step by step, ends in the
  lifecycle state and phase the manifest claims, and records as completed exactly the phases that
  succeeded in it.\<close>

theorem reachable_manifest_follows_policy:
  assumes "reachable l b s" and "manifest_file s = Some m"
  shows "legal_history (transition_allowed b) ''REQUESTED'' (history (chronology m)) \<and>
    last (history (chronology m)) = (lifecycle_state m, current_phase_ref m) \<and>
    distinct (completed_phase_refs m) \<and>
    set (completed_phase_refs m) = phase_ref ` {e \<in> set (tl (chronology m)). status e = ''SUCCEEDED''}"
  using reachable_ok [OF assms] by (simp add: manifest_ok_def)

section \<open>Ready means clean\<close>

lemma code_if_Nil [simp]: "code_if c s = [] \<longleftrightarrow> \<not> c"
  by (simp add: code_if_def)

lemma cleanliness_ok_iff:
  assumes "evaluate_cleanliness l b m expected req = Inr rep"
    and "compute_seed_profile_hash l b (seed_profile_ref m) = Inr h"
  shows "cl_ok rep \<longleftrightarrow> (req \<longrightarrow> lifecycle_state m = ''READY'') \<and> target_failures l b m = [] \<and>
    resource_failures (resources m) = [] \<and>
    seed_profile_hash m = (case expected of None \<Rightarrow> h | Some x \<Rightarrow> x)"
  using assms by (auto simp: evaluate_cleanliness_def Let_def)

lemma cleanliness_defined:
  "compute_seed_profile_hash l b (seed_profile_ref m) = Inr h \<Longrightarrow>
    \<exists>rep. evaluate_cleanliness l b m expected req = Inr rep"
  by (simp add: evaluate_cleanliness_def Let_def)

text \<open>The cleanliness of a manifest on its own: what the verification command checks of it.\<close>

definition clean :: "lib \<Rightarrow> env_bundle \<Rightarrow> manifest \<Rightarrow> bool" where
  "clean l b m \<longleftrightarrow> lifecycle_state m = ''READY'' \<and> target_failures l b m = [] \<and>
     resource_failures (resources m) = [] \<and>
     compute_seed_profile_hash l b (seed_profile_ref m) = Inr (seed_profile_hash m)"

lemma target_failures_cong:
  "environment_id m' = environment_id m \<Longrightarrow> environment_ref m' = environment_ref m \<Longrightarrow>
    target_failures l b m' = target_failures l b m"
  by (simp add: target_failures_def ensure_ephemeral_manifest_def)

lemma clean_after_gate:
  assumes "compute_seed_profile_hash l b (seed_profile_ref m) = Inr h"
    and "evaluate_cleanliness l b m (Some h) False = Inr rep" and "cl_ok rep"
    and "transition_manifest b m t ''READY'' ph ev out = Inr m'"
  shows "clean l b (m'\<lparr>last_cleanliness_hash_or_null := x\<rparr>)"
    and "clean l b (m'\<lparr>last_cleanliness_hash_or_null := x, last_reset_evidence_ref_or_null := y\<rparr>)"
proof -
  note new = transition_manifest_Inr [OF assms(4)]
  have "target_failures l b (m'\<lparr>last_cleanliness_hash_or_null := x\<rparr>) = target_failures l b m"
    and "target_failures l b (m'\<lparr>last_cleanliness_hash_or_null := x, last_reset_evidence_ref_or_null := y\<rparr>)
      = target_failures l b m"
    by (rule target_failures_cong; simp add: new)+
  then show "clean l b (m'\<lparr>last_cleanliness_hash_or_null := x\<rparr>)"
    and "clean l b (m'\<lparr>last_cleanliness_hash_or_null := x, last_reset_evidence_ref_or_null := y\<rparr>)"
    using new assms(1,3) cleanliness_ok_iff [OF assms(2,1)] by (simp_all add: clean_def)
qed

lemma yields_written: "Q m \<Longrightarrow> yields (bindA (write_manifest m) (\<lambda>_. ret m)) (\<lambda>x s. Q x \<and> manifest_file s = Some x)"
  by (auto simp: yields_def bindA_Inr write_manifest_def)

lemma verify_phase_clean:
  assumes "seed_profile_ref m = ref"
  shows "yields (verify_phase l b ref m) (\<lambda>x s. clean l b x \<and> manifest_file s = Some x)"
  unfolding verify_phase_def Let_def
proof (rule yields_lift_bind, rule yields_lift_bind, rule yields_then, rule yields_if)
  fix h rep assume "compute_seed_profile_hash l b ref = Inr h" "evaluate_cleanliness l b m (Some h) False = Inr rep"
    and "\<not> \<not> cl_ok rep"
  then show "yields (bindA (lift (mark_bootstrap_step b m ''CLEANLINESS_VERIFY'' ''environment.cleanliness-verified''
      ''READY'' ''SUCCEEDED'')) (\<lambda>ready. bindA (write_manifest (ready\<lparr>last_cleanliness_hash_or_null := Some (cl_hash rep)\<rparr>))
      (\<lambda>_. ret (ready\<lparr>last_cleanliness_hash_or_null := Some (cl_hash rep)\<rparr>))))
      (\<lambda>x s. clean l b x \<and> manifest_file s = Some x)"
    using assms unfolding mark_bootstrap_step_def
    by (intro yields_lift_bind yields_written clean_after_gate(1)) simp_all
qed (intro yields_then yields_stop)

lemma finish_reset_clean:
  "yields (finish_reset l b args m events) (\<lambda>x s. clean l b x \<and> manifest_file s = Some x)"
  unfolding finish_reset_def Let_def
  by (rule yields_lift_bind, rule yields_lift_bind, rule yields_then, rule yields_if)
    (intro yields_then yields_stop, intro yields_lift_bind yields_then yields_written clean_after_gate(2), simp_all)

lemma reset_clean: "yields (reset l b args) (\<lambda>x s. clean l b x \<and> manifest_file s = Some x)"
  unfolding reset_def halt_reset_def Let_def
  by (intro yields_then yields_if yields_stop finish_reset_clean)

lemma mark_seed: "mark_bootstrap_step b m ph ev to out = Inr m' \<Longrightarrow> seed_profile_ref m' = seed_profile_ref m"
  unfolding mark_bootstrap_step_def by (rule transition_manifest_Inr(5))

lemma bootstrap_phase_seed: "yields (bootstrap_phase b ph ev m) (\<lambda>x _. seed_profile_ref x = seed_profile_ref m)"
  unfolding bootstrap_phase_def
  by (rule yields_bind [where R = "\<lambda>x. seed_profile_ref x = seed_profile_ref m"])
    (auto intro!: yields_if yields_then yields_ret yields_lift mark_seed)

lemma identity_phase_seed: "yields (identity_phase b m) (\<lambda>x _. seed_profile_ref x = seed_profile_ref m)"
  unfolding identity_phase_def
  by (rule yields_bind [where R = "\<lambda>x. seed_profile_ref x = seed_profile_ref m"])
    (auto intro!: yields_if yields_then yields_ret yields_lift mark_seed)

lemma seed_phase_seed: "yields (seed_phase l b sm m) (\<lambda>x _. seed_profile_ref x = seed_profile_ref m)"
  unfolding seed_phase_def
  by (rule yields_bind [where R = "\<lambda>x. seed_profile_ref x = seed_profile_ref m"])
    (auto intro!: yields_if yields_then yields_ret yields_lift dest: mark_seed)

lemma initial_manifest_fields:
  "initial_manifest l b i debug = Inr (m, sm) \<Longrightarrow> lifecycle_state m = ''REQUESTED'' \<and> seed_profile_ref m = seed_profile_ref i"
  by (auto simp: initial_manifest_def bindE_eq_Inr_iff env_identity.defs)

lemma identity_payload_seed: "identity_payload l b a c d e f g = Inr i \<Longrightarrow> seed_profile_ref i = g"
  by (auto simp: identity_payload_def bindE_eq_Inr_iff Let_def)

lemma current_manifest_seed:
  "current_manifest_or_new l b args ref existing = Inr (m, sm) \<Longrightarrow> seed_profile_ref m = ref"
  by (auto simp: current_manifest_or_new_def bindE_eq_Inr_iff require_equal_def split: option.splits if_splits
      dest!: identity_payload_seed initial_manifest_fields)

lemma bootstrap_clean:
  assumes run: "bootstrap l b args s = (Inr m', s')"
    and fresh: "\<And>m. manifest_file s = Some m \<Longrightarrow> lifecycle_state m \<noteq> ''READY''"
  shows "clean l b m' \<and> manifest_file s' = Some m'"
proof -
  obtain d where d: "default_seed_profile b (ba_scope_class args) = Inr d"
    using run by (auto simp: bootstrap_def bindA_Inr)
  define ref where "ref = or_default (ba_seed_profile args) d"
  obtain m sm where m: "current_manifest_or_new l b args ref (manifest_file s) = Inr (m, sm)"
    using run d by (auto simp: bootstrap_def bindA_Inr Let_def ref_def)
  have not_ready: "lifecycle_state m \<noteq> ''READY''"
    using current_manifest_Inr [OF m] fresh by (auto dest: initial_manifest_fields)
  have seed: "seed_profile_ref m = ref" using m by (rule current_manifest_seed)
  have "yields (bootstrap_phases l b args ref m sm) (\<lambda>x s. clean l b x \<and> manifest_file s = Some x)"
    unfolding bootstrap_phases_def
    using seed by (intro yields_bind [OF identity_phase_seed] yields_bind [OF bootstrap_phase_seed]
        yields_bind [OF seed_phase_seed] yields_then verify_phase_clean) simp
  moreover have "bootstrap_phases l b args ref m sm s = (Inr m', s')"
    using run d m not_ready by (simp add: bootstrap_def Let_def ref_def bindA_def [of "get_state manifest_file"])
  ultimately show ?thesis by (rule yieldsD)
qed

text \<open>C11: an environment is made ready only when it is clean: after a successful reset, and after a
  successful bootstrap of an environment that was not ready before, the manifest on disk is ready, is a
  valid ephemeral target, has no residual resources, and has the seed hash of the current profile.\<close>

theorem ready_environment_is_clean:
  assumes "reset l b rargs s = (Inr m', s') \<or> bootstrap l b bargs s = (Inr m', s') \<and>
      (\<forall>m. manifest_file s = Some m \<longrightarrow> lifecycle_state m \<noteq> ''READY'')"
  shows "manifest_file s' = Some m' \<and> clean l b m'"
  using assms yieldsD [OF reset_clean] bootstrap_clean by metis

end
