(* ===== verification/Ephemeral_Shipped.thy ===== *)
theory Ephemeral_Shipped
  imports Ephemeral_Safety
begin

text \<open>
  The policy files of the repository as values of the model (\<open>infra/test/*.json\<close> and
  \<open>config/runtime/local/local_seed_profiles.json\<close>), the laws their
  transition rows satisfy, and what follows for the environments.
\<close>

section \<open>The shipped policy\<close>

definition row :: "string \<Rightarrow> string \<Rightarrow> string \<Rightarrow> transition_row" where
  "row st st' ph = \<lparr>from_state = st, to_state = st', allowed_phase_ref = ph\<rparr>"

definition shipped_transitions :: "transition_row list" where
  "shipped_transitions =
    [row ''REQUESTED'' ''BOOTSTRAPPING'' ''IDENTITY_LOCK'',
     row ''BOOTSTRAPPING'' ''BOOTSTRAPPING'' ''RUNTIME_HEALTH_GATE'',
     row ''BOOTSTRAPPING'' ''BOOTSTRAPPING'' ''NAMESPACE_PROVISION'',
     row ''BOOTSTRAPPING'' ''BOOTSTRAPPING'' ''MIGRATION_BASIS'',
     row ''BOOTSTRAPPING'' ''BOOTSTRAPPING'' ''SEED_LOAD'',
     row ''BOOTSTRAPPING'' ''READY'' ''CLEANLINESS_VERIFY'',
     row ''BOOTSTRAPPING'' ''HALTED'' ''MIGRATION_BASIS'',
     row ''BOOTSTRAPPING'' ''HALTED'' ''SEED_LOAD'',
     row ''READY'' ''RESETTING'' ''IDENTITY_LOCK'',
     row ''RESETTING'' ''RESETTING'' ''NAMESPACE_PROVISION'',
     row ''RESETTING'' ''RESETTING'' ''SEED_LOAD'',
     row ''RESETTING'' ''READY'' ''CLEANLINESS_VERIFY'',
     row ''RESETTING'' ''HALTED'' ''RUNTIME_HEALTH_GATE'',
     row ''HALTED'' ''BOOTSTRAPPING'' ''IDENTITY_LOCK'',
     row ''HALTED'' ''RESETTING'' ''IDENTITY_LOCK'',
     row ''READY'' ''DESTROY_PENDING'' ''IDENTITY_LOCK'',
     row ''HALTED'' ''DESTROY_PENDING'' ''IDENTITY_LOCK'',
     row ''DESTROY_PENDING'' ''DESTROYED'' ''DESTROY_CLEANUP'',
     row ''BOOTSTRAPPING'' ''FAILED'' ''CLEANLINESS_VERIFY'',
     row ''RESETTING'' ''FAILED'' ''CLEANLINESS_VERIFY'',
     row ''DESTROY_PENDING'' ''HALTED'' ''DESTROY_CLEANUP'']"

definition shipped_scopes :: "scope_class list" where
  "shipped_scopes =
    [\<lparr>sc_ref = ''CI_RUN_SHARD'', sc_environment_ref = ''env_ci_ephemeral_validation'',
       sc_owner_ref_pattern = ''^ci'' @ [CHR 0x5C] @ ''.[a-z0-9._-]+$'',
       sc_default_seed_profile_ref = ''PROFILE_GOLDEN_PACK_ONLY''\<rparr>,
     \<lparr>sc_ref = ''PREVIEW_REVIEW_SHARD'', sc_environment_ref = ''env_ephemeral_review_preview'',
       sc_owner_ref_pattern = ''^preview'' @ [CHR 0x5C] @ ''.[a-z0-9._-]+$'',
       sc_default_seed_profile_ref = ''PROFILE_GOLDEN_PACK_ONLY''\<rparr>,
     \<lparr>sc_ref = ''LOCAL_HIGH_FIDELITY_SHARD'', sc_environment_ref = ''env_local_authoring'',
       sc_owner_ref_pattern = ''^local'' @ [CHR 0x5C] @ ''.[a-z0-9._-]+$'',
       sc_default_seed_profile_ref = ''PROFILE_DETERMINISTIC_BASELINE''\<rparr>]"

definition shipped_reset_scopes :: "reset_scope list" where
  "shipped_reset_scopes =
      [\<lparr>rsc_ref = ''FAST_DISPOSABLE_REUSE'', rsc_reseed_required = False,
          rsc_touched = [''QUEUE_NAMESPACE_SET'', ''DLQ_NAMESPACE_SET'', ''CACHE_NAMESPACE_SET'', ''PROJECTION_NAMESPACE_SET'', ''STREAM_CURSOR_SET'', ''WORKER_LEASE_SET'']\<rparr>,
       \<lparr>rsc_ref = ''FULL_TEST_ISOLATION'', rsc_reseed_required = True,
          rsc_touched = [''CONTROL_SCHEMA'', ''AUDIT_SCHEMA'', ''OBJECT_PREFIX_STAGING'', ''OBJECT_PREFIX_QUARANTINE'', ''OBJECT_PREFIX_DERIVED'', ''QUEUE_NAMESPACE_SET'', ''DLQ_NAMESPACE_SET'', ''CACHE_NAMESPACE_SET'', ''PROJECTION_NAMESPACE_SET'', ''STREAM_CURSOR_SET'', ''UPLOAD_SESSION_SET'', ''WORKER_LEASE_SET'', ''AUDIT_STREAM_SET'']\<rparr>]"

definition shipped_resources :: "(string \<times> string) list" where
  "shipped_resources =
      [(''CONTROL_SCHEMA'', ''schema.control.${namespace_hash}''),
       (''AUDIT_SCHEMA'', ''schema.audit.${namespace_hash}''),
       (''OBJECT_PREFIX_STAGING'', ''object.ephemeral/${environment_id}/staging''),
       (''OBJECT_PREFIX_QUARANTINE'', ''object.ephemeral/${environment_id}/quarantine''),
       (''OBJECT_PREFIX_DERIVED'', ''object.ephemeral/${environment_id}/derived''),
       (''QUEUE_NAMESPACE_SET'', ''queue.ephemeral.${namespace_hash}.stage-work''),
       (''DLQ_NAMESPACE_SET'', ''dlq.ephemeral.${namespace_hash}.stage-work''),
       (''CACHE_NAMESPACE_SET'', ''cache.ephemeral.${namespace_hash}.workspace''),
       (''PROJECTION_NAMESPACE_SET'', ''projection.ephemeral.${namespace_hash}''),
       (''STREAM_CURSOR_SET'', ''cursor.ephemeral.${namespace_hash}''),
       (''UPLOAD_SESSION_SET'', ''upload.ephemeral.${namespace_hash}''),
       (''WORKER_LEASE_SET'', ''worker-lease.ephemeral.${namespace_hash}''),
       (''AUDIT_STREAM_SET'', ''audit.ephemeral.${namespace_hash}''),
       (''RESET_EVIDENCE_ARTIFACT'', ''evidence/${environment_id}'')]"

definition smoke_contracts :: "string list" where
  "smoke_contracts = [''SEALED_COMMAND_PATH'', ''QUEUE_RETRY_PATH'', ''OBJECT_WRITE_PATH'', ''CACHE_REUSE_PATH'',
     ''AUDIT_APPEND_PATH'']"

definition golden_pack_fixtures :: "string list" where
  "golden_pack_fixtures = [''module.compute-result.emb-01'', ''transition.amendment.emb-06'', ''replay.exact.emb-01'',
     ''replay.counterfactual.emb-10'', ''cadence.retry.emb-02'', ''cadence.reconciliation.emb-08'']"

definition shipped_seed_profiles :: "seed_profile list" where
  "shipped_seed_profiles =
    [\<lparr>sp_ref = ''PROFILE_DETERMINISTIC_BASELINE'', sp_environment_ref = ''env_local_authoring'',
       sp_embodiment_refs = [''EMB-01'', ''EMB-02'', ''EMB-06'', ''EMB-08'', ''EMB-10'', ''EMB-12''],
       sp_required_fixture_ids = golden_pack_fixtures, sp_smoke_contract_refs = smoke_contracts,
       sp_deterministic_seed_refs = [''seed.synthetic.golden-pack-root.v1'', ''seed.synthetic.taxat-quarterly-local.v1'']\<rparr>,
     \<lparr>sp_ref = ''PROFILE_GOLDEN_PACK_ONLY'', sp_environment_ref = ''env_local_authoring'',
       sp_embodiment_refs = [''EMB-01'', ''EMB-02'', ''EMB-06'', ''EMB-08'', ''EMB-10''],
       sp_required_fixture_ids = golden_pack_fixtures, sp_smoke_contract_refs = smoke_contracts,
       sp_deterministic_seed_refs = [''seed.synthetic.golden-pack-root.v1'']\<rparr>,
     \<lparr>sp_ref = ''PROFILE_LOCAL_PROVISIONING_SANDBOX'', sp_environment_ref = ''env_local_provisioning_workstation'',
       sp_embodiment_refs = [''EMB-01'', ''EMB-08'', ''EMB-10'', ''EMB-12''],
       sp_required_fixture_ids = [''module.compute-result.emb-01'', ''replay.counterfactual.emb-10'',
         ''cadence.reconciliation.emb-08''], sp_smoke_contract_refs = smoke_contracts,
       sp_deterministic_seed_refs = [''seed.synthetic.golden-pack-root.v1'',
         ''seed.synthetic.local-provisioning-sandbox.v1'']\<rparr>]"

definition shipped_bundle :: env_bundle where
  "shipped_bundle = \<lparr>catalog_id = ''ephemeral_environment_catalog'',
     environment_id_pattern = ''^env-ephemeral-[a-z0-9]+(?:-[a-z0-9]+)*$'', namespace_hash_length = 12,
     scope_classes = shipped_scopes, resource_templates = shipped_resources,
     lifecycle_policy_id = ''ephemeral_environment_lifecycle_policy'', transition_rows = shipped_transitions,
     reset_policy_id = ''ephemeral_reset_scope_policy'', reset_scopes = shipped_reset_scopes,
     evidence_required = evidence_keys, seed_profiles = shipped_seed_profiles,
     topology_id = ''taxat_local_runtime_topology'', schema_bundle_hash = ''95b977085cc49325a17ae82e81d2e151f57d228682a538b3e3191e9c2d218b7d'', golden_pack_hash = ''383a2ee89be62d54080b35f550c58bb05701744a3d372c59768f8af5219f2d40''\<rparr>"

abbreviation final_states :: "string set" where
  "final_states \<equiv> {''FAILED'', ''DESTROYED''}"

lemma shipped_ready_gate: "transition_allowed shipped_bundle st ''READY'' ph \<Longrightarrow> ph = ''CLEANLINESS_VERIFY''"
  by (auto simp: transition_allowed_def shipped_bundle_def shipped_transitions_def row_def)

lemma shipped_final: "st \<in> final_states \<Longrightarrow> \<not> transition_allowed shipped_bundle st st' ph"
  by (auto simp: transition_allowed_def shipped_bundle_def shipped_transitions_def row_def)

interpretation shipped: transition_policy "transition_allowed shipped_bundle" "''REQUESTED''" "''READY''"
  "''CLEANLINESS_VERIFY''" final_states
  by unfold_locales (simp, rule shipped_ready_gate, assumption, rule shipped_final, assumption)

text \<open>Under the shipped policy, whatever commands ran, an environment becomes ready only at the
  cleanliness gate, and once it is failed or destroyed its chronology ends.\<close>

lemma ready_only_at_the_gate:
  assumes "reachable l shipped_bundle s" and "manifest_file s = Some m" and "i < length (chronology m)"
  shows "(entry_state (chronology m ! i) = ''READY'' \<longrightarrow> phase_ref (chronology m ! i) = ''CLEANLINESS_VERIFY'') \<and>
    (entry_state (chronology m ! i) \<in> final_states \<longrightarrow> i = length (chronology m) - 1)"
proof -
  have legal: "legal_history (transition_allowed shipped_bundle) ''REQUESTED'' (history (chronology m))"
    using reachable_ok [OF assms(1,2)] by (simp add: manifest_ok_def)
  have i: "i < length (history (chronology m))"
    "history (chronology m) ! i = (entry_state (chronology m ! i), phase_ref (chronology m ! i))"
    "length (history (chronology m)) = length (chronology m)"
    using assms(3) by (simp_all add: history_def)
  show ?thesis using shipped.ready_at_gate [OF legal i(1)] shipped.final_is_last [OF legal i(1)] i(2,3) by simp
qed

section \<open>A failed environment is stuck\<close>

interpretation stuck: manifest_invariant shipped_bundle "\<lambda>m. lifecycle_state m = ''FAILED''" True
proof
  fix m time to phase event outcome m'
  assume "transition_manifest shipped_bundle m time to phase event outcome = Inr m'" "lifecycle_state m = ''FAILED''"
  then show "lifecycle_state m' = ''FAILED''"
    using transition_manifest_Inr(1) [of shipped_bundle m time to phase event outcome m'] shipped_final by simp
qed simp_all

lemma stuck_bootstrap: "ensures stuck.on_disk (bootstrap l shipped_bundle args) (\<lambda>m. lifecycle_state m = ''FAILED'')"
proof (rule stuck.keep_bootstrap)
  fix args ref existing m sm
  assume "current_manifest_or_new l shipped_bundle args ref existing = Inr (m, sm)"
    and "\<forall>m. existing = Some m \<longrightarrow> lifecycle_state m = ''FAILED''" and "True \<longrightarrow> existing \<noteq> None"
  then show "lifecycle_state m = ''FAILED''" using current_manifest_Inr by blast
qed

text \<open>C35: once a bootstrap or reset has left an environment failed, no sequence of commands and activity
  changes that: it can be neither bootstrapped again nor reset nor destroyed.\<close>

theorem failed_environment_is_stuck:
  assumes "(env_step l shipped_bundle)\<^sup>*\<^sup>* s s'" and "manifest_file s = Some m"
    and "lifecycle_state m = ''FAILED''"
  shows "\<exists>m'. manifest_file s' = Some m' \<and> lifecycle_state m' = ''FAILED''"
proof -
  have "stuck.on_disk s'"
    using assms(1)
  proof (induction rule: rtranclp_induct)
    case base
    show ?case using assms(2,3) by (simp add: stuck.on_disk_def)
  next
    case (step s1 s2)
    show ?case by (rule stuck.keep_env_step [OF stuck_bootstrap step.hyps(2) step.IH])
  qed
  then show ?thesis by (auto simp: stuck.on_disk_def)
qed

section \<open>A fast reset after a halted bootstrap\<close>

text \<open>The manifest after an allowed transition.\<close>

definition moved :: "string \<Rightarrow> string \<Rightarrow> string \<Rightarrow> string \<Rightarrow> string \<Rightarrow> manifest \<Rightarrow> manifest" where
  "moved time to phase event outcome m = m\<lparr>lifecycle_state := to, current_phase_ref := phase,
     completed_phase_refs := (if outcome = ''SUCCEEDED'' \<and> phase \<notin> set (completed_phase_refs m)
       then completed_phase_refs m @ [phase] else completed_phase_refs m),
     chronology := chronology m @ [\<lparr>entry_at = time, event_ref = event, phase_ref = phase,
       entry_state = to, status = outcome\<rparr>]\<rparr>"

lemma moved_fields [simp]:
  "lifecycle_state (moved t to ph ev out m) = to" "resources (moved t to ph ev out m) = resources m"
  "seed_profile_ref (moved t to ph ev out m) = seed_profile_ref m"
  "seed_profile_hash (moved t to ph ev out m) = seed_profile_hash m"
  "environment_id (moved t to ph ev out m) = environment_id m"
  "environment_ref (moved t to ph ev out m) = environment_ref m"
  "set (completed_phase_refs (moved t to ph ev out m)) =
    (if out = ''SUCCEEDED'' then insert ph (set (completed_phase_refs m)) else set (completed_phase_refs m))"
  by (auto simp: moved_def)

lemma shipped_move:
  assumes "row (lifecycle_state m) to ph \<in> set shipped_transitions"
  shows "transition_manifest shipped_bundle m t to ph ev out = Inr (moved t to ph ev out m)"
proof -
  have "transition_allowed shipped_bundle (lifecycle_state m) to ph"
    unfolding transition_allowed_def
    by (rule bexI [of _ "row (lifecycle_state m) to ph"]) (use assms in \<open>simp_all add: row_def shipped_bundle_def\<close>)
  then show ?thesis by (simp add: transition_manifest_def moved_def)
qed

text \<open>A manifest that is a valid target, has no residue and the seed hash of the current profile, in whatever state.\<close>

definition spotless :: "lib \<Rightarrow> string \<Rightarrow> manifest \<Rightarrow> bool" where
  "spotless l env_id m \<longleftrightarrow> ensure_ephemeral_manifest l shipped_bundle m env_id = Inr () \<and>
     resource_failures (resources m) = [] \<and>
     compute_seed_profile_hash l shipped_bundle (seed_profile_ref m) = Inr (seed_profile_hash m)"

lemma spotless_moved [simp]: "spotless l i (moved t to ph ev out m) = spotless l i m"
  by (simp add: spotless_def ensure_ephemeral_manifest_def)

lemma spotless_fields [simp]:
  "spotless l i (m\<lparr>last_cleanliness_hash_or_null := x\<rparr>) = spotless l i m"
  "spotless l i (m\<lparr>last_reset_evidence_ref_or_null := y\<rparr>) = spotless l i m"
  by (simp_all add: spotless_def ensure_ephemeral_manifest_def)

lemma spotless_target: "spotless l i m \<Longrightarrow> target_failures l shipped_bundle m = []"
  by (auto simp: spotless_def target_failures_def ensure_ephemeral_manifest_def bindE_eq_Inr_iff split: if_splits)

lemma spotless_report:
  assumes "spotless l i m" and "req \<longrightarrow> lifecycle_state m = ''READY''"
  shows "\<exists>rep. evaluate_cleanliness l shipped_bundle m (Some (seed_profile_hash m)) req = Inr rep \<and> cl_ok rep"
proof -
  have h: "compute_seed_profile_hash l shipped_bundle (seed_profile_ref m) = Inr (seed_profile_hash m)"
    using assms(1) by (simp add: spotless_def)
  obtain rep where rep: "evaluate_cleanliness l shipped_bundle m (Some (seed_profile_hash m)) req = Inr rep"
    using cleanliness_defined [OF h] by blast
  then show ?thesis
    using cleanliness_ok_iff [OF rep h] assms spotless_target [OF assms(1)] by (simp add: spotless_def)
qed

lemma shipped_evidence:
  assumes "spotless l i m" and "lifecycle_state m = ''READY''"
  shows "\<exists>ev. build_reset_evidence l shipped_bundle m ''RESET'' events outcome warnings scope = Inr ev"
proof -
  obtain rep where rep: "evaluate_cleanliness l shipped_bundle m (Some (seed_profile_hash m)) True = Inr rep"
    using spotless_report [OF assms(1), of True] assms(2) by blast
  have "find (\<lambda>k. k \<notin> set evidence_keys) (evidence_required shipped_bundle) = None"
    by (simp add: find_None_iff shipped_bundle_def)
  then show ?thesis using rep by (simp add: build_reset_evidence_def Let_def validate_reset_evidence_def)
qed

text \<open>The manifest a bootstrap starts from when there is none is spotless.\<close>

lemma zero_counts: "\<forall>p \<in> set c. snd p = (0::int) \<Longrightarrow> \<forall>p \<in> set (fold (\<lambda>k cs. AList.update k 0 cs) ks c). snd p = 0"
proof (induction ks arbitrary: c)
  case (Cons k ks)
  have "\<forall>p \<in> set (AList.update k 0 c). snd p = 0"
    using Cons.prems by (induction c) auto
  then show ?case using Cons.IH by simp
qed simp

lemma zero_total: "\<forall>p \<in> set c. snd p = (0::int) \<Longrightarrow> sum_list (map snd c) = 0"
  by (induction c) auto

lemma initial_spotless:
  assumes "current_manifest_or_new l shipped_bundle args ref None = Inr (m, sm)"
  shows "spotless l (ba_environment_id args) m \<and> lifecycle_state m = ''REQUESTED'' \<and> completed_phase_refs m = []"
proof -
  obtain i where i: "identity_payload l shipped_bundle (ba_environment_id args) (ba_scope_class args) (ba_owner_ref args)
      (ba_shard_ref args) (ba_runtime_profile args) ref = Inr i"
    and m: "initial_manifest l shipped_bundle i (ba_debug_retention_active args) = Inr (m, sm)"
    using assms by (auto simp: current_manifest_or_new_def bindE_eq_Inr_iff)
  have "ensure_ephemeral_environment_id l shipped_bundle (ba_environment_id args) = Inr ()"
    and id: "environment_id i = ba_environment_id args" "environment_ref i \<in> sc_environment_ref ` set (scope_classes shipped_bundle)"
    using i by (auto simp: identity_payload_def bindE_eq_Inr_iff Let_def scope_row_def find_row_def find_Some_iff
        split: option.splits)
  moreover have "environment_id m = environment_id i" "environment_ref m = environment_ref i"
    "seed_profile_ref m = seed_profile_ref i" "lifecycle_state m = ''REQUESTED''" "completed_phase_refs m = []"
    using m by (auto simp: initial_manifest_def bindE_eq_Inr_iff env_identity.defs)
  moreover have "compute_seed_profile_hash l shipped_bundle (seed_profile_ref i) = Inr (seed_profile_hash m)"
    using m by (auto simp: initial_manifest_def build_seed_material_def bindE_eq_Inr_iff env_identity.defs Let_def)
  moreover have "resource_failures (resources m) = []"
  proof -
    have res: "resources m = \<lparr>queue_available = True, cache_available = True, object_storage_available = True,
        control_store_available = True, audit_store_available = True, active_worker_leases = 0, queue_message_count = 0,
        cache_key_count = 0, projection_count = 0, stream_cursor_count = 0, upload_session_count = 0,
        control_schema_row_count = int (length (sm_required_fixture_ids sm)), audit_schema_row_count = 1,
        object_prefix_object_counts = fold (\<lambda>prefix counts. AList.update prefix 0 counts) (object_prefix_refs (m_namespaces m)) [],
        last_reset_scope_ref_or_null = None, debug_retention_active = ba_debug_retention_active args\<rparr>"
      using m by (auto simp: initial_manifest_def bindE_eq_Inr_iff env_identity.defs)
    have "object_total (resources m) = 0"
      using zero_counts [of "[]" "object_prefix_refs (m_namespaces m)"] unfolding object_total_def res by (simp add: zero_total)
    then show ?thesis by (simp add: resource_failures_def res)
  qed
  ultimately show ?thesis by (simp add: spotless_def ensure_ephemeral_manifest_def)
qed

text \<open>A bootstrap that halts without a manifest of its own before leaves one that lacks the seed phase.\<close>

lemma halting_error:
  assumes "maybe_halt_after_phase shipped_bundle m (Some ''MIGRATION_BASIS'') ''MIGRATION_BASIS'' ev s = (r, s')"
    and "lifecycle_state m = ''BOOTSTRAPPING''"
  shows "r = Inl Exit_Halted \<and> s' = s\<lparr>manifest_file := Some (moved (phase_clock ''MIGRATION_BASIS'') ''HALTED'' ''MIGRATION_BASIS'' ev ''HALTED'' m)\<rparr>"
proof -
  have "row (lifecycle_state m) ''HALTED'' ''MIGRATION_BASIS'' \<in> set shipped_transitions"
    using assms(2) by (simp add: shipped_transitions_def)
  then show ?thesis
    using assms(1) by (simp add: maybe_halt_after_phase_def mark_bootstrap_step_def shipped_move bindA_def write_manifest_def)
qed

lemma phase_runs:
  assumes "row ''BOOTSTRAPPING'' ''BOOTSTRAPPING'' ph \<in> set shipped_transitions" and "lifecycle_state m = ''BOOTSTRAPPING''"
    and "ph \<notin> set (completed_phase_refs m)"
  shows "bootstrap_phase shipped_bundle ph ev m s =
    (let m' = moved (phase_clock ph) ''BOOTSTRAPPING'' ph ev ''SUCCEEDED'' m in (Inr m', s\<lparr>manifest_file := Some m'\<rparr>))"
proof -
  have "transition_manifest shipped_bundle m (phase_clock ph) ''BOOTSTRAPPING'' ph ev ''SUCCEEDED'' =
      Inr (moved (phase_clock ph) ''BOOTSTRAPPING'' ph ev ''SUCCEEDED'' m)"
    using assms(1,2) by (intro shipped_move) simp
  then show ?thesis
    using assms(3) by (simp add: bootstrap_phase_def mark_bootstrap_step_def bindA_def write_manifest_def Let_def)
qed

lemma identity_runs:
  assumes "lifecycle_state m = ''REQUESTED''"
  shows "identity_phase shipped_bundle m s = (let m' = moved (phase_clock ''IDENTITY_LOCK'') ''BOOTSTRAPPING'' ''IDENTITY_LOCK''
    ''environment.identity-locked'' ''SUCCEEDED'' m in (Inr m', s\<lparr>manifest_file := Some m'\<rparr>))"
proof -
  have "row (lifecycle_state m) ''BOOTSTRAPPING'' ''IDENTITY_LOCK'' \<in> set shipped_transitions"
    using assms by (simp add: shipped_transitions_def)
  then show ?thesis
    using assms by (simp add: identity_phase_def mark_bootstrap_step_def shipped_move bindA_def write_manifest_def Let_def)
qed

lemma halted_phases:
  assumes "lifecycle_state m = ''REQUESTED''" and "completed_phase_refs m = []"
    and "spotless l i m" and "ba_halt_after_phase args = Some ''MIGRATION_BASIS''"
  shows "\<exists>m'. bootstrap_phases l shipped_bundle args ref m sm s = (Inl Exit_Halted, s\<lparr>manifest_file := Some m'\<rparr>) \<and>
    spotless l i m' \<and> lifecycle_state m' = ''HALTED'' \<and>
    set (completed_phase_refs m') = {''IDENTITY_LOCK'', ''RUNTIME_HEALTH_GATE'', ''NAMESPACE_PROVISION'', ''MIGRATION_BASIS''}"
proof -
  let ?step = "\<lambda>ph ev. moved (phase_clock ph) ''BOOTSTRAPPING'' ph ev ''SUCCEEDED''"
  define m1 where "m1 = ?step ''IDENTITY_LOCK'' ''environment.identity-locked'' m"
  define m2 where "m2 = ?step ''RUNTIME_HEALTH_GATE'' ''environment.runtime-health-gated'' m1"
  define m3 where "m3 = ?step ''NAMESPACE_PROVISION'' ''environment.namespaces-provisioned'' m2"
  define m4 where "m4 = ?step ''MIGRATION_BASIS'' ''environment.migration-basis-recorded'' m3"
  have c: "set (completed_phase_refs m1) = {''IDENTITY_LOCK''}" "lifecycle_state m1 = ''BOOTSTRAPPING''"
    "set (completed_phase_refs m2) = {''RUNTIME_HEALTH_GATE'', ''IDENTITY_LOCK''}" "lifecycle_state m2 = ''BOOTSTRAPPING''"
    "set (completed_phase_refs m3) = {''NAMESPACE_PROVISION'', ''RUNTIME_HEALTH_GATE'', ''IDENTITY_LOCK''}"
    "lifecycle_state m3 = ''BOOTSTRAPPING''" "lifecycle_state m4 = ''BOOTSTRAPPING''"
    by (simp_all add: m1_def m2_def m3_def m4_def assms(2))
  have rows: "row ''BOOTSTRAPPING'' ''BOOTSTRAPPING'' ph \<in> set shipped_transitions"
    if "ph \<in> {''RUNTIME_HEALTH_GATE'', ''NAMESPACE_PROVISION'', ''MIGRATION_BASIS''}" for ph
    using that by (auto simp: shipped_transitions_def)
  have run: "identity_phase shipped_bundle m s0 = (Inr m1, s0\<lparr>manifest_file := Some m1\<rparr>)"
    "bootstrap_phase shipped_bundle ''RUNTIME_HEALTH_GATE'' ''environment.runtime-health-gated'' m1 s0 = (Inr m2, s0\<lparr>manifest_file := Some m2\<rparr>)"
    "bootstrap_phase shipped_bundle ''NAMESPACE_PROVISION'' ''environment.namespaces-provisioned'' m2 s0 = (Inr m3, s0\<lparr>manifest_file := Some m3\<rparr>)"
    "bootstrap_phase shipped_bundle ''MIGRATION_BASIS'' ''environment.migration-basis-recorded'' m3 s0 = (Inr m4, s0\<lparr>manifest_file := Some m4\<rparr>)"
    for s0
    by (simp_all add: identity_runs phase_runs rows c assms(1) Let_def m1_def [symmetric] m2_def [symmetric] m3_def [symmetric] m4_def [symmetric])
  define m5 where "m5 = moved (phase_clock ''MIGRATION_BASIS'') ''HALTED'' ''MIGRATION_BASIS'' ''migration_basis.halted'' ''HALTED'' m4"
  have halt: "maybe_halt_after_phase shipped_bundle m4 (Some ''MIGRATION_BASIS'') ''MIGRATION_BASIS'' ''migration_basis.halted'' s0 =
      (Inl Exit_Halted, s0\<lparr>manifest_file := Some m5\<rparr>)" for s0
    using halting_error [OF surjective_pairing c(7), of "''migration_basis.halted''" s0] by (simp add: m5_def prod_eq_iff)
  have "bootstrap_phases l shipped_bundle args ref m sm s = (Inl Exit_Halted, s\<lparr>manifest_file := Some m5\<rparr>)"
    unfolding bootstrap_phases_def assms(4) by (simp add: bindA_def run halt)
  moreover have "spotless l i m5" by (simp add: m5_def m4_def m3_def m2_def m1_def assms(3))
  ultimately show ?thesis using c(5) by (intro exI [of _ m5]) (auto simp: m5_def m4_def)
qed

lemma mapE_Inl: "mapE f xs = Inl e \<Longrightarrow> \<exists>x \<in> set xs. f x = Inl e"
  by (induction xs) (auto simp: bindE_eq_Inl_iff)

lemma row_errors:
  "scope_row b ref = Inl e \<Longrightarrow> e \<noteq> Exit_Halted" "seed_profile_row b ref = Inl e \<Longrightarrow> e \<noteq> Exit_Halted"
  "compute_seed_profile_hash l b ref = Inl e \<Longrightarrow> e \<noteq> Exit_Halted"
  by (auto simp: scope_row_def seed_profile_row_def compute_seed_profile_hash_def find_row_def bindE_eq_Inl_iff split: option.splits)

lemma new_manifest_errors:
  assumes "current_manifest_or_new l b args ref None = Inl e"
  shows "e \<noteq> Exit_Halted"
proof -
  have "identity_payload l b i sc ow sh rt sd = Inl e \<Longrightarrow> e \<noteq> Exit_Halted" for i sc ow sh rt sd
    by (auto simp: identity_payload_def bindE_eq_Inl_iff Let_def ensure_ephemeral_environment_id_def ensure_owner_ref_def
        dest: row_errors split: if_splits)
  moreover have "derive_namespaces b i = Inl e \<Longrightarrow> e \<noteq> Exit_Halted" for i :: env_identity
    by (auto simp: derive_namespaces_def bindE_eq_Inl_iff resource_def simp del: mapE.simps dest!: mapE_Inl split: option.splits)
  moreover have "build_seed_material l b i = Inl e \<Longrightarrow> e \<noteq> Exit_Halted" for i :: env_identity
    by (auto simp: build_seed_material_def bindE_eq_Inl_iff Let_def dest: row_errors)
  ultimately show ?thesis
    using assms unfolding current_manifest_or_new_def initial_manifest_def by (auto simp: bindE_eq_Inl_iff)
qed

lemma halted_bootstrap:
  assumes "manifest_file s = None" and "ba_halt_after_phase args = Some ''MIGRATION_BASIS''"
    and "bootstrap l shipped_bundle args s = (Inl Exit_Halted, s')"
  shows "\<exists>m. s' = s\<lparr>manifest_file := Some m\<rparr> \<and> spotless l (ba_environment_id args) m \<and> lifecycle_state m = ''HALTED'' \<and>
    set (completed_phase_refs m) = {''IDENTITY_LOCK'', ''RUNTIME_HEALTH_GATE'', ''NAMESPACE_PROVISION'', ''MIGRATION_BASIS''}"
proof (cases "default_seed_profile shipped_bundle (ba_scope_class args)")
  case (Inl e)
  then have "e \<noteq> Exit_Halted" by (auto simp: default_seed_profile_def split: option.splits)
  then show ?thesis using assms(3) Inl by (simp add: bootstrap_def bindA_def)
next
  case (Inr d)
  define ref where "ref = or_default (ba_seed_profile args) d"
  show ?thesis
  proof (cases "current_manifest_or_new l shipped_bundle args ref None")
    case (Inl e)
    then show ?thesis using assms(1,3) Inr new_manifest_errors [OF Inl] by (simp add: bootstrap_def bindA_def ref_def Let_def)
  next
    case new: (Inr x)
    obtain m sm where x: "x = (m, sm)" by (rule prod.exhaust)
    note fresh = initial_spotless [OF new [unfolded x]]
    have "bootstrap_phases l shipped_bundle args ref m sm s = (Inl Exit_Halted, s')"
      using assms(1,3) Inr new x fresh by (simp add: bootstrap_def bindA_def ref_def Let_def)
    then show ?thesis using halted_phases [of m l "ba_environment_id args" args ref sm s] fresh assms(2) by auto
  qed
qed

text \<open>The fast reset succeeds on a spotless ready or halted environment, and does not look at the seed phase.\<close>

definition fast_reset :: "string \<Rightarrow> bool \<Rightarrow> reset_args" where
  "fast_reset env_id fence =
    \<lparr>ra_environment_id = env_id, ra_reset_scope = ''FAST_DISPOSABLE_REUSE'', ra_force_fence_workers = fence\<rparr>"

lemma fast_scope:
  "reset_scope_row shipped_bundle ''FAST_DISPOSABLE_REUSE'' = Inr (hd shipped_reset_scopes)"
  "rsc_reseed_required (hd shipped_reset_scopes) = False"
  by (simp_all add: reset_scope_row_def find_row_def shipped_bundle_def shipped_reset_scopes_def)

lemma fast_purge:
  assumes "spotless l i m"
  shows "\<exists>m'. apply_reset_scope shipped_bundle m ''FAST_DISPOSABLE_REUSE'' = Inr m' \<and> spotless l i m' \<and>
    lifecycle_state m' = lifecycle_state m \<and> completed_phase_refs m' = completed_phase_refs m"
proof -
  let ?m = "m\<lparr>resources := (touched_reset_state m (rsc_touched (hd shipped_reset_scopes)))
      \<lparr>last_reset_scope_ref_or_null := Some ''FAST_DISPOSABLE_REUSE''\<rparr>, reset_counter := reset_counter m + 1\<rparr>"
  have "resource_failures (resources ?m) = []"
    using assms by (simp add: spotless_def resource_failures_def object_total_def touched_reset_state_def Let_def
        shipped_reset_scopes_def touch_def)
  then have "spotless l i ?m" using assms by (simp add: spotless_def ensure_ephemeral_manifest_def split del: if_split cong: if_cong)
  then show ?thesis by (simp add: apply_reset_scope_def fast_scope)
qed

lemma finish_reset_spotless:
  assumes "spotless l i m" and "lifecycle_state m = ''RESETTING''"
  shows "\<exists>m' s'. finish_reset l shipped_bundle args m events s = (Inr m', s') \<and> manifest_file s' = Some m' \<and>
    lifecycle_state m' = ''READY'' \<and> seed_file s' = seed_file s \<and>
    set (completed_phase_refs m') = insert ''CLEANLINESS_VERIFY'' (set (completed_phase_refs m))"
proof -
  have h: "compute_seed_profile_hash l shipped_bundle (seed_profile_ref m) = Inr (seed_profile_hash m)"
    using assms(1) by (simp add: spotless_def)
  obtain rep where rep: "evaluate_cleanliness l shipped_bundle m (Some (seed_profile_hash m)) False = Inr rep" "cl_ok rep"
    using spotless_report [OF assms(1), of False] by blast
  define m1 where "m1 = (moved ''2026-04-23T02:00:50Z'' ''READY'' ''CLEANLINESS_VERIFY'' ''reset.cleanliness-verified'' ''SUCCEEDED'' m)
    \<lparr>last_cleanliness_hash_or_null := Some (cl_hash rep)\<rparr>"
  have "row (lifecycle_state m) ''READY'' ''CLEANLINESS_VERIFY'' \<in> set shipped_transitions"
    using assms(2) by (simp add: shipped_transitions_def)
  note move = shipped_move [OF this, of "''2026-04-23T02:00:50Z''" "''reset.cleanliness-verified''" "''SUCCEEDED''"]
  have m1: "spotless l i m1" "lifecycle_state m1 = ''READY''"
    "set (completed_phase_refs m1) = insert ''CLEANLINESS_VERIFY'' (set (completed_phase_refs m))"
    using assms(1) by (simp_all add: m1_def)
  obtain ev where ev: "build_reset_evidence l shipped_bundle m1 ''RESET''
      (events @ [reset_event ''2026-04-23T02:00:50Z'' ''reset.cleanliness-verified'' ''SUCCEEDED''])
      ''SUCCEEDED'' (cl_warning_codes rep) (ra_reset_scope args) = Inr ev"
    using shipped_evidence [OF m1(1,2)] by blast
  show ?thesis
    using m1(2,3) by (simp add: finish_reset_def h rep move m1_def [symmetric] Let_def ev bindA_def write_report_def
        write_evidence_def write_manifest_def)
qed

lemma fast_reset_runs:
  assumes "manifest_file s = Some m" and "spotless l i m" and "lifecycle_state m \<in> {''READY'', ''HALTED''}"
  shows "\<exists>m' s'. reset l shipped_bundle (fast_reset i fence) s = (Inr m', s') \<and> manifest_file s' = Some m' \<and>
    lifecycle_state m' = ''READY'' \<and> seed_file s' = seed_file s \<and>
    set (completed_phase_refs m') =
      {''IDENTITY_LOCK'', ''NAMESPACE_PROVISION'', ''CLEANLINESS_VERIFY''} \<union> set (completed_phase_refs m)"
proof -
  define m1 where "m1 = moved ''2026-04-23T02:00:00Z'' ''RESETTING'' ''IDENTITY_LOCK'' ''reset.identity-locked'' ''SUCCEEDED'' m"
  define m2 where "m2 = moved ''2026-04-23T02:00:20Z'' ''RESETTING'' ''NAMESPACE_PROVISION'' ''reset.namespaces-recreated'' ''SUCCEEDED'' m1"
  have "row (lifecycle_state m) ''RESETTING'' ''IDENTITY_LOCK'' \<in> set shipped_transitions"
    using assms(3) by (auto simp: shipped_transitions_def)
  then have step1: "transition_manifest shipped_bundle m ''2026-04-23T02:00:00Z'' ''RESETTING'' ''IDENTITY_LOCK''
      ''reset.identity-locked'' ''SUCCEEDED'' = Inr m1" unfolding m1_def by (rule shipped_move)
  have "row (lifecycle_state m1) ''RESETTING'' ''NAMESPACE_PROVISION'' \<in> set shipped_transitions"
    by (simp add: m1_def shipped_transitions_def)
  then have step2: "transition_manifest shipped_bundle m1 ''2026-04-23T02:00:20Z'' ''RESETTING'' ''NAMESPACE_PROVISION''
      ''reset.namespaces-recreated'' ''SUCCEEDED'' = Inr m2" unfolding m2_def by (rule shipped_move)
  have "spotless l i m2" using assms(2) by (simp add: m1_def m2_def)
  then obtain m3 where m3: "apply_reset_scope shipped_bundle m2 ''FAST_DISPOSABLE_REUSE'' = Inr m3" "spotless l i m3"
    "lifecycle_state m3 = lifecycle_state m2" "completed_phase_refs m3 = completed_phase_refs m2"
    using fast_purge by blast
  have target: "ensure_ephemeral_manifest l shipped_bundle m i = Inr ()" using assms(2) by (simp add: spotless_def)
  have res: "queue_available (resources m1)" "cache_available (resources m1)" "active_worker_leases (resources m1) = 0"
    using assms(2) by (simp_all add: m1_def spotless_def resource_failures_def)
  let ?events = "[reset_event ''2026-04-23T02:00:00Z'' ''reset.identity-locked'' ''SUCCEEDED'',
    reset_event ''2026-04-23T02:00:20Z'' ''reset.namespaces-recreated'' ''SUCCEEDED'']"
  have "reset l shipped_bundle (fast_reset i fence) s =
      finish_reset l shipped_bundle (fast_reset i fence) m3 ?events (s\<lparr>manifest_file := Some m3\<rparr>)"
    using assms(1) by (simp add: reset_def fast_reset_def load_manifest_def target fast_scope step1 step2 m3(1) res Let_def
        bindA_def write_manifest_def)
  moreover have "lifecycle_state m3 = ''RESETTING''"
    "set (completed_phase_refs m3) = {''IDENTITY_LOCK'', ''NAMESPACE_PROVISION''} \<union> set (completed_phase_refs m)"
    using m3(3,4) by (auto simp: m1_def m2_def)
  ultimately show ?thesis
    using finish_reset_spotless [OF m3(2), of "fast_reset i fence" ?events "s\<lparr>manifest_file := Some m3\<rparr>"] by auto
qed

text \<open>C39: an environment can become ready without its seed material. Under the shipped policy, whatever the arguments:
  when a bootstrap of an environment that has neither a manifest nor seed material halts after the migration basis, the fast
  reset of that environment, which does not load seeds, succeeds; the environment is then ready and passes every cleanliness
  check, although there is no seed material and the seed phase was never completed.\<close>

theorem fast_reset_skips_seed_load:
  assumes "manifest_file s = None" and "seed_file s = None" and "ba_halt_after_phase args = Some ''MIGRATION_BASIS''"
    and "bootstrap l shipped_bundle args s = (Inl Exit_Halted, s1)"
    and "reset l shipped_bundle (fast_reset (ba_environment_id args) fence) s1 = (r, s2)"
  shows "\<exists>m. r = Inr m \<and> manifest_file s2 = Some m \<and> lifecycle_state m = ''READY'' \<and> clean l shipped_bundle m \<and>
    seed_file s2 = None \<and> ''SEED_LOAD'' \<notin> set (completed_phase_refs m)"
proof -
  obtain m where m: "s1 = s\<lparr>manifest_file := Some m\<rparr>" "spotless l (ba_environment_id args) m" "lifecycle_state m = ''HALTED''"
    "set (completed_phase_refs m) = {''IDENTITY_LOCK'', ''RUNTIME_HEALTH_GATE'', ''NAMESPACE_PROVISION'', ''MIGRATION_BASIS''}"
    using halted_bootstrap [OF assms(1,3,4)] by blast
  obtain m' where m': "r = Inr m'" "manifest_file s2 = Some m'" "lifecycle_state m' = ''READY''" "seed_file s2 = seed_file s1"
    "set (completed_phase_refs m') =
      {''IDENTITY_LOCK'', ''NAMESPACE_PROVISION'', ''CLEANLINESS_VERIFY''} \<union> set (completed_phase_refs m)"
    using fast_reset_runs [of s1 m l "ba_environment_id args" fence] m assms(5) by auto
  moreover have "clean l shipped_bundle m'" using yieldsD [OF reset_clean assms(5) [unfolded m'(1)]] by blast
  ultimately show ?thesis using m assms(2) by auto
qed

section \<open>Concrete runs\<close>

definition test_lib :: lib where
  "test_lib = \<lparr>fullmatch = (\<lambda>pat s. True), sha256 = (\<lambda>p. ''0123456789abcdef'')\<rparr>"

definition ci_args :: "string option \<Rightarrow> bootstrap_args" where
  "ci_args halt = \<lparr>ba_environment_id = ''env-ephemeral-ci-1'', ba_scope_class = ''CI_RUN_SHARD'',
     ba_owner_ref = ''ci.run.1'', ba_shard_ref = ''shard-a'', ba_runtime_profile = ''local'',
     ba_seed_profile = None, ba_halt_after_phase = halt, ba_debug_retention_active = False\<rparr>"

definition ci_reset :: "string \<Rightarrow> reset_args" where
  "ci_reset scope = \<lparr>ra_environment_id = ''env-ephemeral-ci-1'', ra_reset_scope = scope, ra_force_fence_workers = False\<rparr>"

definition boot_halted :: env_files where
  "boot_halted = snd (bootstrap test_lib shipped_bundle (ci_args (Some ''MIGRATION_BASIS'')) empty_files)"

definition after_fast_reset :: env_files where
  "after_fast_reset = snd (reset test_lib shipped_bundle (fast_reset ''env-ephemeral-ci-1'' False) boot_halted)"

definition booted :: env_files where
  "booted = snd (bootstrap test_lib shipped_bundle (ci_args None) empty_files)"

text \<open>A ready environment in which a queue has filled up.\<close>

definition used :: "manifest \<Rightarrow> manifest" where
  "used m = m\<lparr>resources := (resources m)\<lparr>queue_message_count := 5\<rparr>\<rparr>"

definition dirty :: env_files where
  "dirty = booted\<lparr>manifest_file := map_option used (manifest_file booted)\<rparr>"

lemma booted_reachable: "reachable test_lib shipped_bundle booted"
  unfolding booted_def
  by (rule reachable.step [OF reachable.start]) (rule bootstrap_step, rule surjective_pairing)

text \<open>Bootstrapping an environment that is ready but dirty succeeds, although the report it writes says
  that the environment is not clean.\<close>

lemma ready_bootstrap_ignores_residue:
  "case bootstrap test_lib shipped_bundle (ci_args None) dirty of
     (Inl e, s') \<Rightarrow> False
   | (Inr m, s') \<Rightarrow> lifecycle_state m = ''READY'' \<and>
       (case report_file s' of None \<Rightarrow> False | Some rep \<Rightarrow> \<not> cl_ok rep)"
  by code_simp

section \<open>Witnesses\<close>

definition booted_manifest :: manifest where
  "booted_manifest = the (manifest_file booted)"

lemma booted_value: "(case manifest_file booted of None \<Rightarrow> False | Some m \<Rightarrow> lifecycle_state m = ''READY'')"
  by code_simp

lemma booted_some: "manifest_file booted = Some booted_manifest"
  using booted_value by (cases "manifest_file booted") (simp_all add: booted_manifest_def)

theorem reachable_manifest_follows_policy_witness:
  "last (history (chronology booted_manifest)) = (lifecycle_state booted_manifest, current_phase_ref booted_manifest)"
  using reachable_manifest_follows_policy [OF booted_reachable booted_some] by blast

lemma booted_run: "\<exists>m'. bootstrap test_lib shipped_bundle (ci_args None) empty_files = (Inr m', booted)"
proof -
  have "case fst (bootstrap test_lib shipped_bundle (ci_args None) empty_files) of Inl e \<Rightarrow> False | Inr m \<Rightarrow> True"
    by code_simp
  then show ?thesis
    by (cases "bootstrap test_lib shipped_bundle (ci_args None) empty_files")
      (auto simp: booted_def split: sum.splits)
qed

theorem ready_environment_is_clean_witness:
  "\<exists>m'. manifest_file booted = Some m' \<and> clean test_lib shipped_bundle m'"
proof -
  obtain m' where "bootstrap test_lib shipped_bundle (ci_args None) empty_files = (Inr m', booted)"
    using booted_run by blast
  moreover have "\<forall>m. manifest_file empty_files = Some m \<longrightarrow> lifecycle_state m \<noteq> ''READY''"
    by (simp add: empty_files_def)
  ultimately show ?thesis using ready_environment_is_clean by blast
qed

lemma boot_halted_run:
  "bootstrap test_lib shipped_bundle (ci_args (Some ''MIGRATION_BASIS'')) empty_files = (Inl Exit_Halted, boot_halted)"
proof -
  have "case fst (bootstrap test_lib shipped_bundle (ci_args (Some ''MIGRATION_BASIS'')) empty_files) of
      Inl Exit_Halted \<Rightarrow> True | _ \<Rightarrow> False"
    by code_simp
  then show ?thesis by (simp add: boot_halted_def prod_eq_iff split: sum.splits env_error.splits)
qed

theorem fast_reset_skips_seed_load_witness:
  "\<exists>m. manifest_file after_fast_reset = Some m \<and> lifecycle_state m = ''READY'' \<and> clean test_lib shipped_bundle m \<and>
    seed_file after_fast_reset = None \<and> ''SEED_LOAD'' \<notin> set (completed_phase_refs m)"
proof -
  have "manifest_file empty_files = None" "seed_file empty_files = None" by (simp_all add: empty_files_def)
  moreover have "ba_halt_after_phase (ci_args (Some ''MIGRATION_BASIS'')) = Some ''MIGRATION_BASIS''"
    and id: "ba_environment_id (ci_args (Some ''MIGRATION_BASIS'')) = ''env-ephemeral-ci-1''" by (simp_all add: ci_args_def)
  moreover obtain r where "reset test_lib shipped_bundle (fast_reset ''env-ephemeral-ci-1'' False) boot_halted = (r, after_fast_reset)"
    unfolding after_fast_reset_def by (metis surjective_pairing)
  ultimately show ?thesis using fast_reset_skips_seed_load [OF _ _ _ boot_halted_run, unfolded id] by blast
qed

text \<open>A reset that fails at the gate because an upload session is left.\<close>

definition stale :: "manifest \<Rightarrow> manifest" where
  "stale m = m\<lparr>resources := (resources m)\<lparr>upload_session_count := 1\<rparr>\<rparr>"

definition failed_files :: env_files where
  "failed_files = snd (reset test_lib shipped_bundle (ci_reset ''FAST_DISPOSABLE_REUSE'')
     (booted\<lparr>manifest_file := map_option stale (manifest_file booted)\<rparr>))"

lemma failed_value: "(case manifest_file failed_files of None \<Rightarrow> False | Some m \<Rightarrow> lifecycle_state m = ''FAILED'')"
  by code_simp

theorem failed_environment_is_stuck_witness:
  "\<exists>m'. manifest_file (snd (destroy test_lib shipped_bundle
      \<lparr>da_environment_id = ''env-ephemeral-ci-1'', da_override_debug_retention = True\<rparr> failed_files)) = Some m' \<and>
    lifecycle_state m' = ''FAILED''"
proof -
  obtain m where m: "manifest_file failed_files = Some m" "lifecycle_state m = ''FAILED''"
    using failed_value by (cases "manifest_file failed_files") simp_all
  have "env_step test_lib shipped_bundle failed_files (snd (destroy test_lib shipped_bundle
      \<lparr>da_environment_id = ''env-ephemeral-ci-1'', da_override_debug_retention = True\<rparr> failed_files))"
    by (rule destroy_step) (rule surjective_pairing)
  then show ?thesis using failed_environment_is_stuck [OF r_into_rtranclp m] by blast
qed

end
