(* ===== verification/Execution_Dag.thy ===== *)
theory Execution_Dag
  imports Dependency_Order "HOL-Library.AList" "HOL-Library.While_Combinator" "HOL-Library.Product_Lexorder"
    "HOL-Library.List_Lexorder" "HOL-Library.Char_ord"
begin

text \<open>
  The graph algorithms of \<open>tools/analysis/build_agent_execution_dag.py\<close>: contiguous blocks, hard edges,
  the deduplicated graph, the cycle check (Kahn's algorithm), levels, the critical path and the
  eligibility snapshot. The tasks and the non-protocol rules are arguments here; \<open>Dag_Checklist\<close> reads the
  tasks and \<open>Dag_Rules\<close> holds the table of rules. Rationales and citations are left out.
\<close>

record dag_task =
  task_id :: string
  slug :: string
  task_status :: string
  order_index :: nat
  phase :: nat
  protocol_mode :: string
  wave_id :: "string option"
  track :: "string option"
  block_id :: string

record block =
  blk_id :: string
  blk_mode :: string
  blk_phase :: nat
  blk_wave :: "string option"
  blk_tasks :: "string list"

record edge =
  source_task_id :: string
  target_task_id :: string
  edge_class :: string
  rule_id :: string

record rule =
  rule_source :: string
  rule_targets :: "string list"
  rule_class :: string
  rule_name :: string

datatype dag_error =
    Unknown_Task string | Non_Forward_Edge string string string | Graph_Contradiction "string list" | Empty_Graph

definition ordered_unique :: "string list \<Rightarrow> string list" where
  "ordered_unique values = fold (\<lambda>v result. if v \<in> set result then result else result @ [v]) values []"

section \<open>Blocks\<close>

definition open_block :: "dag_task \<Rightarrow> block" where
  "open_block t = \<lparr>blk_id = block_id t, blk_mode = protocol_mode t, blk_phase = phase t, blk_wave = wave_id t,
     blk_tasks = [task_id t]\<rparr>"

text \<open>The loop with its current block, \<open>None\<close> before the first task.\<close>

fun blocks_loop :: "block list \<Rightarrow> block option \<Rightarrow> dag_task list \<Rightarrow> block list" where
  "blocks_loop blocks None [] = blocks"
| "blocks_loop blocks (Some current) [] = blocks @ [current]"
| "blocks_loop blocks None (t # ts) = blocks_loop blocks (Some (open_block t)) ts"
| "blocks_loop blocks (Some current) (t # ts) =
    (if block_id t \<noteq> blk_id current then blocks_loop (blocks @ [current]) (Some (open_block t)) ts
     else blocks_loop blocks (Some (current\<lparr>blk_tasks := blk_tasks current @ [task_id t]\<rparr>)) ts)"

definition build_blocks :: "dag_task list \<Rightarrow> block list" where
  "build_blocks tasks = blocks_loop [] None tasks"

section \<open>Edges\<close>

definition task_lookup :: "dag_task list \<Rightarrow> string \<rightharpoonup> dag_task" where
  "task_lookup tasks = map_of (rev (map (\<lambda>t. (task_id t, t)) tasks))"

definition edge_key :: "edge \<Rightarrow> string" where
  "edge_key e = source_task_id e @ ''__'' @ target_task_id e @ ''__'' @ edge_class e @ ''__'' @ rule_id e"

type_synonym edge_store = "(string \<times> edge) list"

definition add_edge :: "dag_task list \<Rightarrow> edge_store \<Rightarrow> edge \<Rightarrow> dag_error + edge_store" where
  "add_edge tasks store e =
    (if source_task_id e = target_task_id e then Inr store
     else case task_lookup tasks (source_task_id e) of
        None \<Rightarrow> Inl (Unknown_Task (source_task_id e))
      | Some source_task \<Rightarrow> (case task_lookup tasks (target_task_id e) of
          None \<Rightarrow> Inl (Unknown_Task (target_task_id e))
        | Some target_task \<Rightarrow>
            if order_index source_task \<ge> order_index target_task
              then Inl (Non_Forward_Edge (edge_class e) (source_task_id e) (target_task_id e))
            else Inr (AList.update (edge_key e) e store)))"

definition boundary_edges :: "block \<times> block \<Rightarrow> edge list" where
  "boundary_edges bb = (case bb of (previous_block, next_block) \<Rightarrow>
     concat (map (\<lambda>src. map (\<lambda>tgt. \<lparr>source_task_id = src, target_task_id = tgt, edge_class = ''PROTOCOL_HARD'',
       rule_id = ''protocol_boundary__'' @ blk_id previous_block @ ''__'' @ blk_id next_block\<rparr>)
       (blk_tasks next_block)) (blk_tasks previous_block)))"

definition build_protocol_edges :: "dag_task list \<Rightarrow> block list \<Rightarrow> dag_error + edge_store" where
  "build_protocol_edges tasks blocks =
    foldE (add_edge tasks) [] (concat (map boundary_edges (zip blocks (tl blocks))))"

definition rule_edges :: "rule \<Rightarrow> edge list" where
  "rule_edges r = map (\<lambda>tgt. \<lparr>source_task_id = rule_source r, target_task_id = tgt, edge_class = rule_class r,
     rule_id = rule_name r\<rparr>) (ordered_unique (rule_targets r))"

definition index_of :: "dag_task list \<Rightarrow> string \<Rightarrow> nat" where
  "index_of tasks ref = (case task_lookup tasks ref of None \<Rightarrow> 0 | Some t \<Rightarrow> order_index t)"

definition build_hard_edges :: "dag_task list \<Rightarrow> rule list \<Rightarrow> block list \<Rightarrow> dag_error + edge_store" where
  "build_hard_edges tasks rules blocks =
    bindE (build_protocol_edges tasks blocks) (\<lambda>edges.
    bindE (foldE (add_edge tasks) edges (concat (map rule_edges rules))) (\<lambda>edges.
    Inr (sort_key (\<lambda>(_, e). (index_of tasks (target_task_id e), index_of tasks (source_task_id e),
      edge_class e, rule_id e)) edges)))"

section \<open>The graph\<close>

definition edge_pairs :: "edge_store \<Rightarrow> (string \<times> string) list" where
  "edge_pairs edges = remdups (map (\<lambda>(_, e). (source_task_id e, target_task_id e)) edges)"

text \<open>The pairs in the order in which the code appends them; a task id of an edge is always one of the
  tasks, so that \<open>task_ids.index\<close> is its position.\<close>

definition sorted_pairs :: "dag_task list \<Rightarrow> edge_store \<Rightarrow> (string \<times> string) list" where
  "sorted_pairs tasks edges =
    (let ids = map task_id tasks in sort_key (\<lambda>p. (position ids (snd p), position ids (fst p))) (edge_pairs edges))"

definition successors :: "dag_task list \<Rightarrow> edge_store \<Rightarrow> string \<Rightarrow> string list" where
  "successors tasks edges ref = ordered_unique (map snd (filter (\<lambda>p. fst p = ref) (sorted_pairs tasks edges)))"

definition predecessors :: "dag_task list \<Rightarrow> edge_store \<Rightarrow> string \<Rightarrow> string list" where
  "predecessors tasks edges ref = ordered_unique (map fst (filter (\<lambda>p. snd p = ref) (sorted_pairs tasks edges)))"

section \<open>The cycle check\<close>

type_synonym kahn_state = "(string \<Rightarrow> int) \<times> string list \<times> string list"

definition release :: "string \<Rightarrow> (string \<Rightarrow> int) \<times> string list \<Rightarrow> (string \<Rightarrow> int) \<times> string list" where
  "release follower s = (case s of (indegree, ready) \<Rightarrow>
     (let degree = indegree follower - 1
      in (indegree(follower := degree), if degree = 0 then ready @ [follower] else ready)))"

definition kahn_step :: "(string \<Rightarrow> string list) \<Rightarrow> kahn_state \<Rightarrow> kahn_state" where
  "kahn_step succs s = (case s of (indegree, ready, ordered) \<Rightarrow>
     (let current = hd ready; (indegree', ready') = fold release (succs current) (indegree, tl ready)
      in (indegree', ready', ordered @ [current])))"

definition kahn_start :: "string list \<Rightarrow> (string \<Rightarrow> string list) \<Rightarrow> kahn_state" where
  "kahn_start ids preds =
    (let indegree = (\<lambda>x. if x \<in> set ids then int (length (preds x)) else 0)
     in (indegree, filter (\<lambda>x. indegree x = 0) ids, []))"

text \<open>\<open>None\<close> is a loop that does not end.\<close>

definition assert_acyclic ::
  "string list \<Rightarrow> (string \<Rightarrow> string list) \<Rightarrow> (string \<Rightarrow> string list) \<Rightarrow> (dag_error + unit) option" where
  "assert_acyclic ids preds succs =
    (case while_option (\<lambda>(indegree, ready, ordered). ready \<noteq> []) (kahn_step succs) (kahn_start ids preds) of
       None \<Rightarrow> None
     | Some (indegree, ready, ordered) \<Rightarrow> Some
         (if length ordered \<noteq> length ids
            then Inl (Graph_Contradiction (sort (filter (\<lambda>x. indegree x > 0) ids)))
          else Inr ()))"

section \<open>Levels\<close>

definition lookup :: "(string \<rightharpoonup> 'a) \<Rightarrow> string \<Rightarrow> dag_error + 'a" where
  "lookup m ref = (case m ref of None \<Rightarrow> Inl (Unknown_Task ref) | Some v \<Rightarrow> Inr v)"

definition level_step ::
  "(string \<Rightarrow> string list) \<Rightarrow> (string \<rightharpoonup> int) \<Rightarrow> string \<Rightarrow> dag_error + (string \<rightharpoonup> int)" where
  "level_step preds levels ref =
    (if preds ref = [] then Inr (levels(ref \<mapsto> 0))
     else bindE (mapE (lookup levels) (preds ref)) (\<lambda>ls. Inr (levels(ref \<mapsto> Max (set ls) + 1))))"

definition level_by_task :: "string list \<Rightarrow> (string \<Rightarrow> string list) \<Rightarrow> dag_error + (string \<rightharpoonup> int)" where
  "level_by_task ids preds = foldE (level_step preds) Map.empty ids"

record level_row =
  level_number :: int
  level_task_ids :: "string list"
  level_task_count :: nat
  protocol_block_ids :: "string list"
  parallelism :: nat

definition level_row :: "dag_task list \<Rightarrow> (string \<rightharpoonup> int) \<Rightarrow> int \<Rightarrow> level_row" where
  "level_row tasks levels n =
    (let grouped = filter (\<lambda>t. levels (task_id t) = Some n) tasks; ordered = sort_key order_index grouped
     in \<lparr>level_number = n, level_task_ids = map task_id ordered, level_task_count = length grouped,
          protocol_block_ids = ordered_unique (map block_id ordered), parallelism = length grouped\<rparr>)"

text \<open>The result of \<open>build_levels\<close>: the levels of the tasks, the rows, and the maximal parallelism of the
  summary, whose \<open>max\<close> raises on a graph without tasks.\<close>

definition build_levels :: "dag_task list \<Rightarrow> (string \<Rightarrow> string list) \<Rightarrow>
    dag_error + (string \<rightharpoonup> int) \<times> level_row list \<times> nat" where
  "build_levels tasks preds =
    bindE (level_by_task (map task_id (sort_key order_index tasks)) preds) (\<lambda>levels.
    bindE (mapE (\<lambda>t. lookup levels (task_id t)) tasks) (\<lambda>ns.
    (let rows = map (level_row tasks levels) (sort (remdups ns))
     in if rows = [] then Inl Empty_Graph else Inr (levels, rows, Max (set (map parallelism rows))))))"

section \<open>The critical path\<close>

text \<open>Python's \<open>max\<close> with a key: the first element with the greatest key.\<close>

definition first_max :: "('a \<Rightarrow> 'k::linorder) \<Rightarrow> 'a list \<Rightarrow> 'a" where
  "first_max key xs = fold (\<lambda>x best. if key best < key x then x else best) (tl xs) (hd xs)"

definition distance_step :: "(string \<Rightarrow> int) \<Rightarrow> (string \<rightharpoonup> int) \<Rightarrow> (string \<Rightarrow> string list) \<Rightarrow>
    (string \<rightharpoonup> int) \<times> (string \<rightharpoonup> string option) \<Rightarrow> string \<Rightarrow> dag_error + (string \<rightharpoonup> int) \<times> (string \<rightharpoonup> string option)" where
  "distance_step number levels preds dp ref =
    (case dp of (distance, previous) \<Rightarrow>
      (if preds ref = [] then Inr (distance(ref \<mapsto> 1), previous(ref \<mapsto> None))
       else bindE (mapE (\<lambda>p. bindE (lookup distance p) (\<lambda>d. bindE (lookup levels p) (\<lambda>l. Inr (p, d, - l, - number p))))
              (preds ref)) (\<lambda>rows.
            (let best = first_max snd rows
             in Inr (distance(ref \<mapsto> fst (snd best) + 1), previous(ref \<mapsto> Some (fst best)))))))"

fun follow :: "nat \<Rightarrow> (string \<rightharpoonup> string option) \<Rightarrow> string \<Rightarrow> string list option" where
  "follow 0 previous cursor = None"
| "follow (Suc n) previous cursor =
    (case previous cursor of
       Some (Some p) \<Rightarrow> map_option (\<lambda>path. path @ [cursor]) (follow n previous p)
     | _ \<Rightarrow> Some [cursor])"

text \<open>\<open>number\<close> is the numeric suffix of a task id. \<open>distance\<close> has the tasks in their order; the fuel of
  the walk back is the number of tasks.\<close>

definition critical_path :: "(string \<Rightarrow> int) \<Rightarrow> string list \<Rightarrow> (string \<Rightarrow> string list) \<Rightarrow> (string \<rightharpoonup> int) \<Rightarrow>
    (dag_error + string list) option" where
  "critical_path number ids preds levels =
    (case foldE (distance_step number levels preds) (Map.empty, Map.empty) ids of
       Inl e \<Rightarrow> Some (Inl e)
     | Inr (distance, previous) \<Rightarrow>
        if ids = [] then Some (Inl Empty_Graph)
        else (case mapE (\<lambda>x. bindE (lookup distance x) (\<lambda>d. bindE (lookup levels x) (\<lambda>l. Inr (x, d, l, number x)))) ids of
            Inl e \<Rightarrow> Some (Inl e)
          | Inr rows \<Rightarrow> map_option Inr (follow (length ids) previous (fst (first_max snd rows)))))"

section \<open>The eligibility snapshot\<close>

record snapshot =
  first_incomplete_task_id :: "string option"
  active_claimed_task_ids :: "string list"
  claimable_unclaimed_task_ids :: "string list"
  blocked_boundary_task_id :: "string option"
  active_block_id :: "string option"

definition boundary :: "dag_task list \<Rightarrow> nat \<Rightarrow> string option" where
  "boundary tasks boundary_index =
    (if boundary_index < length tasks then Some (task_id (tasks ! boundary_index)) else None)"

definition build_eligibility_snapshot :: "dag_task list \<Rightarrow> snapshot" where
  "build_eligibility_snapshot tasks =
    (case find (\<lambda>t. task_status t \<noteq> ''X'') tasks of
       None \<Rightarrow> \<lparr>first_incomplete_task_id = None, active_claimed_task_ids = [], claimable_unclaimed_task_ids = [],
         blocked_boundary_task_id = None, active_block_id = None\<rparr>
     | Some first_incomplete \<Rightarrow>
        if protocol_mode first_incomplete = ''sequential'' then
          \<lparr>first_incomplete_task_id = Some (task_id first_incomplete),
           active_claimed_task_ids = (if task_status first_incomplete = ''-'' then [task_id first_incomplete] else []),
           claimable_unclaimed_task_ids = (if task_status first_incomplete = '' '' then [task_id first_incomplete] else []),
           blocked_boundary_task_id = boundary tasks (order_index first_incomplete + 1),
           active_block_id = Some (block_id first_incomplete)\<rparr>
        else
          (let active_block_tasks = filter (\<lambda>t. block_id t = block_id first_incomplete) tasks in
          \<lparr>first_incomplete_task_id = Some (task_id first_incomplete),
           active_claimed_task_ids = map task_id (filter (\<lambda>t. task_status t = ''-'') active_block_tasks),
           claimable_unclaimed_task_ids = map task_id (filter (\<lambda>t. task_status t = '' '') active_block_tasks),
           blocked_boundary_task_id = boundary tasks (order_index (last active_block_tasks) + 1),
           active_block_id = Some (block_id first_incomplete)\<rparr>))"

end
