(* ===== verification/Dag_Checks.thy ===== *)
theory Dag_Checks
  imports Execution_Dag
begin

text \<open>
  Correctness of the graph algorithms. \<open>task_digraph\<close> is the interface between the construction of the
  deduplicated graph and its clients, the cycle check and the searches for levels and the critical
  path; \<open>forward_digraph\<close> adds what the edge construction enforces, that edges go forward.
\<close>

locale task_digraph =
  fixes ids :: "string list"
    and preds :: "string \<Rightarrow> string list"
    and succs :: "string \<Rightarrow> string list"
  assumes ids_distinct: "distinct ids"
    and preds_distinct: "x \<in> set ids \<Longrightarrow> distinct (preds x)"
    and succs_distinct: "x \<in> set ids \<Longrightarrow> distinct (succs x)"
    and preds_closed: "x \<in> set ids \<Longrightarrow> set (preds x) \<subseteq> set ids"
    and succs_preds: "x \<in> set ids \<Longrightarrow> y \<in> set (succs x) \<longleftrightarrow> y \<in> set ids \<and> x \<in> set (preds y)"
begin

definition edges_of :: "(string \<times> string) set" where
  "edges_of = {(y, x). x \<in> set ids \<and> y \<in> set (preds x)}"

text \<open>The state of the loop: the emitted tasks are in dependency order, the degree of a task counts its
  predecessors not yet emitted, and the queue holds the tasks of degree zero not yet emitted.\<close>

definition kahn_ok :: "kahn_state \<Rightarrow> bool" where
  "kahn_ok s \<longleftrightarrow> (case s of (degree, ready, ordered) \<Rightarrow>
     distinct (ordered @ ready) \<and> set (ordered @ ready) = {x \<in> set ids. degree x = 0} \<and>
     (\<forall>x \<in> set ids. degree x = int (card (set (preds x) - set ordered))) \<and>
     dependency_order preds ordered)"

lemma release_fold:
  "distinct fs \<Longrightarrow> fold release fs (degree, ready)
    = (\<lambda>x. if x \<in> set fs then degree x - 1 else degree x, ready @ filter (\<lambda>f. degree f = 1) fs)"
proof (induction fs arbitrary: degree ready)
  case (Cons f fs)
  let ?d = "degree(f := degree f - 1)"
  have "filter (\<lambda>g. ?d g = 1) fs = filter (\<lambda>g. degree g = 1) fs"
    using Cons.prems by (intro filter_cong) auto
  then show ?case using Cons by (auto simp: release_def Let_def fun_eq_iff)
qed simp

lemma kahn_start_ok: "kahn_ok (kahn_start ids preds)"
  using ids_distinct preds_distinct
  by (auto simp: kahn_ok_def kahn_start_def Let_def distinct_card dependency_order_Nil)

lemma kahn_step_ok:
  assumes ok: "kahn_ok (degree, ready, ordered)" and ne: "ready \<noteq> []"
  obtains degree' ready' where "kahn_step succs (degree, ready, ordered) = (degree', ready', ordered @ [hd ready])"
    and "kahn_ok (degree', ready', ordered @ [hd ready])"
proof -
  obtain c q where q: "ready = c # q" using ne by (cases ready) auto
  let ?d = "\<lambda>x. if x \<in> set (succs c) then degree x - 1 else degree x"
  let ?r = "q @ filter (\<lambda>f. degree f = 1) (succs c)"
  have mem: "set (ordered @ c # q) = {x \<in> set ids. degree x = 0}" and dist: "distinct (ordered @ c # q)"
    and deg: "\<And>x. x \<in> set ids \<Longrightarrow> degree x = int (card (set (preds x) - set ordered))"
    and order: "dependency_order preds ordered" using ok by (simp_all add: kahn_ok_def q)
  have c: "c \<in> set ids" "degree c = 0" using mem by auto
  have step: "kahn_step succs (degree, ready, ordered) = (?d, ?r, ordered @ [c])"
    using release_fold [OF succs_distinct [OF c(1)]] by (simp add: kahn_step_def q)
  have deg': "?d x = int (card (set (preds x) - set (ordered @ [c])))" if x: "x \<in> set ids" for x
  proof (cases "x \<in> set (succs c)")
    case True
    then have "c \<in> set (preds x) - set ordered" using succs_preds [OF c(1)] dist by auto
    then have "card (set (preds x) - set ordered) = Suc (card (set (preds x) - set ordered - {c}))"
      by (intro card.remove) auto
    moreover have "set (preds x) - set ordered - {c} = set (preds x) - set (ordered @ [c])" by auto
    ultimately show ?thesis using True deg [OF x] by simp
  next
    case False
    then have "c \<notin> set (preds x)" using succs_preds [OF c(1)] x by blast
    then have "set (preds x) - set (ordered @ [c]) = set (preds x) - set ordered" by auto
    then show ?thesis using False deg [OF x] by simp
  qed
  have pos: "degree x \<ge> 1" if "x \<in> set (succs c)" for x
  proof -
    have x: "x \<in> set ids" "c \<in> set (preds x) - set ordered" using that succs_preds [OF c(1)] dist by auto
    then have "card (set (preds x) - set ordered) \<noteq> 0" by auto
    then show ?thesis using deg [OF x(1)] by linarith
  qed
  have sub: "set (succs c) \<subseteq> set ids" using succs_preds [OF c(1)] by blast
  have new: "set (ordered @ [c] @ ?r) = {x \<in> set ids. ?d x = 0}"
  proof -
    have "set (ordered @ [c] @ ?r) = {x \<in> set ids. degree x = 0} \<union> {x \<in> set (succs c). degree x = 1}"
      using mem by auto
    also have "\<dots> = {x \<in> set ids. ?d x = 0}" using pos sub by (auto split: if_splits) force
    finally show ?thesis .
  qed
  have "distinct (ordered @ [c] @ ?r)"
  proof -
    have "x \<notin> set (ordered @ c # q)" if "x \<in> set (succs c)" "degree x = 1" for x using that mem by auto
    then show ?thesis using dist succs_distinct [OF c(1)] by auto
  qed
  moreover have "dependency_order preds (ordered @ [c])"
  proof (rule dependency_order_snoc [OF order])
    show "c \<notin> set ordered" using dist by auto
    have "card (set (preds c) - set ordered) = 0" using deg [OF c(1)] c(2) by simp
    then show "set (preds c) \<subseteq> set ordered" by auto
  qed
  ultimately have "kahn_ok (?d, ?r, ordered @ [c])"
    using new deg' by (simp add: kahn_ok_def)
  then show thesis using that step q by simp
qed

lemma kahn_terminates:
  "\<exists>s. while_option (\<lambda>(degree, ready, ordered). ready \<noteq> []) (kahn_step succs) (kahn_start ids preds) = Some s"
proof (rule measure_while_option_Some [where P = kahn_ok
      and f = "\<lambda>(degree, ready, ordered). length ids - length (ordered :: string list)"])
  fix s :: kahn_state
  assume ok: "kahn_ok s" and go: "case s of (degree, ready, ordered) \<Rightarrow> ready \<noteq> []"
  obtain degree ready ordered where s: "s = (degree, ready, ordered)" by (rule prod_cases3)
  then have ne: "ready \<noteq> []" using go by simp
  obtain degree' ready' where step: "kahn_step succs s = (degree', ready', ordered @ [hd ready])"
    and ok': "kahn_ok (degree', ready', ordered @ [hd ready])"
    using kahn_step_ok [OF ok [unfolded s] ne] s by blast
  have "distinct (ordered @ [hd ready])" "set (ordered @ [hd ready]) \<subseteq> set ids"
    using ok' by (auto simp: kahn_ok_def)
  then have "length (ordered @ [hd ready]) \<le> length ids"
    using ids_distinct by (metis card_mono distinct_card finite_set)
  then show "kahn_ok (kahn_step succs s) \<and>
      (case kahn_step succs s of (degree, ready, ordered) \<Rightarrow> length ids - length ordered)
      < (case s of (degree, ready, ordered) \<Rightarrow> length ids - length ordered)"
    using ok' unfolding step by (simp add: s)
qed (rule kahn_start_ok)

lemma kahn_result:
  assumes "while_option (\<lambda>(degree, ready, ordered). ready \<noteq> []) (kahn_step succs) (kahn_start ids preds)
    = Some (degree, ready, ordered)"
  shows "kahn_ok (degree, ready, ordered)" and "ready = []"
proof -
  have keep: "kahn_ok (kahn_step succs s)" if "kahn_ok s" "case s of (degree, ready, ordered) \<Rightarrow> ready \<noteq> []" for s
  proof -
    obtain degree ready ordered where s: "s = (degree, ready, ordered)" by (rule prod_cases3)
    then have "kahn_ok (degree, ready, ordered)" "ready \<noteq> []" using that by simp_all
    then show ?thesis unfolding s by (rule kahn_step_ok) simp
  qed
  show "kahn_ok (degree, ready, ordered)"
    by (rule while_option_rule [where P = kahn_ok, OF keep assms kahn_start_ok])
  show "ready = []" using while_option_stop [OF assms] by simp
qed

text \<open>The check accepts exactly the acyclic graphs, and always returns.\<close>

lemma check_exact: "assert_acyclic ids preds succs = Some (Inr ()) \<longleftrightarrow> acyclic edges_of"
  and check_returns: "assert_acyclic ids preds succs \<noteq> None"
proof -
  obtain degree ready ordered where run: "while_option (\<lambda>(degree, ready, ordered). ready \<noteq> [])
      (kahn_step succs) (kahn_start ids preds) = Some (degree, ready, ordered)"
    using kahn_terminates by (metis prod_cases3)
  note ok = kahn_result [OF run]
  have mem: "set ordered = {x \<in> set ids. degree x = 0}" and dist: "distinct ordered"
    and deg: "\<And>x. x \<in> set ids \<Longrightarrow> degree x = int (card (set (preds x) - set ordered))"
    and order: "dependency_order preds ordered" using ok by (simp_all add: kahn_ok_def)
  have len: "length ordered = length ids \<longleftrightarrow> set ordered = set ids"
    using mem dist ids_distinct by (metis (no_types, lifting) card_subset_eq distinct_card finite_set mem_Collect_eq subsetI)
  have "set ordered = set ids" if ac: "acyclic edges_of"
  proof (rule ccontr)
    assume "set ordered \<noteq> set ids"
    then obtain x where x: "x \<in> set ids - set ordered" using mem by auto
    have "finite edges_of"
    proof (rule finite_subset)
      show "edges_of \<subseteq> set ids \<times> set ids" using preds_closed by (auto simp: edges_of_def)
    qed simp
    then have "wf edges_of" using ac by (rule finite_acyclic_wf)
    from this x obtain z where z: "z \<in> set ids - set ordered"
      "\<And>y. (y, z) \<in> edges_of \<Longrightarrow> y \<notin> set ids - set ordered"
      by (rule wfE_min) blast
    then have "set (preds z) \<subseteq> set ordered" using preds_closed [of z] by (auto simp: edges_of_def)
    then have "degree z = 0" using deg z(1) by simp
    then show False using z(1) mem by auto
  qed
  moreover have "acyclic edges_of" if "set ordered = set ids"
    using dependency_order.acyclic_edges [OF order] that
    by (simp add: dependency_order.dep_edges_def [OF order] edges_of_def)
  ultimately show "assert_acyclic ids preds succs = Some (Inr ()) \<longleftrightarrow> acyclic edges_of"
    using len by (auto simp: assert_acyclic_def run)
  show "assert_acyclic ids preds succs \<noteq> None" by (simp add: assert_acyclic_def run)
qed

end

section \<open>Forward graphs\<close>

locale forward_digraph = task_digraph +
  assumes forward: "x \<in> set ids \<Longrightarrow> y \<in> set (preds x) \<Longrightarrow> position ids y < position ids x"
begin

lemma forward_acyclic: "acyclic edges_of"
proof (rule acyclicI, rule allI, rule notI)
  fix x assume "(x, x) \<in> edges_of\<^sup>+"
  moreover have "(y, x) \<in> edges_of\<^sup>+ \<Longrightarrow> position ids y < position ids x" for x y
    by (induction rule: trancl_induct) (auto simp: edges_of_def dest: forward)
  ultimately show False by blast
qed

lemma check_passes: "assert_acyclic ids preds succs = Some (Inr ())"
  using check_exact forward_acyclic by blast

lemma position_append: "x \<notin> set xs \<Longrightarrow> position (xs @ x # ys) x = length xs"
  by (induction xs) auto

lemma position_prefix: "position (xs @ ys) y < length xs \<Longrightarrow> y \<in> set xs"
  by (induction xs) (auto split: if_splits)

lemma preds_before:
  assumes "ids = xs @ x # ys"
  shows "set (preds x) \<subseteq> set xs" and "x \<notin> set xs"
proof -
  show x: "x \<notin> set xs" using ids_distinct assms by auto
  show "set (preds x) \<subseteq> set xs"
  proof
    fix y assume "y \<in> set (preds x)"
    then have "position ids y < position ids x" using forward [of x y] assms by simp
    then show "y \<in> set xs" using position_append [OF x, of ys] position_prefix [of xs "x # ys" y] assms by simp
  qed
qed

text \<open>What one level, and one distance, is.\<close>

definition level_rule :: "(string \<rightharpoonup> int) \<Rightarrow> string \<Rightarrow> bool" where
  "level_rule levels x \<longleftrightarrow> (if preds x = [] then levels x = Some 0
     else \<exists>ls. map levels (preds x) = map Some ls \<and> levels x = Some (Max (set ls) + 1))"

definition distance_rule :: "(string \<rightharpoonup> int) \<Rightarrow> (string \<rightharpoonup> string option) \<Rightarrow> string \<Rightarrow> bool" where
  "distance_rule distance previous x \<longleftrightarrow> (if preds x = [] then distance x = Some 1 \<and> previous x = Some None
     else \<exists>p d. p \<in> set (preds x) \<and> previous x = Some (Some p) \<and> distance p = Some d \<and> distance x = Some (d + 1) \<and>
       (\<forall>q \<in> set (preds x). \<exists>e. distance q = Some e \<and> e \<le> d))"

lemma level_rule_cong: "(\<And>y. y \<in> insert x (set (preds x)) \<Longrightarrow> f y = g y) \<Longrightarrow> level_rule f x = level_rule g x"
  by (simp add: level_rule_def cong: map_cong)

lemma distance_rule_cong:
  "(\<And>y. y \<in> insert x (set (preds x)) \<Longrightarrow> f y = g y) \<Longrightarrow> p x = q x \<Longrightarrow> distance_rule f p x = distance_rule g q x"
  by (auto simp: distance_rule_def)

lemma levels_fold:
  "ids = xs @ ys \<Longrightarrow> dom m = set xs \<Longrightarrow> \<forall>x \<in> set xs. level_rule m x \<Longrightarrow>
    \<exists>m'. foldE (level_step preds) m ys = Inr m' \<and> dom m' = set ids \<and> (\<forall>x \<in> set ids. level_rule m' x)"
proof (induction ys arbitrary: xs m)
  case (Cons x ys)
  note before = preds_before [OF Cons.prems(1)]
  have "mapE (lookup m) (preds x) = Inr (map (\<lambda>y. the (m y)) (preds x))"
    using before(1) Cons.prems(2) by (intro mapE_pure) (auto simp: lookup_def split: option.splits)
  moreover define v where "v = (if preds x = [] then 0 else Max (set (map (\<lambda>y. the (m y)) (preds x))) + 1)"
  ultimately have step: "level_step preds m x = Inr (m(x \<mapsto> v))" by (simp add: level_step_def)
  let ?m = "m(x \<mapsto> v)"
  have "level_rule ?m x"
  proof (cases "preds x = []")
    case False
    have "m y = Some (the (m y))" if "y \<in> set (preds x)" for y
      using that before(1) Cons.prems(2) by (metis domIff in_mono option.collapse)
    then have eq: "map ?m (preds x) = map Some (map (\<lambda>y. the (m y)) (preds x))"
      using before by (auto simp: map_eq_conv)
    have "\<exists>ls. map ?m (preds x) = map Some ls \<and> ?m x = Some (Max (set ls) + 1)"
      by (rule exI, rule conjI, rule eq) (simp add: False v_def)
    then show ?thesis unfolding level_rule_def if_not_P [OF False] .
  qed (simp add: level_rule_def v_def)
  moreover have "level_rule ?m y" if y: "y \<in> set xs" for y
  proof -
    obtain us vs where "xs = us @ y # vs" using y by (meson split_list)
    then have "set (preds y) \<subseteq> set xs" using preds_before(1) [of us y "vs @ x # ys"] Cons.prems(1) by auto
    then have "level_rule ?m y = level_rule m y" using before(2) y by (intro level_rule_cong) auto
    then show ?thesis using Cons.prems(3) y by simp
  qed
  ultimately have "\<forall>y \<in> set (xs @ [x]). level_rule ?m y" by auto
  moreover have "ids = (xs @ [x]) @ ys" "dom ?m = set (xs @ [x])" using Cons.prems(1,2) by auto
  ultimately have "\<exists>m'. foldE (level_step preds) ?m ys = Inr m' \<and> dom m' = set ids \<and> (\<forall>x \<in> set ids. level_rule m' x)"
    by (intro Cons.IH)
  then show ?case by (simp only: foldE.simps step bindE_Inr)
qed auto

lemma levels_exist: "\<exists>m. level_by_task ids preds = Inr m \<and> dom m = set ids \<and> (\<forall>x \<in> set ids. level_rule m x)"
  unfolding level_by_task_def by (rule levels_fold [of "[]"]) simp_all

text \<open>A task is above each of its predecessors, and its level is at most its position.\<close>

lemma level_above:
  assumes "level_rule levels x" and "y \<in> set (preds x)"
  shows "\<exists>m n. levels y = Some m \<and> levels x = Some n \<and> m < n"
proof -
  have "preds x \<noteq> []" using assms(2) by auto
  then obtain ls where ls: "map levels (preds x) = map Some ls" "levels x = Some (Max (set ls) + 1)"
    using assms(1) unfolding level_rule_def by auto
  have "levels y \<in> set (map levels (preds x))" using assms(2) by simp
  then obtain m where m: "levels y = Some m" "m \<in> set ls" unfolding ls(1) by auto
  have "m \<le> Max (set ls)" using m(2) by (intro Max_ge) simp_all
  then show ?thesis using m(1) ls(2) by simp
qed

lemma level_bounds:
  assumes rules: "\<forall>x \<in> set ids. level_rule levels x"
  shows "x \<in> set ids \<Longrightarrow> \<exists>n. levels x = Some n \<and> 0 \<le> n \<and> n \<le> int (position ids x)"
proof (induction "position ids x" arbitrary: x rule: less_induct)
  case less
  have rule: "level_rule levels x" using rules less.prems by blast
  show ?case
  proof (cases "preds x = []")
    case True
    then show ?thesis using rule by (simp add: level_rule_def)
  next
    case False
    then obtain ls where ls: "map levels (preds x) = map Some ls" "levels x = Some (Max (set ls) + 1)"
      using rule unfolding level_rule_def by auto
    have "length ls = length (preds x)" using arg_cong [OF ls(1), of length] by simp
    then have ne: "set ls \<noteq> {}" using False by auto
    have "Max (set ls) \<in> set ls" using ne by (intro Max_in) simp_all
    then have "Some (Max (set ls)) \<in> set (map levels (preds x))" unfolding ls(1) by simp
    then obtain y where y: "y \<in> set (preds x)" "levels y = Some (Max (set ls))" by auto
    have "y \<in> set ids" "position ids y < position ids x"
      using y(1) preds_closed [OF less.prems] forward [OF less.prems y(1)] by auto
    then show ?thesis using less.hyps [of y] y(2) ls(2) by auto
  qed
qed

end

section \<open>Maxima\<close>

lemma first_max_step:
  "fold (\<lambda>x best. if key best < key x then x else best) xs b \<in> insert b (set xs) \<and>
    (\<forall>x \<in> insert b (set xs). key x \<le> key (fold (\<lambda>x best. if key best < key x then x else best) xs b))"
  for key :: "'a \<Rightarrow> 'k::linorder"
proof (induction xs arbitrary: b)
  case (Cons x xs)
  let ?b = "if key b < key x then x else b"
  have "key b \<le> key ?b" "key x \<le> key ?b" "?b \<in> {b, x}" by auto
  then show ?case using Cons.IH [of ?b] by (auto intro: order_trans)
qed simp

lemma first_max:
  fixes key :: "'a \<Rightarrow> 'k::linorder"
  assumes "xs \<noteq> []"
  shows "first_max key xs \<in> set xs" and "x \<in> set xs \<Longrightarrow> key x \<le> key (first_max key xs)"
  using first_max_step [of key "tl xs" "hd xs"] assms by (cases xs; auto simp: first_max_def)+

lemma first_max_map:
  fixes key :: "'b \<Rightarrow> 'k::linorder"
  assumes "xs \<noteq> []"
  shows "\<exists>b. b \<in> set xs \<and> first_max key (map f xs) = f b \<and> (\<forall>x \<in> set xs. key (f x) \<le> key (f b))"
proof -
  have ne: "map f xs \<noteq> []" using assms by simp
  obtain b where b: "b \<in> set xs" "first_max key (map f xs) = f b"
    using first_max(1) [OF ne, of key] by auto
  then show ?thesis using first_max(2) [OF ne, of _ key] by (intro exI [of _ b]) auto
qed

lemma fst_mono_lex: "(p :: int \<times> int \<times> int) \<le> q \<Longrightarrow> fst p \<le> fst q"
  by (auto simp: less_eq_prod_def)

section \<open>Longest chains\<close>

context forward_digraph
begin

definition chain :: "string list \<Rightarrow> bool" where
  "chain q \<longleftrightarrow> q \<noteq> [] \<and> set q \<subseteq> set ids \<and> successively (\<lambda>a b. a \<in> set (preds b)) q"

lemma chain_snoc: "chain (q @ [x]) \<longleftrightarrow> x \<in> set ids \<and> (q = [] \<or> chain q \<and> last q \<in> set (preds x))"
  by (cases "q = []") (auto simp: chain_def successively_append_iff)

lemma chain_distinct: "chain q \<Longrightarrow> distinct q"
proof (induction q rule: rev_induct)
  case (snoc x q)
  have before: "chain q \<Longrightarrow> y \<in> set q \<Longrightarrow> position ids y \<le> position ids (last q)" for y q
  proof (induction q rule: rev_induct)
    case (snoc z q)
    show ?case
    proof (cases "y = z")
      case False
      then have "q \<noteq> []" "y \<in> set q" using snoc.prems(2) by auto
      then have "position ids y \<le> position ids (last q)" "position ids (last q) < position ids z"
        using snoc.IH snoc.prems(1) forward by (auto simp: chain_snoc)
      then show ?thesis by simp
    qed simp
  qed (simp add: chain_def)
  show ?case
  proof (cases "q = []")
    case False
    then have q: "chain q" "last q \<in> set (preds x)" "x \<in> set ids" using snoc.prems by (simp_all add: chain_snoc)
    have "x \<notin> set q" using before [OF q(1), of x] forward [OF q(3,2)] by auto
    then show ?thesis using snoc.IH [OF q(1)] by simp
  qed simp
qed simp

lemma distances_fold:
  assumes levels: "dom levels = set ids"
  shows "ids = xs @ ys \<Longrightarrow> dom distance = set xs \<Longrightarrow> \<forall>x \<in> set xs. distance_rule distance previous x \<Longrightarrow>
    \<exists>d p. foldE (distance_step number levels preds) (distance, previous) ys = Inr (d, p) \<and> dom d = set ids \<and>
      (\<forall>x \<in> set ids. distance_rule d p x)"
proof (induction ys arbitrary: xs distance previous)
  case (Cons x ys)
  note before = preds_before [OF Cons.prems(1)]
  let ?row = "\<lambda>q. (q, the (distance q), - the (levels q), - number q)"
  have known: "distance q = Some (the (distance q)) \<and> levels q = Some (the (levels q))" if "q \<in> set (preds x)" for q
    using that before(1) Cons.prems(1,2) levels by (metis UnCI domIff in_mono option.collapse set_append)
  have rows: "mapE (\<lambda>p. bindE (lookup distance p) (\<lambda>d. bindE (lookup levels p) (\<lambda>l. Inr (p, d, - l, - number p))))
      (preds x) = Inr (map ?row (preds x))"
  proof (rule mapE_pure)
    fix q assume q: "q \<in> set (preds x)"
    obtain e l where "distance q = Some e" "levels q = Some l" using known [OF q] by blast
    then show "bindE (lookup distance q) (\<lambda>d. bindE (lookup levels q) (\<lambda>l. Inr (q, d, - l, - number q)))
        = Inr (?row q)" by (simp add: lookup_def)
  qed
  have keep: "distance_rule (distance(x \<mapsto> v)) (previous(x \<mapsto> w)) y" if y: "y \<in> set xs" for y v w
  proof -
    obtain us vs where "xs = us @ y # vs" using y by (meson split_list)
    then have "set (preds y) \<subseteq> set xs" using preds_before(1) [of us y "vs @ x # ys"] Cons.prems(1) by auto
    then have "distance_rule (distance(x \<mapsto> v)) (previous(x \<mapsto> w)) y = distance_rule distance previous y"
      using before(2) y by (intro distance_rule_cong) auto
    then show ?thesis using Cons.prems(3) y by simp
  qed
  show ?case
  proof (cases "preds x = []")
    case True
    then have "distance_rule (distance(x \<mapsto> 1)) (previous(x \<mapsto> None)) x" by (simp add: distance_rule_def)
    then have "\<forall>y \<in> set (xs @ [x]). distance_rule (distance(x \<mapsto> 1)) (previous(x \<mapsto> None)) y"
      using keep by auto
    moreover have "ids = (xs @ [x]) @ ys" "dom (distance(x \<mapsto> 1)) = set (xs @ [x])" using Cons.prems(1,2) by auto
    ultimately have "\<exists>d p. foldE (distance_step number levels preds) (distance(x \<mapsto> 1), previous(x \<mapsto> None)) ys
        = Inr (d, p) \<and> dom d = set ids \<and> (\<forall>x \<in> set ids. distance_rule d p x)"
      by (intro Cons.IH)
    moreover have "distance_step number levels preds (distance, previous) x
        = Inr (distance(x \<mapsto> 1), previous(x \<mapsto> None))" using True by (simp add: distance_step_def)
    ultimately show ?thesis by (simp only: foldE.simps bindE_Inr)
  next
    case False
    obtain b where b: "b \<in> set (preds x)" "first_max snd (map ?row (preds x)) = ?row b"
      and best: "\<forall>q \<in> set (preds x). snd (?row q) \<le> snd (?row b)"
      using first_max_map [OF False, where key = snd and f = ?row] by (elim exE conjE)
    have most: "\<exists>e. distance q = Some e \<and> e \<le> the (distance b)" if "q \<in> set (preds x)" for q
      using fst_mono_lex [OF bspec [OF best that]] known [OF that] by auto
    let ?d = "distance(x \<mapsto> the (distance b) + 1)" and ?p = "previous(x \<mapsto> Some b)"
    have "distance_rule ?d ?p x"
      unfolding distance_rule_def if_not_P [OF False]
    proof (rule exI [of _ b], rule exI [of _ "the (distance b)"], intro conjI ballI)
      show "b \<in> set (preds x)" by (rule b(1))
      show "?d b = Some (the (distance b))" using known [OF b(1)] before b(1) by auto
      show "\<exists>e. ?d q = Some e \<and> e \<le> the (distance b)" if "q \<in> set (preds x)" for q
        using most [OF that] before that by auto
    qed simp_all
    then have "\<forall>y \<in> set (xs @ [x]). distance_rule ?d ?p y" using keep by auto
    moreover have "ids = (xs @ [x]) @ ys" "dom ?d = set (xs @ [x])" using Cons.prems(1,2) by auto
    ultimately have "\<exists>d p. foldE (distance_step number levels preds) (?d, ?p) ys
        = Inr (d, p) \<and> dom d = set ids \<and> (\<forall>x \<in> set ids. distance_rule d p x)"
      by (intro Cons.IH)
    moreover have "distance_step number levels preds (distance, previous) x = Inr (?d, ?p)"
      using False rows by (simp add: distance_step_def Let_def b(2))
    ultimately show ?thesis by (simp only: foldE.simps bindE_Inr)
  qed
qed auto

lemma follow_chain:
  assumes rules: "\<forall>x \<in> set ids. distance_rule distance previous x"
  shows "x \<in> set ids \<Longrightarrow> position ids x < n \<Longrightarrow> distance x = Some d \<Longrightarrow>
    \<exists>q. follow n previous x = Some q \<and> chain q \<and> last q = x \<and> int (length q) = d"
proof (induction n arbitrary: x d)
  case (Suc n)
  have rule: "distance_rule distance previous x" using rules Suc.prems(1) by blast
  show ?case
  proof (cases "preds x = []")
    case True
    then show ?thesis using rule Suc.prems by (auto simp: distance_rule_def chain_def)
  next
    case False
    then obtain p e where p: "p \<in> set (preds x)" "previous x = Some (Some p)" "distance p = Some e" "d = e + 1"
      using rule Suc.prems(3) unfolding distance_rule_def by auto
    have "p \<in> set ids" "position ids p < n"
      using p(1) preds_closed [OF Suc.prems(1)] forward [OF Suc.prems(1) p(1)] Suc.prems(2) by auto
    then obtain q where "follow n previous p = Some q" "chain q" "last q = p" "int (length q) = e"
      using Suc.IH p(3) by blast
    then show ?thesis using p Suc.prems(1) by (intro exI [of _ "q @ [x]"]) (auto simp: chain_snoc)
  qed
qed simp

lemma distance_pos:
  assumes "\<forall>x \<in> set ids. distance_rule distance previous x" and x: "x \<in> set ids"
  shows "\<exists>d. distance x = Some d \<and> 1 \<le> d"
proof -
  have "distance_rule distance previous x" using assms by blast
  then obtain d where d: "distance x = Some d" by (auto simp: distance_rule_def split: if_splits)
  have "position ids x < length ids" using x by (simp add: position_less_iff)
  then obtain q where "chain q" "int (length q) = d" using follow_chain [OF assms _ d] by blast
  then have "1 \<le> d" by (cases q) (auto simp: chain_def)
  then show ?thesis using d by blast
qed

lemma chain_bounded:
  assumes "\<forall>x \<in> set ids. distance_rule distance previous x"
  shows "chain q \<Longrightarrow> \<exists>d. distance (last q) = Some d \<and> int (length q) \<le> d"
proof (induction q rule: rev_induct)
  case (snoc x q)
  have x: "x \<in> set ids" using snoc.prems by (simp add: chain_snoc)
  show ?case
  proof (cases "q = []")
    case True
    then show ?thesis using distance_pos [OF assms x] by auto
  next
    case False
    then have "chain q" "last q \<in> set (preds x)" using snoc.prems by (simp_all add: chain_snoc)
    then obtain e where e: "distance (last q) = Some e" "int (length q) \<le> e" using snoc.IH by blast
    have ne: "preds x \<noteq> []" using \<open>last q \<in> set (preds x)\<close> by auto
    have "distance_rule distance previous x" using assms x by blast
    then obtain d where "distance x = Some (d + 1)" "\<forall>q \<in> set (preds x). \<exists>e. distance q = Some e \<and> e \<le> d"
      using ne unfolding distance_rule_def by auto
    then show ?thesis using e \<open>last q \<in> set (preds x)\<close> by force
  qed
qed (simp add: chain_def)

text \<open>The critical path is a chain of dependencies, and no chain is longer.\<close>

lemma critical_path_longest:
  assumes ne: "ids \<noteq> []" and levels: "dom levels = set ids"
  shows "\<exists>path. critical_path number ids preds levels = Some (Inr path) \<and> chain path \<and>
    (\<forall>q. chain q \<longrightarrow> length q \<le> length path)"
proof -
  obtain d p where run: "foldE (distance_step number levels preds) (Map.empty, Map.empty) ids = Inr (d, p)"
    and dom: "dom d = set ids" and rules: "\<forall>x \<in> set ids. distance_rule d p x"
    using distances_fold [where number = number, OF levels, of "[]" ids Map.empty Map.empty] by auto
  let ?row = "\<lambda>x. (x, the (d x), the (levels x), number x)"
  have known: "d x = Some (the (d x)) \<and> levels x = Some (the (levels x))" if "x \<in> set ids" for x
    using that dom levels by (metis domIff option.collapse)
  have rows: "mapE (\<lambda>x. bindE (lookup d x) (\<lambda>e. bindE (lookup levels x) (\<lambda>l. Inr (x, e, l, number x)))) ids
      = Inr (map ?row ids)"
  proof (rule mapE_pure)
    fix x assume x: "x \<in> set ids"
    obtain e l where "d x = Some e" "levels x = Some l" using known [OF x] by blast
    then show "bindE (lookup d x) (\<lambda>e. bindE (lookup levels x) (\<lambda>l. Inr (x, e, l, number x)))
        = Inr (?row x)" by (simp add: lookup_def)
  qed
  obtain sink where sink: "sink \<in> set ids" "first_max snd (map ?row ids) = ?row sink"
    and best: "\<forall>x \<in> set ids. snd (?row x) \<le> snd (?row sink)"
    using first_max_map [OF ne, where key = snd and f = ?row] by (elim exE conjE)
  obtain path where path: "follow (length ids) p sink = Some path" "chain path" "int (length path) = the (d sink)"
    using follow_chain [OF rules sink(1), of "length ids"] known [OF sink(1)] sink(1)
    by (auto simp: position_less_iff)
  have "length q \<le> length path" if q: "chain q" for q
  proof -
    obtain e where e: "d (last q) = Some e" "int (length q) \<le> e" using chain_bounded [OF rules q] by blast
    have "last q \<in> set ids" using q by (auto simp: chain_def)
    then have "the (d (last q)) \<le> the (d sink)" using fst_mono_lex [OF bspec [OF best]] by simp
    then show ?thesis using e path(3) by simp
  qed
  then show ?thesis
    using ne path by (simp add: critical_path_def run rows sink(2))
qed

end

end
