(* ===== verification/Dag_Pipeline.thy ===== *)
theory Dag_Pipeline
  imports Dag_Checks
begin

text \<open>
  The graph that the construction hands to its clients: it is a forward graph, so the cycle check of an
  accepted edge set passes and the critical path is the longest chain; and the blocks of the checklist.
\<close>

definition wf_tasks :: "dag_task list \<Rightarrow> bool" where
  "wf_tasks tasks \<longleftrightarrow> distinct (map task_id tasks) \<and> map order_index tasks = [0..<length tasks]"

lemma ordered_unique_fold:
  "distinct acc \<Longrightarrow> distinct (fold (\<lambda>v r. if v \<in> set r then r else r @ [v]) xs acc) \<and>
    set (fold (\<lambda>v r. if v \<in> set r then r else r @ [v]) xs acc) = set acc \<union> set xs"
  by (induction xs arbitrary: acc) auto

lemma ordered_unique [simp]: "distinct (ordered_unique xs)" "set (ordered_unique xs) = set xs"
  using ordered_unique_fold [of "[]" xs] by (simp_all add: ordered_unique_def)

section \<open>Edges go forward\<close>

definition forward_edge :: "dag_task list \<Rightarrow> edge \<Rightarrow> bool" where
  "forward_edge tasks e \<longleftrightarrow> (\<exists>s t. s \<in> set tasks \<and> t \<in> set tasks \<and> source_task_id e = task_id s \<and>
     target_task_id e = task_id t \<and> order_index s < order_index t)"

definition store_ok :: "dag_task list \<Rightarrow> edge_store \<Rightarrow> bool" where
  "store_ok tasks store \<longleftrightarrow> (\<forall>p \<in> set store. forward_edge tasks (snd p))"

lemma task_lookup_Some: "task_lookup tasks r = Some t \<Longrightarrow> t \<in> set tasks \<and> task_id t = r"
  by (auto simp: task_lookup_def dest!: map_of_SomeD)

lemma update_values: "p \<in> set (AList.update k v xs) \<Longrightarrow> snd p = v \<or> p \<in> set xs"
  by (induction xs) (auto split: if_splits)

lemma add_edge_ok:
  assumes "add_edge tasks store e = Inr store'" and "store_ok tasks store"
  shows "store_ok tasks store'"
proof (cases "source_task_id e = target_task_id e")
  case False
  then obtain s t where st: "task_lookup tasks (source_task_id e) = Some s" "task_lookup tasks (target_task_id e) = Some t"
    "order_index s < order_index t" and new: "store' = AList.update (edge_key e) e store"
    using assms(1) by (auto simp: add_edge_def split: option.splits if_splits)
  have forward: "forward_edge tasks e"
    unfolding forward_edge_def
    by (rule exI [of _ s], rule exI [of _ t]) (use task_lookup_Some [OF st(1)] task_lookup_Some [OF st(2)] st(3) in simp)
  show ?thesis
    unfolding store_ok_def new
  proof
    fix p assume "p \<in> set (AList.update (edge_key e) e store)"
    from update_values [OF this] show "forward_edge tasks (snd p)"
      using forward assms(2) by (auto simp: store_ok_def)
  qed
qed (use assms in \<open>simp add: add_edge_def\<close>)

lemma add_edges_ok: "foldE (add_edge tasks) store es = Inr store' \<Longrightarrow> store_ok tasks store \<Longrightarrow> store_ok tasks store'"
proof (induction es arbitrary: store)
  case (Cons e es)
  then obtain w where "add_edge tasks store e = Inr w" "foldE (add_edge tasks) w es = Inr store'"
    by (auto simp: bindE_eq_Inr_iff)
  then show ?case using Cons.IH add_edge_ok Cons.prems(2) by blast
qed simp

lemma hard_edges_ok: "build_hard_edges tasks rules blocks = Inr edges \<Longrightarrow> store_ok tasks edges"
  unfolding build_hard_edges_def build_protocol_edges_def bindE_eq_Inr_iff
proof (elim exE conjE)
  fix e1 e2
  assume "foldE (add_edge tasks) [] (concat (map boundary_edges (zip blocks (tl blocks)))) = Inr e1"
    and "foldE (add_edge tasks) e1 (concat (map rule_edges rules)) = Inr e2"
    and eq: "Inr (sort_key (\<lambda>(_, e). (index_of tasks (target_task_id e), index_of tasks (source_task_id e),
      edge_class e, rule_id e)) e2) = Inr edges"
  then have "store_ok tasks e2" by (metis add_edges_ok store_ok_def empty_iff list.set(1))
  then show "store_ok tasks edges" using eq by (auto simp: store_ok_def)
qed

section \<open>The graph is a forward graph\<close>

lemma position_task:
  assumes "wf_tasks tasks" and "t \<in> set tasks"
  shows "position (map task_id tasks) (task_id t) = order_index t"
proof -
  obtain i where i: "i < length tasks" "t = tasks ! i" using assms(2) by (auto simp: in_set_conv_nth)
  have "map order_index tasks ! i = i" using assms(1) i(1) by (simp add: wf_tasks_def)
  then have "order_index t = i" using i by simp
  moreover have "position (map task_id tasks) (map task_id tasks ! i) = i"
  proof -
    have "position (map task_id tasks) (map task_id tasks ! i) < length (map task_id tasks)"
      "map task_id tasks ! position (map task_id tasks) (map task_id tasks ! i) = map task_id tasks ! i"
      unfolding position_less_iff using i(1) by (auto intro!: nth_position)
    then show ?thesis using assms(1) i(1) by (metis length_map nth_eq_iff_index_eq wf_tasks_def)
  qed
  ultimately show ?thesis using i by simp
qed

lemma pairs_set: "set (sorted_pairs tasks edges) = (\<lambda>p. (source_task_id (snd p), target_task_id (snd p))) ` set edges"
  by (simp add: sorted_pairs_def Let_def edge_pairs_def case_prod_beta)

lemma mem_predecessors: "y \<in> set (predecessors tasks edges x) \<longleftrightarrow> (y, x) \<in> set (sorted_pairs tasks edges)"
  by (force simp: predecessors_def)

lemma mem_successors: "y \<in> set (successors tasks edges x) \<longleftrightarrow> (x, y) \<in> set (sorted_pairs tasks edges)"
  by (force simp: successors_def)

lemma pair_forward:
  assumes "wf_tasks tasks" and "store_ok tasks edges" and "(y, x) \<in> set (sorted_pairs tasks edges)"
  shows "x \<in> set (map task_id tasks) \<and> y \<in> set (map task_id tasks) \<and>
    position (map task_id tasks) y < position (map task_id tasks) x"
proof -
  obtain p where p: "p \<in> set edges" "y = source_task_id (snd p)" "x = target_task_id (snd p)"
    using assms(3) unfolding pairs_set by blast
  define e where "e = snd p"
  have e: "forward_edge tasks e" "y = source_task_id e" "x = target_task_id e"
    using p assms(2) by (simp_all add: store_ok_def e_def)
  from e obtain s t where "s \<in> set tasks" "t \<in> set tasks" "y = task_id s" "x = task_id t" "order_index s < order_index t"
    unfolding forward_edge_def by blast
  then show ?thesis using position_task [OF assms(1)] by simp
qed

text \<open>The graph of a checklist and its rules, empty when the checklist is malformed or an edge is refused.\<close>

definition dag_ids :: "dag_task list \<Rightarrow> string list" where
  "dag_ids tasks = (if wf_tasks tasks then map task_id tasks else [])"

definition dag_edges :: "dag_task list \<Rightarrow> rule list \<Rightarrow> edge_store" where
  "dag_edges tasks rules = (if wf_tasks tasks then
     (case build_hard_edges tasks rules (build_blocks tasks) of Inr edges \<Rightarrow> edges | Inl e \<Rightarrow> []) else [])"

lemma dag_edges_ok: "store_ok tasks (dag_edges tasks rules)"
proof (cases "wf_tasks tasks")
  case wf: True
  show ?thesis
  proof (cases "build_hard_edges tasks rules (build_blocks tasks)")
    case (Inl e)
    then show ?thesis using wf by (simp add: dag_edges_def store_ok_def)
  next
    case (Inr edges)
    then have "dag_edges tasks rules = edges" using wf by (simp add: dag_edges_def)
    then show ?thesis using hard_edges_ok [OF Inr] by simp
  qed
next
  case False
  then show ?thesis by (simp add: dag_edges_def store_ok_def)
qed

lemma dag_pair:
  assumes "(y, x) \<in> set (sorted_pairs tasks (dag_edges tasks rules))"
  shows "x \<in> set (dag_ids tasks) \<and> y \<in> set (dag_ids tasks) \<and> position (dag_ids tasks) y < position (dag_ids tasks) x"
proof (cases "wf_tasks tasks")
  case True
  then show ?thesis using pair_forward [OF True dag_edges_ok assms] by (simp add: dag_ids_def)
next
  case False
  then have "dag_edges tasks rules = []" by (simp add: dag_edges_def)
  then show ?thesis using assms by (simp add: pairs_set)
qed

interpretation dag: forward_digraph "dag_ids tasks" "predecessors tasks (dag_edges tasks rules)"
  "successors tasks (dag_edges tasks rules)" for tasks rules
proof
  show "distinct (dag_ids tasks)" by (simp add: dag_ids_def wf_tasks_def)
  fix x y
  show "distinct (predecessors tasks (dag_edges tasks rules) x)" by (simp add: predecessors_def)
  show "distinct (successors tasks (dag_edges tasks rules) x)" by (simp add: successors_def)
  show "set (predecessors tasks (dag_edges tasks rules) x) \<subseteq> set (dag_ids tasks)"
    using dag_pair by (auto simp: mem_predecessors)
  show "y \<in> set (successors tasks (dag_edges tasks rules) x) \<longleftrightarrow>
      y \<in> set (dag_ids tasks) \<and> x \<in> set (predecessors tasks (dag_edges tasks rules) y)"
    using dag_pair [of x y tasks rules] by (auto simp: mem_predecessors mem_successors)
  show "position (dag_ids tasks) y < position (dag_ids tasks) x"
    if "y \<in> set (predecessors tasks (dag_edges tasks rules) x)"
    using that dag_pair [of y x tasks rules] by (simp add: mem_predecessors)
qed

lemma accepted_graph:
  assumes "wf_tasks tasks" and "build_hard_edges tasks rules (build_blocks tasks) = Inr edges"
  shows "dag_ids tasks = map task_id tasks" and "dag_edges tasks rules = edges"
  using assms by (simp_all add: dag_ids_def dag_edges_def)

section \<open>Levels\<close>

lemma in_order: "wf_tasks tasks \<Longrightarrow> sort_key order_index tasks = tasks"
  by (rule sort_key_id_if_sorted) (simp add: wf_tasks_def)

lemma sorted_filter_order: "wf_tasks tasks \<Longrightarrow> sort_key order_index (filter P tasks) = filter P tasks"
  by (rule sort_key_id_if_sorted) (simp add: sorted_filter wf_tasks_def)

lemma mset_grouped:
  "distinct ns \<Longrightarrow> \<forall>x \<in> set xs. \<exists>n \<in> set ns. f x = Some n \<Longrightarrow>
    mset (concat (map (\<lambda>n. filter (\<lambda>x. f x = Some n) xs) ns)) = mset xs"
proof (induction ns arbitrary: xs)
  case (Cons n ns)
  let ?rest = "filter (\<lambda>x. f x \<noteq> Some n) xs"
  have rest: "map (\<lambda>k. filter (\<lambda>x. f x = Some k) xs) ns = map (\<lambda>k. filter (\<lambda>x. f x = Some k) ?rest) ns"
    using Cons.prems(1) by (auto intro!: filter_cong)
  have "mset (concat (map (\<lambda>k. filter (\<lambda>x. f x = Some k) ?rest) ns)) = mset ?rest"
    using Cons.prems by (intro Cons.IH) auto
  then have "mset (concat (map (\<lambda>k. filter (\<lambda>x. f x = Some k) xs) (n # ns)))
      = mset (filter (\<lambda>x. f x = Some n) xs) + mset ?rest" by (simp only: list.map concat.simps mset_append rest)
  also have "\<dots> = mset xs" by (simp add: multiset_partition [symmetric])
  finally show ?case .
qed auto

lemma levels_of_graph:
  assumes wf: "wf_tasks tasks" and edges: "build_hard_edges tasks rules (build_blocks tasks) = Inr edges"
  shows "\<exists>levels. level_by_task (map task_id tasks) (predecessors tasks edges) = Inr levels \<and>
    dom levels = task_id ` set tasks \<and>
    (\<forall>t \<in> set tasks. \<exists>n. levels (task_id t) = Some n \<and> 0 \<le> n \<and> n \<le> int (order_index t)) \<and>
    (\<forall>t \<in> set tasks. \<forall>y \<in> set (predecessors tasks edges (task_id t)).
      \<exists>m n. levels y = Some m \<and> levels (task_id t) = Some n \<and> m < n)"
proof -
  note g = accepted_graph [OF wf edges]
  obtain levels where run: "level_by_task (dag_ids tasks) (predecessors tasks (dag_edges tasks rules)) = Inr levels"
    and dom: "dom levels = set (dag_ids tasks)"
    and rules: "\<forall>x \<in> set (dag_ids tasks). dag.level_rule tasks rules levels x"
    using dag.levels_exist [of tasks rules] by (elim exE conjE)
  have "\<exists>n. levels (task_id t) = Some n \<and> 0 \<le> n \<and> n \<le> int (order_index t)" if t: "t \<in> set tasks" for t
    using dag.level_bounds [OF rules, of "task_id t"] position_task [OF wf t] t by (simp add: g)
  moreover have "\<exists>m n. levels y = Some m \<and> levels (task_id t) = Some n \<and> m < n"
    if "t \<in> set tasks" "y \<in> set (predecessors tasks edges (task_id t))" for t y
    using dag.level_above [of tasks rules levels "task_id t" y] rules that by (simp add: g)
  ultimately show ?thesis using run dom by (intro exI [of _ levels]) (simp add: g)
qed

section \<open>Blocks\<close>

text \<open>A block holds a run of tasks with its block id.\<close>

definition spans :: "block \<Rightarrow> dag_task list \<Rightarrow> bool" where
  "spans b ts \<longleftrightarrow> ts \<noteq> [] \<and> blk_tasks b = map task_id ts \<and> (\<forall>t \<in> set ts. block_id t = blk_id b)"

lemma blocks_loop_spans:
  "list_all2 spans blocks tss \<Longrightarrow> (case current of None \<Rightarrow> run = [] | Some b \<Rightarrow> spans b run) \<Longrightarrow>
    \<exists>uss. list_all2 spans (blocks_loop blocks current ts) uss \<and> concat uss = concat tss @ run @ ts"
proof (induction blocks current ts arbitrary: tss run rule: blocks_loop.induct)
  case (1 blocks)
  then show ?case by (intro exI [of _ tss]) simp
next
  case (2 blocks current)
  then show ?case by (intro exI [of _ "tss @ [run]"]) (simp add: list_all2_appendI)
next
  case (3 blocks t ts)
  have "spans (open_block t) [t]" by (simp add: spans_def open_block_def)
  then show ?case using "3.IH" [of tss "[t]"] "3.prems" by simp
next
  case (4 blocks current t ts)
  show ?case
  proof (cases "block_id t = blk_id current")
    case True
    have "spans (current\<lparr>blk_tasks := blk_tasks current @ [task_id t]\<rparr>) (run @ [t])"
      using "4.prems"(2) True by (auto simp: spans_def)
    then show ?thesis using "4.IH"(2) [of tss "run @ [t]"] "4.prems"(1) True by simp
  next
    case False
    have "spans (open_block t) [t]" by (simp add: spans_def open_block_def)
    moreover have "list_all2 spans (blocks @ [current]) (tss @ [run])"
      using "4.prems" by (simp add: list_all2_appendI)
    ultimately show ?thesis using "4.IH"(1) [of "tss @ [run]" "[t]"] False by simp
  qed
qed

lemma blocks_span: "\<exists>tss. list_all2 spans (build_blocks tasks) tss \<and> concat tss = tasks"
  using blocks_loop_spans [where blocks = "[]" and current = None and tss = "[]" and run = "[]" and ts = tasks] by (simp add: build_blocks_def)

text \<open>Two neighbouring blocks split the checklist.\<close>

lemma zip_tl_split: "(b, c) \<in> set (zip xs (tl xs)) \<Longrightarrow> \<exists>us vs. xs = us @ b # c # vs"
proof (induction xs)
  case (Cons x xs)
  then obtain y ys where xs: "xs = y # ys" by (cases xs) auto
  then have "(b, c) = (x, y) \<or> (b, c) \<in> set (zip xs (tl xs))" using Cons.prems by auto
  then show ?case
  proof
    assume "(b, c) = (x, y)"
    then have "x # xs = [] @ b # c # ys" using xs by simp
    then show ?thesis by blast
  next
    assume "(b, c) \<in> set (zip xs (tl xs))"
    then obtain us vs where "xs = us @ b # c # vs" using Cons.IH by blast
    then have "x # xs = (x # us) @ b # c # vs" by simp
    then show ?thesis by blast
  qed
qed simp

lemma list_all2_right: "list_all2 P xs ys \<Longrightarrow> y \<in> set ys \<Longrightarrow> \<exists>x \<in> set xs. P x y"
  by (induction rule: list_all2_induct) auto

lemma neighbours:
  assumes "(b, c) \<in> set (zip blocks (tl blocks))" and "list_all2 spans blocks tss" and "distinct (map blk_id blocks)"
  shows "\<exists>before bs cs after. concat tss = before @ bs @ cs @ after \<and> spans b bs \<and> spans c cs \<and>
    (\<forall>t \<in> set before \<union> set bs. block_id t \<noteq> blk_id c)"
proof -
  obtain us vs where split: "blocks = us @ b # c # vs" using zip_tl_split [OF assms(1)] by (elim exE)
  then obtain before' bs cs after' where tss: "tss = before' @ bs # cs # after'" "list_all2 spans us before'"
    "spans b bs" "spans c cs"
    using assms(2) by (auto simp: list_all2_append1 list_all2_Cons1)
  have "block_id t \<noteq> blk_id c" if t: "t \<in> set (concat before') \<union> set bs" for t
  proof (cases "t \<in> set bs")
    case True
    then show ?thesis using tss(3) assms(3) by (auto simp: spans_def split)
  next
    case False
    then obtain ts where ts: "ts \<in> set before'" "t \<in> set ts" using t by auto
    then obtain u where "u \<in> set us" "spans u ts" using list_all2_right [OF tss(2)] by blast
    then have "block_id t \<in> blk_id ` set us" using ts(2) by (auto simp: spans_def)
    then show ?thesis using assms(3) by (auto simp: split)
  qed
  then show ?thesis using tss
    by (intro exI [of _ "concat before'"] exI [of _ bs] exI [of _ cs] exI [of _ "concat after'"]) simp
qed

lemma store_edges:
  "foldE (add_edge tasks) store es = Inr store' \<Longrightarrow> p \<in> set store' \<Longrightarrow> p \<in> set store \<or> snd p \<in> set es"
proof (induction es arbitrary: store)
  case (Cons e es)
  then obtain w where w: "add_edge tasks store e = Inr w" "foldE (add_edge tasks) w es = Inr store'"
    by (auto simp: bindE_eq_Inr_iff)
  have "p \<in> set w \<Longrightarrow> p \<in> set store \<or> snd p = e"
    using w(1) by (auto simp: add_edge_def split: if_splits option.splits dest: update_values)
  then show ?case using Cons.IH [OF w(2) Cons.prems(2)] by auto
qed simp

lemma find_before: "find P (xs @ ys) = Some f \<Longrightarrow> f \<notin> set xs \<Longrightarrow> x \<in> set xs \<Longrightarrow> \<not> P x"
  by (induction xs) (auto split: if_splits)

lemma find_Some: "find P xs = Some f \<Longrightarrow> f \<in> set xs \<and> P f"
  by (induction xs) (auto split: if_splits)

lemma claimable_task:
  assumes "r \<in> set (claimable_unclaimed_task_ids (build_eligibility_snapshot tasks))"
  shows "\<exists>f t. find (\<lambda>t. task_status t \<noteq> ''X'') tasks = Some f \<and> t \<in> set tasks \<and> task_id t = r \<and>
    block_id t = block_id f \<and> task_status t = '' ''"
proof (cases "find (\<lambda>t. task_status t \<noteq> ''X'') tasks")
  case (Some f)
  then show ?thesis using assms find_Some [OF Some]
    by (auto simp: build_eligibility_snapshot_def Let_def split: if_splits)
qed (use assms in \<open>simp add: build_eligibility_snapshot_def\<close>)

section \<open>Properties\<close>

text \<open>C27: on a graph with distinct nodes whose successor and predecessor lists describe the same edges
  between them, the cycle check always returns, and accepts exactly the acyclic graphs.\<close>

theorem cycle_check_is_exact:
  assumes "distinct ids" and "\<forall>x \<in> set ids. distinct (preds x) \<and> distinct (succs x) \<and> set (preds x) \<subseteq> set ids"
    and "\<forall>x \<in> set ids. \<forall>y. y \<in> set (succs x) \<longleftrightarrow> y \<in> set ids \<and> x \<in> set (preds y)"
  shows "assert_acyclic ids preds succs \<noteq> None \<and>
    (assert_acyclic ids preds succs = Some (Inr ()) \<longleftrightarrow> acyclic {(y, x). x \<in> set ids \<and> y \<in> set (preds x)})"
proof -
  have g: "task_digraph ids preds succs" using assms by unfold_locales blast+
  show ?thesis
    using task_digraph.check_exact [OF g] task_digraph.check_returns [OF g]
    by (simp add: task_digraph.edges_of_def [OF g])
qed

lemma cycle_check_is_exact_witness:
  "assert_acyclic [''a'', ''b''] ((\<lambda>x. [])(''a'' := [''b''], ''b'' := [''a'']))
      ((\<lambda>x. [])(''a'' := [''b''], ''b'' := [''a''])) \<noteq> Some (Inr ())"
proof -
  let ?f = "(\<lambda>x. [])(''a'' := [''b''], ''b'' := [''a''])"
  have "(''a'', ''b'') \<in> {(y, x). x \<in> set [''a'', ''b''] \<and> y \<in> set (?f x)}"
    "(''b'', ''a'') \<in> {(y, x). x \<in> set [''a'', ''b''] \<and> y \<in> set (?f x)}" by simp_all
  then have "(''a'', ''a'') \<in> {(y, x). x \<in> set [''a'', ''b''] \<and> y \<in> set (?f x)}\<^sup>+"
    by (rule trancl_into_trancl [OF r_into_trancl])
  then have "\<not> acyclic {(y, x). x \<in> set [''a'', ''b''] \<and> y \<in> set (?f x)}" unfolding acyclic_def by blast
  then show ?thesis using cycle_check_is_exact [of "[''a'', ''b'']" ?f ?f] by auto
qed

text \<open>C30: on a well-formed checklist whose hard edges are accepted, the levels are computed, each at most the
  position of the task; a task is on a later level than each of its predecessors; and the rows of the
  level table hold every task exactly once, the widest row giving the maximal parallelism.\<close>

theorem planned_levels:
  assumes "wf_tasks tasks" and "tasks \<noteq> []" and "build_hard_edges tasks rules (build_blocks tasks) = Inr edges"
  shows "\<exists>levels rows width. build_levels tasks (predecessors tasks edges) = Inr (levels, rows, width) \<and>
    (\<forall>t \<in> set tasks. \<exists>n. levels (task_id t) = Some n \<and> 0 \<le> n \<and> n \<le> int (order_index t)) \<and>
    (\<forall>t \<in> set tasks. \<forall>y \<in> set (predecessors tasks edges (task_id t)).
      \<exists>m n. levels y = Some m \<and> levels (task_id t) = Some n \<and> m < n) \<and>
    mset (concat (map level_task_ids rows)) = mset (map task_id tasks) \<and>
    (\<forall>row \<in> set rows. parallelism row = length (level_task_ids row) \<and> parallelism row \<le> width) \<and>
    (\<exists>row \<in> set rows. parallelism row = width)"
proof -
  obtain levels where run: "level_by_task (map task_id tasks) (predecessors tasks edges) = Inr levels"
    and bounds: "\<forall>t \<in> set tasks. \<exists>n. levels (task_id t) = Some n \<and> 0 \<le> n \<and> n \<le> int (order_index t)"
    and above: "\<forall>t \<in> set tasks. \<forall>y \<in> set (predecessors tasks edges (task_id t)).
      \<exists>m n. levels y = Some m \<and> levels (task_id t) = Some n \<and> m < n"
    using levels_of_graph [OF assms(1,3)] by (elim exE conjE)
  let ?ns = "map (\<lambda>t. the (levels (task_id t))) tasks"
  define rows where "rows = map (level_row tasks levels) (sort (remdups ?ns))"
  have ns: "mapE (\<lambda>t. lookup levels (task_id t)) tasks = Inr ?ns"
    using bounds by (intro mapE_pure) (auto simp: lookup_def)
  have ns_ne: "sort (remdups ?ns) \<noteq> []"
  proof
    assume "sort (remdups ?ns) = []"
    then have "set (sort (remdups ?ns)) = {}" by (simp only: list.set)
    then show False using assms(2) by simp
  qed
  then have ne: "rows \<noteq> []" by (simp add: rows_def)
  have "build_levels tasks (predecessors tasks edges) = Inr (levels, rows, Max (set (map parallelism rows)))"
    using ns_ne by (simp add: build_levels_def in_order [OF assms(1)] run ns Let_def rows_def)
  moreover have "mset (concat (map level_task_ids rows)) = mset (map task_id tasks)"
  proof -
    have "mset (concat (map (\<lambda>n. filter (\<lambda>t. levels (task_id t) = Some n) tasks) (sort (remdups ?ns)))) = mset tasks"
      using bounds by (intro mset_grouped) force+
    then have "mset (map task_id (concat (map (\<lambda>n. filter (\<lambda>t. levels (task_id t) = Some n) tasks) (sort (remdups ?ns)))))
        = mset (map task_id tasks)" by simp
    then show ?thesis
      by (simp add: rows_def level_row_def Let_def sorted_filter_order [OF assms(1)] map_concat comp_def)
  qed
  moreover have "parallelism row = length (level_task_ids row)" if "row \<in> set rows" for row
    using that by (auto simp: rows_def level_row_def Let_def)
  moreover have "Max (set (map parallelism rows)) \<in> set (map parallelism rows)" using ne by (intro Max_in) simp_all
  ultimately show ?thesis
    using bounds above by (intro exI [of _ levels] exI [of _ rows] exI [of _ "Max (set (map parallelism rows))"]) auto
qed

text \<open>C18: on a well-formed checklist whose hard edges are accepted, the cycle check passes and the critical
  path is a chain of dependencies of at most as many tasks as the checklist has, and no chain is longer.\<close>

theorem planned_critical_path:
  assumes "wf_tasks tasks" and "tasks \<noteq> []" and "build_hard_edges tasks rules (build_blocks tasks) = Inr edges"
  shows "let ids = map task_id tasks; preds = predecessors tasks edges;
      is_chain = (\<lambda>q. q \<noteq> [] \<and> set q \<subseteq> set ids \<and> successively (\<lambda>a b. a \<in> set (preds b)) q)
    in assert_acyclic ids preds (successors tasks edges) = Some (Inr ()) \<and>
      (\<exists>levels path. level_by_task ids preds = Inr levels \<and> critical_path number ids preds levels = Some (Inr path) \<and>
        is_chain path \<and> length path \<le> length tasks \<and> (\<forall>q. is_chain q \<longrightarrow> length q \<le> length path))"
proof -
  note g = accepted_graph [OF assms(1,3)]
  obtain levels where levels: "level_by_task (map task_id tasks) (predecessors tasks edges) = Inr levels"
    "dom levels = task_id ` set tasks"
    using levels_of_graph [OF assms(1,3)] by (elim exE conjE)
  obtain path where path: "critical_path number (dag_ids tasks) (predecessors tasks (dag_edges tasks rules)) levels = Some (Inr path)"
    "dag.chain tasks rules path" "\<forall>q. dag.chain tasks rules q \<longrightarrow> length q \<le> length path"
    using dag.critical_path_longest [where tasks = tasks and rules = rules and levels = levels and number = number] assms(2) levels(2) by (auto simp: g)
  have chain: "dag.chain tasks rules q \<longleftrightarrow> q \<noteq> [] \<and> set q \<subseteq> set (map task_id tasks) \<and>
      successively (\<lambda>a b. a \<in> set (predecessors tasks edges b)) q" for q
    unfolding dag.chain_def unfolding g by (rule refl)
  have "distinct path" "set path \<subseteq> set (map task_id tasks)"
    using dag.chain_distinct [OF path(2)] path(2) unfolding chain by blast+
  then have "length path \<le> length (map task_id tasks)"
    by (metis List.finite_set card_length card_mono distinct_card le_trans)
  then show ?thesis
    unfolding Let_def
    using path [unfolded chain, unfolded g] levels(1) dag.check_passes [of tasks rules, unfolded g] length_map
    by (intro conjI exI [of _ levels] exI [of _ path]) simp_all
qed

text \<open>When the blocks of a checklist have distinct ids, a task that the eligibility snapshot calls
  claimable is unclaimed, and every protocol edge into it comes from a completed task.\<close>

theorem claimable_tasks_unblocked:
  assumes "wf_tasks tasks" and "distinct (map blk_id (build_blocks tasks))"
    and edges: "build_protocol_edges tasks (build_blocks tasks) = Inr edges"
    and claimable: "r \<in> set (claimable_unclaimed_task_ids (build_eligibility_snapshot tasks))"
  shows "(\<exists>t \<in> set tasks. task_id t = r \<and> task_status t = '' '') \<and>
    (\<forall>e \<in> snd ` set edges. target_task_id e = r \<longrightarrow>
      (\<exists>s \<in> set tasks. task_id s = source_task_id e \<and> task_status s = ''X''))"
proof (intro conjI ballI impI)
  obtain f t where f: "find (\<lambda>t. task_status t \<noteq> ''X'') tasks = Some f" and t: "t \<in> set tasks" "task_id t = r"
    "block_id t = block_id f" "task_status t = '' ''" using claimable_task [OF claimable] by (elim exE conjE)
  show "\<exists>t \<in> set tasks. task_id t = r \<and> task_status t = '' ''" using t by blast
  fix e assume e: "e \<in> snd ` set edges" "target_task_id e = r"
  then have "e \<in> set (concat (map boundary_edges (zip (build_blocks tasks) (tl (build_blocks tasks)))))"
    using store_edges [OF edges [unfolded build_protocol_edges_def]] by auto
  then obtain b c where bc: "(b, c) \<in> set (zip (build_blocks tasks) (tl (build_blocks tasks)))"
    and ends: "source_task_id e \<in> set (blk_tasks b)" "r \<in> set (blk_tasks c)"
    using e(2) by (auto simp: boundary_edges_def)
  obtain tss where tss: "list_all2 spans (build_blocks tasks) tss" "concat tss = tasks"
    using blocks_span [of tasks] by (elim exE conjE)
  obtain before bs cs after where split: "tasks = before @ bs @ cs @ after" "spans b bs" "spans c cs"
    and other: "\<forall>t \<in> set before \<union> set bs. block_id t \<noteq> blk_id c"
    using neighbours [OF bc tss(1) assms(2)] tss(2) by auto
  obtain u where u: "u \<in> set cs" "task_id u = r" using ends(2) split(3) by (auto simp: spans_def)
  have "u = t" using u t(1,2) assms(1) unfolding wf_tasks_def distinct_map split(1) inj_on_def by auto
  then have "block_id f = blk_id c" using t(3) u(1) split(3) by (auto simp: spans_def)
  then have "f \<notin> set (before @ bs)" using other by auto
  moreover obtain s where s: "s \<in> set bs" "task_id s = source_task_id e" using ends(1) split(2) by (auto simp: spans_def)
  ultimately have "\<not> task_status s \<noteq> ''X''"
    using find_before [of "\<lambda>t. task_status t \<noteq> ''X''" "before @ bs" "cs @ after" f s] f split(1) by simp
  then show "\<exists>s \<in> set tasks. task_id s = source_task_id e \<and> task_status s = ''X''"
    using s split(1) by (intro bexI [of _ s]) auto
qed

section \<open>A small checklist\<close>

definition sample_task :: "string \<Rightarrow> string \<Rightarrow> nat \<Rightarrow> string \<Rightarrow> dag_task" where
  "sample_task r status i blk = \<lparr>task_id = r, slug = r, task_status = status, order_index = i, phase = 0,
     protocol_mode = (if blk = r then ''sequential'' else ''parallel''), wave_id = None, track = None, block_id = blk\<rparr>"

definition sample_checklist :: "dag_task list" where
  "sample_checklist = [sample_task ''pc_1'' ''X'' 0 ''pc_1'', sample_task ''pc_2'' '' '' 1 ''w'',
     sample_task ''pc_3'' ''-'' 2 ''w'']"

definition sample_edge :: "string \<Rightarrow> edge" where
  "sample_edge r = \<lparr>source_task_id = ''pc_1'', target_task_id = r, edge_class = ''PROTOCOL_HARD'',
     rule_id = ''protocol_boundary__pc_1__w''\<rparr>"

definition sample_edges :: edge_store where
  "sample_edges = [(edge_key (sample_edge ''pc_2''), sample_edge ''pc_2''), (edge_key (sample_edge ''pc_3''), sample_edge ''pc_3'')]"

lemma sample_wf: "wf_tasks sample_checklist"
  by code_simp

lemma sample_blocks: "distinct (map blk_id (build_blocks sample_checklist))"
  by code_simp

lemma sample_protocol: "build_protocol_edges sample_checklist (build_blocks sample_checklist) = Inr sample_edges"
  by code_simp

lemma sample_hard: "build_hard_edges sample_checklist [] (build_blocks sample_checklist) = Inr sample_edges"
  by code_simp

lemma planned_levels_witness:
  "\<exists>levels rows width. build_levels sample_checklist (predecessors sample_checklist sample_edges) = Inr (levels, rows, width) \<and>
    mset (concat (map level_task_ids rows)) = mset (map task_id sample_checklist)"
  using planned_levels [OF sample_wf _ sample_hard] by (auto simp: sample_checklist_def)

lemma planned_critical_path_witness:
  "\<exists>levels path. critical_path (\<lambda>_. 0) (map task_id sample_checklist) (predecessors sample_checklist sample_edges) levels
    = Some (Inr path)"
  using planned_critical_path [OF sample_wf _ sample_hard, where number = "\<lambda>_. 0"]
  unfolding Let_def by (auto simp: sample_checklist_def)

lemma claimable_tasks_unblocked_witness:
  "\<exists>s \<in> set sample_checklist. task_id s = ''pc_1'' \<and> task_status s = ''X''"
proof -
  have "''pc_2'' \<in> set (claimable_unclaimed_task_ids (build_eligibility_snapshot sample_checklist))" by code_simp
  from claimable_tasks_unblocked [OF sample_wf sample_blocks sample_protocol this]
  have "target_task_id (sample_edge ''pc_2'') = ''pc_2'' \<longrightarrow> (\<exists>s \<in> set sample_checklist.
      task_id s = source_task_id (sample_edge ''pc_2'') \<and> task_status s = ''X'')"
    by (simp add: sample_edges_def)
  then show ?thesis by (simp add: sample_edge_def)
qed

end
