(* ===== verification/Py_Digits.thy ===== *)
theory Py_Digits
  imports Py_Prelude
begin

text \<open>
  Decimal numerals in Python strings: the digit class \<open>\d\<close>, \<open>int(s)\<close> on digits, \<open>str(n)\<close>, zero padding and
  slices. A string is a list of 8-bit characters, on which \<open>\d\<close> matches the ASCII digits only; the
  decimal digits of other scripts, which Python's \<open>\d\<close> matches too, are outside this type.
\<close>

definition is_digit :: "char \<Rightarrow> bool" where
  "is_digit c \<longleftrightarrow> 48 \<le> (of_char c :: nat) \<and> (of_char c :: nat) \<le> 57"

definition digit_val :: "char \<Rightarrow> nat" where
  "digit_val c = of_char c - 48"

definition digit_char :: "nat \<Rightarrow> char" where
  "digit_char d = char_of (48 + d)"

definition all_digits :: "string \<Rightarrow> bool" where
  "all_digits s \<longleftrightarrow> list_all is_digit s"

fun nat_of_digits :: "nat \<Rightarrow> string \<Rightarrow> nat" where
  "nat_of_digits n [] = n"
| "nat_of_digits n (c # cs) = nat_of_digits (10 * n + digit_val c) cs"

definition read_nat :: "string \<Rightarrow> nat" where
  "read_nat s = nat_of_digits 0 s"

fun str_nat :: "nat \<Rightarrow> string" where
  "str_nat n = (if n < 10 then [digit_char n] else str_nat (n div 10) @ [digit_char (n mod 10)])"

declare str_nat.simps [simp del]

text \<open>\<open>s.rjust(w, "0")\<close>, and \<open>f"{n:0wd}"\<close> for a natural number.\<close>

definition rjust :: "string \<Rightarrow> nat \<Rightarrow> string" where
  "rjust s w = replicate (w - length s) CHR ''0'' @ s"

definition zero_padded :: "nat \<Rightarrow> nat \<Rightarrow> string" where
  "zero_padded w n = rjust (str_nat n) w"

text \<open>\<open>xs[:i]\<close> and \<open>xs[i:]\<close>.\<close>

definition slice_index :: "'a list \<Rightarrow> int \<Rightarrow> nat" where
  "slice_index xs i = nat (if i < 0 then int (length xs) + i else i)"

definition slice_to :: "'a list \<Rightarrow> int \<Rightarrow> 'a list" where
  "slice_to xs i = take (slice_index xs i) xs"

definition slice_from :: "'a list \<Rightarrow> int \<Rightarrow> 'a list" where
  "slice_from xs i = drop (slice_index xs i) xs"

section \<open>Digits\<close>

lemma all_digits_simps [simp]: "all_digits []" "all_digits (c # s) \<longleftrightarrow> is_digit c \<and> all_digits s"
  "all_digits (s @ t) \<longleftrightarrow> all_digits s \<and> all_digits t"
  by (simp_all add: all_digits_def)

lemma all_digits_replicate [simp]: "all_digits (replicate n CHR ''0'')"
  by (induction n) (simp_all add: is_digit_def)

lemma digit_val_less: "is_digit c \<Longrightarrow> digit_val c < 10"
  unfolding is_digit_def digit_val_def by linarith

lemma digit_char_val [simp]: "is_digit c \<Longrightarrow> digit_char (digit_val c) = c"
  by (simp add: is_digit_def digit_val_def digit_char_def)

lemma digit_char [simp]: "d < 10 \<Longrightarrow> is_digit (digit_char d)" "d < 10 \<Longrightarrow> digit_val (digit_char d) = d"
  by (simp_all add: is_digit_def digit_val_def digit_char_def)

lemma digit_val_zero [simp]: "digit_val CHR ''0'' = 0" "is_digit CHR ''0''" "digit_char 0 = CHR ''0''"
  by code_simp+

lemma digit_char_eq_zero: "d < 10 \<Longrightarrow> digit_char d = CHR ''0'' \<longleftrightarrow> d = 0"
  by (metis digit_char(2) digit_val_zero(1,3))

lemma not_digit [simp]: "\<not> is_digit CHR ''-''" "\<not> is_digit CHR ''.''" "\<not> is_digit CHR ''T''" "\<not> is_digit CHR '':''"
  "\<not> is_digit CHR ''Z''" "\<not> is_digit CHR ''+''" "\<not> is_digit CHR ''Q''" "\<not> is_digit CHR ''_''"
  by (simp_all add: is_digit_def)

lemma all_digits_mem: "all_digits s \<Longrightarrow> c \<in> set s \<Longrightarrow> is_digit c"
  by (auto simp: all_digits_def list_all_iff)

section \<open>Reading\<close>

lemma nat_of_digits_append: "nat_of_digits n (s @ t) = nat_of_digits (nat_of_digits n s) t"
  by (induction s arbitrary: n) auto

lemma nat_of_digits_shift: "nat_of_digits n s = n * 10 ^ length s + nat_of_digits 0 s"
proof (induction s arbitrary: n)
  case (Cons c s)
  show ?case using Cons [of "10 * n + digit_val c"] Cons [of "digit_val c"] by (simp add: algebra_simps)
qed simp

lemma read_nat_append: "read_nat (s @ t) = read_nat s * 10 ^ length t + read_nat t"
  unfolding read_nat_def nat_of_digits_append by (rule nat_of_digits_shift)

lemma read_nat_simps [simp]: "read_nat [] = 0" "read_nat [c] = digit_val c"
  by (simp_all add: read_nat_def)

lemma read_nat_snoc: "read_nat (s @ [c]) = 10 * read_nat s + digit_val c"
  by (simp add: read_nat_append)

lemma read_nat_Cons: "read_nat (c # s) = digit_val c * 10 ^ length s + read_nat s"
  using read_nat_append [of "[c]" s] by simp

lemma read_nat_zeros [simp]: "read_nat (replicate n CHR ''0'') = 0"
  by (induction n) (simp_all add: read_nat_Cons)

lemma read_nat_less: "all_digits s \<Longrightarrow> read_nat s < 10 ^ length s"
proof (induction s)
  case (Cons c s)
  have "digit_val c * 10 ^ length s + read_nat s < (digit_val c + 1) * 10 ^ length s" using Cons by simp
  also have "\<dots> \<le> 10 * 10 ^ length s" using Cons.prems digit_val_less [of c] by (intro mult_right_mono) auto
  finally show ?case by (simp add: read_nat_Cons)
qed simp

lemma read_nat_pos: "all_digits (c # s) \<Longrightarrow> c \<noteq> CHR ''0'' \<Longrightarrow> 10 ^ length s \<le> read_nat (c # s)"
proof -
  assume c: "all_digits (c # s)" "c \<noteq> CHR ''0''"
  have "digit_char (digit_val c) = c" using c by simp
  then have "digit_val c \<noteq> 0" using c(2) digit_val_zero(3) by metis
  then have "1 * 10 ^ length s \<le> digit_val c * 10 ^ length s" by (intro mult_right_mono) simp_all
  then show ?thesis unfolding read_nat_Cons by linarith
qed

lemma read_nat_inj: "all_digits s \<Longrightarrow> all_digits t \<Longrightarrow> length s = length t \<Longrightarrow> read_nat s = read_nat t \<Longrightarrow> s = t"
proof (induction s arbitrary: t rule: rev_induct)
  case (snoc c s)
  then obtain u d where t: "t = u @ [d]" by (metis append_is_Nil_conv length_0_conv list.distinct(1) rev_exhaust)
  have "digit_val c < 10" "digit_val d < 10" using snoc.prems t by (simp_all add: digit_val_less)
  moreover have "10 * read_nat s + digit_val c = 10 * read_nat u + digit_val d"
    using snoc.prems(4) t by (simp add: read_nat_snoc)
  ultimately have "read_nat s = read_nat u \<and> digit_val c = digit_val d" by presburger
  moreover have "c = d" if "digit_val c = digit_val d"
    using that snoc.prems(1,2) t digit_char_val by (metis all_digits_simps(2,3))
  ultimately show ?case using snoc t by auto
qed simp

section \<open>Printing\<close>

lemma str_nat_digits [simp]: "all_digits (str_nat n)"
  by (induction n rule: str_nat.induct) (subst str_nat.simps, simp)

lemma str_nat_nonempty [simp]: "str_nat n \<noteq> []"
  by (subst str_nat.simps) simp

lemma read_str_nat [simp]: "read_nat (str_nat n) = n"
proof (induction n rule: str_nat.induct)
  case (1 n)
  then show ?case by (subst str_nat.simps) (auto simp: read_nat_snoc)
qed

text \<open>The numerals without superfluous zeros.\<close>

definition plain_numeral :: "string \<Rightarrow> bool" where
  "plain_numeral s \<longleftrightarrow> s \<noteq> [] \<and> all_digits s \<and> (s = ''0'' \<or> hd s \<noteq> CHR ''0'')"

lemma str_nat_plain: "plain_numeral (str_nat n)"
proof (induction n rule: str_nat.induct)
  case (1 n)
  show ?case
  proof (cases "n < 10")
    case True
    then show ?thesis by (subst str_nat.simps) (auto simp: plain_numeral_def digit_char_eq_zero)
  next
    case False
    have ne: "str_nat (n div 10) \<noteq> ''0''"
    proof
      assume "str_nat (n div 10) = ''0''"
      then have "n div 10 = 0" using read_str_nat [of "n div 10"] by (simp add: read_nat_Cons)
      then show False using False by simp
    qed
    then have "hd (str_nat (n div 10)) \<noteq> CHR ''0''" using 1 False by (simp add: plain_numeral_def)
    then show ?thesis using False by (subst str_nat.simps) (simp add: plain_numeral_def)
  qed
qed

lemma plain_numeral_unique: "plain_numeral s \<Longrightarrow> plain_numeral t \<Longrightarrow> read_nat s = read_nat t \<Longrightarrow> s = t"
proof (rule read_nat_inj)
  assume s: "plain_numeral s" and t: "plain_numeral t" and eq: "read_nat s = read_nat t"
  have longer: "\<not> length u < length v"
    if u: "plain_numeral u" and v: "plain_numeral v" and eq: "read_nat u = read_nat v" for u v
  proof
    assume less: "length u < length v"
    obtain c w where vw: "v = c # w" using v by (cases v) (auto simp: plain_numeral_def)
    have "w \<noteq> []" using less u vw by (auto simp: plain_numeral_def)
    then have "c \<noteq> CHR ''0''" using v vw by (auto simp: plain_numeral_def)
    then have "10 ^ length w \<le> read_nat v" using v vw read_nat_pos by (simp add: plain_numeral_def)
    moreover have "read_nat u < 10 ^ length u" using u read_nat_less by (simp add: plain_numeral_def)
    moreover have "(10 :: nat) ^ length u \<le> 10 ^ length w" using less vw by (intro power_increasing) simp_all
    ultimately show False using eq by linarith
  qed
  show "length s = length t" using longer [OF s t eq] longer [OF t s eq [symmetric]] by simp
qed (simp_all add: plain_numeral_def)

lemma str_read_nat [simp]: "plain_numeral s \<Longrightarrow> str_nat (read_nat s) = s"
  using plain_numeral_unique [OF str_nat_plain, of s "read_nat s"] by simp

lemma length_str_nat: "length (str_nat n) \<le> w \<longleftrightarrow> n < 10 ^ w" if "0 < w"
proof
  assume "length (str_nat n) \<le> w"
  then have "(10 :: nat) ^ length (str_nat n) \<le> 10 ^ w" by (intro power_increasing) simp_all
  moreover have "n < 10 ^ length (str_nat n)" using read_nat_less [of "str_nat n"] by simp
  ultimately show "n < 10 ^ w" by (rule order_less_le_trans [rotated])
next
  assume less: "n < 10 ^ w"
  show "length (str_nat n) \<le> w"
  proof (rule ccontr)
    assume long: "\<not> length (str_nat n) \<le> w"
    obtain c s where cs: "str_nat n = c # s" by (cases "str_nat n") auto
    then have "s \<noteq> []" using long that by auto
    then have "c \<noteq> CHR ''0''" using str_nat_plain [of n] cs by (auto simp: plain_numeral_def)
    then have "10 ^ length s \<le> n" using read_nat_pos [of c s] cs str_nat_digits [of n] read_str_nat [of n] by simp
    moreover have "(10 :: nat) ^ w \<le> 10 ^ length s" using long cs by (intro power_increasing) simp_all
    ultimately show False using less by linarith
  qed
qed

section \<open>Padding\<close>

lemma zero_padded_digits [simp]: "all_digits (zero_padded w n)"
  by (simp add: zero_padded_def rjust_def)

lemma read_zero_padded [simp]: "read_nat (zero_padded w n) = n"
  by (simp add: zero_padded_def rjust_def read_nat_append)

lemma length_zero_padded: "0 < w \<Longrightarrow> n < 10 ^ w \<Longrightarrow> length (zero_padded w n) = w"
  using length_str_nat [of w n] by (simp add: zero_padded_def rjust_def)

lemma zero_padded_read: "all_digits s \<Longrightarrow> s \<noteq> [] \<Longrightarrow> zero_padded (length s) (read_nat s) = s"
  by (intro read_nat_inj) (simp_all add: length_zero_padded read_nat_less)

end
