(* ===== verification/Dag_Checklist.thy ===== *)
theory Dag_Checklist
  imports Dag_Pipeline Py_Digits
begin

text \<open>
  The checklist of \<open>tools/analysis/build_agent_execution_dag.py\<close> as text: \<open>str.splitlines\<close>, the three regular
  expressions, \<open>parse_tasks\<close>, and which task lists it can return. The line number and the card path of a task are
  left out.
\<close>

datatype checklist_error = Unparsed_Mode string | Task_Count nat

section \<open>Lines\<close>

definition line_break :: "char \<Rightarrow> bool" where
  "line_break c \<longleftrightarrow> c \<in> set [CHR 0x0A, CHR 0x0B, CHR 0x0C, CHR 0x0D, CHR 0x1C, CHR 0x1D, CHR 0x1E, CHR 0x85]"

text \<open>\<open>splitlines\<close>: a carriage return and a line feed are one break, and a final break opens no line.\<close>

function splitlines :: "string \<Rightarrow> string list" where
  "splitlines s =
    (if s = [] then []
     else let line = takeWhile (\<lambda>c. \<not> line_break c) s; rest = dropWhile (\<lambda>c. \<not> line_break c) s in
       line # splitlines (if take 2 rest = [CHR 0x0D, CHR 0x0A] then drop 2 rest else drop 1 rest))"
  by pat_completeness auto
termination
proof (relation "measure length")
  fix s line rest
  assume s: "s \<noteq> []" and "line = takeWhile (\<lambda>c. \<not> line_break c) s" "rest = dropWhile (\<lambda>c. \<not> line_break c) s"
  then have "length s = length line + length rest" by (metis length_append takeWhile_dropWhile_id)
  moreover have "line \<noteq> [] \<or> rest \<noteq> []" using s calculation by auto
  ultimately show "((if take 2 rest = [CHR 0x0D, CHR 0x0A] then drop 2 rest else drop 1 rest), s) \<in> measure length"
    by (cases rest) (auto split: if_splits)
qed simp

declare splitlines.simps [simp del]

section \<open>Patterns\<close>

text \<open>The text behind a literal prefix, and behind \<open>n\<close> digits.\<close>

fun after :: "string \<Rightarrow> string \<Rightarrow> string option" where
  "after [] s = Some s"
| "after (p # ps) [] = None"
| "after (p # ps) (c # s) = (if p = c then after ps s else None)"

definition digits_then :: "nat \<Rightarrow> string \<Rightarrow> (string \<times> string) option" where
  "digits_then n s = (if length s \<ge> n \<and> all_digits (take n s) then Some (take n s, drop n s) else None)"

text \<open>\<open>- \[([ X-])\] `(pc_\d+)` ([^ ]+) \<close> at the start of a text: status, id, slug.\<close>

definition task_tail :: "char \<Rightarrow> string \<Rightarrow> (string \<times> string \<times> string) option" where
  "task_tail c s3 =
    (let number = takeWhile is_digit s3 in
     if number = [] then None
     else Option.bind (after ''` '' (dropWhile is_digit s3)) (\<lambda>s4.
       let sl = takeWhile (\<lambda>c. c \<noteq> CHR '' '') s4 in
       if sl = [] \<or> sl = s4 then None else Some ([c], ''pc_'' @ number, sl)))"

definition task_at :: "string \<Rightarrow> (string \<times> string \<times> string) option" where
  "task_at s =
    Option.bind (after ''- ['' s) (\<lambda>s1.
      (case s1 of
         [] \<Rightarrow> None
       | c # s2 \<Rightarrow> if c \<notin> set '' X-'' then None else Option.bind (after ''] `pc_'' s2) (task_tail c)))"

fun task_search :: "string \<Rightarrow> (string \<times> string \<times> string) option" where
  "task_search [] = None"
| "task_search (c # cs) = (case task_at (c # cs) of None \<Rightarrow> task_search cs | Some m \<Rightarrow> Some m)"

text \<open>\<open>phase_(\d{2})_seq_(\d{3})_(.+)\<close>: the phase.\<close>

definition sequential_match :: "string \<Rightarrow> nat option" where
  "sequential_match sl =
    Option.bind (after ''phase_'' sl) (\<lambda>s1.
    Option.bind (digits_then 2 s1) (\<lambda>(ph, s2).
    Option.bind (after ''_seq_'' s2) (\<lambda>s3.
    Option.bind (digits_then 3 s3) (\<lambda>(_, s4).
    Option.bind (after ''_'' s4) (\<lambda>s5.
      if s5 = [] \<or> hd s5 = CHR 0x0A then None else Some (read_nat ph))))))"

text \<open>\<open>(.+?)_(\d{3})_(.+)\<close>: the shortest track.\<close>

definition track_end :: "string \<Rightarrow> bool" where
  "track_end s \<longleftrightarrow>
    (case Option.bind (after ''_'' s) (digits_then 3) of
       None \<Rightarrow> False
     | Some (_, rest) \<Rightarrow> (case after ''_'' rest of None \<Rightarrow> False | Some r \<Rightarrow> r \<noteq> [] \<and> hd r \<noteq> CHR 0x0A))"

fun lazy_track :: "string \<Rightarrow> string \<Rightarrow> string option" where
  "lazy_track tr s =
    (if tr \<noteq> [] \<and> track_end s then Some tr
     else case s of [] \<Rightarrow> None | c # cs \<Rightarrow> if c = CHR 0x0A then None else lazy_track (tr @ [c]) cs)"

text \<open>\<open>phase_(\d{2})_parallel_wave_(\d{2})_track_(.+?)_(\d{3})_(.+)\<close>: phase, wave and track.\<close>

definition parallel_match :: "string \<Rightarrow> (nat \<times> nat \<times> string) option" where
  "parallel_match sl =
    Option.bind (after ''phase_'' sl) (\<lambda>s1.
    Option.bind (digits_then 2 s1) (\<lambda>(ph, s2).
    Option.bind (after ''_parallel_wave_'' s2) (\<lambda>s3.
    Option.bind (digits_then 2 s3) (\<lambda>(wave, s4).
    Option.bind (after ''_track_'' s4) (\<lambda>s5.
    Option.bind (lazy_track [] s5) (\<lambda>tr. Some (read_nat ph, read_nat wave, tr)))))))"

section \<open>Tasks\<close>

definition task_of :: "nat \<Rightarrow> string \<times> string \<times> string \<Rightarrow> checklist_error + dag_task" where
  "task_of index m =
    (case m of (status, ref, sl) \<Rightarrow>
      (case sequential_match sl of
         Some ph \<Rightarrow> Inr \<lparr>task_id = ref, slug = sl, task_status = status, order_index = index, phase = ph,
           protocol_mode = ''sequential'', wave_id = None, track = None, block_id = ref\<rparr>
       | None \<Rightarrow>
         (case parallel_match sl of
            Some (ph, wave, tr) \<Rightarrow>
              (let w = ''phase_'' @ zero_padded 2 ph @ ''_parallel_wave_'' @ zero_padded 2 wave in
               Inr \<lparr>task_id = ref, slug = sl, task_status = status, order_index = index, phase = ph,
                 protocol_mode = ''parallel'', wave_id = Some w, track = Some tr, block_id = w\<rparr>)
          | None \<Rightarrow> Inl (Unparsed_Mode sl))))"

definition parse_line :: "dag_task list \<Rightarrow> string \<Rightarrow> checklist_error + dag_task list" where
  "parse_line tasks line =
    (case task_search line of
       None \<Rightarrow> Inr tasks
     | Some m \<Rightarrow> bindE (task_of (length tasks) m) (\<lambda>t. Inr (tasks @ [t])))"

definition parse_tasks :: "string \<Rightarrow> checklist_error + dag_task list" where
  "parse_tasks content =
    bindE (foldE parse_line [] (splitlines content)) (\<lambda>tasks.
      if length tasks \<noteq> 428 then Inl (Task_Count (length tasks)) else Inr tasks)"

section \<open>The task lists it returns\<close>

definition plain_task :: "nat \<Rightarrow> dag_task \<Rightarrow> bool" where
  "plain_task index t \<longleftrightarrow> task_status t \<in> {'' '', ''X'', ''-''} \<and>
    (\<exists>number. task_id t = ''pc_'' @ number \<and> number \<noteq> [] \<and> all_digits number) \<and>
    slug t \<noteq> [] \<and> CHR '' '' \<notin> set (slug t) \<and> (\<forall>c \<in> set (slug t). \<not> line_break c) \<and>
    task_of index (task_status t, task_id t, slug t) = Inr t"

definition plain_checklist :: "dag_task list \<Rightarrow> bool" where
  "plain_checklist tasks \<longleftrightarrow> length tasks = 428 \<and> (\<forall>i < length tasks. plain_task i (tasks ! i))"

lemma plain_taskD:
  assumes "plain_task i t"
  shows "task_status t \<in> {'' '', ''X'', ''-''}" and "\<exists>number. task_id t = ''pc_'' @ number \<and> number \<noteq> [] \<and> all_digits number"
    and "slug t \<noteq> []" and "CHR '' '' \<notin> set (slug t)" and "\<forall>c \<in> set (slug t). \<not> line_break c"
    and "task_of i (task_status t, task_id t, slug t) = Inr t"
  using assms unfolding plain_task_def by blast+

lemma after_Some: "after p s = Some r \<longleftrightarrow> s = p @ r"
  by (induction p s rule: after.induct) auto

lemma tail_Some:
  assumes "task_tail c s3 = Some (status, ref, sl)"
  shows "\<exists>s4. dropWhile is_digit s3 = ''` '' @ s4 \<and> status = [c] \<and> ref = ''pc_'' @ takeWhile is_digit s3 \<and>
    takeWhile is_digit s3 \<noteq> [] \<and> sl = takeWhile (\<lambda>c. c \<noteq> CHR '' '') s4 \<and> sl \<noteq> []"
proof (cases "after ''` '' (dropWhile is_digit s3)")
  case None
  then show ?thesis using assms by (simp add: task_tail_def Let_def split: if_splits)
next
  case (Some s4)
  then show ?thesis using assms unfolding after_Some task_tail_def Let_def
    by (intro exI [of _ s4]) (simp split: if_splits)
qed

lemma task_at_Some:
  assumes "task_at s = Some (status, ref, sl)"
  shows "\<exists>number. ref = ''pc_'' @ number \<and> number \<noteq> [] \<and> all_digits number" and "status \<in> {'' '', ''X'', ''-''}"
    and "sl \<noteq> []" and "CHR '' '' \<notin> set sl" and "set sl \<subseteq> set s"
proof -
  obtain s1 where s1: "s = ''- ['' @ s1"
    and body: "(case s1 of [] \<Rightarrow> None | c # s2 \<Rightarrow> if c \<notin> set '' X-'' then None
      else Option.bind (after ''] `pc_'' s2) (task_tail c)) = Some (status, ref, sl)"
    using assms unfolding task_at_def bind_eq_Some_conv after_Some by blast
  obtain c s2 where c: "s1 = c # s2" "c \<in> set '' X-''" and rest: "Option.bind (after ''] `pc_'' s2) (task_tail c) = Some (status, ref, sl)"
  proof (cases s1)
    case (Cons c s2)
    then have "c \<in> set '' X-''" using body by (auto split: if_splits)
    then show thesis using body Cons by (intro that [of c s2]) simp_all
  qed (use body in simp)
  obtain s3 where "s2 = ''] `pc_'' @ s3" and tail: "task_tail c s3 = Some (status, ref, sl)"
    using rest unfolding bind_eq_Some_conv after_Some by blast
  then have s3: "s = ''- ['' @ c # ''] `pc_'' @ s3" using s1 c(1) by simp
  obtain s4 where s4: "dropWhile is_digit s3 = ''` '' @ s4" and ref: "status = [c]" "ref = ''pc_'' @ takeWhile is_digit s3"
    and number: "takeWhile is_digit s3 \<noteq> []" and sl: "sl = takeWhile (\<lambda>c. c \<noteq> CHR '' '') s4" "sl \<noteq> []"
    using tail_Some [OF tail] by blast
  have "set s4 \<subseteq> set (dropWhile is_digit s3)" unfolding s4 by auto
  then have s: "set s4 \<subseteq> set s" unfolding s3 by (auto dest: set_dropWhileD)
  have "all_digits (takeWhile is_digit s3)" by (auto simp: all_digits_def list_all_iff dest: set_takeWhileD)
  then show "\<exists>number. ref = ''pc_'' @ number \<and> number \<noteq> [] \<and> all_digits number" using number ref by blast
  show "status \<in> {'' '', ''X'', ''-''}" using c(2) ref by auto
  show "sl \<noteq> []" by (rule sl(2))
  show "CHR '' '' \<notin> set sl" unfolding sl(1) by (auto dest: set_takeWhileD)
  show "set sl \<subseteq> set s" using s unfolding sl(1) by (auto dest: set_takeWhileD)
qed

lemma task_search_Some:
  "task_search s = Some m \<Longrightarrow> \<exists>t. task_at t = Some m \<and> set t \<subseteq> set s"
proof (induction s)
  case (Cons c s)
  show ?case
  proof (cases "task_at (c # s)")
    case None
    then obtain t where "task_at t = Some m" "set t \<subseteq> set s" using Cons by auto
    then show ?thesis by auto
  next
    case (Some x)
    then show ?thesis using Cons.prems by (intro exI [of _ "c # s"]) simp
  qed
qed simp

lemma lines_unbroken: "line \<in> set (splitlines s) \<Longrightarrow> c \<in> set line \<Longrightarrow> \<not> line_break c"
proof (induction s rule: splitlines.induct)
  case (1 s)
  show ?case
  proof (cases "s = []")
    case False
    then have "line = takeWhile (\<lambda>c. \<not> line_break c) s \<or>
        line \<in> set (splitlines (if take 2 (dropWhile (\<lambda>c. \<not> line_break c) s) = [CHR 0x0D, CHR 0x0A]
          then drop 2 (dropWhile (\<lambda>c. \<not> line_break c) s) else drop 1 (dropWhile (\<lambda>c. \<not> line_break c) s)))"
      using 1(2) by (subst (asm) splitlines.simps) (auto simp: Let_def)
    then show ?thesis
    proof
      assume "line = takeWhile (\<lambda>c. \<not> line_break c) s"
      then show ?thesis using 1(3) by (auto dest: set_takeWhileD)
    next
      assume "line \<in> set (splitlines (if take 2 (dropWhile (\<lambda>c. \<not> line_break c) s) = [CHR 0x0D, CHR 0x0A]
          then drop 2 (dropWhile (\<lambda>c. \<not> line_break c) s) else drop 1 (dropWhile (\<lambda>c. \<not> line_break c) s)))"
      then show ?thesis using 1(1) [OF False refl refl _ 1(3)] by blast
    qed
  qed (use 1(2) in \<open>simp add: splitlines.simps\<close>)
qed

lemma task_of_fields:
  "task_of i (status, ref, sl) = Inr t \<Longrightarrow> task_status t = status \<and> task_id t = ref \<and> slug t = sl \<and> order_index t = i"
  by (auto simp: task_of_def Let_def split: option.splits)

lemma parsed_line_plain:
  assumes "\<forall>c \<in> set line. \<not> line_break c" and "parse_line tasks line = Inr tasks'"
    and "\<forall>i < length tasks. plain_task i (tasks ! i)"
  shows "\<forall>i < length tasks'. plain_task i (tasks' ! i)"
proof (cases "task_search line")
  case None
  then show ?thesis using assms(2,3) by (simp add: parse_line_def)
next
  case (Some m)
  obtain status ref sl where m: "m = (status, ref, sl)" by (cases m)
  obtain t where t: "task_of (length tasks) (status, ref, sl) = Inr t" "tasks' = tasks @ [t]"
    using assms(2) Some m by (auto simp: parse_line_def bindE_eq_Inr_iff)
  obtain u where u: "task_at u = Some (status, ref, sl)" "set u \<subseteq> set line" using task_search_Some Some m by blast
  have "plain_task (length tasks) t"
    unfolding plain_task_def using task_of_fields [OF t(1)] t(1) task_at_Some [OF u(1)] u(2) assms(1) by auto
  then show ?thesis using assms(3) t(2) by (auto simp: nth_append less_Suc_eq)
qed

lemma parsed_tasks_plain:
  assumes "parse_tasks content = Inr tasks"
  shows "plain_checklist tasks"
proof -
  have run: "foldE parse_line [] (splitlines content) = Inr tasks" "length tasks = 428"
    using assms by (auto simp: parse_tasks_def bindE_eq_Inr_iff split: if_splits)
  have "\<forall>i < length tasks. plain_task i (tasks ! i)"
    by (rule foldE_invariant [OF run(1), where P = "\<lambda>ts. \<forall>i < length ts. plain_task i (ts ! i)"])
      (simp, metis parsed_line_plain lines_unbroken)
  then show ?thesis using run(2) by (simp add: plain_checklist_def)
qed

section \<open>Every such list is read from a text\<close>

definition render_task :: "dag_task \<Rightarrow> string" where
  "render_task t = ''- ['' @ task_status t @ ''] `'' @ task_id t @ ''` '' @ slug t @ '' ''"

definition render_checklist :: "dag_task list \<Rightarrow> string" where
  "render_checklist tasks = concat (map (\<lambda>t. render_task t @ [CHR 0x0A]) tasks)"

lemma splitlines_line:
  assumes "\<forall>c \<in> set line. \<not> line_break c"
  shows "splitlines (line @ CHR 0x0A # s) = line # splitlines s"
proof -
  have lf: "line_break CHR 0x0A" by (simp add: line_break_def)
  have "takeWhile (\<lambda>c. \<not> line_break c) (line @ CHR 0x0A # s) = line"
    "dropWhile (\<lambda>c. \<not> line_break c) (line @ CHR 0x0A # s) = CHR 0x0A # s"
    using assms lf by (simp_all add: takeWhile_append2 dropWhile_append2)
  then show ?thesis by (subst splitlines.simps) (simp add: Let_def)
qed

lemma digit_no_break: "is_digit c \<Longrightarrow> \<not> line_break c"
  by (auto simp: is_digit_def line_break_def)

lemma rendered_unbroken: "plain_task i t \<Longrightarrow> \<forall>c \<in> set (render_task t). \<not> line_break c"
proof -
  assume plain: "plain_task i t"
  obtain number where number: "task_id t = ''pc_'' @ number" "all_digits number" using plain_taskD(2) [OF plain] by blast
  have "\<forall>c \<in> set number. \<not> line_break c" using number(2) digit_no_break by (auto simp: all_digits_def list_all_iff)
  moreover have "\<forall>c \<in> set (task_status t). \<not> line_break c" using plain_taskD(1) [OF plain] by (auto simp: line_break_def)
  moreover note plain_taskD(5) [OF plain]
  moreover have "\<forall>c \<in> set ''- [] `pc_''. \<not> line_break c" by (simp add: line_break_def)
  ultimately show ?thesis unfolding render_task_def number(1) by (simp add: ball_Un)
qed

lemma rendered_search:
  assumes "plain_task i t"
  shows "task_search (render_task t) = Some (task_status t, task_id t, slug t)"
proof -
  obtain number c where number: "task_id t = ''pc_'' @ number" "number \<noteq> []" "all_digits number" and c: "task_status t = [c]" "c \<in> set '' X-''"
    using plain_taskD(1,2) [OF assms] by auto
  note sl = plain_taskD(3,4) [OF assms]
  have digits: "takeWhile is_digit (number @ ''` '' @ x) = number" "dropWhile is_digit (number @ ''` '' @ x) = ''` '' @ x" for x
    using number(3) by (simp_all add: all_digits_def list_all_iff takeWhile_append2 dropWhile_append2 is_digit_def)
  have space: "takeWhile (\<lambda>c. c \<noteq> CHR '' '') (slug t @ '' '') = slug t"
    using sl(2) by (subst takeWhile_append2) auto
  have text_is: "render_task t = ''- ['' @ (c # ''] `pc_'' @ (number @ ''` '' @ (slug t @ '' '')))"
    using number(1) c(1) by (simp add: render_task_def)
  have "task_at (render_task t) = Some ([c], ''pc_'' @ number, slug t)"
    unfolding text_is task_at_def task_tail_def using c(2) number(2) digits space sl(1) by (simp add: Let_def)
  then show ?thesis using number(1) c(1) by (simp add: text_is)
qed

lemma render_lines:
  "\<forall>t \<in> set tasks. \<exists>i. plain_task i t \<Longrightarrow> splitlines (render_checklist tasks) = map render_task tasks"
proof (induction tasks)
  case (Cons t tasks)
  then show ?case using rendered_unbroken splitlines_line [of "render_task t" "render_checklist tasks"]
    by (auto simp: render_checklist_def)
qed (simp add: render_checklist_def splitlines.simps)

lemma parse_rendered:
  "\<forall>i < length (ts @ us). plain_task i ((ts @ us) ! i) \<Longrightarrow> foldE parse_line ts (map render_task us) = Inr (ts @ us)"
proof (induction us arbitrary: ts)
  case (Cons u us)
  have u: "plain_task (length ts) u" using Cons.prems by (auto dest: spec [of _ "length ts"])
  then have "parse_line ts (render_task u) = Inr (ts @ [u])"
    using rendered_search [OF u] plain_taskD(6) [OF u] by (simp add: parse_line_def)
  then show ?case using Cons.IH [of "ts @ [u]"] Cons.prems by simp
qed simp

text \<open>C29: the task lists that parsing a checklist returns are exactly the lists of 428 tasks in order whose status, id and slug
  have the shape of a checklist line and whose other fields are those of the slug; printing such a list and parsing the
  text gives the list back.\<close>

theorem parsed_checklists_are_the_plain_ones:
  "((\<exists>content. parse_tasks content = Inr tasks) \<longleftrightarrow> plain_checklist tasks) \<and>
    (parse_tasks (render_checklist tasks) = Inr tasks \<longleftrightarrow> plain_checklist tasks)"
proof -
  have "parse_tasks (render_checklist tasks) = Inr tasks" if plain: "plain_checklist tasks"
  proof -
    have len: "length tasks = 428" and all: "\<forall>i < length tasks. plain_task i (tasks ! i)"
      using plain by (simp_all add: plain_checklist_def)
    then have "\<forall>t \<in> set tasks. \<exists>i. plain_task i t" by (metis in_set_conv_nth)
    then have "splitlines (render_checklist tasks) = map render_task tasks" by (rule render_lines)
    then show ?thesis using parse_rendered [of "[]" tasks] all len by (simp add: parse_tasks_def)
  qed
  then show ?thesis using parsed_tasks_plain by blast
qed

end
