(* ===== verification/Dag_Rules.thy ===== *)
theory Dag_Rules
  imports Dag_Checklist "HOL-Library.Code_Target_Nat"
begin

text \<open>
  The non-protocol rules of \<open>tools/analysis/build_agent_execution_dag.py\<close>: the selectors of \<open>make_selector\<close> and the
  table of \<open>build_non_protocol_rules\<close> without rationales and citations; and that the table never refuses a checklist of
  the roadmap's shape.
\<close>

section \<open>Selectors\<close>

text \<open>\<open>int(task_id.split("_")[1])\<close>; the ids come from the parser, so the piece is a numeral.\<close>

definition id_number :: "string \<Rightarrow> nat" where
  "id_number r = read_nat (takeWhile (\<lambda>c. c \<noteq> CHR ''_'') (drop 1 (dropWhile (\<lambda>c. c \<noteq> CHR ''_'') r)))"

text \<open>\<open>sorted(task_lookup.values(), key=order_index)\<close>.\<close>

definition ordered_tasks :: "dag_task list \<Rightarrow> dag_task list" where
  "ordered_tasks tasks = sort_key order_index (map snd (fold (\<lambda>t. AList.update (task_id t) t) tasks []))"

definition select_tasks :: "(dag_task \<Rightarrow> bool) \<Rightarrow> dag_task list \<Rightarrow> string list" where
  "select_tasks P tasks = map task_id (filter P (ordered_tasks tasks))"

definition by_task_ids :: "dag_task list \<Rightarrow> string list \<Rightarrow> string list" where
  "by_task_ids tasks ids = select_tasks (\<lambda>t. task_id t \<in> set ids) tasks"

definition by_id_range :: "dag_task list \<Rightarrow> nat \<Rightarrow> nat \<Rightarrow> string list" where
  "by_id_range tasks a b = select_tasks (\<lambda>t. a \<le> id_number (task_id t) \<and> id_number (task_id t) \<le> b) tasks"

definition by_phase_range :: "dag_task list \<Rightarrow> nat \<Rightarrow> nat \<Rightarrow> string list" where
  "by_phase_range tasks a b = select_tasks (\<lambda>t. a \<le> phase t \<and> phase t \<le> b) tasks"

definition by_parallel_tasks :: "dag_task list \<Rightarrow> string list" where
  "by_parallel_tasks tasks = select_tasks (\<lambda>t. protocol_mode t = ''parallel'') tasks"

definition by_tracks :: "dag_task list \<Rightarrow> string list \<Rightarrow> string list" where
  "by_tracks tasks tracks = select_tasks (\<lambda>t. track t \<in> Some ` set tracks) tasks"

definition occurs_in :: "string \<Rightarrow> string \<Rightarrow> bool" where
  "occurs_in needle s \<longleftrightarrow> list_ex (\<lambda>i. take (length needle) (drop i s) = needle) [0..<Suc (length s)]"

definition by_slug_contains_any :: "dag_task list \<Rightarrow> string list \<Rightarrow> string list" where
  "by_slug_contains_any tasks needles = select_tasks (\<lambda>t. list_ex (\<lambda>needle. occurs_in needle (slug t)) needles) tasks"

definition by_phase_and_tracks :: "dag_task list \<Rightarrow> nat \<Rightarrow> string list \<Rightarrow> string list" where
  "by_phase_and_tracks tasks p tracks = select_tasks (\<lambda>t. phase t = p \<and> track t \<in> Some ` set tracks) tasks"

section \<open>The table\<close>

definition rule_of :: "string \<Rightarrow> string \<Rightarrow> string \<Rightarrow> string list \<Rightarrow> rule" where
  "rule_of name source_id cls targets = \<lparr>rule_source = source_id, rule_targets = targets, rule_class = cls, rule_name = name\<rparr>"

definition phase01_ids :: "dag_task list \<Rightarrow> string list" where
  "phase01_ids tasks =
    by_id_range tasks 31 58"

definition phase03_to_phase06_ids :: "dag_task list \<Rightarrow> string list" where
  "phase03_to_phase06_ids tasks =
    map task_id (filter (\<lambda>t. 3 \<le> phase t \<and> phase t \<le> 6) tasks)"

definition phase02_to_phase06_ids :: "dag_task list \<Rightarrow> string list" where
  "phase02_to_phase06_ids tasks =
    map task_id (filter (\<lambda>t. 2 \<le> phase t \<and> phase t \<le> 6) tasks)"

definition phase07_ids :: "dag_task list \<Rightarrow> string list" where
  "phase07_ids tasks =
    by_id_range tasks 392 428"

definition phase05_web_ids :: "dag_task list \<Rightarrow> string list" where
  "phase05_web_ids tasks =
    by_phase_and_tracks tasks 5 [''frontend_shared'', ''frontend_low_noise'', ''frontend_portal'',
      ''frontend_collaboration'', ''frontend_governance'']"

definition phase05_web_app_ids :: "dag_task list \<Rightarrow> string list" where
  "phase05_web_app_ids tasks =
    by_phase_and_tracks tasks 5 [''frontend_low_noise'', ''frontend_portal'', ''frontend_collaboration'',
      ''frontend_governance'']"

definition phase05_native_ids :: "dag_task list \<Rightarrow> string list" where
  "phase05_native_ids tasks =
    by_tracks tasks [''frontend_native'']"

definition phase06_frontend_regression_ids :: "dag_task list \<Rightarrow> string list" where
  "phase06_frontend_regression_ids tasks =
    by_tracks tasks [''testing_frontend_regression'']"

definition phase06_all_ids :: "dag_task list \<Rightarrow> string list" where
  "phase06_all_ids tasks =
    by_phase_and_tracks tasks 6 [''testing_schema_contract'', ''testing_engine_modules'',
      ''testing_state_machine_model'', ''testing_api_northbound'', ''testing_authority_integration'',
      ''testing_frontend_regression'', ''testing_performance_failure_security'', ''testing_release_acceptance'']"

definition provisioning_rules :: "dag_task list \<Rightarrow> rule list" where
  "provisioning_rules tasks = [
    rule_of ''dependency_register_precedes_phase01_provisioning'' ''pc_0018'' ''ARTIFACT_HARD'' (phase01_ids tasks),
    rule_of ''package_policy_precedes_phase02_to_phase06_implementation'' ''pc_0028'' ''POLICY_HARD''
      (phase02_to_phase06_ids tasks),
    rule_of ''dag_output_precedes_definition_of_done_map'' ''pc_0029'' ''ARTIFACT_HARD'' [''pc_0030''],
    rule_of ''definition_of_done_precedes_parallel_wave_execution'' ''pc_0030'' ''POLICY_HARD''
      (phase03_to_phase06_ids tasks),
    rule_of ''primary_stack_adr_precedes_workspace_scaffolds'' ''pc_0019'' ''POLICY_HARD'' [''pc_0059'', ''pc_0229'',
      ''pc_0289'']]"

definition runtime_adr_rules :: "dag_task list \<Rightarrow> rule list" where
  "runtime_adr_rules tasks = [
    rule_of ''storage_eventing_adr_precedes_storage_runtime_tracks'' ''pc_0020'' ''POLICY_HARD'' (ordered_unique
      (by_task_ids tasks [''pc_0050'', ''pc_0051'', ''pc_0052'', ''pc_0053'', ''pc_0066'', ''pc_0067'', ''pc_0069'',
      ''pc_0070'', ''pc_0071''] @ by_tracks tasks [''backend_manifest'', ''backend_collection'', ''backend_workflow'',
      ''backend_northbound'', ''backend_recovery'', ''backend_release_resilience''])),
    rule_of ''identity_adr_precedes_identity_and_session_tracks'' ''pc_0021'' ''POLICY_HARD'' (ordered_unique
      (by_task_ids tasks [''pc_0039'', ''pc_0040'', ''pc_0237'', ''pc_0291'', ''pc_0343'', ''pc_0378''] @ by_tracks
      tasks [''backend_access'', ''backend_northbound''])),
    rule_of ''authority_adr_precedes_authority_tracks'' ''pc_0022'' ''POLICY_HARD'' (ordered_unique (by_task_ids tasks
      [''pc_0034'', ''pc_0035'', ''pc_0036'', ''pc_0037'', ''pc_0038'', ''pc_0087''] @ by_tracks tasks
      [''backend_authority'', ''testing_authority_integration''])),
    rule_of ''projection_adr_precedes_projection_and_surface_tracks'' ''pc_0023'' ''POLICY_HARD'' (ordered_unique
      (by_tracks tasks [''backend_low_noise'', ''backend_portal'', ''backend_governance'', ''frontend_low_noise'',
      ''frontend_portal'', ''frontend_collaboration'', ''frontend_governance''] @ by_task_ids tasks [''pc_0290'',
      ''pc_0292'', ''pc_0295'']))]"

definition surface_adr_rules :: "dag_task list \<Rightarrow> rule list" where
  "surface_adr_rules tasks = [
    rule_of ''web_topology_adr_precedes_web_tracks'' ''pc_0024'' ''POLICY_HARD'' (ordered_unique ([''pc_0059''] @
      phase05_web_ids tasks @ phase06_frontend_regression_ids tasks)),
    rule_of ''native_strategy_adr_precedes_native_tracks'' ''pc_0025'' ''POLICY_HARD'' (ordered_unique ([''pc_0059'',
      ''pc_0364'', ''pc_0402'', ''pc_0403'', ''pc_0426''] @ phase05_native_ids tasks)),
    rule_of ''testing_adr_precedes_wave04_test_tracks'' ''pc_0026'' ''POLICY_HARD'' (ordered_unique ([''pc_0077'',
      ''pc_0079''] @ phase06_all_ids tasks)),
    rule_of ''release_adr_precedes_release_and_promotion_tracks'' ''pc_0027'' ''POLICY_HARD'' (ordered_unique
      ([''pc_0055''] @ by_tracks tasks [''backend_release_resilience'', ''testing_release_acceptance''] @ phase07_ids
      tasks))]"

definition resource_rules :: "dag_task list \<Rightarrow> rule list" where
  "resource_rules tasks = [
    rule_of ''environment_inventory_precedes_phase01_resource_work'' ''pc_0031'' ''RESOURCE_HARD'' (ordered_unique
      (by_id_range tasks 32 58)),
    rule_of ''browser_automation_workspace_precedes_browser_automation_tasks'' ''pc_0032'' ''RESOURCE_HARD''
      (by_id_range tasks 34 48),
    rule_of ''credential_policy_precedes_secret_capture_and_injection_tasks'' ''pc_0033'' ''POLICY_HARD''
      (ordered_unique (by_id_range tasks 34 49 @ [''pc_0057'', ''pc_0063''])),
    rule_of ''secrets_manager_precedes_runtime_secret_injection_and_rotation'' ''pc_0049'' ''RESOURCE_HARD''
      [''pc_0057'', ''pc_0063'', ''pc_0211''],
    rule_of ''build_signing_services_precede_release_artifact_and_distribution_tasks'' ''pc_0055'' ''RESOURCE_HARD''
      [''pc_0219'', ''pc_0220'', ''pc_0222'', ''pc_0400'', ''pc_0401'', ''pc_0402'', ''pc_0424'', ''pc_0425'',
      ''pc_0426''],
    rule_of ''edge_delivery_precedes_live_rollout'' ''pc_0056'' ''RESOURCE_HARD'' [''pc_0426''],
    rule_of ''cicd_and_preview_accounts_precede_test_and_release_execution'' ''pc_0057'' ''RESOURCE_HARD''
      [''pc_0079'', ''pc_0301'', ''pc_0400'', ''pc_0424''],
    rule_of ''external_credential_smoke_validation_precedes_authority_execution_and_pilot_use'' ''pc_0058''
      ''RESOURCE_HARD'' (ordered_unique (by_tracks tasks [''backend_authority'', ''testing_authority_integration''] @
      [''pc_0422'', ''pc_0423'']))]"

definition implementation_rules :: "dag_task list \<Rightarrow> rule list" where
  "implementation_rules tasks = [
    rule_of ''monorepo_bootstrap_precedes_parallel_implementation_waves'' ''pc_0059'' ''ARTIFACT_HARD''
      (phase03_to_phase06_ids tasks),
    rule_of ''schema_import_precedes_model_generation'' ''pc_0060'' ''ARTIFACT_HARD'' [''pc_0061''],
    rule_of ''generated_models_precede_typed_implementation_tracks'' ''pc_0061'' ''ARTIFACT_HARD'' (ordered_unique
      (phase03_to_phase06_ids tasks @ [''pc_0415''])),
    rule_of ''schema_bundle_baseline_precedes_schema_and_release_contract_work'' ''pc_0066'' ''ARTIFACT_HARD''
      [''pc_0100'', ''pc_0221'', ''pc_0222'', ''pc_0305'', ''pc_0306'', ''pc_0310'', ''pc_0374'', ''pc_0401'',
      ''pc_0414'', ''pc_0425''],
    rule_of ''command_runtime_scaffold_precedes_northbound_and_command_clients'' ''pc_0068'' ''ARTIFACT_HARD''
      (ordered_unique (by_tracks tasks [''backend_northbound'', ''testing_api_northbound''] @ [''pc_0234'',
      ''pc_0235'', ''pc_0295'']))]"

definition abstraction_rules :: "dag_task list \<Rightarrow> rule list" where
  "abstraction_rules tasks = [
    rule_of ''object_storage_abstraction_precedes_upload_and_quarantine_work'' ''pc_0069'' ''ARTIFACT_HARD''
      [''pc_0112'', ''pc_0119'', ''pc_0120'', ''pc_0164'', ''pc_0180'', ''pc_0181'', ''pc_0182'', ''pc_0188'',
      ''pc_0236'', ''pc_0255'', ''pc_0256'', ''pc_0263'', ''pc_0271'', ''pc_0297'', ''pc_0338'', ''pc_0369'',
      ''pc_0373'', ''pc_0396''],
    rule_of ''queue_abstraction_precedes_queue_and_worker_semantics'' ''pc_0070'' ''ARTIFACT_HARD'' [''pc_0149'',
      ''pc_0156'', ''pc_0206'', ''pc_0207'', ''pc_0208'', ''pc_0217'', ''pc_0321'', ''pc_0372'', ''pc_0380'',
      ''pc_0411''],
    rule_of ''streaming_abstraction_precedes_stream_and_resume_work'' ''pc_0071'' ''ARTIFACT_HARD'' [''pc_0161'',
      ''pc_0165'', ''pc_0235'', ''pc_0274'', ''pc_0295'', ''pc_0336'', ''pc_0339'', ''pc_0371'', ''pc_0394''],
    rule_of ''upload_transfer_service_precedes_upload_flows'' ''pc_0072'' ''ARTIFACT_HARD'' [''pc_0164'', ''pc_0180'',
      ''pc_0181'', ''pc_0182'', ''pc_0255'', ''pc_0256'', ''pc_0263'', ''pc_0271'', ''pc_0297'', ''pc_0308'',
      ''pc_0338'', ''pc_0369'', ''pc_0396''],
    rule_of ''cache_isolation_library_precedes_cache_and_recovery_work'' ''pc_0073'' ''ARTIFACT_HARD'' [''pc_0203'',
      ''pc_0204'', ''pc_0238'', ''pc_0294'', ''pc_0309'', ''pc_0368'', ''pc_0376'']]"

definition library_rules :: "dag_task list \<Rightarrow> rule list" where
  "library_rules tasks = [
    rule_of ''telemetry_bootstrap_precedes_observability_and_security_measurement'' ''pc_0075'' ''ARTIFACT_HARD''
      (ordered_unique (by_id_range tasks 214 218 @ by_id_range tasks 370 379 @ [''pc_0409''])),
    rule_of ''audit_pipeline_precedes_audit_and_investigation_work'' ''pc_0076'' ''ARTIFACT_HARD'' [''pc_0166'',
      ''pc_0194'', ''pc_0214'', ''pc_0215'', ''pc_0216'', ''pc_0217'', ''pc_0218'', ''pc_0286'', ''pc_0341'',
      ''pc_0375'', ''pc_0409''],
    rule_of ''seed_fixture_pack_precedes_acceptance_and_pilot_tracks'' ''pc_0077'' ''ARTIFACT_HARD'' (ordered_unique
      (by_tracks tasks [''testing_release_acceptance''] @ [''pc_0397'', ''pc_0419'', ''pc_0420'', ''pc_0421'',
      ''pc_0422'', ''pc_0423''])),
    rule_of ''schema_drift_automation_precedes_schema_compatibility_tracks'' ''pc_0080'' ''ARTIFACT_HARD''
      [''pc_0221'', ''pc_0222'', ''pc_0305'', ''pc_0374'', ''pc_0414'', ''pc_0425'']]"

definition release_rules :: "dag_task list \<Rightarrow> rule list" where
  "release_rules tasks = [
    rule_of ''api_schema_docs_site_precedes_internal_schema_publication'' ''pc_0081'' ''ARTIFACT_HARD'' [''pc_0415''],
    rule_of ''access_control_matrix_precedes_access_and_governance_surfaces'' ''pc_0083'' ''POLICY_HARD''
      (ordered_unique (by_tracks tasks [''backend_access'', ''backend_governance'', ''frontend_governance''])),
    rule_of ''release_conventions_precede_release_tracks'' ''pc_0084'' ''POLICY_HARD'' (ordered_unique (by_tracks
      tasks [''backend_release_resilience'', ''testing_release_acceptance''] @ phase07_ids tasks)),
    rule_of ''frontend_workspace_scaffold_serializes_wave03_web_work'' ''pc_0229'' ''CONCURRENCY_HARD'' (filter
      (\<lambda>r. r \<noteq> ''pc_0229'') (phase05_web_ids tasks))]"

definition serialising_rules :: "dag_task list \<Rightarrow> rule list" where
  "serialising_rules tasks = [
    rule_of ''design_tokens_serializes_wave03_web_apps'' ''pc_0230'' ''CONCURRENCY_HARD'' (phase05_web_app_ids tasks),
    rule_of ''interaction_layer_serializes_wave03_web_apps'' ''pc_0231'' ''CONCURRENCY_HARD'' (phase05_web_app_ids
      tasks),
    rule_of ''selector_catalog_serializes_wave03_web_apps'' ''pc_0232'' ''CONCURRENCY_HARD'' (ordered_unique
      (phase05_web_app_ids tasks @ phase06_frontend_regression_ids tasks)),
    rule_of ''frontend_state_containers_serialize_wave03_web_apps'' ''pc_0233'' ''CONCURRENCY_HARD''
      (phase05_web_app_ids tasks),
    rule_of ''xcode_scaffold_serializes_wave03_native_work'' ''pc_0289'' ''CONCURRENCY_HARD'' (filter (\<lambda>r. r
      \<noteq> ''pc_0289'') (phase05_native_ids tasks))]"

definition build_non_protocol_rules :: "dag_task list \<Rightarrow> rule list" where
  "build_non_protocol_rules tasks =
    provisioning_rules tasks @ runtime_adr_rules tasks @ surface_adr_rules tasks @ resource_rules tasks @
      implementation_rules tasks @ abstraction_rules tasks @ library_rules tasks @ release_rules tasks @
      serialising_rules tasks"

section \<open>Checklists of the roadmap's shape\<close>

text \<open>Task number \<open>n\<close> is \<open>pc_n\<close> with four digits; the phases and the tracks begin at the numbers of the roadmap.\<close>

definition roadmap_id :: "nat \<Rightarrow> string" where
  "roadmap_id n = ''pc_'' @ [digit_char (n div 1000 mod 10), digit_char (n div 100 mod 10), digit_char (n div 10 mod 10), digit_char (n mod 10)]"

definition phase_start :: "nat list" where
  "phase_start = [1, 31, 59, 85, 169, 229, 301, 392]"

definition track_start :: "(string \<times> nat) list" where
  "track_start = [(''backend_access'', 85), (''backend_manifest'', 97), (''backend_collection'', 109), (''backend_compute'', 121),
     (''backend_authority'', 133), (''backend_workflow'', 145), (''backend_northbound'', 157), (''backend_low_noise'', 169),
     (''backend_portal'', 179), (''backend_governance'', 189), (''backend_recovery'', 199),
     (''backend_retention_security_observability'', 209), (''backend_release_resilience'', 219), (''frontend_shared'', 229),
     (''frontend_low_noise'', 241), (''frontend_portal'', 253), (''frontend_collaboration'', 267), (''frontend_governance'', 279),
     (''frontend_native'', 289), (''testing_schema_contract'', 301), (''testing_engine_modules'', 311),
     (''testing_state_machine_model'', 323), (''testing_api_northbound'', 333), (''testing_authority_integration'', 345),
     (''testing_frontend_regression'', 355), (''testing_performance_failure_security'', 370), (''testing_release_acceptance'', 382)]"

definition placed :: "nat \<Rightarrow> dag_task \<Rightarrow> bool" where
  "placed n t \<longleftrightarrow> phase t < 8 \<and> phase_start ! phase t \<le> n \<and>
    (\<forall>(tr, start) \<in> set track_start. track t = Some tr \<longrightarrow> start \<le> n)"

definition roadmap :: "dag_task list \<Rightarrow> bool" where
  "roadmap tasks \<longleftrightarrow> length tasks = 428 \<and>
    (\<forall>i < 428. task_id (tasks ! i) = roadmap_id (Suc i) \<and> order_index (tasks ! i) = i \<and> placed (Suc i) (tasks ! i))"

lemma roadmap_task: "roadmap tasks \<Longrightarrow> t \<in> set tasks \<Longrightarrow>
    task_id t = roadmap_id (Suc (order_index t)) \<and> order_index t < 428 \<and> placed (Suc (order_index t)) t"
  by (auto simp: roadmap_def in_set_conv_nth)

lemma digit_char_not_underscore: "d < 10 \<Longrightarrow> digit_char d \<noteq> CHR ''_''"
  by (metis digit_char(1) not_digit(8))

lemma roadmap_number: "n \<le> 428 \<Longrightarrow> id_number (roadmap_id n) = n"
proof -
  assume n: "n \<le> 428"
  let ?ds = "[digit_char (n div 1000 mod 10), digit_char (n div 100 mod 10), digit_char (n div 10 mod 10), digit_char (n mod 10)]"
  have "takeWhile (\<lambda>c. c \<noteq> CHR ''_'') ?ds = ?ds" by (simp add: digit_char_not_underscore)
  then have "id_number (roadmap_id n) = read_nat ?ds" by (simp add: id_number_def roadmap_id_def)
  also have "\<dots> = n div 1000 mod 10 * 1000 + n div 100 mod 10 * 100 + n div 10 mod 10 * 10 + n mod 10"
    by (simp add: read_nat_Cons)
  also have "\<dots> = n"
  proof -
    have "n div 100 = n div 10 div 10" by (simp add: div_mult2_eq [symmetric])
    moreover have big: "n div 1000 = 0" and "n div 100 < 10" using n by simp_all
    moreover have "n div 10 div 10 * 100 + n div 10 mod 10 * 10 + n mod 10 = n"
      using div_mult_mod_eq [of n 10] div_mult_mod_eq [of "n div 10" 10] by linarith
    ultimately show ?thesis by (simp add: big)
  qed
  finally show ?thesis .
qed

lemma roadmap_distinct: "roadmap tasks \<Longrightarrow> distinct (map task_id tasks)"
  unfolding distinct_conv_nth
proof (intro allI impI)
  fix i j assume r: "roadmap tasks" and i: "i < length (map task_id tasks)" "j < length (map task_id tasks)" "i \<noteq> j"
  then have "id_number (map task_id tasks ! i) = Suc i" "id_number (map task_id tasks ! j) = Suc j"
    by (auto simp: roadmap_def roadmap_number)
  then show "map task_id tasks ! i \<noteq> map task_id tasks ! j" using i(3) by auto
qed

lemma roadmap_wf: "roadmap tasks \<Longrightarrow> wf_tasks tasks"
  using roadmap_distinct by (auto simp: wf_tasks_def roadmap_def intro!: nth_equalityI)

lemma update_fold_values: "t \<in> snd ` set (fold (\<lambda>t. AList.update (task_id t) t) ts acc) \<Longrightarrow> t \<in> set ts \<or> t \<in> snd ` set acc"
proof (induction ts arbitrary: acc)
  case (Cons a ts)
  then have "t \<in> set ts \<or> t \<in> snd ` set (AList.update (task_id a) a acc)" by simp
  then show ?case by (auto dest: update_values)
qed simp

lemma selected: "x \<in> set (select_tasks P tasks) \<Longrightarrow> \<exists>t \<in> set tasks. task_id t = x \<and> P t"
  using update_fold_values [of _ tasks "[]"] by (fastforce simp: select_tasks_def ordered_tasks_def)

section \<open>Every rule goes forward\<close>

definition ahead :: "dag_task list \<Rightarrow> nat \<Rightarrow> string list \<Rightarrow> bool" where
  "ahead tasks k xs \<longleftrightarrow> (\<forall>x \<in> set xs. \<exists>t \<in> set tasks. task_id t = x \<and> k \<le> order_index t)"

definition literals :: "nat \<Rightarrow> string list \<Rightarrow> bool" where
  "literals k xs \<longleftrightarrow> list_all (\<lambda>x. let n = id_number x in k < n \<and> n \<le> 428 \<and> x = roadmap_id n) xs"

lemma ahead_simps [simp]: "ahead tasks k (xs @ ys) \<longleftrightarrow> ahead tasks k xs \<and> ahead tasks k ys"
  "ahead tasks k (ordered_unique xs) \<longleftrightarrow> ahead tasks k xs"
  by (auto simp: ahead_def)

lemma ahead_literals:
  assumes "roadmap tasks" and "literals k xs"
  shows "ahead tasks k xs"
  unfolding ahead_def
proof
  fix x assume "x \<in> set xs"
  then obtain n where n: "k < n" "n \<le> 428" "x = roadmap_id n"
    using assms(2) by (auto simp: literals_def list_all_iff Let_def)
  then have "task_id (tasks ! (n - 1)) = x" "order_index (tasks ! (n - 1)) = n - 1" "tasks ! (n - 1) \<in> set tasks"
    using assms(1) by (auto simp: roadmap_def)
  then show "\<exists>t \<in> set tasks. task_id t = x \<and> k \<le> order_index t"
    using n(1) by (intro bexI [of _ "tasks ! (n - 1)"]) simp_all
qed

lemma ahead_select:
  assumes "\<And>t. t \<in> set tasks \<Longrightarrow> P t \<Longrightarrow> k \<le> order_index t"
  shows "ahead tasks k (select_tasks P tasks)"
  using selected assms by (fastforce simp: ahead_def)

lemma ahead_task_ids:
  assumes "roadmap tasks" and "literals k xs"
  shows "ahead tasks k (by_task_ids tasks xs)"
  unfolding by_task_ids_def
proof (rule ahead_select)
  fix t assume t: "t \<in> set tasks" "task_id t \<in> set xs"
  then have "k < id_number (task_id t)" using assms(2) by (auto simp: literals_def list_all_iff Let_def)
  then show "k \<le> order_index t" using roadmap_task [OF assms(1) t(1)] roadmap_number [of "Suc (order_index t)"] by simp
qed

lemma ahead_id_range:
  assumes "roadmap tasks" and "k < a"
  shows "ahead tasks k (by_id_range tasks a b)"
  unfolding by_id_range_def
proof (rule ahead_select)
  fix t assume t: "t \<in> set tasks" "a \<le> id_number (task_id t) \<and> id_number (task_id t) \<le> b"
  then show "k \<le> order_index t"
    using assms(2) roadmap_task [OF assms(1) t(1)] roadmap_number [of "Suc (order_index t)"] by simp
qed

definition tracks_after :: "nat \<Rightarrow> string list \<Rightarrow> bool" where
  "tracks_after k tracks \<longleftrightarrow> list_all (\<lambda>tr. case map_of track_start tr of None \<Rightarrow> False | Some start \<Rightarrow> k < start) tracks"

lemma track_ahead:
  assumes "roadmap tasks" and "tracks_after k tracks" and "t \<in> set tasks" and "track t \<in> Some ` set tracks"
  shows "k \<le> order_index t"
proof -
  obtain tr where tr: "track t = Some tr" "tr \<in> set tracks" using assms(4) by blast
  then obtain start where "map_of track_start tr = Some start" "k < start"
    using assms(2) by (auto simp: tracks_after_def list_all_iff split: option.splits)
  then have "track t = Some tr" "(tr, start) \<in> set track_start" "k < start" using tr map_of_SomeD by fast+
  then have "start \<le> Suc (order_index t)" using roadmap_task [OF assms(1,3)] unfolding placed_def by blast
  then show ?thesis using \<open>k < start\<close> by simp
qed

lemma ahead_tracks:
  assumes "roadmap tasks" and "tracks_after k tracks"
  shows "ahead tasks k (by_tracks tasks tracks)" and "ahead tasks k (by_phase_and_tracks tasks p tracks)"
  unfolding by_tracks_def by_phase_and_tracks_def using track_ahead [OF assms] by (auto intro!: ahead_select)

lemma phase_start_sorted: "p < 8 \<Longrightarrow> q < 8 \<Longrightarrow> p \<le> q \<Longrightarrow> phase_start ! p \<le> phase_start ! q"
proof -
  have "sorted phase_start" "length phase_start = 8" by code_simp+
  then show "p < 8 \<Longrightarrow> q < 8 \<Longrightarrow> p \<le> q \<Longrightarrow> phase_start ! p \<le> phase_start ! q" by (simp add: sorted_nth_mono)
qed

lemma ahead_phases:
  assumes "roadmap tasks" and "a < 8" and "k < phase_start ! a"
  shows "ahead tasks k (map task_id (filter (\<lambda>t. a \<le> phase t \<and> phase t \<le> b) tasks))"
proof -
  have "k \<le> order_index t" if "t \<in> set tasks" "a \<le> phase t" for t
  proof -
    have "placed (Suc (order_index t)) t" using roadmap_task [OF assms(1) that(1)] by blast
    then have "phase_start ! a \<le> Suc (order_index t)"
      using phase_start_sorted [OF assms(2) _ that(2)] unfolding placed_def by linarith
    then show ?thesis using assms(3) by simp
  qed
  then show ?thesis by (auto simp: ahead_def)
qed

lemma ahead_except:
  assumes "roadmap tasks" and "literals 0 [src]" and "ahead tasks (id_number src - 1) xs"
  shows "ahead tasks (id_number src) (filter (\<lambda>r. r \<noteq> src) xs)"
  unfolding ahead_def
proof
  fix x assume "x \<in> set (filter (\<lambda>r. r \<noteq> src) xs)"
  then obtain t where t: "t \<in> set tasks" "task_id t = x" "id_number src - 1 \<le> order_index t" "x \<noteq> src"
    using assms(3) by (auto simp: ahead_def)
  have "x = roadmap_id (Suc (order_index t))" using roadmap_task [OF assms(1) t(1)] t(2) by simp
  moreover have "0 < id_number src" "src = roadmap_id (id_number src)" using assms(2) by (simp_all add: literals_def Let_def)
  ultimately have "Suc (order_index t) \<noteq> id_number src" using t(4) by auto
  then have "id_number src \<le> order_index t" using t(3) by linarith
  then show "\<exists>t \<in> set tasks. task_id t = x \<and> id_number src \<le> order_index t" using t by blast
qed

definition rule_ahead :: "dag_task list \<Rightarrow> rule \<Rightarrow> bool" where
  "rule_ahead tasks r \<longleftrightarrow> literals 0 [rule_source r] \<and> ahead tasks (id_number (rule_source r)) (rule_targets r)"

lemma rule_ahead_of:
  "literals 0 [src] \<Longrightarrow> ahead tasks (id_number src) targets \<Longrightarrow> rule_ahead tasks (rule_of name src cls targets)"
  by (simp add: rule_ahead_def rule_of_def)

lemmas selector_defs = phase01_ids_def phase03_to_phase06_ids_def phase02_to_phase06_ids_def phase07_ids_def phase05_web_ids_def
  phase05_web_app_ids_def phase05_native_ids_def phase06_frontend_regression_ids_def phase06_all_ids_def

lemma ahead_append: "ahead tasks k xs \<Longrightarrow> ahead tasks k ys \<Longrightarrow> ahead tasks k (xs @ ys)"
  by simp

lemma ahead_unique: "ahead tasks k xs \<Longrightarrow> ahead tasks k (ordered_unique xs)"
  by simp

lemma ahead_listed: "roadmap tasks \<Longrightarrow> literals k (x # xs) \<Longrightarrow> ahead tasks k (x # xs)"
  by (rule ahead_literals)

lemma all_ConsI: "P x \<Longrightarrow> list_all P xs \<Longrightarrow> list_all P (x # xs)" and all_NilI: "list_all P []"
  by simp_all

lemmas ahead_intros = all_ConsI all_NilI rule_ahead_of ahead_append ahead_unique ahead_task_ids ahead_id_range ahead_tracks
  ahead_phases ahead_except ahead_listed

lemma provisioning_rules_ahead: assumes "roadmap tasks" shows "list_all (rule_ahead tasks) (provisioning_rules tasks)"
  unfolding provisioning_rules_def selector_defs by (intro ahead_intros assms) code_simp+

lemma runtime_adr_rules_ahead: assumes "roadmap tasks" shows "list_all (rule_ahead tasks) (runtime_adr_rules tasks)"
  unfolding runtime_adr_rules_def selector_defs by (intro ahead_intros assms) code_simp+

lemma surface_adr_rules_ahead: assumes "roadmap tasks" shows "list_all (rule_ahead tasks) (surface_adr_rules tasks)"
  unfolding surface_adr_rules_def selector_defs by (intro ahead_intros assms) code_simp+

lemma resource_rules_ahead: assumes "roadmap tasks" shows "list_all (rule_ahead tasks) (resource_rules tasks)"
  unfolding resource_rules_def selector_defs by (intro ahead_intros assms) code_simp+

lemma implementation_rules_ahead: assumes "roadmap tasks" shows "list_all (rule_ahead tasks) (implementation_rules tasks)"
  unfolding implementation_rules_def selector_defs by (intro ahead_intros assms) code_simp+

lemma abstraction_rules_ahead: assumes "roadmap tasks" shows "list_all (rule_ahead tasks) (abstraction_rules tasks)"
  unfolding abstraction_rules_def selector_defs by (intro ahead_intros assms) code_simp+

lemma library_rules_ahead: assumes "roadmap tasks" shows "list_all (rule_ahead tasks) (library_rules tasks)"
  unfolding library_rules_def selector_defs by (intro ahead_intros assms) code_simp+

lemma release_rules_ahead: assumes "roadmap tasks" shows "list_all (rule_ahead tasks) (release_rules tasks)"
  unfolding release_rules_def selector_defs by (intro ahead_intros assms) code_simp+

lemma serialising_rules_ahead: assumes "roadmap tasks" shows "list_all (rule_ahead tasks) (serialising_rules tasks)"
  unfolding serialising_rules_def selector_defs by (intro ahead_intros assms) code_simp+

section \<open>The graph of a roadmap is built\<close>

definition goes_forward :: "dag_task list \<Rightarrow> edge \<Rightarrow> bool" where
  "goes_forward tasks e \<longleftrightarrow> (\<exists>s \<in> set tasks. \<exists>t \<in> set tasks. task_id s = source_task_id e \<and> task_id t = target_task_id e \<and>
     order_index s < order_index t)"

lemma lookup_task: "distinct (map task_id tasks) \<Longrightarrow> t \<in> set tasks \<Longrightarrow> task_lookup tasks (task_id t) = Some t"
  unfolding task_lookup_def by (rule map_of_is_SomeI) (auto simp: comp_def rev_map [symmetric])

lemma add_edges_forward:
  assumes "distinct (map task_id tasks)"
  shows "list_all (goes_forward tasks) es \<Longrightarrow> \<exists>store'. foldE (add_edge tasks) store es = Inr store'"
proof (induction es arbitrary: store)
  case (Cons e es)
  then obtain s t where st: "s \<in> set tasks" "t \<in> set tasks" "task_id s = source_task_id e" "task_id t = target_task_id e"
    "order_index s < order_index t" by (auto simp: goes_forward_def)
  have "\<exists>store'. add_edge tasks store e = Inr store'"
    using lookup_task [OF assms st(1)] lookup_task [OF assms st(2)] st(3-5) by (simp add: add_edge_def)
  then show ?case using Cons by (auto simp: bindE_eq_Inr_iff)
qed simp

lemma spans_zip:
  assumes "(b, c) \<in> set (zip blocks (tl blocks))" and "list_all2 spans blocks tss"
  shows "\<exists>before bs cs after. concat tss = before @ bs @ cs @ after \<and> spans b bs \<and> spans c cs"
proof -
  obtain us vs where "blocks = us @ b # c # vs" using zip_tl_split [OF assms(1)] by (elim exE)
  then obtain xs bs cs ys where "tss = xs @ bs # cs # ys" "spans b bs" "spans c cs"
    using assms(2) by (auto simp: list_all2_append1 list_all2_Cons1)
  then show ?thesis by (intro exI [of _ "concat xs"] exI [of _ bs] exI [of _ cs] exI [of _ "concat ys"]) simp
qed

lemma protocol_edges_forward:
  assumes "wf_tasks tasks"
  shows "list_all (goes_forward tasks) (concat (map boundary_edges (zip (build_blocks tasks) (tl (build_blocks tasks)))))"
  unfolding list_all_iff
proof
  fix e assume "e \<in> set (concat (map boundary_edges (zip (build_blocks tasks) (tl (build_blocks tasks)))))"
  then obtain b c where bc: "(b, c) \<in> set (zip (build_blocks tasks) (tl (build_blocks tasks)))"
    and ends: "source_task_id e \<in> set (blk_tasks b)" "target_task_id e \<in> set (blk_tasks c)"
    by (auto simp: boundary_edges_def)
  obtain tss where tss: "list_all2 spans (build_blocks tasks) tss" "concat tss = tasks" using blocks_span by blast
  obtain before bs cs after where split: "tasks = before @ bs @ cs @ after" "spans b bs" "spans c cs"
    using spans_zip [OF bc tss(1)] tss(2) by blast
  obtain s t where st: "s \<in> set bs" "t \<in> set cs" "task_id s = source_task_id e" "task_id t = target_task_id e"
    using ends split(2,3) by (auto simp: spans_def)
  have "sorted_wrt (<) (map order_index tasks)" using assms by (simp add: wf_tasks_def)
  then have "order_index s < order_index t" using st(1,2) by (auto simp: split(1) sorted_wrt_append)
  then show "goes_forward tasks e" using st split(1) unfolding goes_forward_def by auto
qed

lemma rules_ahead: assumes "roadmap tasks" shows "list_all (rule_ahead tasks) (build_non_protocol_rules tasks)"
  using provisioning_rules_ahead [OF assms] runtime_adr_rules_ahead [OF assms] surface_adr_rules_ahead [OF assms]
    resource_rules_ahead [OF assms] implementation_rules_ahead [OF assms] abstraction_rules_ahead [OF assms]
    library_rules_ahead [OF assms] release_rules_ahead [OF assms] serialising_rules_ahead [OF assms]
  by (simp add: build_non_protocol_rules_def)

lemma rule_edges_forward:
  assumes "roadmap tasks" and "rule_ahead tasks r"
  shows "list_all (goes_forward tasks) (rule_edges r)"
  unfolding list_all_iff
proof
  fix e assume "e \<in> set (rule_edges r)"
  then have e: "source_task_id e = rule_source r" "target_task_id e \<in> set (rule_targets r)" by (auto simp: rule_edges_def)
  then obtain t where t: "t \<in> set tasks" "task_id t = target_task_id e" "id_number (rule_source r) \<le> order_index t"
    using assms(2) by (auto simp: rule_ahead_def ahead_def)
  have n: "0 < id_number (rule_source r)" "id_number (rule_source r) \<le> 428" "rule_source r = roadmap_id (id_number (rule_source r))"
    using assms(2) by (simp_all add: rule_ahead_def literals_def Let_def)
  define s where "s = tasks ! (id_number (rule_source r) - 1)"
  have "s \<in> set tasks" "task_id s = rule_source r" "order_index s = id_number (rule_source r) - 1"
    using assms(1) n unfolding s_def by (auto simp: roadmap_def)
  then show "goes_forward tasks e" using t n(1) e(1) unfolding goes_forward_def by force
qed

lemma roadmap_edges:
  assumes "roadmap tasks"
  shows "\<exists>edges. build_hard_edges tasks (build_non_protocol_rules tasks) (build_blocks tasks) = Inr edges"
proof -
  note wf = roadmap_wf [OF assms]
  then have ids: "distinct (map task_id tasks)" by (simp add: wf_tasks_def)
  obtain e1 where e1: "build_protocol_edges tasks (build_blocks tasks) = Inr e1"
    using add_edges_forward [OF ids protocol_edges_forward [OF wf]] unfolding build_protocol_edges_def by blast
  have "list_all (goes_forward tasks) (concat (map rule_edges (build_non_protocol_rules tasks)))"
    using rules_ahead [OF assms] rule_edges_forward [OF assms] by (auto simp: list_all_iff)
  then obtain e2 where "foldE (add_edge tasks) e1 (concat (map rule_edges (build_non_protocol_rules tasks))) = Inr e2"
    using add_edges_forward [OF ids] by blast
  then show ?thesis using e1 by (simp add: build_hard_edges_def)
qed

text \<open>A roadmap of sequential tasks.\<close>

definition roadmap_phase :: "nat \<Rightarrow> nat" where
  "roadmap_phase n = length (takeWhile (\<lambda>start. start \<le> n) phase_start) - 1"

definition roadmap_slug :: "nat \<Rightarrow> string" where
  "roadmap_slug p = ''phase_0'' @ [digit_char p] @ ''_seq_001_task''"

definition plain_roadmap :: "dag_task list" where
  "plain_roadmap = map (\<lambda>i. \<lparr>task_id = roadmap_id (Suc i), slug = roadmap_slug (roadmap_phase (Suc i)), task_status = '' '', order_index = i,
     phase = roadmap_phase (Suc i), protocol_mode = ''sequential'', wave_id = None, track = None,
     block_id = roadmap_id (Suc i)\<rparr>) [0..<428]"

lemma roadmap_phase_start: "0 < n \<Longrightarrow> roadmap_phase n < 8 \<and> phase_start ! roadmap_phase n \<le> n"
  by (simp add: roadmap_phase_def phase_start_def)

lemma plain_roadmap: "roadmap plain_roadmap"
  using roadmap_phase_start by (auto simp: roadmap_def plain_roadmap_def placed_def)

end
