(* ===== verification/Dag_Outputs.thy ===== *)
theory Dag_Outputs
  imports Dag_Rules
begin

text \<open>
  What \<open>tools/analysis/build_agent_execution_dag.py\<close> derives from the graph: soft-context edges, block levels, the node
  rows with their current state, the summary, and \<open>main\<close> up to rendering. Package rows, citations and the fields of a
  row that only copy a task are left out.
\<close>

section \<open>Soft context\<close>

definition group_key :: "dag_task \<Rightarrow> string \<times> string" where
  "group_key t = (block_id t, case track t of None \<Rightarrow> [] | Some tr \<Rightarrow> tr)"

definition grouped :: "dag_task \<Rightarrow> bool" where
  "grouped t \<longleftrightarrow> protocol_mode t = ''parallel'' \<and> track t \<noteq> None"

definition track_group :: "dag_task list \<Rightarrow> string \<times> string \<Rightarrow> dag_task list" where
  "track_group tasks key = sort_key order_index (filter (\<lambda>t. grouped t \<and> group_key t = key) tasks)"

definition soft_edge :: "string \<times> string \<Rightarrow> dag_task \<times> dag_task \<Rightarrow> edge" where
  "soft_edge key p = \<lparr>source_task_id = task_id (fst p), target_task_id = task_id (snd p), edge_class = ''SOFT_CONTEXT'',
     rule_id = ''same_track_adjacency__'' @ fst key @ ''__'' @ snd key\<rparr>"

definition group_edges :: "dag_task list \<Rightarrow> edge_store \<Rightarrow> string \<times> string \<Rightarrow> edge list" where
  "group_edges tasks hard_edges key =
    (let ordered = track_group tasks key in
     map (soft_edge key) (filter (\<lambda>(s, t). (task_id s, task_id t) \<notin> set (edge_pairs hard_edges)) (zip ordered (tl ordered))))"

definition build_soft_context_edges :: "dag_task list \<Rightarrow> edge_store \<Rightarrow> dag_error + edge_store" where
  "build_soft_context_edges tasks hard_edges =
    bindE (foldE (add_edge tasks) []
        (concat (map (group_edges tasks hard_edges) (sort (remdups (map group_key (filter grouped tasks))))))) (\<lambda>edges.
      Inr (sort_key (\<lambda>(_, e). (index_of tasks (target_task_id e), index_of tasks (source_task_id e), rule_id e)) edges))"

section \<open>Block levels\<close>

record block_level =
  bl_block :: block
  bl_task_count :: nat
  bl_min_level :: int
  bl_max_level :: int

definition block_level :: "(string \<rightharpoonup> int) \<Rightarrow> block \<Rightarrow> dag_error + block_level" where
  "block_level levels b =
    bindE (mapE (lookup levels) (blk_tasks b)) (\<lambda>task_levels.
      Inr \<lparr>bl_block = b, bl_task_count = length (blk_tasks b), bl_min_level = Min (set task_levels),
        bl_max_level = Max (set task_levels)\<rparr>)"

definition build_block_levels :: "block list \<Rightarrow> (string \<rightharpoonup> int) \<Rightarrow> dag_error + block_level list" where
  "build_block_levels blocks levels = mapE (block_level levels) blocks"

section \<open>Node rows\<close>

datatype node_state = completed | active_claimed | claimable_unclaimed | blocked_by_hard_dependency

record node_row =
  nr_task :: dag_task
  nr_level :: int
  hard_predecessor_task_ids :: "string list"
  soft_context_predecessor_task_ids :: "string list"
  current_state :: node_state
  currently_unsatisfied_hard_predecessor_ids :: "string list"

definition soft_predecessors :: "edge_store \<Rightarrow> string \<Rightarrow> string list" where
  "soft_predecessors soft_edges r = map (\<lambda>e. source_task_id (snd e)) (filter (\<lambda>e. target_task_id (snd e) = r) soft_edges)"

definition state_of :: "snapshot \<Rightarrow> dag_task \<Rightarrow> node_state" where
  "state_of eligibility t =
    (if task_status t = ''X'' then completed
     else if task_id t \<in> set (active_claimed_task_ids eligibility) then active_claimed
     else if task_id t \<in> set (claimable_unclaimed_task_ids eligibility) then claimable_unclaimed
     else blocked_by_hard_dependency)"

definition unresolved :: "dag_task list \<Rightarrow> string \<Rightarrow> dag_error + bool" where
  "unresolved tasks r =
    (case task_lookup tasks r of None \<Rightarrow> Inl (Unknown_Task r) | Some t \<Rightarrow> Inr (task_status t \<noteq> ''X''))"

definition node_row ::
  "dag_task list \<Rightarrow> (string \<Rightarrow> string list) \<Rightarrow> edge_store \<Rightarrow> (string \<rightharpoonup> int) \<Rightarrow> snapshot \<Rightarrow> dag_task \<Rightarrow> dag_error + node_row" where
  "node_row tasks preds soft_edges levels eligibility t =
    bindE (mapE (unresolved tasks) (preds (task_id t))) (\<lambda>open_flags.
    bindE (lookup levels (task_id t)) (\<lambda>level.
      Inr \<lparr>nr_task = t, nr_level = level, hard_predecessor_task_ids = preds (task_id t),
        soft_context_predecessor_task_ids = ordered_unique (soft_predecessors soft_edges (task_id t)),
        current_state = state_of eligibility t,
        currently_unsatisfied_hard_predecessor_ids = map fst (filter snd (zip (preds (task_id t)) open_flags))\<rparr>))"

definition build_node_rows ::
  "dag_task list \<Rightarrow> (string \<Rightarrow> string list) \<Rightarrow> edge_store \<Rightarrow> (string \<rightharpoonup> int) \<Rightarrow> snapshot \<Rightarrow> dag_error + node_row list" where
  "build_node_rows tasks preds soft_edges levels eligibility = mapE (node_row tasks preds soft_edges levels eligibility) tasks"

section \<open>The program\<close>

text \<open>\<open>dict(sorted(Counter(...).items()))\<close>.\<close>

definition class_counts :: "edge_store \<Rightarrow> (string \<times> nat) list" where
  "class_counts edges =
    (let classes = map (\<lambda>e. edge_class (snd e)) edges in map (\<lambda>c. (c, count_list classes c)) (sort (remdups classes)))"

record dag_outputs =
  out_blocks :: "block list"
  out_hard_edges :: edge_store
  out_soft_edges :: edge_store
  out_class_counts :: "(string \<times> nat) list"
  out_levels :: "level_row list"
  out_max_parallelism :: nat
  out_critical_path :: "string list"
  out_snapshot :: snapshot
  out_nodes :: "node_row list"
  out_block_levels :: "block_level list"

definition critical_path_ids ::
  "dag_task list \<Rightarrow> (string \<Rightarrow> string list) \<Rightarrow> (string \<rightharpoonup> int) \<Rightarrow> (dag_error + string list) option" where
  "critical_path_ids tasks preds levels = critical_path (\<lambda>r. int (id_number r)) (map task_id tasks) preds levels"

definition dag_payloads ::
  "dag_task list \<Rightarrow> edge_store \<Rightarrow> edge_store \<Rightarrow> (string \<rightharpoonup> int) \<times> level_row list \<times> nat \<Rightarrow> string list \<Rightarrow> dag_error + dag_outputs" where
  "dag_payloads tasks hard_edges soft_edges lv path =
    (case lv of (levels, rows, width) \<Rightarrow>
      bindE (build_node_rows tasks (predecessors tasks hard_edges) soft_edges levels (build_eligibility_snapshot tasks)) (\<lambda>nodes.
      bindE (build_block_levels (build_blocks tasks) levels) (\<lambda>block_levels.
        Inr \<lparr>out_blocks = build_blocks tasks, out_hard_edges = hard_edges, out_soft_edges = soft_edges,
          out_class_counts = class_counts hard_edges, out_levels = rows, out_max_parallelism = width,
          out_critical_path = path, out_snapshot = build_eligibility_snapshot tasks, out_nodes = nodes,
          out_block_levels = block_levels\<rparr>)))"

text \<open>\<open>main\<close> on parsed tasks; \<open>None\<close> is a run that does not return.\<close>

definition build_dag :: "dag_task list \<Rightarrow> rule list \<Rightarrow> (dag_error + dag_outputs) option" where
  "build_dag tasks rules =
    (case build_hard_edges tasks rules (build_blocks tasks) of
       Inl e \<Rightarrow> Some (Inl e)
     | Inr hard_edges \<Rightarrow> (case build_soft_context_edges tasks hard_edges of
         Inl e \<Rightarrow> Some (Inl e)
       | Inr soft_edges \<Rightarrow>
           (let preds = predecessors tasks hard_edges in
            case assert_acyclic (map task_id tasks) preds (successors tasks hard_edges) of
              None \<Rightarrow> None
            | Some (Inl e) \<Rightarrow> Some (Inl e)
            | Some (Inr _) \<Rightarrow> (case build_levels tasks preds of
                Inl e \<Rightarrow> Some (Inl e)
              | Inr lv \<Rightarrow> (case critical_path_ids tasks preds (fst lv) of
                  None \<Rightarrow> None
                | Some (Inl e) \<Rightarrow> Some (Inl e)
                | Some (Inr path) \<Rightarrow> Some (dag_payloads tasks hard_edges soft_edges lv path))))))"

datatype main_error = Checklist checklist_error | Graph dag_error

definition dag_main :: "string \<Rightarrow> (main_error + dag_outputs) option" where
  "dag_main content =
    (case parse_tasks content of
       Inl e \<Rightarrow> Some (Inl (Checklist e))
     | Inr tasks \<Rightarrow> map_option (\<lambda>r. case r of Inl e \<Rightarrow> Inl (Graph e) | Inr out \<Rightarrow> Inr out)
         (build_dag tasks (build_non_protocol_rules tasks)))"

section \<open>When a graph is built\<close>

lemma order_injective: "wf_tasks tasks \<Longrightarrow> s \<in> set tasks \<Longrightarrow> t \<in> set tasks \<Longrightarrow> order_index s = order_index t \<Longrightarrow> s = t"
  by (metis distinct_map distinct_upt inj_onD wf_tasks_def)

lemma group_edges_forward:
  assumes "wf_tasks tasks"
  shows "list_all (goes_forward tasks) (group_edges tasks hard_edges key)"
  unfolding list_all_iff
proof
  fix e assume "e \<in> set (group_edges tasks hard_edges key)"
  then obtain s t where st: "(s, t) \<in> set (zip (track_group tasks key) (tl (track_group tasks key)))" "e = soft_edge key (s, t)"
    by (auto simp: group_edges_def Let_def)
  obtain us vs where split: "track_group tasks key = us @ s # t # vs" using zip_tl_split [OF st(1)] by (elim exE)
  have "distinct (track_group tasks key)"
    using assms by (simp add: track_group_def wf_tasks_def distinct_map)
  then have "s \<noteq> t" unfolding split by simp
  moreover have "sorted (map order_index (track_group tasks key))" by (simp add: track_group_def)
  then have "order_index s \<le> order_index t" unfolding split by (simp add: sorted_append)
  moreover have "set (track_group tasks key) \<subseteq> set tasks" by (auto simp: track_group_def)
  then have "s \<in> set tasks" "t \<in> set tasks" unfolding split by simp_all
  ultimately have "order_index s < order_index t" using order_injective [OF assms, of s t] by linarith
  then show "goes_forward tasks e" using \<open>s \<in> set tasks\<close> \<open>t \<in> set tasks\<close> st(2) by (auto simp: goes_forward_def soft_edge_def)
qed

lemma soft_edges_built:
  assumes "wf_tasks tasks"
  shows "\<exists>soft_edges. build_soft_context_edges tasks hard_edges = Inr soft_edges"
proof -
  let ?keys = "sort (remdups (map group_key (filter grouped tasks)))"
  have "list_all (goes_forward tasks) (concat (map (group_edges tasks hard_edges) ?keys))"
    using group_edges_forward [OF assms] by (auto simp: list_all_iff)
  then obtain store where "foldE (add_edge tasks) [] (concat (map (group_edges tasks hard_edges) ?keys)) = Inr store"
    using add_edges_forward assms unfolding wf_tasks_def by blast
  then show ?thesis by (simp add: build_soft_context_edges_def)
qed

lemma mapE_list_all2: "mapE f xs = Inr ys \<Longrightarrow> list_all2 (\<lambda>x y. f x = Inr y) xs ys"
  by (induction xs arbitrary: ys) (auto simp: bindE_eq_Inr_iff)

lemma mapE_total: "(\<And>x. x \<in> set xs \<Longrightarrow> \<exists>y. f x = Inr y) \<Longrightarrow> \<exists>ys. mapE f xs = Inr ys"
  by (induction xs) (auto simp: bindE_eq_Inr_iff)

lemma predecessor_known:
  assumes "wf_tasks tasks" and "build_hard_edges tasks rules (build_blocks tasks) = Inr edges"
    and "y \<in> set (predecessors tasks edges (task_id t))" and "t \<in> set tasks"
  shows "\<exists>s \<in> set tasks. task_id s = y \<and> order_index s < order_index t"
proof -
  have "(y, task_id t) \<in> set (sorted_pairs tasks edges)" using assms(3) by (simp add: mem_predecessors)
  from pair_forward [OF assms(1) hard_edges_ok [OF assms(2)] this]
  obtain s where s: "s \<in> set tasks" "task_id s = y" "position (map task_id tasks) y < position (map task_id tasks) (task_id t)" by auto
  then show ?thesis using position_task [OF assms(1) s(1)] position_task [OF assms(1,4)] by auto
qed

lemma unresolved_known: "wf_tasks tasks \<Longrightarrow> s \<in> set tasks \<Longrightarrow> unresolved tasks (task_id s) = Inr (task_status s \<noteq> ''X'')"
  by (simp add: unresolved_def lookup_task wf_tasks_def)

lemma list_all2_left: "list_all2 P xs ys \<Longrightarrow> x \<in> set xs \<Longrightarrow> \<exists>y \<in> set ys. P x y"
  by (induction rule: list_all2_induct) auto

lemma block_tasks_known: "b \<in> set (build_blocks tasks) \<Longrightarrow> r \<in> set (blk_tasks b) \<Longrightarrow> r \<in> task_id ` set tasks"
proof -
  assume b: "b \<in> set (build_blocks tasks)" "r \<in> set (blk_tasks b)"
  obtain tss where tss: "list_all2 spans (build_blocks tasks) tss" "concat tss = tasks" using blocks_span by blast
  obtain ts where ts: "ts \<in> set tss" "spans b ts" using list_all2_left [OF tss(1) b(1)] by blast
  then obtain x where "x \<in> set ts" "task_id x = r" using b(2) by (auto simp: spans_def)
  moreover have "set ts \<subseteq> set tasks" using ts(1) unfolding tss(2) [symmetric] by auto
  ultimately show "r \<in> task_id ` set tasks" by blast
qed

lemma payloads_built:
  assumes wf: "wf_tasks tasks" and edges: "build_hard_edges tasks rules (build_blocks tasks) = Inr edges"
    and levels: "dom levels = task_id ` set tasks"
  shows "\<exists>out. dag_payloads tasks edges soft_edges (levels, rows, width) path = Inr out"
proof -
  have level: "\<exists>n. lookup levels r = Inr n" if "r \<in> task_id ` set tasks" for r
    using that unfolding levels [symmetric] by (auto simp: lookup_def)
  have "\<exists>row. node_row tasks (predecessors tasks edges) soft_edges levels el t = Inr row" if t: "t \<in> set tasks" for t el
  proof -
    have "\<exists>flags. mapE (unresolved tasks) (predecessors tasks edges (task_id t)) = Inr flags"
      using predecessor_known [OF wf edges _ t] unresolved_known [OF wf] by (intro mapE_total) blast
    then show ?thesis using level [of "task_id t"] t by (auto simp: node_row_def)
  qed
  then obtain nodes where nodes: "build_node_rows tasks (predecessors tasks edges) soft_edges levels (build_eligibility_snapshot tasks) = Inr nodes"
    using mapE_total [of tasks "node_row tasks (predecessors tasks edges) soft_edges levels (build_eligibility_snapshot tasks)"]
    unfolding build_node_rows_def by blast
  have "\<exists>bl. block_level levels b = Inr bl" if "b \<in> set (build_blocks tasks)" for b
    using mapE_total [of "blk_tasks b" "lookup levels"] level block_tasks_known [OF that] by (auto simp: block_level_def)
  then obtain block_levels where "build_block_levels (build_blocks tasks) levels = Inr block_levels"
    using mapE_total [of "build_blocks tasks" "block_level levels"] unfolding build_block_levels_def by blast
  then show ?thesis using nodes by (simp add: dag_payloads_def)
qed

lemma levels_built:
  assumes wf: "wf_tasks tasks" and "tasks \<noteq> []" and edges: "build_hard_edges tasks rules (build_blocks tasks) = Inr edges"
  shows "\<exists>levels rows width. build_levels tasks (predecessors tasks edges) = Inr (levels, rows, width) \<and> dom levels = task_id ` set tasks"
proof -
  obtain levels where run: "level_by_task (map task_id tasks) (predecessors tasks edges) = Inr levels"
    and dom: "dom levels = task_id ` set tasks"
    using levels_of_graph [OF wf edges] by (elim exE conjE)
  have "\<exists>n. lookup levels (task_id t) = Inr n" if "t \<in> set tasks" for t
    using that dom by (auto simp: lookup_def dom_def split: option.splits)
  then obtain ns where ns: "mapE (\<lambda>t. lookup levels (task_id t)) tasks = Inr ns"
    using mapE_total [of tasks "\<lambda>t. lookup levels (task_id t)"] by blast
  then have "ns \<noteq> []" using assms(2) mapE_Inr_length by fastforce
  then have "sort (remdups ns) \<noteq> []" by (metis remdups_eq_nil_iff set_empty set_sort)
  then show ?thesis using run ns dom by (simp add: build_levels_def in_order [OF wf] Let_def)
qed

lemma build_dag_total:
  assumes wf: "wf_tasks tasks" and ne: "tasks \<noteq> []" and edges: "build_hard_edges tasks rules (build_blocks tasks) = Inr edges"
  shows "\<exists>out. build_dag tasks rules = Some (Inr out)"
proof -
  note g = accepted_graph [OF wf edges]
  obtain soft_edges where soft: "build_soft_context_edges tasks edges = Inr soft_edges" using soft_edges_built [OF wf] by blast
  obtain levels rows width where lv: "build_levels tasks (predecessors tasks edges) = Inr (levels, rows, width)"
    "dom levels = task_id ` set tasks" using levels_built [OF wf ne edges] by blast
  obtain path where path: "critical_path_ids tasks (predecessors tasks edges) levels = Some (Inr path)"
    using dag.critical_path_longest [where tasks = tasks and rules = rules and levels = levels and number = "\<lambda>r. int (id_number r)"]
      ne lv(2) by (auto simp: g critical_path_ids_def)
  obtain out where "dag_payloads tasks edges soft_edges (levels, rows, width) path = Inr out"
    using payloads_built [OF wf edges lv(2)] by blast
  then show ?thesis
    using edges soft lv(1) path dag.check_passes [of tasks rules, unfolded g] by (simp add: build_dag_def Let_def)
qed

text \<open>C28: on a well-formed checklist the program always returns, and it returns the graph exactly when the hard edges are
  accepted; soft edges, cycle check, levels, critical path, node rows and block levels then never fail.\<close>

theorem graph_is_built_when_edges_are_accepted:
  assumes "wf_tasks tasks" and "tasks \<noteq> []"
  shows "build_dag tasks rules \<noteq> None \<and>
    ((\<exists>out. build_dag tasks rules = Some (Inr out)) \<longleftrightarrow> (\<exists>edges. build_hard_edges tasks rules (build_blocks tasks) = Inr edges))"
proof (cases "build_hard_edges tasks rules (build_blocks tasks)")
  case (Inl e)
  then show ?thesis by (simp add: build_dag_def)
next
  case (Inr edges)
  then show ?thesis using build_dag_total [OF assms Inr] by auto
qed

lemma graph_is_built_when_edges_are_accepted_witness:
  "\<exists>out. build_dag plain_roadmap (build_non_protocol_rules plain_roadmap) = Some (Inr out)"
proof -
  have "length plain_roadmap = 428" using plain_roadmap by (simp add: roadmap_def)
  then have "plain_roadmap \<noteq> []" by auto
  then show ?thesis
    using graph_is_built_when_edges_are_accepted [OF roadmap_wf [OF plain_roadmap]] roadmap_edges [OF plain_roadmap] by blast
qed

lemma roadmap_nonempty: "roadmap tasks \<Longrightarrow> tasks \<noteq> []"
  by (auto simp: roadmap_def)

text \<open>C21: on every checklist text of the roadmap's shape the whole program returns its outputs: no rule of the table names a missing
  task or goes backwards, and no later step fails.\<close>

theorem roadmap_program_succeeds:
  assumes "parse_tasks content = Inr tasks" and "roadmap tasks"
  shows "\<exists>out. dag_main content = Some (Inr out)"
proof -
  obtain edges where "build_hard_edges tasks (build_non_protocol_rules tasks) (build_blocks tasks) = Inr edges"
    using roadmap_edges [OF assms(2)] by blast
  then obtain out where "build_dag tasks (build_non_protocol_rules tasks) = Some (Inr out)"
    using build_dag_total [OF roadmap_wf [OF assms(2)] roadmap_nonempty [OF assms(2)]] by blast
  then show ?thesis using assms(1) by (simp add: dag_main_def)
qed

lemma roadmap_slugs: "list_all (\<lambda>p. sequential_match (roadmap_slug p) = Some p \<and> CHR '' '' \<notin> set (roadmap_slug p) \<and>
    list_all (\<lambda>c. \<not> line_break c) (roadmap_slug p)) [0..<8]"
  by code_simp

lemma roadmap_slug: "p < 8 \<Longrightarrow> sequential_match (roadmap_slug p) = Some p \<and> CHR '' '' \<notin> set (roadmap_slug p) \<and>
    (\<forall>c \<in> set (roadmap_slug p). \<not> line_break c)"
proof -
  assume "p < 8"
  then have "p \<in> set [0..<8]" unfolding set_upt by simp
  then show ?thesis using roadmap_slugs unfolding list_all_iff by blast
qed

lemma plain_roadmap_parses: "parse_tasks (render_checklist plain_roadmap) = Inr plain_roadmap"
proof -
  have "plain_task i (plain_roadmap ! i)" if i: "i < 428" for i
  proof -
    have p: "roadmap_phase (Suc i) < 8" using roadmap_phase_start [of "Suc i"] by simp
    have "all_digits [digit_char (Suc i div 1000 mod 10), digit_char (Suc i div 100 mod 10), digit_char (Suc i div 10 mod 10),
        digit_char (Suc i mod 10)]" by simp
    then have "\<exists>number. roadmap_id (Suc i) = ''pc_'' @ number \<and> number \<noteq> [] \<and> all_digits number"
      unfolding roadmap_id_def by blast
    then show ?thesis
      using i roadmap_slug [OF p] by (simp add: plain_task_def plain_roadmap_def task_of_def) (simp add: roadmap_slug_def)
  qed
  then have "\<forall>i < length ([] @ plain_roadmap). plain_task i (([] @ plain_roadmap) ! i)" and len: "length plain_roadmap = 428"
    by (simp_all add: plain_roadmap_def)
  then have "foldE parse_line [] (map render_task plain_roadmap) = Inr plain_roadmap" "\<forall>t \<in> set plain_roadmap. \<exists>i. plain_task i t"
    using parse_rendered [of "[]" plain_roadmap] by (auto simp: in_set_conv_nth) blast
  then show ?thesis using len by (simp add: parse_tasks_def render_lines)
qed

lemma roadmap_program_succeeds_witness: "\<exists>out. dag_main (render_checklist plain_roadmap) = Some (Inr out)"
  using roadmap_program_succeeds [OF plain_roadmap_parses plain_roadmap] .

section \<open>What the node rows say\<close>

lemma first_incomplete_after:
  assumes "wf_tasks tasks" and "find (\<lambda>t. task_status t \<noteq> ''X'') tasks = Some f" and "s \<in> set tasks" and "order_index s < order_index f"
  shows "task_status s = ''X''"
proof -
  obtain i where i: "i < length tasks" "f = tasks ! i" "\<forall>j < i. task_status (tasks ! j) = ''X''"
    using assms(2) by (auto simp: find_Some_iff)
  obtain j where j: "j < length tasks" "s = tasks ! j" using assms(3) by (auto simp: in_set_conv_nth)
  have order: "order_index (tasks ! k) = k" if "k < length tasks" for k
    using assms(1) that by (metis add_0 nth_map nth_upt wf_tasks_def)
  then show ?thesis using i j assms(4) by auto
qed

lemma block_is_a_segment:
  assumes wf: "wf_tasks tasks" and blocks: "distinct (map blk_id (build_blocks tasks))"
    and "t \<in> set tasks" and "f \<in> set tasks" and same: "block_id t = block_id f"
    and "s \<in> set tasks" and "order_index s < order_index t" and other: "block_id s \<noteq> block_id t"
  shows "order_index s < order_index f"
proof -
  obtain tss where tss: "list_all2 spans (build_blocks tasks) tss" "concat tss = tasks" using blocks_span by blast
  have index: "\<exists>i < length tss. x \<in> set (tss ! i) \<and> blk_id (build_blocks tasks ! i) = block_id x" if "x \<in> set tasks" for x
  proof -
    obtain ts where ts: "ts \<in> set tss" "x \<in> set ts" using \<open>x \<in> set tasks\<close> unfolding tss(2) [symmetric] by auto
    then obtain i where i: "i < length tss" "tss ! i = ts" by (auto simp: in_set_conv_nth)
    then have "spans (build_blocks tasks ! i) ts" using tss(1) by (auto simp: list_all2_conv_all_nth)
    then show ?thesis using i ts(2) by (intro exI [of _ i]) (simp add: spans_def)
  qed
  obtain i where i: "i < length tss" "t \<in> set (tss ! i)" "blk_id (build_blocks tasks ! i) = block_id t" using index [OF assms(3)] by blast
  obtain j where j: "j < length tss" "f \<in> set (tss ! j)" "blk_id (build_blocks tasks ! j) = block_id f" using index [OF assms(4)] by blast
  have "j = i"
  proof (rule ccontr)
    assume "j \<noteq> i"
    then have "blk_id (build_blocks tasks ! j) \<noteq> blk_id (build_blocks tasks ! i)"
      using blocks i(1) j(1) list_all2_lengthD [OF tss(1)] unfolding distinct_conv_nth by simp
    then show False using i(3) j(3) same by simp
  qed
  then have f: "f \<in> set (tss ! i)" using j(2) by simp
  obtain before after where split: "tasks = before @ tss ! i @ after"
    using i(1) tss(2) by (metis append.assoc concat.simps(2) concat_append id_take_nth_drop)
  have sorted: "sorted_wrt (<) (map order_index tasks)" using wf by (simp add: wf_tasks_def)
  have "spans (build_blocks tasks ! i) (tss ! i)" using tss(1) i(1) by (simp add: list_all2_conv_all_nth)
  then have "s \<notin> set (tss ! i)" using other i(3) by (auto simp: spans_def)
  moreover have "s \<notin> set after"
  proof
    assume "s \<in> set after"
    then have "order_index t < order_index s" using sorted i(2) unfolding split by (simp add: sorted_wrt_append)
    then show False using assms(7) by simp
  qed
  ultimately have "s \<in> set before" using assms(6) unfolding split by auto
  then show ?thesis using sorted f unfolding split by (simp add: sorted_wrt_append)
qed

lemma snapshot_block:
  assumes "r \<in> set (active_claimed_task_ids (build_eligibility_snapshot tasks)) \<union> set (claimable_unclaimed_task_ids (build_eligibility_snapshot tasks))"
  shows "\<exists>f t. find (\<lambda>t. task_status t \<noteq> ''X'') tasks = Some f \<and> t \<in> set tasks \<and> task_id t = r \<and> block_id t = block_id f"
proof (cases "find (\<lambda>t. task_status t \<noteq> ''X'') tasks")
  case (Some f)
  then show ?thesis using assms find_Some [OF Some]
    by (auto simp: build_eligibility_snapshot_def Let_def split: if_splits)
qed (use assms in \<open>simp add: build_eligibility_snapshot_def\<close>)

lemma built_steps:
  assumes "build_dag tasks rules = Some (Inr out)"
  shows "\<exists>edges soft_edges lv path. build_hard_edges tasks rules (build_blocks tasks) = Inr edges \<and>
    build_levels tasks (predecessors tasks edges) = Inr lv \<and> dag_payloads tasks edges soft_edges lv path = Inr out"
  using assms by (auto simp: build_dag_def Let_def split: sum.splits option.splits) blast

lemma unresolved_list:
  assumes wf: "wf_tasks tasks" and edges: "build_hard_edges tasks rules (build_blocks tasks) = Inr edges" and t: "t \<in> set tasks"
    and flags: "mapE (unresolved tasks) (predecessors tasks edges (task_id t)) = Inr open_flags"
  shows "set (map fst (filter snd (zip (predecessors tasks edges (task_id t)) open_flags))) =
    {r \<in> set (predecessors tasks edges (task_id t)). \<exists>s \<in> set tasks. task_id s = r \<and> task_status s \<noteq> ''X''}"
proof -
  let ?open = "\<lambda>r. \<exists>s \<in> set tasks. task_id s = r \<and> task_status s \<noteq> ''X''"
  have ids: "distinct (map task_id tasks)" using wf by (simp add: wf_tasks_def)
  have "unresolved tasks r = Inr (?open r)" if pred: "r \<in> set (predecessors tasks edges (task_id t))" for r
  proof -
    obtain s where s: "s \<in> set tasks" "task_id s = r" using predecessor_known [OF wf edges pred t] by blast
    have "?open r \<longleftrightarrow> task_status s \<noteq> ''X''" using s ids by (metis distinct_map inj_onD)
    then show ?thesis using unresolved_known [OF wf s(1)] s(2) by simp
  qed
  then have "mapE (unresolved tasks) (predecessors tasks edges (task_id t)) = Inr (map ?open (predecessors tasks edges (task_id t)))"
    by (rule mapE_pure)
  then have "open_flags = map ?open (predecessors tasks edges (task_id t))" using flags by simp
  then have "map fst (filter snd (zip (predecessors tasks edges (task_id t)) open_flags)) = filter ?open (predecessors tasks edges (task_id t))"
    by (simp add: zip_map2 zip_same_conv_map filter_map comp_def)
  then show ?thesis by auto
qed

text \<open>What a node row says, over the tasks alone: \<open>waits\<close> bounds the tasks that a row which may be
  worked on still waits for.\<close>

definition claimed_or_claimable :: "node_row \<Rightarrow> bool" where
  "claimed_or_claimable row \<longleftrightarrow> current_state row \<in> {active_claimed, claimable_unclaimed}"

definition waits :: "dag_task list \<Rightarrow> node_row \<Rightarrow> (dag_task \<Rightarrow> bool) \<Rightarrow> bool" where
  "waits tasks row P \<longleftrightarrow> (\<forall>r \<in> set (currently_unsatisfied_hard_predecessor_ids row).
    \<exists>s \<in> set tasks. task_id s = r \<and> task_status s \<noteq> ''X'' \<and> order_index s < order_index (nr_task row) \<and> P s)"

definition row_agrees :: "dag_task list \<Rightarrow> node_row \<Rightarrow> bool" where
  "row_agrees tasks row \<longleftrightarrow>
    (current_state row = completed \<longleftrightarrow> task_status (nr_task row) = ''X'') \<and>
    set (currently_unsatisfied_hard_predecessor_ids row) =
      {r \<in> set (hard_predecessor_task_ids row). \<exists>s \<in> set tasks. task_id s = r \<and> task_status s \<noteq> ''X''} \<and>
    (claimed_or_claimable row \<longrightarrow> (\<exists>f. find (\<lambda>t. task_status t \<noteq> ''X'') tasks = Some f \<and>
      block_id f = block_id (nr_task row) \<and> waits tasks row (\<lambda>s. order_index f \<le> order_index s)))"

lemma row_waits:
  assumes wf: "wf_tasks tasks" and edges: "build_hard_edges tasks rules (build_blocks tasks) = Inr edges" and t: "t \<in> set tasks"
    and row: "node_row tasks (predecessors tasks edges) soft_edges levels (build_eligibility_snapshot tasks) t = Inr row"
  shows "nr_task row = t \<and> row_agrees tasks row \<and> (distinct (map blk_id (build_blocks tasks)) \<and> claimed_or_claimable row \<longrightarrow>
    waits tasks row (\<lambda>s. block_id s = block_id t))"
proof -
  obtain open_flags where flags: "mapE (unresolved tasks) (predecessors tasks edges (task_id t)) = Inr open_flags"
    and task: "nr_task row = t" and hard: "hard_predecessor_task_ids row = predecessors tasks edges (task_id t)"
    and state: "current_state row = state_of (build_eligibility_snapshot tasks) t"
    and open_list: "currently_unsatisfied_hard_predecessor_ids row = map fst (filter snd (zip (predecessors tasks edges (task_id t)) open_flags))"
    using row by (auto simp: node_row_def bindE_eq_Inr_iff)
  note open_set = unresolved_list [OF wf edges t flags, folded open_list]
  have front: "\<exists>f. find (\<lambda>t. task_status t \<noteq> ''X'') tasks = Some f \<and> block_id f = block_id t \<and>
      waits tasks row (\<lambda>s. order_index f \<le> order_index s) \<and>
      (distinct (map blk_id (build_blocks tasks)) \<longrightarrow> waits tasks row (\<lambda>s. block_id s = block_id t))"
    if claim: "claimed_or_claimable row"
  proof -
    obtain f u where f: "find (\<lambda>t. task_status t \<noteq> ''X'') tasks = Some f" and u: "u \<in> set tasks" "task_id u = task_id t" "block_id u = block_id f"
      using snapshot_block [of "task_id t" tasks] claim state
      by (auto simp: claimed_or_claimable_def state_of_def split: if_splits)
    have "u = t" using u(1,2) t wf by (metis distinct_map inj_onD wf_tasks_def)
    have f_in: "f \<in> set tasks" using find_Some [OF f] by blast
    have late: "\<exists>s \<in> set tasks. task_id s = r \<and> task_status s \<noteq> ''X'' \<and> order_index s < order_index t \<and> \<not> order_index s < order_index f"
      if r: "r \<in> set (currently_unsatisfied_hard_predecessor_ids row)" for r
    proof -
      obtain s where s: "s \<in> set tasks" "task_id s = r" "order_index s < order_index t"
        using predecessor_known [OF wf edges _ t, of r] r unfolding open_set by blast
      moreover have "task_status s \<noteq> ''X''" using r s(1,2) wf unfolding open_set by (auto simp: wf_tasks_def distinct_map dest: inj_onD)
      ultimately show ?thesis using first_incomplete_after [OF wf f s(1)] by blast
    qed
    then have "waits tasks row (\<lambda>s. order_index f \<le> order_index s)" unfolding waits_def task by (meson not_less)
    moreover have "waits tasks row (\<lambda>s. block_id s = block_id t)" if blocks: "distinct (map blk_id (build_blocks tasks))"
      using late block_is_a_segment [OF wf blocks t f_in] u(3) \<open>u = t\<close> unfolding waits_def task by metis
    ultimately show ?thesis using f u(3) \<open>u = t\<close> by auto
  qed
  moreover have "current_state row = completed \<longleftrightarrow> task_status t = ''X''" unfolding state by (simp add: state_of_def)
  ultimately show ?thesis using open_set hard task unfolding row_agrees_def by auto
qed

text \<open>C22: in a graph built from a checklist whose task ids are distinct and whose tasks are numbered in order there is one node
  row for each task; a row is completed exactly when its task is; its unsatisfied list holds exactly the hard predecessors that
  are not completed; and a claimed or claimable row has the block id of the first open task of the checklist and waits only for
  open tasks between that task and itself. If moreover no two blocks of the checklist have the same id, which the code does not
  check, it waits only for tasks of its own block.\<close>

theorem node_rows_agree_with_the_graph:
  assumes wf: "wf_tasks tasks" and built: "build_dag tasks rules = Some (Inr out)"
  shows "map nr_task (out_nodes out) = tasks \<and> (\<forall>row \<in> set (out_nodes out). row_agrees tasks row) \<and>
    (distinct (map blk_id (build_blocks tasks)) \<longrightarrow> (\<forall>row \<in> set (out_nodes out). claimed_or_claimable row \<longrightarrow>
      waits tasks row (\<lambda>s. block_id s = block_id (nr_task row))))"
proof -
  obtain edges soft_edges lv path where edges: "build_hard_edges tasks rules (build_blocks tasks) = Inr edges"
    and payload: "dag_payloads tasks edges soft_edges lv path = Inr out"
    using built_steps [OF built] by blast
  obtain levels where nodes: "mapE (node_row tasks (predecessors tasks edges) soft_edges levels (build_eligibility_snapshot tasks)) tasks
      = Inr (out_nodes out)"
    using payload by (cases lv) (auto simp: dag_payloads_def build_node_rows_def bindE_eq_Inr_iff)
  let ?row = "node_row tasks (predecessors tasks edges) soft_edges levels (build_eligibility_snapshot tasks)"
  have pairs: "list_all2 (\<lambda>t row. ?row t = Inr row) tasks (out_nodes out)" using nodes mapE_list_all2 by blast
  have claims: "nr_task row = t \<and> row_agrees tasks row \<and> (distinct (map blk_id (build_blocks tasks)) \<and> claimed_or_claimable row \<longrightarrow>
      waits tasks row (\<lambda>s. block_id s = block_id t))" if "t \<in> set tasks" "?row t = Inr row" for t row
    using row_waits [OF wf edges that] .
  have "map nr_task (out_nodes out) = tasks"
    using pairs claims by (auto simp: list_all2_conv_all_nth intro!: nth_equalityI)
  moreover have "row_agrees tasks row \<and> (distinct (map blk_id (build_blocks tasks)) \<and> claimed_or_claimable row \<longrightarrow>
      waits tasks row (\<lambda>s. block_id s = block_id (nr_task row)))" if row: "row \<in> set (out_nodes out)" for row
  proof -
    obtain t where "t \<in> set tasks" "?row t = Inr row" using list_all2_right [OF pairs row] by blast
    from claims [OF this] show ?thesis by simp
  qed
  ultimately show ?thesis by simp
qed

text \<open>A wave whose second task has a serialising rule on the first: the second is claimable while it waits.\<close>

definition wave_task :: "nat \<Rightarrow> string \<Rightarrow> dag_task" where
  "wave_task i r = \<lparr>task_id = r, slug = r, task_status = '' '', order_index = i, phase = 5, protocol_mode = ''parallel'',
     wave_id = Some ''w'', track = Some ''frontend_shared'', block_id = ''w''\<rparr>"

definition wave_tasks :: "dag_task list" where
  "wave_tasks = [wave_task 0 ''pc_0229'', wave_task 1 ''pc_0230'']"

definition wave_rules :: "rule list" where
  "wave_rules = [rule_of ''frontend_workspace_scaffold_serializes_wave03_web_work'' ''pc_0229'' ''CONCURRENCY_HARD''
     (filter (\<lambda>r. r \<noteq> ''pc_0229'') (phase05_web_ids wave_tasks))]"

lemma claimable_row_can_wait:
  "case build_dag wave_tasks wave_rules of
     Some (Inr out) \<Rightarrow> list_ex (\<lambda>row. current_state row = claimable_unclaimed \<and> task_id (nr_task row) = ''pc_0230'' \<and>
       currently_unsatisfied_hard_predecessor_ids row = [''pc_0229'']) (out_nodes out)
   | _ \<Rightarrow> False"
  by code_simp

text \<open>A wave that is interrupted by a sequential task: its two blocks have the same id, and the task after the
  interruption is claimable while it waits for the tasks before it, the sequential task of another block among them.\<close>

definition split_wave_tasks :: "dag_task list" where
  "split_wave_tasks = [wave_task 0 ''pc_0001'',
     \<lparr>task_id = ''seq_0002'', slug = ''seq_0002'', task_status = '' '', order_index = 1, phase = 5, protocol_mode = ''sequential'',
       wave_id = None, track = None, block_id = ''seq_0002''\<rparr>,
     wave_task 2 ''pc_0003'']"

lemma split_wave_waits_across_blocks:
  "wf_tasks split_wave_tasks \<and> map blk_id (build_blocks split_wave_tasks) = [''w'', ''seq_0002'', ''w''] \<and>
   (case build_dag split_wave_tasks [] of
     Some (Inr out) \<Rightarrow> list_ex (\<lambda>row. current_state row = claimable_unclaimed \<and> task_id (nr_task row) = ''pc_0003'' \<and>
       ''seq_0002'' \<in> set (currently_unsatisfied_hard_predecessor_ids row)) (out_nodes out)
   | _ \<Rightarrow> False)"
  by code_simp

lemma node_rows_agree_with_the_graph_witness:
  "\<exists>out. build_dag wave_tasks wave_rules = Some (Inr out) \<and> map nr_task (out_nodes out) = wave_tasks \<and>
    (\<forall>row \<in> set (out_nodes out). row_agrees wave_tasks row \<and> (claimed_or_claimable row \<longrightarrow>
      waits wave_tasks row (\<lambda>s. block_id s = block_id (nr_task row))))"
proof -
  have "wf_tasks wave_tasks" "distinct (map blk_id (build_blocks wave_tasks))" by code_simp+
  moreover obtain out where "build_dag wave_tasks wave_rules = Some (Inr out)"
    using claimable_row_can_wait by (auto split: option.splits sum.splits)
  ultimately show ?thesis using node_rows_agree_with_the_graph by blast
qed

end
