(* ===== verification/Exact_Decimal.thy ===== *)
theory Exact_Decimal
  imports Py_Digits
begin

text \<open>
  The exact decimals of \<open>python/validators/src/taxat_validators/primitives.py\<close>: literals, rescaling, sums
  and comparison. The constructors of \<open>primitive_error\<close> are the codes of \<open>CanonicalPrimitiveError\<close>;
  \<open>Value_Error\<close> is Python's own \<open>ValueError\<close>, which \<open>int\<close> and \<open>str\<close> raise on numerals of more than 4300 digits.
\<close>

datatype primitive_error =
    DECIMAL_NON_STRING_INPUT | DECIMAL_NON_CANONICAL_LITERAL | DECIMAL_NEGATIVE_ZERO_FORBIDDEN
  | DECIMAL_SCALE_TRUNCATION
  | TIME_STRING_REQUIRED | TIME_INVALID_INSTANT | TIME_INVALID_BUSINESS_DATE | TIME_INVALID_PERIOD_LABEL
  | IDENTIFIER_STRING_REQUIRED | IDENTIFIER_EMPTY
  | HASH_NON_FINITE_NUMBER | HASH_NEGATIVE_ZERO_NUMBER | HASH_DUPLICATE_NORMALIZED_KEY | HASH_UNSUPPORTED_VALUE
  | Value_Error | Overflow_Error

record exact_decimal =
  unscaled :: int
  dscale :: int

definition decimal :: "int \<Rightarrow> int \<Rightarrow> exact_decimal" where
  "decimal u s = \<lparr>unscaled = u, dscale = s\<rparr>"

lemma decimal_simps [simp]: "unscaled (decimal u s) = u" "dscale (decimal u s) = s"
  "decimal u s = decimal u' s' \<longleftrightarrow> u = u' \<and> s = s'"
  by (simp_all add: decimal_def)

lemma decimal_eta: "decimal (unscaled d) (dscale d) = d"
  by (simp add: decimal_def)

definition int_max_str_digits :: nat where
  "int_max_str_digits = 4300"

text \<open>\<open>int(s)\<close> for a string of digits, and \<open>str(n)\<close> for \<open>n \<ge> 0\<close>.\<close>

definition int_of_str :: "string \<Rightarrow> primitive_error + int" where
  "int_of_str s = (if length s > int_max_str_digits then Inl Value_Error else Inr (int (read_nat s)))"

definition str_of_int :: "int \<Rightarrow> primitive_error + string" where
  "str_of_int n = (let s = str_nat (nat n) in if length s > int_max_str_digits then Inl Value_Error else Inr s)"

section \<open>Literals\<close>

text \<open>\<open>partition(".")\<close>: the text before the first point and after it.\<close>

definition partition_point :: "string \<Rightarrow> string \<times> string" where
  "partition_point s = (takeWhile (\<lambda>c. c \<noteq> CHR ''.'') s, drop 1 (dropWhile (\<lambda>c. c \<noteq> CHR ''.'') s))"

definition unsigned_part :: "string \<Rightarrow> string" where
  "unsigned_part s = (if s \<noteq> [] \<and> hd s = CHR ''-'' then tl s else s)"

text \<open>\<open>^-?(0|[1-9]\d*)(\.\d+)?$\<close>: the whole part has no point, so it is what precedes the first one.\<close>

definition exact_decimal_pattern :: "string \<Rightarrow> bool" where
  "exact_decimal_pattern s =
    (let u = unsigned_part s; (whole, fraction) = partition_point u
     in plain_numeral whole \<and> (CHR ''.'' \<in> set u \<longrightarrow> fraction \<noteq> [] \<and> all_digits fraction))"

definition parse_decimal :: "json \<Rightarrow> primitive_error + exact_decimal" where
  "parse_decimal v =
    (case v of
       JStr s \<Rightarrow>
         if \<not> exact_decimal_pattern s then Inl DECIMAL_NON_CANONICAL_LITERAL
         else
           (let negative = hd s = CHR ''-''; (whole, fraction) = partition_point (unsigned_part s)
            in bindE (int_of_str (whole @ fraction)) (\<lambda>d.
                 (let u = if negative then - d else d
                  in if negative \<and> u = 0 then Inl DECIMAL_NEGATIVE_ZERO_FORBIDDEN
                     else Inr (decimal u (int (length fraction))))))
     | _ \<Rightarrow> Inl DECIMAL_NON_STRING_INPUT)"

definition decimal_zero :: "int \<Rightarrow> exact_decimal" where
  "decimal_zero s = decimal 0 s"

definition to_canonical_string :: "exact_decimal \<Rightarrow> primitive_error + string" where
  "to_canonical_string d =
    bindE (str_of_int \<bar>unscaled d\<bar>) (\<lambda>ds.
      (let padded = if dscale d \<noteq> 0 then rjust ds (nat (dscale d + 1)) else ds;
           literal = if dscale d = 0 then padded
             else (let whole = slice_to padded (- dscale d) in if whole = [] then ''0'' else whole)
               @ ''.'' @ slice_from padded (- dscale d)
       in Inr (if unscaled d < 0 then ''-'' @ literal else literal)))"

section \<open>Arithmetic\<close>

definition with_scale :: "exact_decimal \<Rightarrow> int \<Rightarrow> primitive_error + exact_decimal" where
  "with_scale d s =
    (if s = dscale d then Inr d
     else if s > dscale d then Inr (decimal (unscaled d * 10 ^ nat (s - dscale d)) s)
     else (let divisor = 10 ^ nat (dscale d - s)
           in if unscaled d mod divisor \<noteq> 0 then Inl DECIMAL_SCALE_TRUNCATION
              else Inr (decimal (unscaled d div divisor) s)))"

definition result_scale :: "exact_decimal \<Rightarrow> exact_decimal \<Rightarrow> int option \<Rightarrow> int" where
  "result_scale a b explicit_scale =
    (case explicit_scale of Some s \<Rightarrow> s | None \<Rightarrow> max (dscale a) (dscale b))"

definition decimal_add :: "exact_decimal \<Rightarrow> exact_decimal \<Rightarrow> int option \<Rightarrow> primitive_error + exact_decimal" where
  "decimal_add a b explicit_scale =
    (let s = result_scale a b explicit_scale
     in bindE (with_scale a s) (\<lambda>x. bindE (with_scale b s) (\<lambda>y. Inr (decimal (unscaled x + unscaled y) s))))"

definition decimal_subtract :: "exact_decimal \<Rightarrow> exact_decimal \<Rightarrow> int option \<Rightarrow> primitive_error + exact_decimal" where
  "decimal_subtract a b explicit_scale =
    (let s = result_scale a b explicit_scale
     in bindE (with_scale a s) (\<lambda>x. bindE (with_scale b s) (\<lambda>y. Inr (decimal (unscaled x - unscaled y) s))))"

definition decimal_compare :: "exact_decimal \<Rightarrow> exact_decimal \<Rightarrow> primitive_error + int" where
  "decimal_compare a b =
    (let s = max (dscale a) (dscale b)
     in bindE (with_scale a s) (\<lambda>x. bindE (with_scale b s) (\<lambda>y.
          Inr (if unscaled x < unscaled y then - 1 else if unscaled x > unscaled y then 1 else 0))))"

definition decimal_abs :: "exact_decimal \<Rightarrow> exact_decimal" where
  "decimal_abs d = decimal \<bar>unscaled d\<bar> (dscale d)"

section \<open>Printing inverts parsing\<close>

lemma partition_point_append:
  "CHR ''.'' \<notin> set w \<Longrightarrow> partition_point (w @ CHR ''.'' # f) = (w, f)"
  "CHR ''.'' \<notin> set w \<Longrightarrow> partition_point w = (w, [])"
proof -
  assume "CHR ''.'' \<notin> set w"
  then have w: "\<And>x. x \<in> set w \<Longrightarrow> x \<noteq> CHR ''.''" by blast
  have "takeWhile (\<lambda>c. c \<noteq> CHR ''.'') (w @ t) = w @ takeWhile (\<lambda>c. c \<noteq> CHR ''.'') t"
    "dropWhile (\<lambda>c. c \<noteq> CHR ''.'') (w @ t) = dropWhile (\<lambda>c. c \<noteq> CHR ''.'') t" for t
    by (rule takeWhile_append2, rule w, simp, rule dropWhile_append2, rule w, simp)
  note append = this
  show "partition_point (w @ CHR ''.'' # f) = (w, f)" by (simp add: partition_point_def append)
  show "partition_point w = (w, [])"
    using append [of "[]"] by (simp only: partition_point_def append_Nil2 takeWhile.simps dropWhile.simps drop_Nil)
qed

lemma no_point: "all_digits w \<Longrightarrow> CHR ''.'' \<notin> set w"
  using all_digits_mem by fastforce

lemma no_minus: "plain_numeral w \<Longrightarrow> hd (w @ t) \<noteq> CHR ''-''"
  by (cases w) (auto simp: plain_numeral_def)

text \<open>The literals: an optional sign, a plain numeral and an optional fraction.\<close>

definition literal_of :: "bool \<Rightarrow> string \<Rightarrow> string \<Rightarrow> string" where
  "literal_of negative w f = (if negative then ''-'' else []) @ w @ (if f = [] then [] else ''.'' @ f)"

lemma literal_parts:
  assumes "plain_numeral w" and "all_digits f"
  shows "hd (literal_of negative w f) = CHR ''-'' \<longleftrightarrow> negative"
    and "partition_point (unsigned_part (literal_of negative w f)) = (w, f)"
    and "exact_decimal_pattern (literal_of negative w f)"
proof -
  let ?u = "w @ (if f = [] then [] else ''.'' @ f)"
  have w: "w \<noteq> []" "all_digits w" using assms(1) by (simp_all add: plain_numeral_def)
  show "hd (literal_of negative w f) = CHR ''-'' \<longleftrightarrow> negative"
    using no_minus [OF assms(1)] by (auto simp: literal_of_def)
  have u: "unsigned_part (literal_of negative w f) = ?u"
    using no_minus [OF assms(1)] w(1) by (auto simp: literal_of_def unsigned_part_def)
  have p: "partition_point ?u = (w, f)" using no_point [OF w(2)] by (simp add: partition_point_append)
  show "partition_point (unsigned_part (literal_of negative w f)) = (w, f)" unfolding u by (rule p)
  show "exact_decimal_pattern (literal_of negative w f)"
    unfolding exact_decimal_pattern_def Let_def u p using assms by (auto dest: no_point [OF w(2), THEN notE])
qed

lemma pattern_literal:
  assumes "exact_decimal_pattern s"
  shows "\<exists>negative w f. s = literal_of negative w f \<and> plain_numeral w \<and> all_digits f"
proof -
  define u where "u = unsigned_part s"
  define w where "w = takeWhile (\<lambda>c. c \<noteq> CHR ''.'') u"
  define f where "f = drop 1 (dropWhile (\<lambda>c. c \<noteq> CHR ''.'') u)"
  have ok: "plain_numeral w" "CHR ''.'' \<in> set u \<Longrightarrow> f \<noteq> [] \<and> all_digits f"
    using assms by (auto simp: exact_decimal_pattern_def Let_def partition_point_def u_def w_def f_def)
  have u_eq: "u = w @ (if f = [] then [] else ''.'' @ f) \<and> all_digits f"
  proof (cases "CHR ''.'' \<in> set u")
    case True
    then have "dropWhile (\<lambda>c. c \<noteq> CHR ''.'') u \<noteq> []" "hd (dropWhile (\<lambda>c. c \<noteq> CHR ''.'') u) = CHR ''.''"
      using hd_dropWhile [of "\<lambda>c. c \<noteq> CHR ''.''" u] by (auto simp: dropWhile_eq_Nil_conv)
    then have "dropWhile (\<lambda>c. c \<noteq> CHR ''.'') u = ''.'' @ f"
      by (cases "dropWhile (\<lambda>c. c \<noteq> CHR ''.'') u") (auto simp: f_def)
    then show ?thesis using ok(2) [OF True] takeWhile_dropWhile_id [of "\<lambda>c. c \<noteq> CHR ''.''" u] by (simp add: w_def)
  next
    case False
    then have "w = u" "f = []"
      using partition_point_append(2) [of u] by (simp_all add: w_def f_def partition_point_def)
    then show ?thesis by simp
  qed
  have "s = literal_of (s \<noteq> [] \<and> hd s = CHR ''-'') w f"
    using u_eq by (cases s) (auto simp: literal_of_def u_def unsigned_part_def)
  then show ?thesis using ok(1) u_eq by blast
qed

text \<open>The digits of a decimal with its scale, split at the point.\<close>

lemma slices: "slice_to (w @ f) (- int (length f)) = w" "slice_from (w @ f) (- int (length f)) = f" if "f \<noteq> []"
  using that by (auto simp: slice_to_def slice_from_def slice_index_def)

lemma print_literal:
  assumes "plain_numeral w" and "all_digits f" and "length (w @ f) \<le> int_max_str_digits"
    and nonzero: "negative \<longrightarrow> read_nat (w @ f) \<noteq> 0"
  shows "to_canonical_string (decimal ((if negative then - 1 else 1) * int (read_nat (w @ f))) (int (length f)))
    = Inr (literal_of negative w f)"
proof -
  let ?n = "read_nat (w @ f)"
  have w: "w \<noteq> []" "all_digits w" using assms(1) by (simp_all add: plain_numeral_def)
  have len: "length (str_nat ?n) \<le> length (w @ f)"
    using w assms(2) length_str_nat [of "length (w @ f)" ?n] read_nat_less [of "w @ f"] by simp
  have n: "nat \<bar>(if negative then - 1 else 1) * int ?n\<bar> = ?n" by simp
  have str: "str_of_int \<bar>(if negative then - 1 else 1) * int ?n\<bar> = Inr (str_nat ?n)"
    using len assms(3) by (simp add: str_of_int_def Let_def n)
  have neg: "(if negative then - 1 else 1) * int ?n < 0 \<longleftrightarrow> negative" using nonzero by auto
  show ?thesis
  proof (cases "f = []")
    case True
    then show ?thesis using assms(1) str neg by (simp add: to_canonical_string_def Let_def literal_of_def)
  next
    case False
    have padded: "rjust (str_nat ?n) (nat (int (length f) + 1)) = w @ f"
    proof (cases "w = ''0''")
      case True
      have "length (str_nat ?n) \<le> length f"
        using False assms(2) read_nat_less [of f] length_str_nat [of "length f" ?n]
        by (simp add: True read_nat_Cons)
      then have "length (rjust (str_nat ?n) (nat (int (length f) + 1))) = length (w @ f)"
        by (simp add: rjust_def True)
      then show ?thesis using assms(2) w(2)
        by (intro read_nat_inj) (simp_all add: rjust_def read_nat_append)
    next
      case nz: False
      then have "plain_numeral (w @ f)" using assms(1,2) w by (auto simp: plain_numeral_def)
      then have "str_nat ?n = w @ f" by simp
      moreover have "Suc (length f) \<le> length (w @ f)" using w(1) by (cases w) simp_all
      ultimately show ?thesis by (simp add: rjust_def nat_add_distrib)
    qed
    then show ?thesis using str neg False w(1)
      by (simp add: to_canonical_string_def Let_def literal_of_def slices)
  qed
qed

text \<open>The digits of a decimal, and the literal that is printed for it.\<close>

definition decimal_digits :: "exact_decimal \<Rightarrow> string" where
  "decimal_digits d = rjust (str_nat (nat \<bar>unscaled d\<bar>)) (Suc (nat (dscale d)))"

definition whole_digits :: "exact_decimal \<Rightarrow> string" where
  "whole_digits d = take (length (decimal_digits d) - nat (dscale d)) (decimal_digits d)"

definition fraction_digits :: "exact_decimal \<Rightarrow> string" where
  "fraction_digits d = drop (length (decimal_digits d) - nat (dscale d)) (decimal_digits d)"

lemma decimal_digits_split:
  "whole_digits d @ fraction_digits d = decimal_digits d" "length (fraction_digits d) = nat (dscale d)"
  "whole_digits d \<noteq> []" "all_digits (decimal_digits d)" "read_nat (decimal_digits d) = nat \<bar>unscaled d\<bar>"
proof -
  have long: "Suc (nat (dscale d)) \<le> length (decimal_digits d)" by (simp add: decimal_digits_def rjust_def)
  show "length (fraction_digits d) = nat (dscale d)" using long by (simp add: fraction_digits_def)
  have "length (whole_digits d) > 0" using long by (simp add: whole_digits_def)
  then show "whole_digits d \<noteq> []" by auto
  show "whole_digits d @ fraction_digits d = decimal_digits d"
    unfolding whole_digits_def fraction_digits_def by (rule append_take_drop_id)
qed (simp_all add: decimal_digits_def rjust_def read_nat_append)

lemma decimal_digits_plain: "plain_numeral (whole_digits d)" "all_digits (fraction_digits d)"
proof -
  let ?n = "nat \<bar>unscaled d\<bar>" and ?k = "nat (dscale d)"
  note split = decimal_digits_split [of d]
  have digit: "all_digits (whole_digits d)" "all_digits (fraction_digits d)"
    using split(4) unfolding split(1) [symmetric] by simp_all
  show "all_digits (fraction_digits d)" by (rule digit(2))
  show "plain_numeral (whole_digits d)"
  proof (cases "length (str_nat ?n) \<le> ?k")
    case True
    then have "decimal_digits d = CHR ''0'' # replicate (?k - length (str_nat ?n)) CHR ''0'' @ str_nat ?n"
      by (simp add: decimal_digits_def rjust_def Suc_diff_le)
    moreover have "length (decimal_digits d) = Suc ?k" using True by (simp add: decimal_digits_def rjust_def)
    ultimately have "whole_digits d = ''0''" by (simp add: whole_digits_def)
    then show ?thesis by (simp add: plain_numeral_def)
  next
    case False
    then have eq: "decimal_digits d = str_nat ?n" by (simp add: decimal_digits_def rjust_def)
    have head: "hd (whole_digits d) = hd (str_nat ?n)" using split(1,3) eq by (metis hd_append2)
    show ?thesis
    proof (cases "str_nat ?n = ''0''")
      case True
      then have "length (whole_digits d) \<le> 1" by (simp add: whole_digits_def eq)
      then have "whole_digits d = ''0''" using split(3) head True by (cases "whole_digits d") auto
      then show ?thesis by (simp add: plain_numeral_def)
    next
      case nz: False
      then have "hd (str_nat ?n) \<noteq> CHR ''0''" using str_nat_plain [of ?n] by (simp add: plain_numeral_def)
      then show ?thesis using split(3) digit(1) head by (simp add: plain_numeral_def)
    qed
  qed
qed

lemma print_decimal:
  assumes "0 \<le> dscale d" and "to_canonical_string d = Inr s"
  shows "s = literal_of (unscaled d < 0) (whole_digits d) (fraction_digits d)"
proof -
  let ?n = "nat \<bar>unscaled d\<bar>"
  have str: "str_of_int \<bar>unscaled d\<bar> = Inr (str_nat ?n)"
    using assms(2) by (auto simp: to_canonical_string_def str_of_int_def Let_def bindE_eq_Inr_iff split: if_splits)
  note split = decimal_digits_split [of d]
  show ?thesis
  proof (cases "dscale d = 0")
    case True
    have "decimal_digits d = str_nat ?n"
      using str_nat_nonempty [of ?n] by (simp add: decimal_digits_def rjust_def True Suc_leI)
    moreover have "fraction_digits d = []" using split(2) True by simp
    ultimately have "whole_digits d = str_nat ?n" using split(1) by simp
    then show ?thesis
      using assms(2) str True \<open>fraction_digits d = []\<close> by (auto simp: to_canonical_string_def literal_of_def)
  next
    case False
    have len: "int (length (fraction_digits d)) = dscale d" "fraction_digits d \<noteq> []" using split(2) assms(1) False by auto
    have "rjust (str_nat ?n) (nat (dscale d + 1)) = whole_digits d @ fraction_digits d"
      using assms(1) by (simp add: split(1) decimal_digits_def nat_add_distrib)
    then show ?thesis
      using assms(2) str False split(3) slices [OF len(2), of "whole_digits d", unfolded len(1)] len(2)
      by (auto simp: to_canonical_string_def literal_of_def Let_def)
  qed
qed

text \<open>C5: a numeral of at most 4300 characters is the canonical text of a decimal with a non-negative scale
  exactly when parsing it gives that decimal.\<close>

theorem decimal_literals_roundtrip:
  assumes "0 \<le> dscale d" and "length s \<le> int_max_str_digits"
  shows "parse_decimal (JStr s) = Inr d \<longleftrightarrow> to_canonical_string d = Inr s"
proof
  assume parse: "parse_decimal (JStr s) = Inr d"
  then have "exact_decimal_pattern s" by (auto simp: parse_decimal_def split: if_splits)
  then obtain negative w f where s: "s = literal_of negative w f" and wf: "plain_numeral w" "all_digits f"
    using pattern_literal by blast
  note parts = literal_parts [OF wf, of negative]
  have "length (w @ f) \<le> int_max_str_digits" "negative \<longrightarrow> read_nat (w @ f) \<noteq> 0"
    "d = decimal ((if negative then - 1 else 1) * int (read_nat (w @ f))) (int (length f))"
    using parse parts by (auto simp: parse_decimal_def s Let_def int_of_str_def split: if_splits)
  then show "to_canonical_string d = Inr s" using print_literal [OF wf, of negative] s by simp
next
  assume print: "to_canonical_string d = Inr s"
  let ?w = "whole_digits d" and ?f = "fraction_digits d"
  note split = decimal_digits_split [of d]
  have s: "s = literal_of (unscaled d < 0) ?w ?f" using print_decimal [OF assms(1) print] .
  note parts = literal_parts [OF decimal_digits_plain, of "unscaled d < 0" d d, folded s]
  have "length (?w @ ?f) \<le> int_max_str_digits" using assms(2) by (auto simp: s literal_of_def split: if_splits)
  then have "int_of_str (?w @ ?f) = Inr \<bar>unscaled d\<bar>" by (simp add: int_of_str_def split)
  moreover have "(if unscaled d < 0 then - \<bar>unscaled d\<bar> else \<bar>unscaled d\<bar>) = unscaled d" by simp
  ultimately show "parse_decimal (JStr s) = Inr d"
    using parts assms(1) split(2) decimal_eta [of d] by (simp add: parse_decimal_def Let_def)
qed

lemma decimal_literals_roundtrip_witness:
  "parse_decimal (JStr ''-12.50'') = Inr (decimal (- 1250) 2)"
proof -
  have "to_canonical_string (decimal (- 1250) 2) = Inr ''-12.50''" by code_simp
  then show ?thesis
    using decimal_literals_roundtrip [of "decimal (- 1250) 2" "''-12.50''"] by (simp add: int_max_str_digits_def)
qed

section \<open>Arithmetic is exact\<close>

text \<open>The number that a decimal stands for.\<close>

definition rat_of_decimal :: "exact_decimal \<Rightarrow> rat" where
  "rat_of_decimal d = of_int (unscaled d) / 10 ^ nat (dscale d)"

lemma with_scale_up:
  "0 \<le> dscale d \<Longrightarrow> dscale d \<le> s \<Longrightarrow>
    \<exists>x. with_scale d s = Inr x \<and> dscale x = s \<and> rat_of_decimal x = rat_of_decimal d"
proof (cases "s = dscale d")
  case False
  assume s: "0 \<le> dscale d" "dscale d \<le> s"
  have "nat s = nat (dscale d) + nat (s - dscale d)" using s by (simp add: nat_diff_distrib')
  then have "(10 :: rat) ^ nat s = 10 ^ nat (dscale d) * 10 ^ nat (s - dscale d)" by (simp add: power_add)
  then show ?thesis using s False by (simp add: with_scale_def rat_of_decimal_def)
qed (simp add: with_scale_def)

lemma unscaled_of: "dscale d = s \<Longrightarrow> of_int (unscaled d) = rat_of_decimal d * 10 ^ nat s"
  by (simp add: rat_of_decimal_def)

lemma with_scale_down:
  assumes "0 \<le> s" "s < dscale d"
  shows "(\<exists>x. with_scale d s = Inr x) \<longleftrightarrow> (\<exists>n :: int. rat_of_decimal d * 10 ^ nat s = of_int n)"
    and "with_scale d s = Inr x \<Longrightarrow> dscale x = s \<and> rat_of_decimal x = rat_of_decimal d"
    and "with_scale d s = Inl e \<Longrightarrow> e = DECIMAL_SCALE_TRUNCATION"
proof -
  let ?k = "nat (dscale d - s)"
  have "nat (dscale d) = nat s + ?k" using assms by (simp add: nat_diff_distrib')
  then have p: "(10 :: rat) ^ nat (dscale d) = 10 ^ nat s * 10 ^ ?k" by (simp add: power_add)
  have v: "rat_of_decimal d * 10 ^ nat s = of_int (unscaled d) / 10 ^ ?k"
    by (simp add: rat_of_decimal_def p)
  have int: "(\<exists>n :: int. of_int (unscaled d) / (10 :: rat) ^ ?k = of_int n) \<longleftrightarrow> unscaled d mod 10 ^ ?k = 0"
  proof
    assume "\<exists>n :: int. of_int (unscaled d) / (10 :: rat) ^ ?k = of_int n"
    then obtain n :: int where "of_int (unscaled d) / (10 :: rat) ^ ?k = of_int n" by blast
    then have "(of_int (unscaled d) :: rat) = of_int n * 10 ^ ?k" by (simp add: field_simps)
    then have "(of_int (unscaled d) :: rat) = of_int (n * 10 ^ ?k)" by simp
    then have "unscaled d = n * 10 ^ ?k" unfolding of_int_eq_iff .
    then show "unscaled d mod 10 ^ ?k = 0" by simp
  next
    assume "unscaled d mod 10 ^ ?k = 0"
    then obtain n where "unscaled d = 10 ^ ?k * n" by (auto simp: mod_eq_0_iff_dvd dvd_def)
    then show "\<exists>n :: int. of_int (unscaled d) / (10 :: rat) ^ ?k = of_int n" by (intro exI [of _ n]) simp
  qed
  show "(\<exists>x. with_scale d s = Inr x) \<longleftrightarrow> (\<exists>n :: int. rat_of_decimal d * 10 ^ nat s = of_int n)"
    using assms unfolding v int by (simp add: with_scale_def Let_def)
  show "dscale x = s \<and> rat_of_decimal x = rat_of_decimal d" if "with_scale d s = Inr x"
  proof -
    have m: "unscaled d mod 10 ^ ?k = 0" and x: "x = decimal (unscaled d div 10 ^ ?k) s"
      using that assms by (auto simp: with_scale_def Let_def split: if_splits)
    have "unscaled d = unscaled d div 10 ^ ?k * 10 ^ ?k" using m by (simp add: mod_0_imp_dvd)
    then have "(of_int (unscaled d) :: rat) = of_int (unscaled d div 10 ^ ?k) * 10 ^ ?k"
      by (metis of_int_mult of_int_numeral of_int_power)
    then show ?thesis by (simp add: x rat_of_decimal_def p)
  qed
  show "e = DECIMAL_SCALE_TRUNCATION" if "with_scale d s = Inl e"
    using that assms by (auto simp: with_scale_def Let_def split: if_splits)
qed

text \<open>C24: rescaling to a non-negative scale keeps the number, and succeeds exactly when the number has that
  many fractional digits; sums and differences at the common scale never fail and are exact, and comparison
  is the sign of the exact difference.\<close>

theorem decimal_arithmetic_is_exact:
  assumes "0 \<le> dscale a" and "0 \<le> dscale b" and "0 \<le> s"
  shows "((\<exists>x. with_scale a s = Inr x) \<longleftrightarrow> (\<exists>n :: int. rat_of_decimal a * 10 ^ nat s = of_int n)) \<and>
    (\<forall>x. with_scale a s = Inr x \<longrightarrow> dscale x = s \<and> rat_of_decimal x = rat_of_decimal a) \<and>
    (\<exists>c. decimal_add a b None = Inr c \<and> dscale c = max (dscale a) (dscale b) \<and>
      rat_of_decimal c = rat_of_decimal a + rat_of_decimal b) \<and>
    (\<exists>c. decimal_subtract a b None = Inr c \<and> dscale c = max (dscale a) (dscale b) \<and>
      rat_of_decimal c = rat_of_decimal a - rat_of_decimal b) \<and>
    decimal_compare a b = Inr (if rat_of_decimal a < rat_of_decimal b then - 1
      else if rat_of_decimal a > rat_of_decimal b then 1 else 0)"
proof -
  let ?m = "max (dscale a) (dscale b)"
  obtain x where x: "with_scale a ?m = Inr x" "dscale x = ?m" "rat_of_decimal x = rat_of_decimal a"
    using with_scale_up [OF assms(1), of ?m] by auto
  obtain y where y: "with_scale b ?m = Inr y" "dscale y = ?m" "rat_of_decimal y = rat_of_decimal b"
    using with_scale_up [OF assms(2), of ?m] by auto
  have xy: "(of_int (unscaled x) :: rat) = rat_of_decimal a * 10 ^ nat ?m"
    "(of_int (unscaled y) :: rat) = rat_of_decimal b * 10 ^ nat ?m"
    using unscaled_of [OF x(2)] unscaled_of [OF y(2)] x(3) y(3) by simp_all
  have rescale: "(\<exists>x. with_scale a s = Inr x) \<longleftrightarrow> (\<exists>n :: int. rat_of_decimal a * 10 ^ nat s = of_int n)"
    "with_scale a s = Inr z \<Longrightarrow> dscale z = s \<and> rat_of_decimal z = rat_of_decimal a" for z
  proof -
    show "(\<exists>x. with_scale a s = Inr x) \<longleftrightarrow> (\<exists>n :: int. rat_of_decimal a * 10 ^ nat s = of_int n)"
    proof (cases "s < dscale a")
      case False
      then obtain z where z: "with_scale a s = Inr z" "dscale z = s" "rat_of_decimal z = rat_of_decimal a"
        using with_scale_up [OF assms(1), of s] by auto
      then show ?thesis using unscaled_of [OF z(2)] by metis
    qed (rule with_scale_down(1) [OF assms(3)])
    show "dscale z = s \<and> rat_of_decimal z = rat_of_decimal a" if "with_scale a s = Inr z"
      using with_scale_up [OF assms(1), of s] with_scale_down(2) [OF assms(3), of a z] that
      by (cases "s < dscale a") auto
  qed
  have sum: "rat_of_decimal (decimal (unscaled x + unscaled y) ?m) = rat_of_decimal a + rat_of_decimal b"
    "rat_of_decimal (decimal (unscaled x - unscaled y) ?m) = rat_of_decimal a - rat_of_decimal b"
    by (simp_all add: rat_of_decimal_def [of "decimal _ _"] xy add_divide_distrib diff_divide_distrib)
  have less: "unscaled x < unscaled y \<longleftrightarrow> rat_of_decimal a < rat_of_decimal b"
    "unscaled y < unscaled x \<longleftrightarrow> rat_of_decimal b < rat_of_decimal a"
    using xy by (metis mult_less_cancel_right_pos of_int_less_iff zero_less_numeral zero_less_power)+
  show ?thesis
    using rescale sum
    by (simp add: decimal_add_def decimal_subtract_def decimal_compare_def result_scale_def x(1) y(1) less)
qed

lemma decimal_arithmetic_is_exact_witness:
  "\<exists>c. decimal_add (decimal 1250 2) (decimal (- 5) 1) None = Inr c \<and> rat_of_decimal c = 12"
  using decimal_arithmetic_is_exact [of "decimal 1250 2" "decimal (- 5) 1" 0] by (auto simp: rat_of_decimal_def)

end
