(* ===== verification/Utc_Instant.thy ===== *)
theory Utc_Instant
  imports Exact_Decimal "HOL-Library.Code_Target_Nat"
begin

text \<open>
  Instants, business dates and period labels of \<open>python/validators/src/taxat_validators/primitives.py\<close>.
  Of \<open>datetime\<close> the code uses \<open>fromisoformat\<close> on strings of its pattern, \<open>astimezone(timezone.utc)\<close> and
  \<open>strftime\<close>: they are definitions here, on the proleptic Gregorian calendar with years 1 to 9999. Hour 24,
  which newer versions of Python read as the next midnight, is rejected; \<open>%Y\<close> has four digits.
\<close>

text \<open>A fixed-width pattern: \<open>d\<close> stands for a digit, any other character for itself.\<close>

definition has_shape :: "string \<Rightarrow> string \<Rightarrow> bool" where
  "has_shape p s = list_all2 (\<lambda>x c. if x = CHR ''d'' then is_digit c else x = c) p s"

definition field_at :: "string \<Rightarrow> nat \<Rightarrow> nat \<Rightarrow> nat" where
  "field_at s i n = read_nat (take n (drop i s))"

section \<open>The calendar\<close>

definition is_leap :: "nat \<Rightarrow> bool" where
  "is_leap y \<longleftrightarrow> 4 dvd y \<and> (\<not> 100 dvd y \<or> 400 dvd y)"

definition days_in_month :: "nat \<Rightarrow> nat \<Rightarrow> nat" where
  "days_in_month y m = (if m = 2 then (if is_leap y then 29 else 28) else if m \<in> {4, 6, 9, 11} then 30 else 31)"

record date =
  dt_year :: nat
  dt_month :: nat
  dt_day :: nat

definition valid_date :: "date \<Rightarrow> bool" where
  "valid_date d \<longleftrightarrow> 1 \<le> dt_year d \<and> dt_year d \<le> 9999 \<and> 1 \<le> dt_month d \<and> dt_month d \<le> 12 \<and>
     1 \<le> dt_day d \<and> dt_day d \<le> days_in_month (dt_year d) (dt_month d)"

text \<open>The day after and the day before; \<open>OverflowError\<close> outside the supported years.\<close>

definition next_day :: "date \<Rightarrow> primitive_error + date" where
  "next_day d =
    (if dt_day d < days_in_month (dt_year d) (dt_month d) then Inr (d\<lparr>dt_day := dt_day d + 1\<rparr>)
     else if dt_month d < 12 then Inr (d\<lparr>dt_month := dt_month d + 1, dt_day := 1\<rparr>)
     else if dt_year d < 9999 then Inr \<lparr>dt_year = dt_year d + 1, dt_month = 1, dt_day = 1\<rparr>
     else Inl Overflow_Error)"

definition previous_day :: "date \<Rightarrow> primitive_error + date" where
  "previous_day d =
    (if dt_day d > 1 then Inr (d\<lparr>dt_day := dt_day d - 1\<rparr>)
     else if dt_month d > 1 then
       Inr (d\<lparr>dt_month := dt_month d - 1, dt_day := days_in_month (dt_year d) (dt_month d - 1)\<rparr>)
     else if dt_year d > 1 then Inr \<lparr>dt_year = dt_year d - 1, dt_month = 12, dt_day = 31\<rparr>
     else Inl Overflow_Error)"

section \<open>Instants\<close>

text \<open>A date, the minute of the day, the second and the microsecond.\<close>

record timestamp =
  ts_date :: date
  ts_minute :: nat
  ts_second :: nat
  ts_micro :: nat

definition zone_ok :: "string \<Rightarrow> bool" where
  "zone_ok z \<longleftrightarrow> z = ''Z'' \<or> has_shape ''+dd:dd'' z \<or> has_shape ''-dd:dd'' z"

text \<open>The texts before the fraction, of the fraction and of the zone, when the pattern matches.\<close>

definition instant_parts :: "string \<Rightarrow> (string \<times> string \<times> string) option" where
  "instant_parts s =
    (let base = take 19 s; rest = drop 19 s in
     if \<not> has_shape ''dddd-dd-ddTdd:dd:dd'' base then None
     else if rest \<noteq> [] \<and> hd rest = CHR ''.'' then
       (let fraction = takeWhile is_digit (tl rest); zone = dropWhile is_digit (tl rest) in
        if 1 \<le> length fraction \<and> length fraction \<le> 3 \<and> zone_ok zone then Some (base, fraction, zone) else None)
     else if zone_ok rest then Some (base, [], rest) else None)"

text \<open>The offset in minutes. A day has 1440 minutes, and an offset is shorter than a day.\<close>

definition zone_offset :: "string \<Rightarrow> int" where
  "zone_offset z =
    (if z = ''Z'' then 0
     else (if hd z = CHR ''-'' then - 1 else 1) * int (field_at z 1 2 * 60 + field_at z 4 2))"

definition from_iso_parts :: "string \<times> string \<times> string \<Rightarrow> primitive_error + timestamp \<times> int" where
  "from_iso_parts parts =
    (case parts of (base, fraction, zone) \<Rightarrow>
      (let d = \<lparr>dt_year = field_at base 0 4, dt_month = field_at base 5 2, dt_day = field_at base 8 2\<rparr>;
           hour = field_at base 11 2; minute = field_at base 14 2; sec = field_at base 17 2;
           micro = read_nat fraction * 10 ^ (6 - length fraction); offset = zone_offset zone
       in if valid_date d \<and> hour \<le> 23 \<and> minute \<le> 59 \<and> sec \<le> 59 \<and> \<bar>offset\<bar> < 1440
          then Inr (\<lparr>ts_date = d, ts_minute = hour * 60 + minute, ts_second = sec, ts_micro = micro\<rparr>, offset)
          else Inl Value_Error))"

definition to_utc :: "timestamp \<times> int \<Rightarrow> primitive_error + timestamp" where
  "to_utc p =
    (case p of (t, offset) \<Rightarrow>
      (let total = int (ts_minute t) - offset
       in bindE (if total < 0 then previous_day (ts_date t)
                 else if total \<ge> 1440 then next_day (ts_date t) else Inr (ts_date t)) (\<lambda>d.
          Inr (t\<lparr>ts_date := d, ts_minute := nat (total mod (1440))\<rparr>))))"

definition format_seconds :: "timestamp \<Rightarrow> string" where
  "format_seconds t =
    zero_padded 4 (dt_year (ts_date t)) @ ''-'' @ zero_padded 2 (dt_month (ts_date t)) @ ''-'' @
    zero_padded 2 (dt_day (ts_date t)) @ ''T'' @ zero_padded 2 (ts_minute t div 60) @ '':'' @
    zero_padded 2 (ts_minute t mod 60) @ '':'' @ zero_padded 2 (ts_second t)"

definition normalize_utc_instant_string :: "json \<Rightarrow> primitive_error + string" where
  "normalize_utc_instant_string v =
    (case v of
       JStr s \<Rightarrow>
         (case instant_parts s of
            None \<Rightarrow> Inl TIME_INVALID_INSTANT
          | Some parts \<Rightarrow>
              bindE (from_iso_parts parts) (\<lambda>parsed.
              bindE (to_utc parsed) (\<lambda>t.
                if ts_micro t mod 1000 \<noteq> 0 then Inl TIME_INVALID_INSTANT
                else if ts_micro t = 0 then Inr (format_seconds t @ ''Z'')
                else Inr (format_seconds t @ ''.'' @ zero_padded 3 (ts_micro t div 1000) @ ''Z''))))
     | _ \<Rightarrow> Inl TIME_STRING_REQUIRED)"

section \<open>Business dates and periods\<close>

definition normalize_business_date :: "json \<Rightarrow> primitive_error + string" where
  "normalize_business_date v =
    (case v of
       JStr s \<Rightarrow>
         if \<not> has_shape ''dddd-dd-dd'' s then Inl TIME_INVALID_BUSINESS_DATE
         else if valid_date \<lparr>dt_year = field_at s 0 4, dt_month = field_at s 5 2, dt_day = field_at s 8 2\<rparr>
           then Inr s else Inl TIME_INVALID_BUSINESS_DATE
     | _ \<Rightarrow> Inl TIME_STRING_REQUIRED)"

definition normalize_business_period_label :: "json \<Rightarrow> string \<Rightarrow> primitive_error + string" where
  "normalize_business_period_label v family =
    (case v of
       JStr s \<Rightarrow>
         if family = ''CALENDAR_MONTH'' then
           (if has_shape ''dddd-0d'' s \<and> s ! 6 \<noteq> CHR ''0'' \<or> has_shape ''dddd-1d'' s \<and> s ! 6 \<in> set ''012''
            then Inr s else Inl TIME_INVALID_PERIOD_LABEL)
         else if family = ''CALENDAR_QUARTER'' then
           (if has_shape ''dddd-Qd'' s \<and> s ! 6 \<in> set ''1234'' then Inr s else Inl TIME_INVALID_PERIOD_LABEL)
         else if family = ''TAX_YEAR'' then
           (if \<not> has_shape ''dddd-dddd'' s then Inl TIME_INVALID_PERIOD_LABEL
            else if field_at s 5 4 \<noteq> field_at s 0 4 + 1 then Inl TIME_INVALID_PERIOD_LABEL
            else Inr s)
         else Inl TIME_INVALID_PERIOD_LABEL
     | _ \<Rightarrow> Inl TIME_STRING_REQUIRED)"

section \<open>Day numbers\<close>

text \<open>Days before a year and before a month, and the number of a day.\<close>

definition days_before_year :: "nat \<Rightarrow> int" where
  "days_before_year y = (let n = int y - 1 in n * 365 + n div 4 - n div 100 + n div 400)"

definition days_before_month :: "nat \<Rightarrow> nat \<Rightarrow> int" where
  "days_before_month y m = int (sum_list (map (days_in_month y) [1..<m]))"

definition ordinal :: "date \<Rightarrow> int" where
  "ordinal d = days_before_year (dt_year d) + days_before_month (dt_year d) (dt_month d) + int (dt_day d)"

lemma days_in_month_bounds: "28 \<le> days_in_month y m" "days_in_month y m \<le> 31"
  by (simp_all add: days_in_month_def)

lemma div_step: "0 < k \<Longrightarrow> (n :: int) div k = (n - 1) div k + (if k dvd n then 1 else 0)"
proof -
  assume k: "0 < k"
  show ?thesis
  proof (cases "k dvd n")
    case True
    then obtain m where m: "n = k * m" by (auto simp: dvd_def)
    have "(k * m - 1) div k = m - 1" using k by (intro int_div_pos_eq [where r = "k - 1"]) (auto simp: algebra_simps)
    then show ?thesis using True k m by simp
  next
    case False
    then have "0 < n mod k" using k by (simp add: dvd_eq_mod_eq_0 order_less_le)
    moreover have "n mod k < k" "n = k * (n div k) + n mod k" using k by simp_all
    ultimately have "(n - 1) div k = n div k" by (intro int_div_pos_eq [where r = "n mod k - 1"]) linarith+
    then show ?thesis using False by simp
  qed
qed

lemma days_before_next_year: "days_before_year (Suc y) = days_before_year y + 365 + of_bool (is_leap y)"
proof -
  have "int y div 4 = (int y - 1) div 4 + (if 4 dvd y then 1 else 0)"
    "int y div 100 = (int y - 1) div 100 + (if 100 dvd y then 1 else 0)"
    "int y div 400 = (int y - 1) div 400 + (if 400 dvd y then 1 else 0)"
    using div_step [of 4 "int y"] div_step [of 100 "int y"] div_step [of 400 "int y"] by presburger+
  moreover have "400 dvd y \<Longrightarrow> 100 dvd y" "100 dvd y \<Longrightarrow> 4 dvd y" by presburger+
  ultimately show ?thesis by (auto simp: days_before_year_def Let_def is_leap_def)
qed

lemma days_before_next_month: "1 \<le> m \<Longrightarrow> days_before_month y (Suc m) = days_before_month y m + int (days_in_month y m)"
  by (simp add: days_before_month_def)

lemma days_of_year: "days_before_month y 13 = 365 + of_bool (is_leap y)"
  by (simp add: days_before_month_def upt_rec days_in_month_def)

lemma days_before_month_mono: "1 \<le> m \<Longrightarrow> m \<le> n \<Longrightarrow> days_before_month y m \<le> days_before_month y n"
proof (induction n)
  case (Suc n)
  show ?case
  proof (cases "m = Suc n")
    case False
    then have "days_before_month y m \<le> days_before_month y n" "1 \<le> n" using Suc by simp_all
    then show ?thesis by (simp add: days_before_next_month)
  qed simp
qed simp

lemma days_before_year_mono: "y \<le> z \<Longrightarrow> days_before_year y \<le> days_before_year z"
  by (induction z rule: dec_induct) (auto simp: days_before_next_year)

lemma ordinal_bounds:
  assumes "valid_date d"
  shows "days_before_year (dt_year d) < ordinal d" "ordinal d \<le> days_before_year (Suc (dt_year d))"
    "days_before_year (dt_year d) + days_before_month (dt_year d) (dt_month d) < ordinal d"
    "ordinal d \<le> days_before_year (dt_year d) + days_before_month (dt_year d) (Suc (dt_month d))"
proof -
  have d: "1 \<le> dt_month d" "dt_month d \<le> 12" "1 \<le> dt_day d" "dt_day d \<le> days_in_month (dt_year d) (dt_month d)"
    using assms by (simp_all add: valid_date_def)
  show month: "days_before_year (dt_year d) + days_before_month (dt_year d) (dt_month d) < ordinal d"
    using d by (simp add: ordinal_def)
  show after: "ordinal d \<le> days_before_year (dt_year d) + days_before_month (dt_year d) (Suc (dt_month d))"
    using d by (simp add: ordinal_def days_before_next_month)
  have "0 \<le> days_before_month (dt_year d) (dt_month d)" by (simp add: days_before_month_def)
  then show "days_before_year (dt_year d) < ordinal d" using month by simp
  have "days_before_month (dt_year d) (Suc (dt_month d)) \<le> days_before_month (dt_year d) 13"
    using d by (intro days_before_month_mono) simp_all
  then show "ordinal d \<le> days_before_year (Suc (dt_year d))"
    using after by (simp add: days_before_next_year days_of_year)
qed

lemma ordinal_inj:
  assumes d: "valid_date d" and e: "valid_date e" and eq: "ordinal d = ordinal e"
  shows "d = e"
proof -
  have year: "\<not> dt_year a < dt_year b" if "valid_date a" "valid_date b" "ordinal a = ordinal b" for a b
    using ordinal_bounds(2) [OF that(1)] ordinal_bounds(1) [OF that(2)] that(3)
      days_before_year_mono [of "Suc (dt_year a)" "dt_year b"] by linarith
  have y: "dt_year d = dt_year e" using year [OF d e eq] year [OF e d eq [symmetric]] by simp
  have month: "\<not> dt_month a < dt_month b"
    if "valid_date a" "valid_date b" "ordinal a = ordinal b" "dt_year a = dt_year b" for a b
  proof
    assume "dt_month a < dt_month b"
    then have "days_before_month (dt_year b) (Suc (dt_month a)) \<le> days_before_month (dt_year b) (dt_month b)"
      by (intro days_before_month_mono) simp_all
    then show False using ordinal_bounds(4) [OF that(1)] ordinal_bounds(3) [OF that(2)] that(3) unfolding that(4) by linarith
  qed
  have m: "dt_month d = dt_month e"
    using month [OF d e eq y] month [OF e d eq [symmetric] y [symmetric]] by simp
  have "dt_day d = dt_day e" using eq y m by (simp add: ordinal_def)
  then show ?thesis using y m by simp
qed

lemma next_day_ordinal:
  assumes "valid_date d" and "next_day d = Inr e"
  shows "valid_date e \<and> ordinal e = ordinal d + 1"
proof -
  consider (day) "dt_day d < days_in_month (dt_year d) (dt_month d)" "e = d\<lparr>dt_day := dt_day d + 1\<rparr>"
    | (month) "dt_day d = days_in_month (dt_year d) (dt_month d)" "dt_month d < 12" "e = d\<lparr>dt_month := dt_month d + 1, dt_day := 1\<rparr>"
    | (year) "dt_day d = days_in_month (dt_year d) (dt_month d)" "dt_month d = 12" "dt_year d < 9999"
        "e = \<lparr>dt_year = dt_year d + 1, dt_month = 1, dt_day = 1\<rparr>"
    using assms by (auto simp: next_day_def valid_date_def split: if_splits)
  then show ?thesis
  proof cases
    case day
    then show ?thesis using assms(1) by (auto simp: valid_date_def ordinal_def)
  next
    case month
    then show ?thesis using assms(1) days_in_month_bounds(1) [of "dt_year d" "Suc (dt_month d)"]
      by (auto simp: valid_date_def ordinal_def days_before_next_month)
  next
    case year
    have "days_before_month (dt_year d) 12 + int (days_in_month (dt_year d) 12) = 365 + of_bool (is_leap (dt_year d))"
      using days_of_year [of "dt_year d"] days_before_next_month [of 12 "dt_year d"] by simp
    then show ?thesis using year assms(1)
      by (auto simp: valid_date_def ordinal_def days_before_next_year days_before_month_def days_in_month_def)
  qed
qed

lemma previous_day_ordinal:
  assumes "valid_date d" and "previous_day d = Inr e"
  shows "valid_date e \<and> ordinal e = ordinal d - 1"
proof -
  have d: "1 \<le> dt_year d" "dt_year d \<le> 9999" "1 \<le> dt_month d" "dt_month d \<le> 12" "1 \<le> dt_day d"
    "dt_day d \<le> days_in_month (dt_year d) (dt_month d)" using assms(1) by (simp_all add: valid_date_def)
  consider (day) "dt_day d > 1" "e = d\<lparr>dt_day := dt_day d - 1\<rparr>"
    | (month) "dt_day d = 1" "dt_month d > 1" "e = d\<lparr>dt_month := dt_month d - 1, dt_day := days_in_month (dt_year d) (dt_month d - 1)\<rparr>"
    | (year) "dt_day d = 1" "dt_month d = 1" "dt_year d > 1" "e = \<lparr>dt_year = dt_year d - 1, dt_month = 12, dt_day = 31\<rparr>"
    using assms(2) d by (auto simp: previous_day_def split: if_splits)
  then have "valid_date e \<and> next_day e = Inr d"
  proof cases
    case day
    then show ?thesis using d by (auto simp: valid_date_def next_day_def)
  next
    case month
    then show ?thesis using d days_in_month_bounds(1) [of "dt_year d" "dt_month d - 1"]
      by (auto simp: valid_date_def next_day_def)
  next
    case year
    then show ?thesis using d by (auto simp: valid_date_def next_day_def days_in_month_def)
  qed
  then show ?thesis using next_day_ordinal [of e d] by simp
qed

section \<open>Timestamps\<close>

definition valid_timestamp :: "timestamp \<Rightarrow> bool" where
  "valid_timestamp t \<longleftrightarrow> valid_date (ts_date t) \<and> ts_minute t < 1440 \<and> ts_second t < 60 \<and> ts_micro t < 1000000 \<and>
     ts_micro t mod 1000 = 0"

text \<open>Milliseconds since the day before 0001-01-01.\<close>

definition timestamp_moment :: "timestamp \<Rightarrow> int" where
  "timestamp_moment t =
    ((ordinal (ts_date t) * 1440 + int (ts_minute t)) * 60 + int (ts_second t)) * 1000 + int (ts_micro t div 1000)"

lemma timestamp_moment_inj:
  assumes "valid_timestamp t" and "valid_timestamp u" and eq: "timestamp_moment t = timestamp_moment u"
  shows "t = u"
proof -
  have t: "ts_minute t < 1440" "ts_second t < 60" "ts_micro t div 1000 < 1000" "ts_micro t = 1000 * (ts_micro t div 1000)"
    and u: "ts_minute u < 1440" "ts_second u < 60" "ts_micro u div 1000 < 1000" "ts_micro u = 1000 * (ts_micro u div 1000)"
    using assms(1,2) by (auto simp: valid_timestamp_def)
  have split: "a = c \<and> b = d" if "a * k + int b = c * k + int d" "int b < k" "int d < k" for a c k :: int and b d :: nat
  proof -
    have "(a * k + int b) div k = a" "(c * k + int d) div k = c" using that(2,3) by (simp_all add: div_mult_self3)
    then show ?thesis using that(1) by simp
  qed
  have ms: "(ordinal (ts_date t) * 1440 + int (ts_minute t)) * 60 + int (ts_second t)
      = (ordinal (ts_date u) * 1440 + int (ts_minute u)) * 60 + int (ts_second u)" "ts_micro t div 1000 = ts_micro u div 1000"
    using split [OF eq [unfolded timestamp_moment_def]] t(3) u(3) by simp_all
  have sec: "ordinal (ts_date t) * 1440 + int (ts_minute t) = ordinal (ts_date u) * 1440 + int (ts_minute u)"
    "ts_second t = ts_second u" using split [OF ms(1)] t(2) u(2) by simp_all
  have "ordinal (ts_date t) = ordinal (ts_date u)" "ts_minute t = ts_minute u" using split [OF sec(1)] t(1) u(1) by simp_all
  moreover have "ts_micro t = ts_micro u" using t(4) u(4) ms(2) by simp
  ultimately show ?thesis using ordinal_inj [of "ts_date t" "ts_date u"] sec(2) assms(1,2)
    by (simp add: valid_timestamp_def)
qed

lemma to_utc_moment:
  assumes t: "valid_timestamp t" and off: "\<bar>off\<bar> < 1440" and utc: "to_utc (t, off) = Inr u"
  shows "valid_timestamp u \<and> timestamp_moment u = timestamp_moment t - off * 60000"
proof -
  define total where "total = int (ts_minute t) - off"
  have range: "- 1440 < total" "total < 2880" using t off by (auto simp: total_def valid_timestamp_def)
  obtain d where d: "(if total < 0 then previous_day (ts_date t) else if total \<ge> 1440 then next_day (ts_date t) else Inr (ts_date t)) = Inr d"
    and u: "u = t\<lparr>ts_date := d, ts_minute := nat (total mod 1440)\<rparr>"
    using utc unfolding to_utc_def prod.case Let_def total_def bindE_eq_Inr_iff by (simp del: diff_ge_0_iff_ge) blast
  have vd: "valid_date (ts_date t)" using t by (simp add: valid_timestamp_def)
  have date: "valid_date d \<and> ordinal d = ordinal (ts_date t) + total div 1440"
  proof -
    consider "total < 0" | "0 \<le> total" "total < 1440" | "1440 \<le> total" by linarith
    then show ?thesis
    proof cases
      case 1
      have "total div 1440 = - 1" using 1 range by (intro int_div_pos_eq [where r = "total + 1440"]) simp_all
      then show ?thesis using previous_day_ordinal [OF vd] d 1 by simp
    next
      case 2
      then show ?thesis using d vd by simp
    next
      case 3
      have "total div 1440 = 1" using 3 range by (intro int_div_pos_eq [where r = "total - 1440"]) simp_all
      then show ?thesis using next_day_ordinal [OF vd] d 3 by simp
    qed
  qed
  have "ordinal d * 1440 + total mod 1440 = ordinal (ts_date t) * 1440 + total"
    using date by (simp add: algebra_simps)
  then have "timestamp_moment u = ((ordinal (ts_date t) * 1440 + total) * 60 + int (ts_second t)) * 1000 + int (ts_micro t div 1000)"
    by (simp add: timestamp_moment_def u)
  also have "\<dots> = timestamp_moment t - off * 60000" by (simp add: timestamp_moment_def total_def algebra_simps)
  finally have "timestamp_moment u = timestamp_moment t - off * 60000" .
  moreover have "nat (total mod 1440) < 1440" by (simp add: nat_less_iff)
  ultimately show ?thesis using t date by (simp add: u valid_timestamp_def)
qed

lemma from_iso_valid:
  assumes parts: "instant_parts s = Some p" and iso: "from_iso_parts p = Inr (t, off)"
  shows "valid_timestamp t \<and> \<bar>off\<bar> < 1440"
proof -
  obtain base fraction zone where p: "p = (base, fraction, zone)" by (cases p)
  have fraction: "all_digits fraction" "length fraction \<le> 3"
    using parts by (auto simp: instant_parts_def Let_def p all_digits_def list_all_iff split: if_splits dest: set_takeWhileD)
  let ?k = "6 - length fraction"
  have "read_nat fraction * 10 ^ ?k < 10 ^ length fraction * 10 ^ ?k" using read_nat_less [OF fraction(1)] by simp
  also have "(10 :: nat) ^ length fraction * 10 ^ ?k = 10 ^ (length fraction + ?k)" by (simp only: power_add)
  also have "length fraction + ?k = 6" using fraction(2) by simp
  finally have micro: "read_nat fraction * 10 ^ ?k < 1000000" by simp
  have "?k = 3 + (3 - length fraction)" using fraction(2) by linarith
  then have "(10 :: nat) ^ ?k = 10 ^ 3 * 10 ^ (3 - length fraction)" by (simp only: power_add)
  then have "(1000 :: nat) dvd 10 ^ ?k" by simp
  then have "read_nat fraction * 10 ^ ?k mod 1000 = 0" by (simp only: dvd_eq_mod_eq_0 [symmetric] dvd_mult)
  moreover have "valid_date (ts_date t) \<and> ts_minute t < 1440 \<and> ts_second t < 60 \<and> \<bar>off\<bar> < 1440 \<and>
    ts_micro t = read_nat fraction * 10 ^ ?k"
  proof -
    let ?d = "\<lparr>dt_year = field_at base 0 4, dt_month = field_at base 5 2, dt_day = field_at base 8 2\<rparr>"
    have ok: "valid_date ?d \<and> field_at base 11 2 \<le> 23 \<and> field_at base 14 2 \<le> 59 \<and> field_at base 17 2 \<le> 59 \<and>
        \<bar>zone_offset zone\<bar> < 1440" (is ?ok)
    proof (rule ccontr)
      assume "\<not> ?ok"
      then show False using iso unfolding from_iso_parts_def p prod.case Let_def by (simp only: if_False) simp
    qed
    then have "t = \<lparr>ts_date = ?d, ts_minute = field_at base 11 2 * 60 + field_at base 14 2, ts_second = field_at base 17 2,
        ts_micro = read_nat fraction * 10 ^ ?k\<rparr> \<and> off = zone_offset zone"
      using iso unfolding from_iso_parts_def p prod.case Let_def if_P [OF ok] by simp
    then show ?thesis using ok by simp
  qed
  ultimately show ?thesis using micro by (simp add: valid_timestamp_def)
qed

section \<open>The canonical text\<close>

definition render :: "timestamp \<Rightarrow> string" where
  "render t = (if ts_micro t = 0 then format_seconds t @ ''Z''
     else format_seconds t @ ''.'' @ zero_padded 3 (ts_micro t div 1000) @ ''Z'')"

lemma padded_digits:
  "n < 100 \<Longrightarrow> \<exists>a b. zero_padded 2 n = [a, b] \<and> is_digit a \<and> is_digit b \<and> read_nat [a, b] = n"
  "n < 1000 \<Longrightarrow> \<exists>a b c. zero_padded 3 n = [a, b, c] \<and> is_digit a \<and> is_digit b \<and> is_digit c \<and> read_nat [a, b, c] = n"
  "n < 10000 \<Longrightarrow> \<exists>a b c d. zero_padded 4 n = [a, b, c, d] \<and> is_digit a \<and> is_digit b \<and> is_digit c \<and> is_digit d \<and>
    read_nat [a, b, c, d] = n"
proof -
  show "\<exists>a b. zero_padded 2 n = [a, b] \<and> is_digit a \<and> is_digit b \<and> read_nat [a, b] = n" if n: "n < 100"
  proof -
    have "length (zero_padded 2 n) = 2" using n by (simp add: length_zero_padded)
    then obtain a b where "zero_padded 2 n = [a, b]" by (auto simp: length_Suc_conv numeral_2_eq_2)
    then show ?thesis using zero_padded_digits [of 2 n] read_zero_padded [of 2 n] by auto
  qed
  show "\<exists>a b c. zero_padded 3 n = [a, b, c] \<and> is_digit a \<and> is_digit b \<and> is_digit c \<and> read_nat [a, b, c] = n" if n: "n < 1000"
  proof -
    have "length (zero_padded 3 n) = 3" using n by (simp add: length_zero_padded)
    then obtain a b c where "zero_padded 3 n = [a, b, c]" by (auto simp: length_Suc_conv numeral_3_eq_3)
    then show ?thesis using zero_padded_digits [of 3 n] read_zero_padded [of 3 n] by auto
  qed
  show "\<exists>a b c d. zero_padded 4 n = [a, b, c, d] \<and> is_digit a \<and> is_digit b \<and> is_digit c \<and> is_digit d \<and>
    read_nat [a, b, c, d] = n" if n: "n < 10000"
  proof -
    have "length (zero_padded 4 n) = Suc 3" using n by (simp add: length_zero_padded)
    then obtain a b c d where "zero_padded 4 n = [a, b, c, d]" by (auto simp: length_Suc_conv numeral_3_eq_3)
    then show ?thesis using zero_padded_digits [of 4 n] read_zero_padded [of 4 n] by auto
  qed
qed

lemma date_eta: "\<lparr>dt_year = dt_year d, dt_month = dt_month d, dt_day = dt_day d\<rparr> = d"
  by simp

lemma render_parses:
  assumes "valid_timestamp t"
  shows "\<exists>p. instant_parts (render t) = Some p \<and> from_iso_parts p = Inr (t, 0)"
proof -
  have date: "valid_date (ts_date t)" and time: "ts_minute t < 1440" "ts_second t < 60" "ts_micro t < 1000000" "ts_micro t mod 1000 = 0"
    using assms by (simp_all add: valid_timestamp_def)
  have small: "dt_year (ts_date t) < 10000" "dt_month (ts_date t) < 100" "dt_day (ts_date t) < 100" "ts_minute t div 60 < 100"
    "ts_minute t mod 60 < 100" "ts_second t < 100" "ts_micro t div 1000 < 1000"
    using date time days_in_month_bounds(2) [of "dt_year (ts_date t)" "dt_month (ts_date t)"]
    by (auto simp: valid_date_def intro: order_less_trans [of _ 60])
  obtain a b c d where y: "zero_padded 4 (dt_year (ts_date t)) = [a, b, c, d]" "is_digit a" "is_digit b" "is_digit c" "is_digit d"
    "read_nat [a, b, c, d] = dt_year (ts_date t)" using padded_digits(3) [OF small(1)] by auto
  obtain e f where m: "zero_padded 2 (dt_month (ts_date t)) = [e, f]" "is_digit e" "is_digit f" "read_nat [e, f] = dt_month (ts_date t)"
    using padded_digits(1) [OF small(2)] by auto
  obtain g h where dd: "zero_padded 2 (dt_day (ts_date t)) = [g, h]" "is_digit g" "is_digit h" "read_nat [g, h] = dt_day (ts_date t)"
    using padded_digits(1) [OF small(3)] by auto
  obtain i j where hh: "zero_padded 2 (ts_minute t div 60) = [i, j]" "is_digit i" "is_digit j" "read_nat [i, j] = ts_minute t div 60"
    using padded_digits(1) [OF small(4)] by auto
  obtain k l where mm: "zero_padded 2 (ts_minute t mod 60) = [k, l]" "is_digit k" "is_digit l" "read_nat [k, l] = ts_minute t mod 60"
    using padded_digits(1) [OF small(5)] by auto
  obtain n q where ss: "zero_padded 2 (ts_second t) = [n, q]" "is_digit n" "is_digit q" "read_nat [n, q] = ts_second t"
    using padded_digits(1) [OF small(6)] by auto
  let ?base = "[a, b, c, d, CHR ''-'', e, f, CHR ''-'', g, h, CHR ''T'', i, j, CHR '':'', k, l, CHR '':'', n, q]"
  have base: "format_seconds t = ?base" by (simp add: format_seconds_def y(1) m(1) dd(1) hh(1) mm(1) ss(1))
  have shape: "has_shape ''dddd-dd-ddTdd:dd:dd'' ?base" by (simp add: has_shape_def y m dd hh mm ss)
  have cut: "take 19 (?base @ z) = ?base" "drop 19 (?base @ z) = z" for z by simp_all
  have fields: "field_at ?base 0 4 = dt_year (ts_date t)" "field_at ?base 5 2 = dt_month (ts_date t)"
    "field_at ?base 8 2 = dt_day (ts_date t)" "field_at ?base 11 2 = ts_minute t div 60"
    "field_at ?base 14 2 = ts_minute t mod 60" "field_at ?base 17 2 = ts_second t"
    unfolding y(6) [symmetric] m(4) [symmetric] dd(4) [symmetric] hh(4) [symmetric] mm(4) [symmetric] ss(4) [symmetric]
    by (simp_all add: field_at_def)
  have "ts_minute t div 60 < 24" "ts_minute t mod 60 < 60" using time(1) by (simp_all add: div_less_iff_less_mult)
  then have "ts_minute t div 60 \<le> 23" "ts_minute t mod 60 \<le> 59" by linarith+
  have iso: "from_iso_parts (?base, fraction, ''Z'') = Inr (t, 0)"
    if "read_nat fraction * 10 ^ (6 - length fraction) = ts_micro t" for fraction
    unfolding from_iso_parts_def prod.case Let_def fields that zone_offset_def if_P [OF refl] date_eta
    using date time(2) \<open>ts_minute t div 60 \<le> 23\<close> \<open>ts_minute t mod 60 \<le> 59\<close> by simp
  show ?thesis
  proof (cases "ts_micro t = 0")
    case True
    then have "instant_parts (render t) = Some (?base, [], ''Z'')"
      unfolding render_def base instant_parts_def if_P [OF True] cut Let_def using shape by (simp add: zone_ok_def)
    then show ?thesis using iso [of "[]"] True by simp
  next
    case False
    obtain r s u where f: "zero_padded 3 (ts_micro t div 1000) = [r, s, u]" "is_digit r" "is_digit s" "is_digit u"
      "read_nat [r, s, u] = ts_micro t div 1000" using padded_digits(2) [OF small(7)] by auto
    have "instant_parts (render t) = Some (?base, [r, s, u], ''Z'')"
      unfolding render_def base instant_parts_def if_not_P [OF False] cut Let_def f(1) using shape f(2-4) by (simp add: zone_ok_def)
    moreover have "read_nat [r, s, u] * 10 ^ (6 - length [r, s, u]) = ts_micro t" using time(4) f(5) by auto
    ultimately show ?thesis using iso by blast
  qed
qed

lemma to_utc_zero: "valid_timestamp t \<Longrightarrow> to_utc (t, 0) = Inr t"
  by (simp add: to_utc_def valid_timestamp_def)

lemma render_inj: "valid_timestamp t \<Longrightarrow> valid_timestamp u \<Longrightarrow> render t = render u \<Longrightarrow> t = u"
  using render_parses [of t] render_parses [of u] by auto

text \<open>The moment that a text of the pattern denotes.\<close>

definition instant_moment :: "string \<Rightarrow> int option" where
  "instant_moment s =
    (case instant_parts s of None \<Rightarrow> None
     | Some p \<Rightarrow> (case from_iso_parts p of Inl e \<Rightarrow> None
        | Inr (t, off) \<Rightarrow> Some (timestamp_moment t - off * 60000)))"

lemma normalized:
  assumes "normalize_utc_instant_string (JStr s) = Inr r"
  shows "\<exists>t. valid_timestamp t \<and> r = render t \<and> instant_moment s = Some (timestamp_moment t)"
proof -
  obtain p t off u where p: "instant_parts s = Some p" "from_iso_parts p = Inr (t, off)" "to_utc (t, off) = Inr u"
    and r: "r = render u"
    using assms by (auto simp: normalize_utc_instant_string_def bindE_eq_Inr_iff render_def split: option.splits if_splits)
  have "valid_timestamp u \<and> timestamp_moment u = timestamp_moment t - off * 60000"
    using from_iso_valid [OF p(1,2)] to_utc_moment [OF _ _ p(3)] by blast
  then show ?thesis using p r by (intro exI [of _ u]) (simp add: instant_moment_def)
qed

lemma normalize_render:
  assumes "valid_timestamp t"
  shows "normalize_utc_instant_string (JStr (render t)) = Inr (render t)"
    and "instant_moment (render t) = Some (timestamp_moment t)"
proof -
  obtain p where p: "instant_parts (render t) = Some p" "from_iso_parts p = Inr (t, 0)"
    using render_parses [OF assms] by blast
  show "normalize_utc_instant_string (JStr (render t)) = Inr (render t)"
    using p to_utc_zero [OF assms] assms
    by (simp add: normalize_utc_instant_string_def valid_timestamp_def) (simp add: render_def)
  show "instant_moment (render t) = Some (timestamp_moment t)" using p by (simp add: instant_moment_def)
qed

text \<open>C6: normalising an instant gives the canonical text of the moment it denotes: two accepted texts have the
  same normal form exactly when they denote the same moment, and a normal form denotes that moment and is its
  own normal form.\<close>

theorem instants_normalise_by_moment:
  assumes "normalize_utc_instant_string (JStr s) = Inr r" and "normalize_utc_instant_string (JStr t) = Inr u"
  shows "(r = u \<longleftrightarrow> instant_moment s = instant_moment t) \<and> instant_moment r = instant_moment s \<and>
    normalize_utc_instant_string (JStr r) = Inr r"
proof -
  obtain x where x: "valid_timestamp x" "r = render x" "instant_moment s = Some (timestamp_moment x)"
    using normalized [OF assms(1)] by blast
  obtain y where y: "valid_timestamp y" "u = render y" "instant_moment t = Some (timestamp_moment y)"
    using normalized [OF assms(2)] by blast
  have "r = u \<longleftrightarrow> instant_moment s = instant_moment t"
    unfolding x(2,3) y(2,3) option.inject
    using render_inj [OF x(1) y(1)] timestamp_moment_inj [OF x(1) y(1)] by blast
  then show ?thesis using normalize_render [OF x(1)] x(2,3) by simp
qed

lemma instants_normalise_by_moment_witness:
  "instant_moment ''2026-01-01T00:30:00.5+01:00'' = instant_moment ''2025-12-31T23:30:00.500Z''"
proof -
  have "normalize_utc_instant_string (JStr ''2026-01-01T00:30:00.5+01:00'') = Inr ''2025-12-31T23:30:00.500Z''"
    "normalize_utc_instant_string (JStr ''2025-12-31T23:30:00.500Z'') = Inr ''2025-12-31T23:30:00.500Z''" by code_simp+
  from instants_normalise_by_moment [OF this] show ?thesis by blast
qed

section \<open>Labels\<close>

lemma shape_simps [simp]:
  "has_shape [] s \<longleftrightarrow> s = []"
  "has_shape (x # p) s \<longleftrightarrow> (\<exists>c t. s = c # t \<and> (if x = CHR ''d'' then is_digit c else x = c) \<and> has_shape p t)"
  by (auto simp: has_shape_def list_all2_Cons1)

lemma padded_read:
  "is_digit a \<Longrightarrow> is_digit b \<Longrightarrow> zero_padded 2 (read_nat [a, b]) = [a, b]"
  "is_digit a \<Longrightarrow> is_digit b \<Longrightarrow> is_digit c \<Longrightarrow> is_digit d \<Longrightarrow> zero_padded 4 (read_nat [a, b, c, d]) = [a, b, c, d]"
  using zero_padded_read [of "[a, b]"] zero_padded_read [of "[a, b, c, d]"] by (simp_all add: eval_nat_numeral)

definition date_text :: "date \<Rightarrow> string" where
  "date_text d = zero_padded 4 (dt_year d) @ ''-'' @ zero_padded 2 (dt_month d) @ ''-'' @ zero_padded 2 (dt_day d)"

lemma business_date_iff:
  "normalize_business_date (JStr s) = Inr r \<longleftrightarrow> r = s \<and> (\<exists>d. valid_date d \<and> s = date_text d)"
proof
  assume ok: "normalize_business_date (JStr s) = Inr r"
  let ?d = "\<lparr>dt_year = field_at s 0 4, dt_month = field_at s 5 2, dt_day = field_at s 8 2\<rparr>"
  have parts: "has_shape ''dddd-dd-dd'' s" "valid_date ?d" "r = s"
    using ok by (auto simp: normalize_business_date_def simp del: shape_simps split: if_splits)
  then obtain a b c d e f g h where s: "s = [a, b, c, d, CHR ''-'', e, f, CHR ''-'', g, h]"
    and digits: "is_digit a" "is_digit b" "is_digit c" "is_digit d" "is_digit e" "is_digit f" "is_digit g" "is_digit h"
    by auto
  have "date_text ?d = s" using digits by (simp add: date_text_def s field_at_def padded_read)
  then show "r = s \<and> (\<exists>d. valid_date d \<and> s = date_text d)" using parts by metis
next
  assume "r = s \<and> (\<exists>d. valid_date d \<and> s = date_text d)"
  then obtain t where t: "valid_date t" "s = date_text t" "r = s" by blast
  have small: "dt_year t < 10000" "dt_month t < 100" "dt_day t < 100"
    using t(1) days_in_month_bounds(2) [of "dt_year t" "dt_month t"] by (auto simp: valid_date_def)
  obtain a b c d where y: "zero_padded 4 (dt_year t) = [a, b, c, d]" "is_digit a" "is_digit b" "is_digit c" "is_digit d"
    "read_nat [a, b, c, d] = dt_year t" using padded_digits(3) [OF small(1)] by auto
  obtain e f where m: "zero_padded 2 (dt_month t) = [e, f]" "is_digit e" "is_digit f" "read_nat [e, f] = dt_month t"
    using padded_digits(1) [OF small(2)] by auto
  obtain g h where d: "zero_padded 2 (dt_day t) = [g, h]" "is_digit g" "is_digit h" "read_nat [g, h] = dt_day t"
    using padded_digits(1) [OF small(3)] by auto
  have s: "s = [a, b, c, d, CHR ''-'', e, f, CHR ''-'', g, h]" by (simp add: t(2) date_text_def y(1) m(1) d(1))
  have "field_at s 0 4 = dt_year t" "field_at s 5 2 = dt_month t" "field_at s 8 2 = dt_day t"
    unfolding s y(6) [symmetric] m(4) [symmetric] d(4) [symmetric] by (simp_all add: field_at_def)
  moreover have "has_shape ''dddd-dd-dd'' s" using y m d by (simp add: s)
  ultimately show "normalize_business_date (JStr s) = Inr r"
    using t(1,3) by (simp add: normalize_business_date_def date_eta del: shape_simps)
qed

lemma tax_year_iff:
  "normalize_business_period_label (JStr s) ''TAX_YEAR'' = Inr r \<longleftrightarrow>
    r = s \<and> (\<exists>y < 9999. s = zero_padded 4 y @ ''-'' @ zero_padded 4 (y + 1))"
proof
  assume ok: "normalize_business_period_label (JStr s) ''TAX_YEAR'' = Inr r"
  have parts: "has_shape ''dddd-dddd'' s" "field_at s 5 4 = field_at s 0 4 + 1" "r = s"
    using ok by (auto simp: normalize_business_period_label_def simp del: shape_simps split: if_splits)
  then obtain a b c d e f g h where s: "s = [a, b, c, d, CHR ''-'', e, f, g, h]"
    and digits: "is_digit a" "is_digit b" "is_digit c" "is_digit d" "is_digit e" "is_digit f" "is_digit g" "is_digit h"
    by auto
  have years: "field_at s 0 4 = read_nat [a, b, c, d]" "field_at s 5 4 = read_nat [e, f, g, h]"
    by (simp_all add: s field_at_def)
  have "read_nat [e, f, g, h] < 10000" using digits read_nat_less [of "[e, f, g, h]"] by simp
  then have "read_nat [a, b, c, d] < 9999" using parts(2) years by simp
  moreover have "s = zero_padded 4 (read_nat [a, b, c, d]) @ ''-'' @ zero_padded 4 (read_nat [a, b, c, d] + 1)"
    using digits padded_read(2) [of e f g h] parts(2) years by (simp add: s padded_read)
  ultimately show "r = s \<and> (\<exists>y < 9999. s = zero_padded 4 y @ ''-'' @ zero_padded 4 (y + 1))" using parts(3) by blast
next
  assume "r = s \<and> (\<exists>y < 9999. s = zero_padded 4 y @ ''-'' @ zero_padded 4 (y + 1))"
  then obtain y where y: "y < 9999" "s = zero_padded 4 y @ ''-'' @ zero_padded 4 (y + 1)" "r = s" by blast
  have small: "y < 10000" "y + 1 < 10000" using y(1) by simp_all
  obtain a b c d where f: "zero_padded 4 y = [a, b, c, d]" "is_digit a" "is_digit b" "is_digit c" "is_digit d"
    "read_nat [a, b, c, d] = y" using padded_digits(3) [OF small(1)] by auto
  obtain e f' g h where t: "zero_padded 4 (y + 1) = [e, f', g, h]" "is_digit e" "is_digit f'" "is_digit g" "is_digit h"
    "read_nat [e, f', g, h] = y + 1" using padded_digits(3) [OF small(2)] by auto
  have s: "s = [a, b, c, d, CHR ''-'', e, f', g, h]" by (simp only: y(2) f(1) t(1) append_Cons append_Nil)
  have "field_at s 0 4 = read_nat [a, b, c, d]" "field_at s 5 4 = read_nat [e, f', g, h]" by (simp_all add: s field_at_def)
  moreover have "has_shape ''dddd-dddd'' s" using f t by (simp add: s)
  ultimately show "normalize_business_period_label (JStr s) ''TAX_YEAR'' = Inr r"
    using f(6) t(6) y(3) by (simp add: normalize_business_period_label_def del: shape_simps)
qed

text \<open>C36: a business date is accepted, unchanged, exactly when it is the ten-character text of a day of the
  calendar, and a tax year exactly when it is the text of two consecutive years.\<close>

theorem calendar_labels_are_well_typed:
  "(normalize_business_date (JStr s) = Inr r \<longleftrightarrow> r = s \<and> (\<exists>d. valid_date d \<and> s = date_text d)) \<and>
   (normalize_business_period_label (JStr s) ''TAX_YEAR'' = Inr r \<longleftrightarrow>
     r = s \<and> (\<exists>y < 9999. s = zero_padded 4 y @ ''-'' @ zero_padded 4 (y + 1)))"
  using business_date_iff tax_year_iff by simp

end
