(* ===== verification/Path_Query.thy ===== *)
theory Path_Query
  imports Py_Digits "HOL-Library.List_Lexorder" "HOL-Library.Char_ord" "HOL-Library.Code_Target_Nat"
begin

text \<open>
  Canonical paths and query strings of \<open>python/validators/src/taxat_validators/primitives.py\<close>, with
  \<open>urllib.parse.quote(s, safe="-._~")\<close>. Strings are lists of the characters 0 to 255, so \<open>quote\<close> writes one or
  two UTF-8 bytes for a character. \<open>str\<close> of a float or a container (its \<open>repr\<close>) is the parameter \<open>other\<close>.
\<close>

section \<open>Percent encoding\<close>

definition unreserved :: "char \<Rightarrow> bool" where
  "unreserved c \<longleftrightarrow> c \<in> set ''ABCDEFGHIJKLMNOPQRSTUVWXYZabcdefghijklmnopqrstuvwxyz0123456789_.-~''"

definition hex_digit :: "nat \<Rightarrow> char" where
  "hex_digit n = ''0123456789ABCDEF'' ! n"

definition utf8 :: "char \<Rightarrow> nat list" where
  "utf8 c = (let n = of_char c in if n < 128 then [n] else [192 + n div 64, 128 + n mod 64])"

definition percent :: "nat \<Rightarrow> string" where
  "percent b = [CHR ''%'', hex_digit (b div 16), hex_digit (b mod 16)]"

definition quote_char :: "char \<Rightarrow> string" where
  "quote_char c = (if unreserved c then [c] else concat (map percent (utf8 c)))"

definition quote :: "string \<Rightarrow> string" where
  "quote s = concat (map quote_char s)"

section \<open>Query strings\<close>

fun py_str :: "(json \<Rightarrow> string) \<Rightarrow> json \<Rightarrow> string" where
  "py_str other (JStr s) = s"
| "py_str other JNull = ''None''"
| "py_str other (JBool b) = (if b then ''True'' else ''False'')"
| "py_str other (JInt i) = (if i < 0 then ''-'' @ str_nat (nat (- i)) else str_nat (nat i))"
| "py_str other v = other v"

fun query_values :: "json \<Rightarrow> json list" where
  "query_values (JList vs) = vs"
| "query_values v = [v]"

definition query_pairs :: "(json \<Rightarrow> string) \<Rightarrow> obj \<Rightarrow> (string \<times> string) list" where
  "query_pairs other params =
    concat (map (\<lambda>k. map (\<lambda>v. (k, py_str other v)) (query_values (get params k))) (sort (map fst params)))"

definition encode_pair :: "string \<times> string \<Rightarrow> string" where
  "encode_pair p = quote (fst p) @ ''='' @ quote (snd p)"

fun join :: "string \<Rightarrow> string list \<Rightarrow> string" where
  "join sep [] = []"
| "join sep [x] = x"
| "join sep (x # y # xs) = x @ sep @ join sep (y # xs)"

definition stable_query_string :: "(json \<Rightarrow> string) \<Rightarrow> obj \<Rightarrow> string" where
  "stable_query_string other params = join ''&'' (map encode_pair (query_pairs other params))"

section \<open>Paths\<close>

definition brace :: "char \<Rightarrow> bool" where
  "brace c \<longleftrightarrow> c = CHR ''{'' \<or> c = CHR ''}''"

text \<open>\<open>\{([^{}]+)\}\<close> after its opening brace: the key and the text behind the match.\<close>

definition match_param :: "string \<Rightarrow> (string \<times> string) option" where
  "match_param cs =
    (let key = takeWhile (\<lambda>c. \<not> brace c) cs
     in case dropWhile (\<lambda>c. \<not> brace c) cs of
          [] \<Rightarrow> None
        | c # rest \<Rightarrow> if key \<noteq> [] \<and> c = CHR ''}'' then Some (key, rest) else None)"

lemma match_param_Some:
  "match_param cs = Some (key, rest) \<Longrightarrow> cs = key @ ''}'' @ rest \<and> key \<noteq> [] \<and> (\<forall>c \<in> set key. \<not> brace c)"
proof -
  assume m: "match_param cs = Some (key, rest)"
  then have "dropWhile (\<lambda>c. \<not> brace c) cs = ''}'' @ rest" "takeWhile (\<lambda>c. \<not> brace c) cs = key" "key \<noteq> []"
    by (auto simp: match_param_def Let_def split: list.splits if_splits)
  then show ?thesis using takeWhile_dropWhile_id [of "\<lambda>c. \<not> brace c" cs] set_takeWhileD [of _ "\<lambda>c. \<not> brace c" cs] by auto
qed

text \<open>\<open>PATH_TEMPLATE_PARAM_PATTERN.sub(replace, ...)\<close>: the missing keys and the text.\<close>

function path_sub :: "obj \<Rightarrow> string \<Rightarrow> string list \<times> string" where
  "path_sub params [] = ([], [])"
| "path_sub params (c # cs) =
    (case (if c = CHR ''{'' then match_param cs else None) of
       None \<Rightarrow> (case path_sub params cs of (missing, text) \<Rightarrow> (missing, c # text))
     | Some (key, rest) \<Rightarrow>
        (case path_sub params rest of (missing, text) \<Rightarrow>
           if nonempty_str (get params key)
             then (missing, quote (case get params key of JStr v \<Rightarrow> v | _ \<Rightarrow> []) @ text)
           else (key # missing, ''{'' @ key @ ''}'' @ text)))"
  by pat_completeness auto
termination
  by (relation "measure (\<lambda>(_, s). length s)") (auto dest!: match_param_Some split: if_splits)

definition stable_path :: "json \<Rightarrow> json \<Rightarrow> string option" where
  "stable_path resource_template resolved_path_params =
    (case resource_template of
       JStr t \<Rightarrow>
         if t = [] then None
         else (case resolved_path_params of
            JObj params \<Rightarrow>
              (case path_sub params t of (missing, path) \<Rightarrow>
                 if missing \<noteq> [] \<or> CHR ''{'' \<in> set path \<or> CHR ''}'' \<in> set path then None else Some path)
          | _ \<Rightarrow> None)
     | _ \<Rightarrow> None)"

section \<open>Decoding inverts encoding\<close>

definition hex_value :: "char \<Rightarrow> nat" where
  "hex_value c = (let n = of_char c in if n < 58 then n - 48 else n - 55)"

function unquote :: "string \<Rightarrow> string" where
  "unquote [] = []"
| "unquote (c # cs) =
    (if c = CHR ''%'' \<and> length cs \<ge> 2 then
       (let b = 16 * hex_value (cs ! 0) + hex_value (cs ! 1); rest = drop 2 cs in
        if b < 128 then char_of b # unquote rest
        else char_of ((b - 192) * 64 + (16 * hex_value (rest ! 1) + hex_value (rest ! 2) - 128)) # unquote (drop 3 rest))
     else c # unquote cs)"
  by pat_completeness auto
termination by (relation "measure length") auto

definition quoted_char :: "char \<Rightarrow> bool" where
  "quoted_char c \<longleftrightarrow> unreserved c \<or> c = CHR ''%''"

lemma hex_digits: "list_all (\<lambda>n. hex_value (hex_digit n) = n \<and> unreserved (hex_digit n)) [0..<16]"
  by code_simp

lemma hex_digit: "n < 16 \<Longrightarrow> hex_value (hex_digit n) = n" "n < 16 \<Longrightarrow> unreserved (hex_digit n)"
proof -
  assume "n < 16"
  then have "n \<in> set [0..<16]" unfolding set_upt by simp
  then show "hex_value (hex_digit n) = n" "unreserved (hex_digit n)" using hex_digits unfolding list_all_iff by blast+
qed

lemma percent_value:
  "b < 256 \<Longrightarrow> 16 * hex_value (hex_digit (b div 16)) + hex_value (hex_digit (b mod 16)) = b"
  by (simp add: hex_digit div_less_iff_less_mult)

lemma percent_quoted: "b < 256 \<Longrightarrow> x \<in> set (percent b) \<Longrightarrow> quoted_char x"
  by (auto simp: percent_def quoted_char_def hex_digit div_less_iff_less_mult)

lemma not_unreserved [simp]: "\<not> unreserved CHR ''%''" "\<not> unreserved CHR ''/''" "\<not> unreserved CHR ''&''"
  "\<not> unreserved CHR ''=''" "\<not> unreserved CHR ''{''" "\<not> unreserved CHR ''}''" "\<not> unreserved CHR ''?''"
  "\<not> unreserved CHR ''#''"
  by code_simp+

lemma of_char_less: "(of_char c :: nat) < 256"
proof -
  have "(of_char c :: nat) mod 256 < 256" by (rule mod_less_divisor) simp
  then show ?thesis by simp
qed

lemma utf8_less: "b \<in> set (utf8 c) \<Longrightarrow> b < 256"
proof -
  assume b: "b \<in> set (utf8 c)"
  have "of_char c div 64 < (4 :: nat)" "of_char c mod 64 < (64 :: nat)"
    using of_char_less [of c] by (simp_all add: div_less_iff_less_mult)
  then show ?thesis using b by (auto simp: utf8_def Let_def split: if_splits)
qed

lemma quote_char_quoted: "x \<in> set (quote_char c) \<Longrightarrow> quoted_char x"
  using percent_quoted utf8_less by (auto simp: quote_char_def quoted_char_def split: if_splits)

lemma quote_quoted: "x \<in> set (quote s) \<Longrightarrow> quoted_char x"
  using quote_char_quoted by (auto simp: quote_def)

lemma unquote_percent: "b < 128 \<Longrightarrow> unquote (percent b @ s) = char_of b # unquote s"
  using percent_value [of b] by (simp add: percent_def Let_def numeral_2_eq_2)

lemma unquote_percent2:
  "128 \<le> b \<Longrightarrow> b < 256 \<Longrightarrow> d < 256 \<Longrightarrow>
    unquote (percent b @ percent d @ s) = char_of ((b - 192) * 64 + (d - 128)) # unquote s"
  using percent_value [of b] percent_value [of d] by (simp add: percent_def Let_def numeral_2_eq_2 numeral_3_eq_3)

lemma unquote_quote_char: "unquote (quote_char c @ s) = c # unquote s"
proof (cases "unreserved c")
  case True
  then have "c \<noteq> CHR ''%''" by auto
  then show ?thesis using True by (simp add: quote_char_def)
next
  case False
  define n where "n = (of_char c :: nat)"
  have n: "n < 256" "char_of n = c" using of_char_less [of c] by (simp_all add: n_def)
  show ?thesis
  proof (cases "n < 128")
    case True
    then have "quote_char c = percent n" using False by (simp add: quote_char_def utf8_def n_def)
    then show ?thesis using unquote_percent [OF True] n(2) by simp
  next
    case big: False
    then have q: "quote_char c = percent (192 + n div 64) @ percent (128 + n mod 64)"
      using False by (simp add: quote_char_def utf8_def n_def Let_def)
    have "n div 64 < 4" using n(1) by (simp add: div_less_iff_less_mult)
    moreover have "n mod 64 < 64" by simp
    ultimately have "unquote (percent (192 + n div 64) @ percent (128 + n mod 64) @ s) = char_of (n div 64 * 64 + n mod 64) # unquote s"
      using unquote_percent2 [of "192 + n div 64" "128 + n mod 64" s] by simp
    then show ?thesis using n(2) by (simp add: q)
  qed
qed

lemma unquote_quote [simp]: "unquote (quote s) = s"
  by (induction s) (simp_all add: quote_def unquote_quote_char)

section \<open>Query strings are unambiguous\<close>

fun split_on :: "char \<Rightarrow> string \<Rightarrow> string list" where
  "split_on sep [] = [[]]"
| "split_on sep (c # cs) =
    (if c = sep then [] # split_on sep cs
     else (case split_on sep cs of [] \<Rightarrow> [[c]] | x # xs \<Rightarrow> (c # x) # xs))"

definition decode_pair :: "string \<Rightarrow> string \<times> string" where
  "decode_pair s = (unquote (takeWhile (\<lambda>c. c \<noteq> CHR ''='') s), unquote (drop 1 (dropWhile (\<lambda>c. c \<noteq> CHR ''='') s)))"

definition decode_query :: "string \<Rightarrow> (string \<times> string) list" where
  "decode_query s = (if s = [] then [] else map decode_pair (split_on CHR ''&'' s))"

lemma split_on_none: "sep \<notin> set x \<Longrightarrow> split_on sep x = [x]"
  by (induction x) auto

lemma split_on_sep: "sep \<notin> set x \<Longrightarrow> split_on sep (x @ sep # t) = x # split_on sep t"
  by (induction x) auto

lemma split_join: "\<forall>x \<in> set xs. sep \<notin> set x \<Longrightarrow> xs \<noteq> [] \<Longrightarrow> split_on sep (join [sep] xs) = xs"
  by (induction "[sep]" xs rule: join.induct) (auto simp: split_on_none split_on_sep)

lemma quote_no: "\<not> quoted_char c \<Longrightarrow> c \<notin> set (quote s)"
  using quote_quoted by blast

lemma separators [simp]: "\<not> quoted_char CHR ''&''" "\<not> quoted_char CHR ''=''" "\<not> quoted_char CHR ''/''"
  "\<not> quoted_char CHR ''{''" "\<not> quoted_char CHR ''}''" "\<not> quoted_char CHR ''?''" "\<not> quoted_char CHR ''#''"
  by (simp_all add: quoted_char_def)

lemma encode_pair_sep: "CHR ''&'' \<notin> set (encode_pair p)" "encode_pair p \<noteq> []"
  by (simp_all add: encode_pair_def quote_no)

lemma decode_encode_pair: "decode_pair (encode_pair p) = p"
proof -
  have "\<And>x. x \<in> set (quote (fst p)) \<Longrightarrow> x \<noteq> CHR ''=''" using quote_no [of "CHR ''=''" "fst p"] by auto
  then show ?thesis
    by (simp add: decode_pair_def encode_pair_def takeWhile_append2 dropWhile_append2)
qed

lemma decode_stable_query: "decode_query (stable_query_string other params) = query_pairs other params"
proof (cases "query_pairs other params = []")
  case True
  then show ?thesis by (simp add: stable_query_string_def decode_query_def)
next
  case False
  let ?xs = "map encode_pair (query_pairs other params)"
  have ne: "join ''&'' ?xs \<noteq> []"
  proof -
    obtain p ps where pairs: "query_pairs other params = p # ps" using False by (cases "query_pairs other params") auto
    show ?thesis using encode_pair_sep(2) [of p] by (cases ps) (simp_all add: pairs)
  qed
  have "split_on CHR ''&'' (join ''&'' ?xs) = ?xs"
    using False encode_pair_sep(1) by (intro split_join) auto
  then show ?thesis using ne by (simp add: stable_query_string_def decode_query_def decode_encode_pair comp_def)
qed

text \<open>Decoding a stable query string gives back its pairs of keys and values in key order, so two parameter
  sets have the same query string exactly when they have the same pairs.\<close>

theorem query_strings_roundtrip:
  "decode_query (stable_query_string other params) = query_pairs other params \<and>
    (stable_query_string other params = stable_query_string other params' \<longleftrightarrow>
      query_pairs other params = query_pairs other params')"
proof -
  have "stable_query_string other params = stable_query_string other params' \<longleftrightarrow>
      query_pairs other params = query_pairs other params'"
  proof
    assume "stable_query_string other params = stable_query_string other params'"
    then have "decode_query (stable_query_string other params) = decode_query (stable_query_string other params')"
      by (rule arg_cong)
    then show "query_pairs other params = query_pairs other params'" unfolding decode_stable_query .
  qed (simp add: stable_query_string_def)
  then show ?thesis using decode_stable_query by blast
qed

section \<open>Paths are confined\<close>

datatype piece = Literal string | Param string

fun piece_source :: "piece \<Rightarrow> string" where
  "piece_source (Literal s) = s"
| "piece_source (Param k) = ''{'' @ k @ ''}''"

fun piece_text :: "obj \<Rightarrow> piece \<Rightarrow> string" where
  "piece_text params (Literal s) = s"
| "piece_text params (Param k) = quote (case get params k of JStr v \<Rightarrow> v | _ \<Rightarrow> [])"

fun piece_ok :: "obj \<Rightarrow> piece \<Rightarrow> bool" where
  "piece_ok params (Literal s) \<longleftrightarrow> (\<forall>c \<in> set s. \<not> brace c)"
| "piece_ok params (Param k) \<longleftrightarrow> k \<noteq> [] \<and> (\<forall>c \<in> set k. \<not> brace c) \<and> nonempty_str (get params k)"

lemma path_sub_pieces:
  "path_sub params t = ([], path) \<Longrightarrow> \<forall>c \<in> set path. \<not> brace c \<Longrightarrow>
    \<exists>pieces. t = concat (map piece_source pieces) \<and> path = concat (map (piece_text params) pieces) \<and>
      (\<forall>x \<in> set pieces. piece_ok params x)"
proof (induction params t arbitrary: path rule: path_sub.induct)
  case (1 params)
  then show ?case by (intro exI [of _ "[]"]) simp
next
  case (2 params c cs)
  show ?case
  proof (cases "if c = CHR ''{'' then match_param cs else None")
    case None
    then obtain out where tail: "path_sub params cs = ([], out)" "path = c # out"
      using "2.prems"(1) by (auto split: prod.splits)
    then obtain pieces where "cs = concat (map piece_source pieces)" "out = concat (map (piece_text params) pieces)"
      "\<forall>x \<in> set pieces. piece_ok params x" using "2.IH"(1) [OF None tail(1)] "2.prems"(2) by auto
    then show ?thesis using tail(2) "2.prems"(2) by (intro exI [of _ "Literal [c] # pieces"]) simp
  next
    case (Some kr)
    obtain key rest where kr: "kr = (key, rest)" by (cases kr)
    then have m: "c = CHR ''{''" "match_param cs = Some (key, rest)" using Some by (auto split: if_splits)
    obtain missing out where sub: "path_sub params rest = (missing, out)" by (cases "path_sub params rest")
    have v: "nonempty_str (get params key)" "missing = []"
      and path: "path = quote (case get params key of JStr v \<Rightarrow> v | _ \<Rightarrow> []) @ out"
      using "2.prems"(1) m sub by (auto split: if_splits)
    then obtain pieces where "rest = concat (map piece_source pieces)" "out = concat (map (piece_text params) pieces)"
      "\<forall>x \<in> set pieces. piece_ok params x"
      using "2.IH"(2) [OF Some kr [symmetric], of out] sub "2.prems"(2) by auto
    then show ?thesis using match_param_Some [OF m(2)] v path m(1)
      by (intro exI [of _ "Param key # pieces"]) simp
  qed
qed

text \<open>C19: an accepted path is the template with each parameter replaced by the percent encoding of its
  non-empty value: the encoding decodes to the value and holds none of the characters that separate path
  segments, query or fragment, so that a value cannot change the structure of the path.\<close>

theorem stable_paths_are_confined:
  assumes "stable_path (JStr t) (JObj params) = Some path"
  shows "\<exists>pieces. t = concat (map piece_source pieces) \<and> path = concat (map (piece_text params) pieces) \<and>
    (\<forall>s. Literal s \<in> set pieces \<longrightarrow> (\<forall>c \<in> set s. \<not> brace c)) \<and>
    (\<forall>k. Param k \<in> set pieces \<longrightarrow> (\<exists>v. v \<noteq> [] \<and> get params k = JStr v \<and> unquote (piece_text params (Param k)) = v \<and>
      set (piece_text params (Param k)) \<inter> set ''/?#&={}'' = {}))"
proof -
  have "path_sub params t = ([], path)" "\<forall>c \<in> set path. \<not> brace c"
    using assms by (auto simp: stable_path_def brace_def split: prod.splits if_splits)
  then obtain pieces where p: "t = concat (map piece_source pieces)" "path = concat (map (piece_text params) pieces)"
    "\<forall>x \<in> set pieces. piece_ok params x" using path_sub_pieces by blast
  have "\<exists>v. v \<noteq> [] \<and> get params k = JStr v \<and> unquote (piece_text params (Param k)) = v \<and>
      set (piece_text params (Param k)) \<inter> set ''/?#&={}'' = {}" if k: "Param k \<in> set pieces" for k
  proof -
    have "nonempty_str (get params k)" using p(3) k by fastforce
    then obtain v where v: "get params k = JStr v" "v \<noteq> []" by (rule nonempty_strE)
    have "set (quote v) \<inter> set ''/?#&={}'' = {}" by (simp add: quote_no)
    then show ?thesis using v by (intro exI [of _ v]) simp
  qed
  moreover have "\<forall>c \<in> set s. \<not> brace c" if "Literal s \<in> set pieces" for s using p(3) that by fastforce
  ultimately show ?thesis using p(1,2) by (intro exI [of _ pieces]) blast
qed

lemma stable_paths_are_confined_witness:
  "\<exists>pieces. ''/clients/{ref}/return'' = concat (map piece_source pieces) \<and>
    ''/clients/a%2Fb/return'' = concat (map (piece_text [(''ref'', JStr ''a/b'')]) pieces)"
proof -
  have "stable_path (JStr ''/clients/{ref}/return'') (JObj [(''ref'', JStr ''a/b'')]) = Some ''/clients/a%2Fb/return''"
    by code_simp
  from stable_paths_are_confined [OF this] show ?thesis by blast
qed

end
