(* ===== verification/Canonical_Json.thy ===== *)
theory Canonical_Json
  imports Utc_Instant Path_Query
begin

text \<open>
  Canonical JSON of \<open>python/validators/src/taxat_validators/primitives.py\<close>: normalisation, the text that is
  hashed, and the authority identity keys built on it. A Python object that reaches the hash is a \<open>py_value\<close>; the keys
  of a \<open>PDict\<close> are the texts \<open>str(key)\<close> in insertion order, a \<open>PDatetime\<close> its \<open>isoformat()\<close>. Parameters: \<open>nfc\<close>
  (\<open>unicodedata.normalize\<close>), \<open>float_repr\<close> (\<open>float.__repr__\<close>) and the SHA-256 digest \<open>H\<close>.
\<close>

datatype py_value =
    PNone
  | PBool bool
  | PInt int
  | PFloat pyfloat
  | PStr string
  | PDatetime string
  | PList "py_value list"
  | PDict "(string \<times> py_value) list"
  | PObject

definition assert_identifier_literal :: "py_value \<Rightarrow> primitive_error + string" where
  "assert_identifier_literal v =
    (case v of PStr s \<Rightarrow> if s = [] then Inl IDENTIFIER_EMPTY else Inr s | _ \<Rightarrow> Inl IDENTIFIER_STRING_REQUIRED)"

section \<open>Normalisation\<close>

definition norm_float :: "pyfloat \<Rightarrow> primitive_error + json" where
  "norm_float x =
    (case x of
       Finite q \<Rightarrow> Inr (JFloat x)
     | Neg_Zero \<Rightarrow> Inl HASH_NEGATIVE_ZERO_NUMBER
     | _ \<Rightarrow> Inl HASH_NON_FINITE_NUMBER)"

fun normalize_canonical_json :: "(string \<Rightarrow> string) \<Rightarrow> py_value \<Rightarrow> primitive_error + json"
  and norm_items :: "(string \<Rightarrow> string) \<Rightarrow> py_value list \<Rightarrow> primitive_error + json list"
  and norm_entries :: "(string \<Rightarrow> string) \<Rightarrow> string list \<Rightarrow> (string \<times> py_value) list \<Rightarrow> primitive_error + obj" where
  "normalize_canonical_json nfc PNone = Inr JNull"
| "normalize_canonical_json nfc (PBool b) = Inr (JBool b)"
| "normalize_canonical_json nfc (PStr s) = Inr (JStr (nfc s))"
| "normalize_canonical_json nfc (PInt i) = Inr (JInt i)"
| "normalize_canonical_json nfc (PFloat x) = norm_float x"
| "normalize_canonical_json nfc (PDatetime stamp) =
    bindE (normalize_utc_instant_string (JStr stamp)) (\<lambda>s. Inr (JStr s))"
| "normalize_canonical_json nfc (PList vs) = bindE (norm_items nfc vs) (\<lambda>ns. Inr (JList ns))"
| "normalize_canonical_json nfc (PDict d) = bindE (norm_entries nfc [] d) (\<lambda>e. Inr (JObj (sort_key fst e)))"
| "normalize_canonical_json nfc PObject = Inl HASH_UNSUPPORTED_VALUE"
| "norm_items nfc [] = Inr []"
| "norm_items nfc (v # vs) =
    bindE (normalize_canonical_json nfc v) (\<lambda>n. bindE (norm_items nfc vs) (\<lambda>ns. Inr (n # ns)))"
| "norm_entries nfc seen [] = Inr []"
| "norm_entries nfc seen ((k, v) # d) =
    (if nfc k \<in> set seen then Inl HASH_DUPLICATE_NORMALIZED_KEY
     else bindE (normalize_canonical_json nfc v) (\<lambda>n.
       bindE (norm_entries nfc (nfc k # seen) d) (\<lambda>e. Inr ((nfc k, n) # e))))"

section \<open>The text\<close>

text \<open>\<open>json.dumps\<close> with \<open>ensure_ascii=True\<close> and \<open>separators=(",", ":")\<close>.\<close>

definition lower_hex :: "nat \<Rightarrow> char" where
  "lower_hex n = ''0123456789abcdef'' ! n"

definition short_escapes :: "(char \<times> char) list" where
  "short_escapes = [(CHR 0x22, CHR 0x22), (CHR 0x5C, CHR 0x5C), (CHR 0x0A, CHR ''n''), (CHR 0x0D, CHR ''r''),
     (CHR 0x09, CHR ''t''), (CHR 0x0C, CHR ''f''), (CHR 0x08, CHR ''b'')]"

definition esc_char :: "char \<Rightarrow> string" where
  "esc_char c =
    (case map_of short_escapes c of
       Some e \<Rightarrow> [CHR 0x5C, e]
     | None \<Rightarrow>
         (let n = of_char c :: nat in
          if 32 \<le> n \<and> n \<le> 126 then [c]
          else [CHR 0x5C, CHR ''u'', CHR ''0'', CHR ''0'', lower_hex (n div 16), lower_hex (n mod 16)]))"

definition json_string :: "string \<Rightarrow> string" where
  "json_string s = CHR 0x22 # concat (map esc_char s) @ [CHR 0x22]"

definition json_int :: "int \<Rightarrow> primitive_error + string" where
  "json_int i = (if i < 0 then bindE (str_of_int (- i)) (\<lambda>s. Inr (''-'' @ s)) else str_of_int i)"

fun json_text :: "(pyfloat \<Rightarrow> string) \<Rightarrow> json \<Rightarrow> primitive_error + string"
  and item_texts :: "(pyfloat \<Rightarrow> string) \<Rightarrow> json list \<Rightarrow> primitive_error + string list"
  and entry_texts :: "(pyfloat \<Rightarrow> string) \<Rightarrow> obj \<Rightarrow> primitive_error + (string \<times> string) list" where
  "json_text fr JNull = Inr ''null''"
| "json_text fr (JBool b) = Inr (if b then ''true'' else ''false'')"
| "json_text fr (JInt i) = json_int i"
| "json_text fr (JFloat x) = Inr (fr x)"
| "json_text fr (JStr s) = Inr (json_string s)"
| "json_text fr (JList vs) = bindE (item_texts fr vs) (\<lambda>ts. Inr (''['' @ join '','' ts @ '']''))"
| "json_text fr (JObj d) = bindE (entry_texts fr d) (\<lambda>es.
     Inr (''{'' @ join '','' (map (\<lambda>(k, t). json_string k @ '':'' @ t) (sort_key fst es)) @ ''}''))"
| "item_texts fr [] = Inr []"
| "item_texts fr (v # vs) = bindE (json_text fr v) (\<lambda>t. bindE (item_texts fr vs) (\<lambda>ts. Inr (t # ts)))"
| "entry_texts fr [] = Inr []"
| "entry_texts fr ((k, v) # d) = bindE (json_text fr v) (\<lambda>t. bindE (entry_texts fr d) (\<lambda>es. Inr ((k, t) # es)))"

definition canonical_json_dumps ::
  "(string \<Rightarrow> string) \<Rightarrow> (pyfloat \<Rightarrow> string) \<Rightarrow> py_value \<Rightarrow> primitive_error + string" where
  "canonical_json_dumps nfc fr v = bindE (normalize_canonical_json nfc v) (json_text fr)"

definition stable_json_hash ::
  "(string \<Rightarrow> string) \<Rightarrow> (pyfloat \<Rightarrow> string) \<Rightarrow> (string \<Rightarrow> string) \<Rightarrow> py_value \<Rightarrow> primitive_error + string" where
  "stable_json_hash nfc fr H v = bindE (canonical_json_dumps nfc fr v) (\<lambda>t. Inr (H t))"

section \<open>Normal forms\<close>

fun canonical :: "json \<Rightarrow> bool" where
  "canonical (JFloat x) \<longleftrightarrow> (\<exists>q. x = Finite q)"
| "canonical (JList vs) \<longleftrightarrow> (\<forall>v \<in> set vs. canonical v)"
| "canonical (JObj d) \<longleftrightarrow> sorted (map fst d) \<and> distinct (map fst d) \<and> (\<forall>e \<in> set d. canonical (snd e))"
| "canonical v \<longleftrightarrow> True"

lemma norm_entries_iff:
  "norm_entries nfc seen d = Inr e \<longleftrightarrow>
    distinct (map (nfc \<circ> fst) d) \<and> set (map (nfc \<circ> fst) d) \<inter> set seen = {} \<and>
    list_all2 (\<lambda>kv ln. fst ln = nfc (fst kv) \<and> normalize_canonical_json nfc (snd kv) = Inr (snd ln)) d e"
proof (induction d arbitrary: seen e)
  case (Cons kv d)
  obtain k v where kv: "kv = (k, v)" by (cases kv)
  show ?case
    unfolding kv by (auto simp: bindE_eq_Inr_iff Cons.IH list_all2_Cons1)
qed auto

lemma norm_items_iff: "norm_items nfc vs = Inr ns \<longleftrightarrow> list_all2 (\<lambda>v n. normalize_canonical_json nfc v = Inr n) vs ns"
  by (induction vs arbitrary: ns) (auto simp: bindE_eq_Inr_iff list_all2_Cons1)

lemma norm_entries_keys: "norm_entries nfc seen d = Inr e \<Longrightarrow> map fst e = map (nfc \<circ> fst) d"
  by (induction d arbitrary: seen e) (auto simp: bindE_eq_Inr_iff split: if_splits)

lemma norm_entries_distinct: "norm_entries nfc seen d = Inr e \<Longrightarrow> distinct (map fst e)"
  using norm_entries_iff norm_entries_keys by metis

lemma sort_key_distinct: "distinct (map fst e) \<Longrightarrow> distinct (map fst (sort_key fst e))"
  by (metis distinct_map distinct_sort inj_on_subset set_sort subset_refl)

lemma normal_canonical: "normalize_canonical_json nfc v = Inr n \<Longrightarrow> canonical n"
  and "norm_items nfc vs = Inr ns \<Longrightarrow> \<forall>n \<in> set ns. canonical n"
  and "norm_entries nfc seen d = Inr e \<Longrightarrow> \<forall>x \<in> set e. canonical (snd x)"
proof (induction nfc v and nfc vs and nfc seen d arbitrary: n and ns and e
    rule: normalize_canonical_json_norm_items_norm_entries.induct)
  case (5 nfc x)
  then show ?case by (auto simp: norm_float_def split: pyfloat.splits)
next
  case (8 nfc d)
  then obtain e where "norm_entries nfc [] d = Inr e" "n = JObj (sort_key fst e)" by (auto simp: bindE_eq_Inr_iff)
  then show ?case using 8(1) norm_entries_distinct by (auto simp: sort_key_distinct)
qed (fastforce simp: bindE_eq_Inr_iff split: if_splits)+

section \<open>Reading the text back\<close>

definition hex_val :: "char \<Rightarrow> nat" where
  "hex_val c = (let n = of_char c in if n < 58 then n - 48 else n - 87)"

definition unesc :: "string \<Rightarrow> char \<times> string" where
  "unesc t =
    (if hd t \<noteq> CHR 0x5C then (hd t, tl t)
     else if t ! 1 = CHR ''u'' then (char_of (16 * hex_val (t ! 4) + hex_val (t ! 5)), drop 6 t)
     else (the (map_of (map prod.swap short_escapes) (t ! 1)), drop 2 t))"

lemma hex_val_table: "list_all (\<lambda>n. hex_val (lower_hex n) = n) [0..<16]"
  by code_simp

lemma hex_val_lower: "n < 16 \<Longrightarrow> hex_val (lower_hex n) = n"
proof -
  assume "n < 16"
  then have "n \<in> set [0..<16]" unfolding set_upt by simp
  then show ?thesis using hex_val_table unfolding list_all_iff by blast
qed

lemma unesc_short: "list_all (\<lambda>(c, e). e \<noteq> CHR ''u'' \<and> map_of (map prod.swap short_escapes) e = Some c) short_escapes"
  by code_simp

lemma short_escape_back: "map_of short_escapes c = Some e \<Longrightarrow> e \<noteq> CHR ''u'' \<and> map_of (map prod.swap short_escapes) e = Some c"
  using unesc_short by (auto simp: list_all_iff dest!: map_of_SomeD)

lemma char_nibbles: "(of_char c :: nat) div 16 < 16" "(of_char c :: nat) mod 16 < 16"
proof -
  have "(of_char c :: nat) < 256" by simp
  then show "(of_char c :: nat) div 16 < 16" by linarith
qed simp

lemma unesc_esc: "unesc (esc_char c @ x) = (c, x)"
proof (cases "map_of short_escapes c")
  case (Some e)
  then show ?thesis using short_escape_back [OF Some] by (simp add: esc_char_def unesc_def)
next
  case None
  have c: "c \<noteq> CHR 0x5C" using None by (auto simp: short_escapes_def)
  have "hex_val (lower_hex (of_char c div 16)) = of_char c div 16" "hex_val (lower_hex (of_char c mod 16)) = of_char c mod 16"
    by (rule hex_val_lower [OF char_nibbles(1)], rule hex_val_lower [OF char_nibbles(2)])
  then show ?thesis using None c by (simp add: esc_char_def unesc_def Let_def)
qed

lemma esc_char_start: "esc_char c = y # ys \<Longrightarrow> y \<noteq> CHR 0x22"
  by (auto simp: esc_char_def short_escapes_def Let_def split: if_splits)

lemma esc_char_nonempty: "esc_char c \<noteq> []"
  by (simp add: esc_char_def Let_def split: option.split)

lemma escaped_unique:
  "concat (map esc_char s) @ CHR 0x22 # r = concat (map esc_char t) @ CHR 0x22 # r' \<Longrightarrow> s = t \<and> r = r'"
proof (induction s arbitrary: t)
  case Nil
  then show ?case
  proof (cases t)
    case (Cons c u)
    then show ?thesis using Nil esc_char_start [of c] esc_char_nonempty [of c] by (cases "esc_char c") auto
  qed simp
next
  case (Cons c s)
  show ?case
  proof (cases t)
    case Nil
    then show ?thesis using Cons.prems esc_char_start [of c] esc_char_nonempty [of c] by (cases "esc_char c") auto
  next
    case t: (Cons d u)
    have eq: "esc_char c @ (concat (map esc_char s) @ CHR 0x22 # r) = esc_char d @ (concat (map esc_char u) @ CHR 0x22 # r')"
      using Cons.prems t by simp
    have "c = d \<and> concat (map esc_char s) @ CHR 0x22 # r = concat (map esc_char u) @ CHR 0x22 # r'"
      using arg_cong [OF eq, of unesc] unfolding unesc_esc by (rule Pair_inject) (rule conjI)
    then show ?thesis using Cons.IH t by blast
  qed
qed

lemma json_string_unique: "json_string s @ r = json_string t @ r' \<Longrightarrow> s = t \<and> r = r'"
  using escaped_unique [of s r t r'] by (simp add: json_string_def)

text \<open>Numbers end where a character that no number contains begins.\<close>

definition number_char :: "char \<Rightarrow> bool" where
  "number_char c \<longleftrightarrow> is_digit c \<or> c \<in> set ''-+.e''"

text \<open>What is used of \<open>float.__repr__\<close>: the text of a finite float is a number with a point or an exponent, and two
  floats have two texts.\<close>

definition lawful_float_repr :: "(pyfloat \<Rightarrow> string) \<Rightarrow> bool" where
  "lawful_float_repr fr \<longleftrightarrow>
    (\<forall>q. list_all number_char (fr (Finite q)) \<and> (CHR ''.'' \<in> set (fr (Finite q)) \<or> CHR ''e'' \<in> set (fr (Finite q)))) \<and>
    (\<forall>p q. fr (Finite p) = fr (Finite q) \<longrightarrow> p = q)"

definition delimited :: "string \<Rightarrow> bool" where
  "delimited r \<longleftrightarrow> r = [] \<or> hd r = CHR '','' \<or> hd r = CHR '']'' \<or> hd r = CHR ''}''"

lemma delimited_simps [simp]: "delimited []" "delimited (CHR '','' # r)" "delimited (CHR '']'' # r)" "delimited (CHR ''}'' # r)"
  by (simp_all add: delimited_def)

lemma delimited_not_number: "delimited r \<Longrightarrow> takeWhile number_char r = []"
  by (cases r) (auto simp: delimited_def number_char_def is_digit_def)

lemma number_unique:
  assumes "list_all number_char s" and "list_all number_char t" and "s @ r = t @ r'" and "delimited r" and "delimited r'"
  shows "s = t \<and> r = r'"
proof -
  have "takeWhile number_char (u @ v) = u" if "list_all number_char u" "delimited v" for u v
    using that delimited_not_number [of v] by (simp add: takeWhile_append2 list_all_iff)
  then have "s = t" using assms by metis
  then show ?thesis using assms(3) by simp
qed

lemma str_of_int_Inr: "str_of_int n = Inr s \<Longrightarrow> s = str_nat (nat n)"
  by (auto simp: str_of_int_def Let_def split: if_splits)

lemma json_int_text: "json_int i = Inr s \<Longrightarrow> s = (if i < 0 then ''-'' @ str_nat (nat (- i)) else str_nat (nat i))"
  by (auto simp: json_int_def bindE_eq_Inr_iff dest!: str_of_int_Inr split: if_splits)

lemma digits_numbers: "all_digits s \<Longrightarrow> list_all number_char s" "all_digits s \<Longrightarrow> CHR ''.'' \<notin> set s \<and> CHR ''e'' \<notin> set s"
  by (auto simp: all_digits_def list_all_iff number_char_def is_digit_def)

lemma str_nat_chars: "list_all number_char (str_nat n)" "CHR ''.'' \<notin> set (str_nat n)" "CHR ''e'' \<notin> set (str_nat n)"
  using digits_numbers [OF str_nat_digits [of n]] by simp_all

lemma json_int_chars: "json_int i = Inr s \<Longrightarrow> list_all number_char s \<and> CHR ''.'' \<notin> set s \<and> CHR ''e'' \<notin> set s \<and> s \<noteq> []"
  using str_nat_chars [of "nat i"] str_nat_chars [of "nat (- i)"] json_int_text [of i s]
  by (cases "i < 0") (simp_all add: number_char_def)

lemma str_nat_inj: "str_nat m = str_nat n \<Longrightarrow> m = n"
  by (metis read_str_nat)

lemma str_nat_no_sign: "str_nat n \<noteq> CHR ''-'' # s"
  using str_nat_digits [of n] by (metis all_digits_simps(2) not_digit(1))

lemma json_int_unique: "json_int i = Inr s \<Longrightarrow> json_int j = Inr s \<Longrightarrow> i = j"
proof -
  assume "json_int i = Inr s" "json_int j = Inr s"
  then have "(if i < 0 then ''-'' @ str_nat (nat (- i)) else str_nat (nat i))
      = (if j < 0 then ''-'' @ str_nat (nat (- j)) else str_nat (nat j))"
    by (auto dest!: json_int_text)
  then have "(i < 0 \<longleftrightarrow> j < 0) \<and> nat \<bar>i\<bar> = nat \<bar>j\<bar>"
    using str_nat_no_sign [of "nat i"] str_nat_no_sign [of "nat j"] str_nat_no_sign [symmetric]
    by (cases "i < 0"; cases "j < 0") (auto dest: str_nat_inj)
  then show ?thesis by linarith
qed

section \<open>The text determines the value\<close>

fun lead :: "json \<Rightarrow> char \<Rightarrow> bool" where
  "lead JNull c \<longleftrightarrow> c = CHR ''n''"
| "lead (JBool b) c \<longleftrightarrow> c = (if b then CHR ''t'' else CHR ''f'')"
| "lead (JInt i) c \<longleftrightarrow> number_char c"
| "lead (JFloat x) c \<longleftrightarrow> number_char c"
| "lead (JStr s) c \<longleftrightarrow> c = CHR 0x22"
| "lead (JList vs) c \<longleftrightarrow> c = CHR ''[''"
| "lead (JObj d) c \<longleftrightarrow> c = CHR ''{''"

lemma not_number_char [simp]: "\<not> number_char CHR ''n''" "\<not> number_char CHR ''t''" "\<not> number_char CHR ''f''"
  "\<not> number_char CHR 0x22" "\<not> number_char CHR ''[''" "\<not> number_char CHR ''{''" "\<not> number_char CHR '']''"
  "\<not> number_char CHR ''}''" "\<not> number_char CHR '',''"
  by (simp_all add: number_char_def is_digit_def)

lemma float_text:
  assumes "lawful_float_repr fr"
  shows "list_all number_char (fr (Finite q))" and "CHR ''.'' \<in> set (fr (Finite q)) \<or> CHR ''e'' \<in> set (fr (Finite q))"
    and "fr (Finite p) = fr (Finite q) \<Longrightarrow> p = q"
  using assms by (fastforce simp: lawful_float_repr_def)+

lemma text_lead:
  assumes "lawful_float_repr fr" and "canonical v" and "json_text fr v = Inr s"
  shows "\<exists>c cs. s = c # cs \<and> lead v c"
proof (cases v)
  case (JInt i)
  then show ?thesis using json_int_chars [of i s] assms(3) by (cases s) auto
next
  case (JFloat x)
  then obtain q where "x = Finite q" using assms(2) by auto
  then show ?thesis using float_text [OF assms(1), of q] assms(3) JFloat by (cases s) auto
qed (use assms(3) in \<open>auto simp: json_string_def bindE_eq_Inr_iff\<close>)

lemma lead_not_close: "lead v c \<Longrightarrow> c \<noteq> CHR '']'' \<and> c \<noteq> CHR ''}'' \<and> c \<noteq> CHR '',''"
  by (cases v) auto

fun lead_kind :: "json \<Rightarrow> nat" where
  "lead_kind JNull = 0"
| "lead_kind (JBool b) = (if b then 1 else 2)"
| "lead_kind (JInt i) = 3"
| "lead_kind (JFloat x) = 3"
| "lead_kind (JStr s) = 4"
| "lead_kind (JList vs) = 5"
| "lead_kind (JObj d) = 6"

lemma lead_same_kind: "lead v c \<Longrightarrow> lead w c \<Longrightarrow> lead_kind v = lead_kind w"
  by (cases v; cases w) (auto split: if_splits)

lemma same_kind:
  assumes "lawful_float_repr fr" and "canonical v" and "canonical w" and "json_text fr v = Inr s" and "json_text fr w = Inr s'"
    and "s @ r = s' @ r'"
  shows "lead_kind v = lead_kind w"
proof -
  obtain c cs d ds where first: "s = c # cs" "lead v c" "s' = d # ds" "lead w d"
    using text_lead [OF assms(1,2,4)] text_lead [OF assms(1,3,5)] by blast
  then have "c = d" using assms(6) by simp
  then show ?thesis using lead_same_kind [of v c w] first by simp
qed

definition tails :: "string list \<Rightarrow> string" where
  "tails ts = concat (map (\<lambda>t. '','' @ t) ts)"

lemma tails_simps [simp]: "tails [] = []" "tails (t # ts) = '','' @ t @ tails ts"
  by (simp_all add: tails_def)

lemma join_tails: "join '','' (t # ts) = t @ tails ts"
  by (induction ts arbitrary: t) auto

lemma delimited_tails: "c \<in> {CHR '']'', CHR ''}''} \<Longrightarrow> delimited (tails ts @ c # r)"
  by (cases ts) auto

text \<open>Two non-empty or empty sequences that print alike have alike tails.\<close>

lemma join_to_tails:
  assumes "join '','' ts @ c # r = join '','' us @ c # r'"
    and "[] \<notin> set ts \<union> set us" and "\<And>t. c # t \<notin> set ts \<union> set us"
  shows "tails ts @ c # r = tails us @ c # r'"
proof (cases ts)
  case Nil
  then show ?thesis using assms by (cases us; cases "hd us") (fastforce simp: join_tails)+
next
  case (Cons t ts')
  then show ?thesis using assms by (cases us; cases t) (fastforce simp: join_tails)+
qed

definition entry_text :: "string \<times> string \<Rightarrow> string" where
  "entry_text e = json_string (fst e) @ '':'' @ snd e"

lemma entry_texts_keys: "entry_texts fr d = Inr es \<Longrightarrow> map fst es = map fst d"
  by (induction d arbitrary: es) (auto simp: bindE_eq_Inr_iff)

lemma item_texts_iff: "item_texts fr vs = Inr ts \<longleftrightarrow> list_all2 (\<lambda>v t. json_text fr v = Inr t) vs ts"
  by (induction vs arbitrary: ts) (auto simp: bindE_eq_Inr_iff list_all2_Cons1)

lemma obj_text_sorted:
  assumes "canonical (JObj d)" and "json_text fr (JObj d) = Inr s"
  shows "\<exists>es. entry_texts fr d = Inr es \<and> s = ''{'' @ join '','' (map entry_text es) @ ''}''"
proof -
  obtain es where es: "entry_texts fr d = Inr es"
    "s = ''{'' @ join '','' (map (\<lambda>(k, t). json_string k @ '':'' @ t) (sort_key fst es)) @ ''}''"
    using assms(2) by (auto simp: bindE_eq_Inr_iff)
  have "sort_key fst es = es"
    using assms(1) entry_texts_keys [OF es(1)] by (intro sort_key_id_if_sorted) simp
  then show ?thesis using es by (simp add: entry_text_def [abs_def] case_prod_unfold)
qed

lemma first_item:
  assumes "lawful_float_repr fr" and "\<forall>v \<in> set vs. canonical v" and "item_texts fr vs = Inr ts"
  shows "[] \<notin> set ts" and "CHR '']'' # t \<notin> set ts"
proof -
  have "\<exists>v. canonical v \<and> json_text fr v = Inr u" if "u \<in> set ts" for u
    using that assms(2,3) unfolding item_texts_iff by (auto simp: list_all2_conv_all_nth in_set_conv_nth) (metis nth_mem)
  then show "[] \<notin> set ts" "CHR '']'' # t \<notin> set ts"
    using text_lead [OF assms(1)] lead_not_close by fastforce+
qed

lemma entry_text_start: "[] \<notin> entry_text ` E" "CHR ''}'' # t \<notin> entry_text ` E"
  by (auto simp: entry_text_def json_string_def)

lemma number_text:
  assumes "lawful_float_repr fr" and "canonical v" and "lead_kind v = 3" and "json_text fr v = Inr s"
  shows "list_all number_char s"
  using assms json_int_chars float_text(1) by (cases v) (auto split: if_splits)

lemma number_text_unique:
  assumes "lawful_float_repr fr" and "canonical v" and "canonical w" and "lead_kind v = 3" and "lead_kind w = 3"
    and "json_text fr v = Inr s" and "json_text fr w = Inr s"
  shows "v = w"
proof (cases v)
  case v: (JInt i)
  show ?thesis
  proof (cases w)
    case (JInt j)
    then show ?thesis using v assms(6,7) json_int_unique by auto
  next
    case (JFloat x)
    then show ?thesis using v assms(3,6,7) json_int_chars [of i s] float_text(2) [OF assms(1)] by auto
  qed (use assms(5) in \<open>auto split: if_splits\<close>)
next
  case v: (JFloat x)
  show ?thesis
  proof (cases w)
    case (JInt j)
    then show ?thesis using v assms(2,6,7) json_int_chars [of j s] float_text(2) [OF assms(1)] by auto
  next
    case (JFloat y)
    then show ?thesis using v assms(2,3,6,7) float_text(3) [OF assms(1)] by auto
  qed (use assms(5) in \<open>auto split: if_splits\<close>)
qed (use assms(4) in \<open>auto split: if_splits\<close>)

lemma number_case:
  assumes fr: "lawful_float_repr fr" and "canonical v" and "canonical w" and "lead_kind v = 3" and "json_text fr v = Inr s"
    and "json_text fr w = Inr s'" and "s @ r = s' @ r'" and "delimited r" and "delimited r'"
  shows "v = w \<and> r = r'"
proof -
  have w: "lead_kind w = 3" using same_kind [OF fr assms(2,3,5,6,7)] assms(4) by simp
  have "s = s' \<and> r = r'"
    using number_unique [OF number_text [OF fr assms(2,4,5)] number_text [OF fr assms(3) w assms(6)] assms(7-9)] .
  then show ?thesis using number_text_unique [OF fr assms(2,3,4) w assms(5)] assms(6) by simp
qed

lemma text_unique:
  assumes fr: "lawful_float_repr fr"
  shows "canonical v \<Longrightarrow> canonical w \<Longrightarrow> json_text fr v = Inr s \<Longrightarrow> json_text fr w = Inr s' \<Longrightarrow> s @ r = s' @ r' \<Longrightarrow>
      delimited r \<Longrightarrow> delimited r' \<Longrightarrow> v = w \<and> r = r'"
    and "\<forall>v \<in> set vs. canonical v \<Longrightarrow> \<forall>v \<in> set ws. canonical v \<Longrightarrow> item_texts fr vs = Inr ts \<Longrightarrow> item_texts fr ws = Inr us \<Longrightarrow>
      tails ts @ '']'' @ r = tails us @ '']'' @ r' \<Longrightarrow> vs = ws \<and> r = r'"
    and "\<forall>e \<in> set d. canonical (snd e) \<Longrightarrow> \<forall>e \<in> set d'. canonical (snd e) \<Longrightarrow> entry_texts fr d = Inr es \<Longrightarrow>
      entry_texts fr d' = Inr es' \<Longrightarrow>
      tails (map entry_text es) @ ''}'' @ r = tails (map entry_text es') @ ''}'' @ r' \<Longrightarrow> d = d' \<and> r = r'"
  using fr
proof (induction fr v and fr vs and fr d arbitrary: w s s' r r' and ws ts us r r' and d' es es' r r'
    rule: json_text_item_texts_entry_texts.induct)
  case (1 fr)
  then show ?case using same_kind [OF 1(8,1,2,3,4,5)] by (cases w) (auto split: if_splits)
next
  case (2 fr b)
  then show ?case using same_kind [OF 2(8,1,2,3,4,5)] by (cases w) (auto split: if_splits)
next
  case (3 fr i)
  then show ?case using number_case [OF 3(8,1,2) _ 3(3-7)] by simp
next
  case (4 fr x)
  then show ?case using number_case [OF 4(8,1,2) _ 4(3-7)] by simp
next
  case (5 fr x)
  then obtain t where w: "w = JStr t" using same_kind [OF 5(8,1,2,3,4,5)] by (cases w) (auto split: if_splits)
  then have "json_string x @ r = json_string t @ r'" using 5(3,4,5) by simp
  then show ?case using json_string_unique [of x r t r'] w by simp
next
  case (6 fr vs)
  then obtain ws where w: "w = JList ws" using same_kind [OF 6(9,2,3,4,5,6)] by (cases w) (auto split: if_splits)
  obtain ts us where ts: "item_texts fr vs = Inr ts" "item_texts fr ws = Inr us"
    and s: "s = ''['' @ join '','' ts @ '']''" "s' = ''['' @ join '','' us @ '']''"
    using 6(4,5) w by (auto simp: bindE_eq_Inr_iff)
  have items: "\<forall>v \<in> set vs. canonical v" "\<forall>v \<in> set ws. canonical v" using 6(2,3) w by simp_all
  have "join '','' ts @ CHR '']'' # r = join '','' us @ CHR '']'' # r'" using 6(6) s by simp
  then have "tails ts @ CHR '']'' # r = tails us @ CHR '']'' # r'"
    using first_item [OF 6(9) items(1) ts(1)] first_item [OF 6(9) items(2) ts(2)] by (intro join_to_tails) auto
  then show ?case using 6(1) [OF items ts _ 6(9)] w by simp
next
  case (7 fr d)
  then obtain d' where w: "w = JObj d'" using same_kind [OF 7(9,2,3,4,5,6)] by (cases w) (auto split: if_splits)
  obtain es es' where es: "entry_texts fr d = Inr es" "entry_texts fr d' = Inr es'"
    and s: "s = ''{'' @ join '','' (map entry_text es) @ ''}''" "s' = ''{'' @ join '','' (map entry_text es') @ ''}''"
    using obj_text_sorted 7(2-5) w by meson
  have entries: "\<forall>e \<in> set d. canonical (snd e)" "\<forall>e \<in> set d'. canonical (snd e)" using 7(2,3) w by simp_all
  have "join '','' (map entry_text es) @ CHR ''}'' # r = join '','' (map entry_text es') @ CHR ''}'' # r'" using 7(6) s by simp
  then have "tails (map entry_text es) @ CHR ''}'' # r = tails (map entry_text es') @ CHR ''}'' # r'"
    using entry_text_start by (intro join_to_tails) auto
  then show ?case using 7(1) [OF entries es _ 7(9)] w by simp
next
  case (8 fr)
  then show ?case by (cases ws) (auto simp: bindE_eq_Inr_iff)
next
  case (9 fr v vs)
  obtain t ts' where t: "json_text fr v = Inr t" "item_texts fr vs = Inr ts'" "ts = t # ts'"
    using 9(5) by (auto simp: bindE_eq_Inr_iff)
  obtain w ws' u us' where w: "ws = w # ws'" and u: "json_text fr w = Inr u" "item_texts fr ws' = Inr us'" "us = u # us'"
    using 9(6,7) t by (cases ws) (auto simp: bindE_eq_Inr_iff)
  have "t @ tails ts' @ '']'' @ r = u @ tails us' @ '']'' @ r'" using 9(7) t u by simp
  then have "v = w \<and> tails ts' @ '']'' @ r = tails us' @ '']'' @ r'"
    using 9(3,4) w by (intro 9(1) [OF _ _ t(1) u(1) _ _ _ 9(8)]) (auto intro: delimited_tails)
  then show ?case using 9(2) [OF _ _ t(2) u(2) _ 9(8)] 9(3,4) w by auto
next
  case (10 fr)
  then show ?case by (cases d') (auto simp: bindE_eq_Inr_iff)
next
  case (11 fr k v d)
  obtain t ts where t: "json_text fr v = Inr t" "entry_texts fr d = Inr ts" "es = (k, t) # ts"
    using 11(5) by (auto simp: bindE_eq_Inr_iff)
  obtain l w e u us where w: "d' = (l, w) # e" and u: "json_text fr w = Inr u" "entry_texts fr e = Inr us" "es' = (l, u) # us"
    using 11(6,7) t by (cases d') (auto simp: bindE_eq_Inr_iff)
  have "json_string k @ '':'' @ t @ tails (map entry_text ts) @ ''}'' @ r
      = json_string l @ '':'' @ u @ tails (map entry_text us) @ ''}'' @ r'"
    using 11(7) t u by (simp add: entry_text_def [abs_def])
  from json_string_unique [OF this] have key: "k = l" and rest: "t @ tails (map entry_text ts) @ ''}'' @ r = u @ tails (map entry_text us) @ ''}'' @ r'"
    by simp_all
  have "v = w \<and> tails (map entry_text ts) @ ''}'' @ r = tails (map entry_text us) @ ''}'' @ r'"
    using 11(3,4) w rest by (intro 11(1) [OF _ _ t(1) u(1) _ _ _ 11(8)]) (auto intro: delimited_tails)
  then show ?case using 11(2) [OF _ _ t(2) u(2) _ 11(8)] 11(3,4) w key by auto
qed

lemma dumps_steps: "canonical_json_dumps nfc fr v = Inr s \<longleftrightarrow> (\<exists>n. normalize_canonical_json nfc v = Inr n \<and> json_text fr n = Inr s)"
  by (simp add: canonical_json_dumps_def bindE_eq_Inr_iff)

lemma dumps_unique:
  assumes "lawful_float_repr fr" and "canonical_json_dumps nfc fr v = Inr s" and "canonical_json_dumps nfc fr w = Inr s"
  shows "normalize_canonical_json nfc v = normalize_canonical_json nfc w"
proof -
  obtain m n where "normalize_canonical_json nfc v = Inr m" "json_text fr m = Inr s"
    "normalize_canonical_json nfc w = Inr n" "json_text fr n = Inr s"
    using assms(2,3) unfolding dumps_steps by blast
  then show ?thesis using text_unique(1) [OF assms(1), of m n s s "[]" "[]"] normal_canonical(1) by simp
qed

text \<open>A concrete \<open>float_repr\<close> that is lawful: numerator, \<open>e\<close>, denominator.\<close>

definition fraction_repr :: "pyfloat \<Rightarrow> string" where
  "fraction_repr x =
    (case x of
       Finite q \<Rightarrow> (case quotient_of q of (n, d) \<Rightarrow> (if n < 0 then ''-'' else []) @ str_nat (nat \<bar>n\<bar>) @ ''e'' @ str_nat (nat d))
     | _ \<Rightarrow> ''nan'')"

lemma digits_before_e:
  assumes "str_nat a @ ''e'' @ x = str_nat b @ ''e'' @ y"
  shows "a = b \<and> x = y"
proof -
  have e: "takeWhile is_digit (str_nat n @ ''e'' @ z) = str_nat n" for n z
    using str_nat_digits [of n] by (simp add: all_digits_def list_all_iff takeWhile_append2 is_digit_def)
  then have "str_nat a = str_nat b" using assms by metis
  then show ?thesis using assms str_nat_inj by auto
qed

lemma fraction_repr_lawful: "lawful_float_repr fraction_repr"
  unfolding lawful_float_repr_def
proof (intro conjI allI impI)
  fix q
  obtain n d where q: "quotient_of q = (n, d)" by (cases "quotient_of q") auto
  show "list_all number_char (fraction_repr (Finite q))"
    using q str_nat_chars(1) by (simp add: fraction_repr_def number_char_def)
  show "CHR ''.'' \<in> set (fraction_repr (Finite q)) \<or> CHR ''e'' \<in> set (fraction_repr (Finite q))"
    using q by (simp add: fraction_repr_def)
next
  fix p q assume eq: "fraction_repr (Finite p) = fraction_repr (Finite q)"
  obtain n d where p: "quotient_of p = (n, d)" by (cases "quotient_of p") auto
  obtain m e where q: "quotient_of q = (m, e)" by (cases "quotient_of q") auto
  have pos: "d > 0" "e > 0" using p q quotient_of_denom_pos by blast+
  have no_sign: "str_nat a @ x \<noteq> CHR ''-'' # y" for a x y
    using str_nat_digits [of a] str_nat_nonempty [of a] by (cases "str_nat a") (auto simp: is_digit_def)
  have sign: "n < 0 \<longleftrightarrow> m < 0"
    using eq no_sign no_sign [symmetric] by (auto simp: fraction_repr_def p q split: if_splits)
  then have "nat \<bar>n\<bar> = nat \<bar>m\<bar> \<and> str_nat (nat d) = str_nat (nat e)"
    using eq by (intro digits_before_e) (simp add: fraction_repr_def p q split: if_splits)
  then have "n = m" "d = e" using sign pos str_nat_inj [of "nat d" "nat e"] by linarith+
  then show "p = q" using p q by (metis quotient_of_inject)
qed

text \<open>C4: the canonical text determines what was hashed: two objects have one text exactly when they have one normal form,
  which is a JSON value with finite floats and sorted, distinct keys.\<close>

theorem canonical_text_determines_value:
  assumes "lawful_float_repr fr" and "canonical_json_dumps nfc fr v = Inr s" and "canonical_json_dumps nfc fr w = Inr t"
  shows "(s = t \<longleftrightarrow> normalize_canonical_json nfc v = normalize_canonical_json nfc w) \<and>
    (\<exists>n. normalize_canonical_json nfc v = Inr n \<and> canonical n)"
proof -
  have "s = t" if "normalize_canonical_json nfc v = normalize_canonical_json nfc w"
    using that assms(2,3) by (simp add: canonical_json_dumps_def)
  then show ?thesis
    using dumps_unique [OF assms(1,2)] assms(2,3) dumps_steps normal_canonical(1) by blast
qed

definition sample_value :: py_value where
  "sample_value = PDict [(''b'', PList [PInt (- 7), PFloat (Finite (1 / 2)), PNone]), (''a'', PStr [CHR 0x22, CHR 0xE9])]"

lemma canonical_text_determines_value_witness:
  "\<exists>s. canonical_json_dumps id fraction_repr sample_value = Inr s \<and>
    (s = s \<longleftrightarrow> normalize_canonical_json id sample_value = normalize_canonical_json id sample_value) \<and>
    (\<exists>n. normalize_canonical_json id sample_value = Inr n \<and> canonical n)"
proof -
  have "case canonical_json_dumps id fraction_repr sample_value of Inr s \<Rightarrow> True | Inl e \<Rightarrow> False"
    by code_simp
  then obtain s where "canonical_json_dumps id fraction_repr sample_value = Inr s" by (auto split: sum.splits)
  then show ?thesis using canonical_text_determines_value [OF fraction_repr_lawful] by blast
qed

section \<open>Key order\<close>

text \<open>The same object with the entries of its dictionaries in other orders.\<close>

inductive reordered :: "py_value \<Rightarrow> py_value \<Rightarrow> bool" where
  same: "reordered v v"
| items: "list_all2 reordered vs ws \<Longrightarrow> reordered (PList vs) (PList ws)"
| entries: "list_all2 (\<lambda>a b. fst a = fst b \<and> reordered (snd a) (snd b)) d e \<Longrightarrow> mset e = mset e' \<Longrightarrow>
    reordered (PDict d) (PDict e')"

lemma norm_entries_map:
  "norm_entries nfc [] d = Inr e \<longleftrightarrow> distinct (map (nfc \<circ> fst) d) \<and>
    (\<forall>kv \<in> set d. \<exists>n. normalize_canonical_json nfc (snd kv) = Inr n) \<and>
    e = map (\<lambda>kv. (nfc (fst kv), projr (normalize_canonical_json nfc (snd kv)))) d"
proof -
  have "list_all2 (\<lambda>kv ln. fst ln = nfc (fst kv) \<and> normalize_canonical_json nfc (snd kv) = Inr (snd ln)) d e \<longleftrightarrow>
    (\<forall>kv \<in> set d. \<exists>n. normalize_canonical_json nfc (snd kv) = Inr n) \<and>
    e = map (\<lambda>kv. (nfc (fst kv), projr (normalize_canonical_json nfc (snd kv)))) d"
    by (induction d arbitrary: e) (auto simp: list_all2_Cons1)
  then show ?thesis by (simp add: norm_entries_iff)
qed

lemma norm_permuted:
  assumes "normalize_canonical_json nfc (PDict d) = Inr n" and "mset d = mset d'"
  shows "normalize_canonical_json nfc (PDict d') = Inr n"
proof -
  let ?g = "\<lambda>kv. (nfc (fst kv), projr (normalize_canonical_json nfc (snd kv)))"
  have d: "distinct (map (nfc \<circ> fst) d)" "\<forall>kv \<in> set d. \<exists>n. normalize_canonical_json nfc (snd kv) = Inr n"
    and n: "n = JObj (sort_key fst (map ?g d))"
    using assms(1) norm_entries_map [of nfc d] by (auto simp: bindE_eq_Inr_iff)
  have keys: "mset (map (nfc \<circ> fst) d) = mset (map (nfc \<circ> fst) d')" using assms(2) by simp
  have d': "norm_entries nfc [] d' = Inr (map ?g d')"
    using d mset_eq_setD [OF assms(2)] mset_eq_imp_distinct_iff [OF keys] by (simp add: norm_entries_map)
  have "inj_on fst (set (map ?g d))"
    using d(1) by (auto simp: inj_on_def distinct_map)
  then have "sort_key fst (map ?g d) = sort_key fst (map ?g d')"
    using assms(2) by (intro sort_key_inj_key_eq) simp_all
  then show ?thesis using d' n by simp
qed

lemma reordered_normal: "reordered v w \<Longrightarrow> normalize_canonical_json nfc v = Inr n \<Longrightarrow> normalize_canonical_json nfc w = Inr n"
proof (induction arbitrary: n rule: reordered.induct)
  case (items vs ws)
  then obtain ns where ns: "norm_items nfc vs = Inr ns" "n = JList ns" by (auto simp: bindE_eq_Inr_iff)
  then have "norm_items nfc ws = Inr ns"
    using items(1) unfolding norm_items_iff list_all2_conv_all_nth by auto
  then show ?case using ns by simp
next
  case (entries d e e')
  then obtain es where es: "norm_entries nfc [] d = Inr es" "n = JObj (sort_key fst es)" by (auto simp: bindE_eq_Inr_iff)
  have keys: "map fst e = map fst d" using entries(1) by (auto simp: list_all2_conv_all_nth intro!: nth_equalityI)
  have "norm_entries nfc [] e = Inr es"
    using es(1) entries(1) keys unfolding norm_entries_iff list_all2_conv_all_nth by (auto simp flip: map_map)
  then show ?case using norm_permuted [OF _ entries(2)] es by simp
qed simp

text \<open>The text, and so the hash, does not depend on the order of the entries of any dictionary in the object.\<close>

theorem canonical_text_ignores_key_order:
  assumes "reordered v w" and "canonical_json_dumps nfc fr v = Inr s"
  shows "canonical_json_dumps nfc fr w = Inr s"
  using assms reordered_normal unfolding dumps_steps by blast

lemma canonical_text_ignores_key_order_witness:
  "\<exists>s. canonical_json_dumps id fraction_repr
      (PDict [(''a'', PStr [CHR 0x22, CHR 0xE9]), (''b'', PList [PInt (- 7), PFloat (Finite (1 / 2)), PNone])]) = Inr s"
proof -
  have "reordered sample_value
      (PDict [(''a'', PStr [CHR 0x22, CHR 0xE9]), (''b'', PList [PInt (- 7), PFloat (Finite (1 / 2)), PNone])])"
    unfolding sample_value_def by (rule reordered.entries) (auto intro: reordered.same)
  moreover have "case canonical_json_dumps id fraction_repr sample_value of Inr s \<Rightarrow> True | Inl e \<Rightarrow> False"
    by code_simp
  ultimately show ?thesis using canonical_text_ignores_key_order by (auto split: sum.splits)
qed

end
