(* ===== verification/Authority_Identity.thy ===== *)
theory Authority_Identity
  imports Canonical_Json
begin

text \<open>
  The identity keys of an authority request (\<open>python/validators/src/taxat_validators/primitives.py\<close>): the namespace
  hash, the duplicate meaning key, the request hash and the idempotency key, each the hash of a dictionary that holds
  the keys before it.
\<close>

type_synonym payload = "(string \<times> py_value) list"

definition pget :: "payload \<Rightarrow> string \<Rightarrow> py_value" where
  "pget p k = (case map_of p k of None \<Rightarrow> PNone | Some v \<Rightarrow> v)"

definition none_sentinel :: string where
  "none_sentinel = ''<NONE>''"

definition profile_version :: py_value where
  "profile_version = PStr ''AUTHORITY_REQUEST_IDENTITY_V2''"

definition normalized_optional_identity_value :: "py_value \<Rightarrow> string" where
  "normalized_optional_identity_value v =
    (case v of PStr s \<Rightarrow> if s \<noteq> [] then s else none_sentinel | _ \<Rightarrow> none_sentinel)"

definition normalized_string_sequence :: "py_value \<Rightarrow> py_value list" where
  "normalized_string_sequence v =
    (case v of PList vs \<Rightarrow> if vs \<noteq> [] then vs else [PStr none_sentinel] | _ \<Rightarrow> [PStr none_sentinel])"

definition sort_set_like_strings :: "(string \<Rightarrow> string) \<Rightarrow> string list \<Rightarrow> string list" where
  "sort_set_like_strings nfc vs = sort (map nfc vs)"

section \<open>The hashed dictionaries\<close>

definition payload_fields :: "payload \<Rightarrow> string list \<Rightarrow> payload" where
  "payload_fields p fs = map (\<lambda>f. (f, pget p f)) fs"

definition namespace_fields :: "string list" where
  "namespace_fields = [''authority_name'', ''authority_product_profile'', ''provider_environment'', ''authority_scope'',
     ''operation_family'', ''operation_profile'', ''provider_api_version'', ''binding_lineage_ref'']"

definition namespace_body :: "payload \<Rightarrow> payload" where
  "namespace_body p = (''identity_profile_version'', profile_version) # payload_fields p namespace_fields"

definition derive_authority_identity_namespace_hash ::
  "(string \<Rightarrow> string) \<Rightarrow> (pyfloat \<Rightarrow> string) \<Rightarrow> (string \<Rightarrow> string) \<Rightarrow> payload \<Rightarrow> primitive_error + string" where
  "derive_authority_identity_namespace_hash nfc fr H p = stable_json_hash nfc fr H (PDict (namespace_body p))"

text \<open>The four texts a caller adds: obligation, basis type, path and query.\<close>

record request_texts =
  normalized_obligation_ref :: string
  normalized_basis_type :: string
  canonical_path :: string
  canonical_query :: string

definition meaning_body :: "string \<Rightarrow> payload \<Rightarrow> request_texts \<Rightarrow> payload" where
  "meaning_body namespace_hash p r =
    [(''identity_profile_version'', profile_version), (''identity_namespace_hash'', PStr namespace_hash)]
    @ payload_fields p [''tenant_id'', ''client_id'', ''attempt_lineage_manifest_id'']
    @ [(''business_partition_refs'', PList (normalized_string_sequence (pget p ''business_partition_refs''))),
       (''normalized_obligation_ref'', PStr (normalized_obligation_ref r)),
       (''normalized_basis_type'', PStr (normalized_basis_type r))]
    @ payload_fields p [''http_method'']
    @ [(''canonical_path'', PStr (canonical_path r)), (''canonical_query'', PStr (canonical_query r))]
    @ payload_fields p [''request_body_hash'', ''access_binding_hash'']"

definition derive_authority_duplicate_meaning_key ::
  "(string \<Rightarrow> string) \<Rightarrow> (pyfloat \<Rightarrow> string) \<Rightarrow> (string \<Rightarrow> string) \<Rightarrow> payload \<Rightarrow> request_texts \<Rightarrow> primitive_error + string" where
  "derive_authority_duplicate_meaning_key nfc fr H p r =
    bindE (derive_authority_identity_namespace_hash nfc fr H p) (\<lambda>namespace_hash.
      stable_json_hash nfc fr H (PDict (meaning_body namespace_hash p r)))"

definition request_body :: "string \<Rightarrow> string \<Rightarrow> payload \<Rightarrow> payload" where
  "request_body namespace_hash duplicate_meaning_key p =
    [(''identity_profile_version'', profile_version), (''identity_namespace_hash'', PStr namespace_hash),
     (''duplicate_meaning_key'', PStr duplicate_meaning_key)]
    @ payload_fields p [''header_profile_refs'', ''token_binding_ref'', ''authority_binding_ref'', ''authority_link_ref'']
    @ [(''delegation_grant_ref'', PStr (normalized_optional_identity_value (pget p ''delegation_grant_ref'')))]
    @ payload_fields p [''subject_ref'', ''acting_party_ref'', ''policy_snapshot_hash'']"

definition derive_authority_request_hash ::
  "(string \<Rightarrow> string) \<Rightarrow> (pyfloat \<Rightarrow> string) \<Rightarrow> (string \<Rightarrow> string) \<Rightarrow> payload \<Rightarrow> string \<Rightarrow> primitive_error + string" where
  "derive_authority_request_hash nfc fr H p duplicate_meaning_key =
    bindE (derive_authority_identity_namespace_hash nfc fr H p) (\<lambda>namespace_hash.
      stable_json_hash nfc fr H (PDict (request_body namespace_hash duplicate_meaning_key p)))"

definition idempotency_body :: "string \<Rightarrow> payload" where
  "idempotency_body duplicate_meaning_key =
    [(''identity_profile_version'', profile_version), (''duplicate_meaning_key'', PStr duplicate_meaning_key)]"

definition derive_authority_idempotency_key ::
  "(string \<Rightarrow> string) \<Rightarrow> (pyfloat \<Rightarrow> string) \<Rightarrow> (string \<Rightarrow> string) \<Rightarrow> string \<Rightarrow> primitive_error + string" where
  "derive_authority_idempotency_key nfc fr H duplicate_meaning_key =
    stable_json_hash nfc fr H (PDict (idempotency_body duplicate_meaning_key))"

section \<open>What equal hashes mean\<close>

text \<open>Two dictionaries with different texts and one hash.\<close>

definition collide :: "(string \<Rightarrow> string) \<Rightarrow> (pyfloat \<Rightarrow> string) \<Rightarrow> (string \<Rightarrow> string) \<Rightarrow> payload \<Rightarrow> payload \<Rightarrow> bool" where
  "collide nfc fr H p q \<longleftrightarrow>
    (\<exists>s t. canonical_json_dumps nfc fr (PDict p) = Inr s \<and> canonical_json_dumps nfc fr (PDict q) = Inr t \<and> s \<noteq> t \<and> H s = H t)"

lemma norm_dict_fields:
  assumes "normalize_canonical_json nfc (PDict d) = normalize_canonical_json nfc (PDict e)"
    and "normalize_canonical_json nfc (PDict d) = Inr n" and "(k, v) \<in> set d" and "(k, w) \<in> set e"
  shows "normalize_canonical_json nfc v = normalize_canonical_json nfc w"
proof -
  obtain x y where x: "norm_entries nfc [] d = Inr x" and y: "norm_entries nfc [] e = Inr y"
    and sorted: "sort_key fst x = sort_key fst y"
    using assms(1,2) by (auto simp: bindE_eq_Inr_iff)
  have "set x = set y" using arg_cong [OF sorted, of set] by simp
  moreover have "\<exists>m. normalize_canonical_json nfc v = Inr m \<and> (nfc k, m) \<in> set x"
    using x assms(3) unfolding norm_entries_map by force
  moreover have "\<exists>m. normalize_canonical_json nfc w = Inr m \<and> (nfc k, m) \<in> set y"
    using y assms(4) unfolding norm_entries_map by force
  ultimately show ?thesis
    using norm_entries_distinct [OF x] by (metis eq_key_imp_eq_value)
qed

lemma hash_fields:
  assumes "lawful_float_repr fr" and "stable_json_hash nfc fr H (PDict d) = Inr h" and "stable_json_hash nfc fr H (PDict e) = Inr h"
    and "\<not> collide nfc fr H d e" and "(k, v) \<in> set d" and "(k, w) \<in> set e"
  shows "normalize_canonical_json nfc v = normalize_canonical_json nfc w"
proof -
  obtain s t where s: "canonical_json_dumps nfc fr (PDict d) = Inr s" "H s = h"
    and t: "canonical_json_dumps nfc fr (PDict e) = Inr t" "H t = h"
    using assms(2,3) by (auto simp: stable_json_hash_def bindE_eq_Inr_iff)
  then have "s = t" using assms(4) by (auto simp: collide_def)
  then show ?thesis
    using norm_dict_fields [OF dumps_unique [OF assms(1) s(1)]] t(1) s(1) assms(5,6) unfolding dumps_steps by blast
qed

lemma norm_str [simp]: "normalize_canonical_json nfc (PStr s) = normalize_canonical_json nfc (PStr t) \<longleftrightarrow> nfc s = nfc t"
  by simp

lemma payload_field_in: "f \<in> set fs \<Longrightarrow> (f, pget p f) \<in> set (payload_fields p fs)"
  by (simp add: payload_fields_def)

lemma namespace_agrees:
  assumes "lawful_float_repr fr" and "derive_authority_identity_namespace_hash nfc fr H p = Inr h"
    and "derive_authority_identity_namespace_hash nfc fr H q = Inr h" and "\<not> collide nfc fr H (namespace_body p) (namespace_body q)"
    and "f \<in> set namespace_fields"
  shows "normalize_canonical_json nfc (pget p f) = normalize_canonical_json nfc (pget q f)"
  using hash_fields [OF assms(1) assms(2,3) [unfolded derive_authority_identity_namespace_hash_def] assms(4), of f]
    payload_field_in [OF assms(5)] by (simp add: namespace_body_def)

text \<open>What a duplicate meaning key stands for.\<close>

definition meaning_fields :: "string list" where
  "meaning_fields = namespace_fields @ [''tenant_id'', ''client_id'', ''attempt_lineage_manifest_id'', ''http_method'',
     ''request_body_hash'', ''access_binding_hash'']"

definition same_meaning :: "(string \<Rightarrow> string) \<Rightarrow> payload \<Rightarrow> request_texts \<Rightarrow> payload \<Rightarrow> request_texts \<Rightarrow> bool" where
  "same_meaning nfc p r q u \<longleftrightarrow>
    (\<forall>f \<in> set meaning_fields. normalize_canonical_json nfc (pget p f) = normalize_canonical_json nfc (pget q f)) \<and>
    normalize_canonical_json nfc (PList (normalized_string_sequence (pget p ''business_partition_refs'')))
      = normalize_canonical_json nfc (PList (normalized_string_sequence (pget q ''business_partition_refs''))) \<and>
    nfc (normalized_obligation_ref r) = nfc (normalized_obligation_ref u) \<and>
    nfc (normalized_basis_type r) = nfc (normalized_basis_type u) \<and>
    nfc (canonical_path r) = nfc (canonical_path u) \<and> nfc (canonical_query r) = nfc (canonical_query u)"

lemma meaning_agrees:
  assumes fr: "lawful_float_repr fr" and hex: "\<And>s. nfc (H s) = H s"
    and key: "derive_authority_duplicate_meaning_key nfc fr H p r = Inr h" "derive_authority_duplicate_meaning_key nfc fr H q u = Inr h"
    and apart: "\<not> collide nfc fr H (namespace_body p) (namespace_body q)"
      "\<And>m n. derive_authority_identity_namespace_hash nfc fr H p = Inr m \<Longrightarrow>
        derive_authority_identity_namespace_hash nfc fr H q = Inr n \<Longrightarrow> \<not> collide nfc fr H (meaning_body m p r) (meaning_body n q u)"
  shows "same_meaning nfc p r q u"
proof -
  obtain m n where m: "derive_authority_identity_namespace_hash nfc fr H p = Inr m"
      "stable_json_hash nfc fr H (PDict (meaning_body m p r)) = Inr h"
    and n: "derive_authority_identity_namespace_hash nfc fr H q = Inr n"
      "stable_json_hash nfc fr H (PDict (meaning_body n q u)) = Inr h"
    using key by (auto simp: derive_authority_duplicate_meaning_key_def bindE_eq_Inr_iff)
  have agree: "normalize_canonical_json nfc v = normalize_canonical_json nfc w"
    if "(k, v) \<in> set (meaning_body m p r)" "(k, w) \<in> set (meaning_body n q u)" for k v w
    using hash_fields [OF fr m(2) n(2) apart(2) [OF m(1) n(1)] that] .
  have "nfc m = nfc n"
    using agree [of "''identity_namespace_hash''" "PStr m" "PStr n"] by (simp add: meaning_body_def)
  moreover have "nfc m = m" "nfc n = n"
    using m(1) n(1) hex by (auto simp: derive_authority_identity_namespace_hash_def stable_json_hash_def bindE_eq_Inr_iff)
  ultimately have "derive_authority_identity_namespace_hash nfc fr H q = Inr m" using n(1) by simp
  then have "normalize_canonical_json nfc (pget p f) = normalize_canonical_json nfc (pget q f)" if "f \<in> set namespace_fields" for f
    using namespace_agrees [OF fr m(1) _ apart(1) that] by simp
  moreover have "normalize_canonical_json nfc (pget p f) = normalize_canonical_json nfc (pget q f)"
    if "f \<in> {''tenant_id'', ''client_id'', ''attempt_lineage_manifest_id'', ''http_method'', ''request_body_hash'', ''access_binding_hash''}" for f
    using that by (intro agree [of f]) (auto simp: meaning_body_def payload_fields_def)
  moreover have "normalize_canonical_json nfc (PList (normalized_string_sequence (pget p ''business_partition_refs'')))
      = normalize_canonical_json nfc (PList (normalized_string_sequence (pget q ''business_partition_refs'')))"
    by (rule agree [of "''business_partition_refs''"]) (simp_all add: meaning_body_def)
  moreover have "nfc (normalized_obligation_ref r) = nfc (normalized_obligation_ref u)"
    using agree [of "''normalized_obligation_ref''" "PStr (normalized_obligation_ref r)" "PStr (normalized_obligation_ref u)"]
    by (simp add: meaning_body_def)
  moreover have "nfc (normalized_basis_type r) = nfc (normalized_basis_type u)"
    using agree [of "''normalized_basis_type''" "PStr (normalized_basis_type r)" "PStr (normalized_basis_type u)"]
    by (simp add: meaning_body_def)
  moreover have "nfc (canonical_path r) = nfc (canonical_path u)"
    using agree [of "''canonical_path''" "PStr (canonical_path r)" "PStr (canonical_path u)"] by (simp add: meaning_body_def)
  moreover have "nfc (canonical_query r) = nfc (canonical_query u)"
    using agree [of "''canonical_query''" "PStr (canonical_query r)" "PStr (canonical_query u)"] by (simp add: meaning_body_def)
  ultimately show ?thesis unfolding same_meaning_def meaning_fields_def by auto
qed

section \<open>Equal meaning gives equal keys\<close>

lemma norm_entries_cong:
  "list_all2 (\<lambda>a b. fst a = fst b \<and> normalize_canonical_json nfc (snd a) = normalize_canonical_json nfc (snd b)) d e \<Longrightarrow>
    norm_entries nfc seen d = norm_entries nfc seen e"
proof (induction d arbitrary: e seen)
  case (Cons a d)
  then obtain b f where "e = b # f" "fst a = fst b" "normalize_canonical_json nfc (snd a) = normalize_canonical_json nfc (snd b)"
    "\<And>seen. norm_entries nfc seen d = norm_entries nfc seen f"
    by (auto simp: list_all2_Cons1)
  then show ?case by (cases a; cases b) simp
qed simp

lemma hash_cong:
  assumes "list_all2 (\<lambda>a b. fst a = fst b \<and> normalize_canonical_json nfc (snd a) = normalize_canonical_json nfc (snd b)) d e"
  shows "stable_json_hash nfc fr H (PDict d) = stable_json_hash nfc fr H (PDict e)"
  using norm_entries_cong [OF assms] by (simp add: stable_json_hash_def canonical_json_dumps_def)

lemma same_meaning_same_key:
  assumes "same_meaning nfc p r q u"
  shows "derive_authority_duplicate_meaning_key nfc fr H p r = derive_authority_duplicate_meaning_key nfc fr H q u"
proof -
  have fields: "normalize_canonical_json nfc (pget p f) = normalize_canonical_json nfc (pget q f)" if "f \<in> set meaning_fields" for f
    using assms that unfolding same_meaning_def by blast
  have "derive_authority_identity_namespace_hash nfc fr H p = derive_authority_identity_namespace_hash nfc fr H q"
    unfolding derive_authority_identity_namespace_hash_def namespace_body_def
    using fields by (intro hash_cong) (simp add: payload_fields_def list_all2_map1 list_all2_map2 list_all2_same meaning_fields_def)
  moreover have "stable_json_hash nfc fr H (PDict (meaning_body m p r)) = stable_json_hash nfc fr H (PDict (meaning_body m q u))" for m
  proof (rule hash_cong)
    show "list_all2 (\<lambda>a b. fst a = fst b \<and> normalize_canonical_json nfc (snd a) = normalize_canonical_json nfc (snd b))
      (meaning_body m p r) (meaning_body m q u)"
      unfolding meaning_body_def payload_fields_def
      using assms fields by (simp add: same_meaning_def meaning_fields_def)
  qed
  ultimately show ?thesis by (simp add: derive_authority_duplicate_meaning_key_def)
qed

text \<open>A collision of the digest among the three pairs of texts that two requests hash.\<close>

definition identity_collision ::
  "(string \<Rightarrow> string) \<Rightarrow> (pyfloat \<Rightarrow> string) \<Rightarrow> (string \<Rightarrow> string) \<Rightarrow> payload \<Rightarrow> request_texts \<Rightarrow> payload \<Rightarrow> request_texts \<Rightarrow> bool"
  where
  "identity_collision nfc fr H p r q u \<longleftrightarrow> collide nfc fr H (namespace_body p) (namespace_body q) \<or>
    (\<exists>m n. derive_authority_identity_namespace_hash nfc fr H p = Inr m \<and> derive_authority_identity_namespace_hash nfc fr H q = Inr n \<and>
      collide nfc fr H (meaning_body m p r) (meaning_body n q u)) \<or>
    (\<exists>k l. derive_authority_duplicate_meaning_key nfc fr H p r = Inr k \<and> derive_authority_duplicate_meaning_key nfc fr H q u = Inr l \<and>
      collide nfc fr H (idempotency_body k) (idempotency_body l))"

text \<open>C3: two requests get one idempotency key exactly when they mean the same, up to normalisation of every hashed value,
  unless the digest collides on one of the three pairs of texts that the two requests hash.\<close>

theorem idempotency_key_identifies_request:
  assumes "lawful_float_repr fr" and hex: "\<And>s. nfc (H s) = H s"
    and k: "derive_authority_duplicate_meaning_key nfc fr H p r = Inr k" and l: "derive_authority_duplicate_meaning_key nfc fr H q u = Inr l"
    and i: "derive_authority_idempotency_key nfc fr H k = Inr i" and j: "derive_authority_idempotency_key nfc fr H l = Inr j"
    and apart: "\<not> identity_collision nfc fr H p r q u"
  shows "i = j \<longleftrightarrow> same_meaning nfc p r q u"
proof
  assume "same_meaning nfc p r q u"
  then have "k = l" using same_meaning_same_key k l by fastforce
  then show "i = j" using i j by simp
next
  assume "i = j"
  then have "nfc k = nfc l"
    using hash_fields [OF assms(1), of nfc H "idempotency_body k" i "idempotency_body l" "''duplicate_meaning_key''" "PStr k" "PStr l"]
      i j k l apart by (auto simp: derive_authority_idempotency_key_def identity_collision_def idempotency_body_def)
  moreover have "nfc k = k" "nfc l = l"
    using k l hex by (auto simp: derive_authority_duplicate_meaning_key_def stable_json_hash_def bindE_eq_Inr_iff)
  ultimately have "k = l" by simp
  then show "same_meaning nfc p r q u"
    using k l apart unfolding identity_collision_def by (intro meaning_agrees [where nfc = nfc and H = H and h = l, OF assms(1)] hex) auto
qed

text \<open>Two retries of one request, one with an empty list of partitions and one without the key.\<close>

definition retry_texts :: request_texts where
  "retry_texts = \<lparr>normalized_obligation_ref = ''o'', normalized_basis_type = ''b'', canonical_path = ''/p'', canonical_query = ''q=1''\<rparr>"

definition first_payload :: payload where
  "first_payload = [(''tenant_id'', PStr ''t''), (''business_partition_refs'', PList [])]"

definition retry_payload :: payload where
  "retry_payload = [(''tenant_id'', PStr ''t'')]"

lemma identity_collision_id: "\<not> identity_collision nfc fr id p r q u"
  by (simp add: identity_collision_def collide_def)

lemma retry_same_meaning: "same_meaning id first_payload retry_texts retry_payload retry_texts"
  by (simp add: same_meaning_def first_payload_def retry_payload_def meaning_fields_def namespace_fields_def pget_def
      normalized_string_sequence_def)

lemma first_derives:
  "case derive_authority_duplicate_meaning_key id fraction_repr id first_payload retry_texts of
     Inr k \<Rightarrow> (case derive_authority_idempotency_key id fraction_repr id k of Inr i \<Rightarrow> True | Inl e \<Rightarrow> False) | Inl e \<Rightarrow> False"
  by code_simp

lemma idempotency_key_identifies_request_witness:
  "\<exists>k i. derive_authority_duplicate_meaning_key id fraction_repr id first_payload retry_texts = Inr k \<and>
    derive_authority_duplicate_meaning_key id fraction_repr id retry_payload retry_texts = Inr k \<and>
    derive_authority_idempotency_key id fraction_repr id k = Inr i \<and>
    (i = i \<longleftrightarrow> same_meaning id first_payload retry_texts retry_payload retry_texts)"
proof -
  obtain k i where k: "derive_authority_duplicate_meaning_key id fraction_repr id first_payload retry_texts = Inr k"
    and i: "derive_authority_idempotency_key id fraction_repr id k = Inr i"
    using first_derives by (auto split: sum.splits)
  have l: "derive_authority_duplicate_meaning_key id fraction_repr id retry_payload retry_texts = Inr k"
    using k same_meaning_same_key [OF retry_same_meaning] by simp
  show ?thesis
    using idempotency_key_identifies_request [OF fraction_repr_lawful _ k l i i identity_collision_id] k l i by auto
qed

end
