(* ===== verification/Runtime_Profile.thy ===== *)
theory Runtime_Profile
  imports Py_Digits
begin

text \<open>
  The loader of the Python runtime profile, \<open>python/validators/src/taxat_validators/runtime_profile.py\<close>. The
  three policy files of \<open>config/runtime\<close> are records; a missing row of a dictionary built from them is
  \<open>Row_Missing\<close> (\<open>KeyError\<close>). The host holds what is outside: the JSON parser and printer on the values the
  loader meets, the bootstrap file, and \<open>urlparse\<close> (whether a text has a scheme and a network location).
\<close>

datatype runtime_error =
    RUNTIME_ENV_KEY_MISSING string | RUNTIME_ENV_EMPTY string | RUNTIME_ENV_COERCION_FAILED string
  | RUNTIME_ENV_PROVIDER_MISMATCH string | RUNTIME_LOCAL_BOOTSTRAP_FORBIDDEN
  | RUNTIME_SECRET_HANDLE_RAW_VALUE_FORBIDDEN string string | RUNTIME_SECRET_HANDLE_FORBIDDEN string
  | RUNTIME_ENV_KEY_FORBIDDEN string | PYTHON_Consumer_Absent | PYTHON_Ladder_Absent
  | Row_Missing string | File_Unreadable | Json_Decode_Error

record key_row =
  kr_env_key :: string
  kr_value_kind :: string
  kr_allowed_sources :: "string list"
  kr_allowed_values :: "string list"
  kr_required_for :: "string list"

record consumer_row =
  co_consumer_ref :: string
  co_allowed_env_keys :: "string list"
  co_allowed_secret_keys :: "string list"

record environment_row =
  er_environment_ref :: string
  er_provider_environment_ref :: string
  er_allowed_namespace_refs :: "string list"
  er_hmrc_base_url_patterns :: "string list"
  er_browser_public_origin_patterns :: "string list"
  er_local_bootstrap_allowed :: bool

record handle_policy =
  hp_env_key :: string
  hp_alias_ref :: string
  hp_allowed_environment_refs :: "string list"
  hp_allowed_namespace_refs :: "string list"
  hp_resolution_mode :: string
  hp_cache_policy :: string

record bootstrap_policy =
  bp_env_key :: string
  bp_allowed_consumer_refs :: "string list"
  bp_allowed_environment_refs :: "string list"
  bp_raw_value_fields_forbidden :: "string list"

record runtime_config =
  runtime_key_catalog :: "key_row list"
  consumer_classes :: "consumer_row list"
  environment_rows :: "environment_row list"
  handle_env_keys :: "handle_policy list"
  local_bootstrap_policy :: bootstrap_policy
  consumer_resolution_ladders :: "(string \<times> string list) list"

record runtime_host =
  json_loads :: "string \<Rightarrow> json option"
  json_dumps :: "json \<Rightarrow> string"
  read_text :: "string \<Rightarrow> string option"
  absolute_url :: "string \<Rightarrow> bool"

datatype scalar = SBool bool | SInt int | SStr string

record secret_handle =
  sh_alias_ref :: string
  sh_namespace_ref :: string
  sh_store_ref :: string
  sh_metadata_ref :: string
  sh_version_ref :: string
  sh_fingerprint :: json
  sh_provider_environment_ref :: json
  sh_handle_ref :: json
  sh_resolution_mode :: string
  sh_cache_policy :: string

record runtime_profile =
  rp_environment_ref :: string
  rp_provider_environment_ref :: string
  rp_values :: "(string \<times> scalar) list"
  rp_secret_handles :: "(string \<times> secret_handle) list"

section \<open>Rows\<close>

definition find_row :: "('r \<Rightarrow> string) \<Rightarrow> string \<Rightarrow> 'e \<Rightarrow> 'r list \<Rightarrow> 'e + 'r" where
  "find_row key k e rows = (case find (\<lambda>row. key row = k) rows of None \<Rightarrow> Inl e | Some row \<Rightarrow> Inr row)"

definition python_consumer_row :: "runtime_config \<Rightarrow> runtime_error + consumer_row" where
  "python_consumer_row cfg = find_row co_consumer_ref ''PYTHON'' PYTHON_Consumer_Absent (consumer_classes cfg)"

definition resolution_ladder :: "runtime_config \<Rightarrow> runtime_error + string list" where
  "resolution_ladder cfg =
    bindE (find_row fst ''PYTHON'' PYTHON_Ladder_Absent (consumer_resolution_ladders cfg)) (\<lambda>row. Inr (snd row))"

text \<open>A dictionary comprehension keeps the last row of a key; its keys are in the order of first occurrence.\<close>

definition key_index :: "runtime_config \<Rightarrow> string \<Rightarrow> runtime_error + key_row" where
  "key_index cfg k = find_row kr_env_key k (Row_Missing k) (rev (runtime_key_catalog cfg))"

definition index_keys :: "runtime_config \<Rightarrow> string list" where
  "index_keys cfg = rev (remdups (rev (map kr_env_key (runtime_key_catalog cfg))))"

definition handle_policy_index :: "runtime_config \<Rightarrow> string \<Rightarrow> runtime_error + handle_policy" where
  "handle_policy_index cfg k = find_row hp_env_key k (Row_Missing k) (rev (handle_env_keys cfg))"

definition required_for_consumer :: "string \<Rightarrow> runtime_config \<Rightarrow> consumer_row \<Rightarrow> string set" where
  "required_for_consumer ref cfg consumer = set (co_allowed_env_keys consumer) \<union>
     set (map kr_env_key (filter (\<lambda>row. ref \<in> set (kr_required_for row)) (runtime_key_catalog cfg)))"

definition find_environment_row :: "runtime_config \<Rightarrow> string \<Rightarrow> runtime_error + environment_row" where
  "find_environment_row cfg ref =
    find_row er_environment_ref ref (RUNTIME_ENV_PROVIDER_MISMATCH ''TAXAT_ENVIRONMENT_ID'') (environment_rows cfg)"

section \<open>Values\<close>

definition py_space :: "char \<Rightarrow> bool" where
  "py_space c \<longleftrightarrow> (let n = of_char c :: nat in 9 \<le> n \<and> n \<le> 13 \<or> 28 \<le> n \<and> n \<le> 32 \<or> n = 133 \<or> n = 160)"

definition strip :: "string \<Rightarrow> string" where
  "strip s = rev (dropWhile py_space (rev (dropWhile py_space s)))"

definition rstrip_slash :: "string \<Rightarrow> string" where
  "rstrip_slash s = rev (dropWhile (\<lambda>c. c = CHR ''/'') (rev s))"

text \<open>\<open>int(s)\<close> on a stripped text: a sign, then digits with single underscores between them.\<close>

fun int_digits :: "bool \<Rightarrow> string \<Rightarrow> bool" where
  "int_digits after_digit [] \<longleftrightarrow> after_digit"
| "int_digits after_digit (c # cs) \<longleftrightarrow>
    (if c = CHR ''_'' then after_digit \<and> int_digits False cs else is_digit c \<and> int_digits True cs)"

definition py_int :: "string \<Rightarrow> int option" where
  "py_int s =
    (let ds = (if s \<noteq> [] \<and> hd s \<in> set ''+-'' then tl s else s); digits = filter (\<lambda>c. c \<noteq> CHR ''_'') ds
     in if int_digits False ds \<and> length digits \<le> 4300
        then Some ((if hd s = CHR ''-'' then - 1 else 1) * int (read_nat digits)) else None)"

definition assert_non_empty :: "string option \<Rightarrow> string \<Rightarrow> runtime_error + string" where
  "assert_non_empty value k =
    (case value of
       None \<Rightarrow> Inl (RUNTIME_ENV_KEY_MISSING k)
     | Some v \<Rightarrow> if strip v = [] then Inl (RUNTIME_ENV_EMPTY k) else Inr (strip v))"

definition coerce_scalar :: "runtime_host \<Rightarrow> key_row \<Rightarrow> string option \<Rightarrow> runtime_error + scalar" where
  "coerce_scalar h row raw_value =
    (let k = kr_env_key row; kind = kr_value_kind row; failed = Inl (RUNTIME_ENV_COERCION_FAILED k) in
     bindE (assert_non_empty raw_value k) (\<lambda>trimmed.
       if kind = ''STRING'' \<or> kind = ''PATH'' then Inr (SStr trimmed)
       else if kind = ''INTEGER'' then (case py_int trimmed of None \<Rightarrow> failed | Some i \<Rightarrow> Inr (SInt i))
       else if kind = ''BOOLEAN'' then
         (if trimmed = ''true'' then Inr (SBool True) else if trimmed = ''false'' then Inr (SBool False) else failed)
       else if kind = ''URL'' then (if absolute_url h trimmed then Inr (SStr (rstrip_slash trimmed)) else failed)
       else if kind = ''ENUM'' then (if trimmed \<in> set (kr_allowed_values row) then Inr (SStr trimmed) else failed)
       else failed))"

text \<open>\<open>re.match\<close> of the escaped pattern with \<open>.*\<close> for a star: a dot is no newline, and \<open>$\<close> also matches before a
  final newline.\<close>

fun matches_pattern :: "string \<Rightarrow> string \<Rightarrow> bool" where
  "matches_pattern v [] \<longleftrightarrow> v = [] \<or> v = [CHR 0x0A]"
| "matches_pattern v (p # ps) \<longleftrightarrow>
    (if p = CHR ''*'' then (\<exists>n \<in> set [0..<Suc (length v)]. CHR 0x0A \<notin> set (take n v) \<and> matches_pattern (drop n v) ps)
     else v \<noteq> [] \<and> hd v = p \<and> matches_pattern (tl v) ps)"

section \<open>Sources\<close>

definition local_bootstrap_path :: "(string \<times> string) list \<Rightarrow> runtime_config \<Rightarrow> string list \<Rightarrow> string option" where
  "local_bootstrap_path env cfg ladder =
    (if ''PROCESS_ENV'' \<in> set ladder then
       (case map_of env (bp_env_key (local_bootstrap_policy cfg)) of
          Some candidate \<Rightarrow> if candidate \<noteq> [] then Some candidate else None
        | None \<Rightarrow> None)
     else None)"

definition local_bootstrap_map :: "runtime_host \<Rightarrow> string option \<Rightarrow> runtime_error + (string \<times> string) list" where
  "local_bootstrap_map h path =
    (case path of
       None \<Rightarrow> Inr []
     | Some p \<Rightarrow> (case read_text h p of
         None \<Rightarrow> Inl File_Unreadable
       | Some content \<Rightarrow> (case json_loads h content of
           None \<Rightarrow> Inl Json_Decode_Error
         | Some (JObj d) \<Rightarrow> Inr (map (\<lambda>(k, v). (k, case v of JStr s \<Rightarrow> s | _ \<Rightarrow> json_dumps h v)) d)
         | Some _ \<Rightarrow> Inl RUNTIME_LOCAL_BOOTSTRAP_FORBIDDEN)))"

fun resolve_value :: "string \<Rightarrow> string list \<Rightarrow> string list \<Rightarrow> (string \<times> string) list \<Rightarrow> (string \<times> string) list \<Rightarrow> string option" where
  "resolve_value k allowed_sources [] env local_bootstrap = None"
| "resolve_value k allowed_sources (source # ladder) env local_bootstrap =
    (if source \<notin> set allowed_sources then resolve_value k allowed_sources ladder env local_bootstrap
     else if source = ''PROCESS_ENV'' \<and> k \<in> fst ` set env then map_of env k
     else if source = ''LOCAL_FILE_BOOTSTRAP'' \<and> k \<in> fst ` set local_bootstrap then map_of local_bootstrap k
     else resolve_value k allowed_sources ladder env local_bootstrap)"

section \<open>Secret handles\<close>

definition required_payload_string :: "obj \<Rightarrow> string \<Rightarrow> string \<Rightarrow> runtime_error + string" where
  "required_payload_string payload f k =
    (case get payload f of
       JStr s \<Rightarrow> if strip s = [] then Inl (RUNTIME_ENV_COERCION_FAILED k) else Inr s
     | _ \<Rightarrow> Inl (RUNTIME_ENV_COERCION_FAILED k))"

definition check_raw_field :: "obj \<Rightarrow> string \<Rightarrow> unit \<Rightarrow> string \<Rightarrow> runtime_error + unit" where
  "check_raw_field payload k u f =
    (if f \<in> fst ` set payload \<and> get payload f \<noteq> JNull \<and> get payload f \<noteq> JStr []
     then Inl (RUNTIME_SECRET_HANDLE_RAW_VALUE_FORBIDDEN k f) else Inr ())"

definition handle_of_payload ::
  "handle_policy \<Rightarrow> string list \<Rightarrow> string \<Rightarrow> string \<Rightarrow> obj \<Rightarrow> runtime_error + secret_handle" where
  "handle_of_payload policy forbidden_fields k environment_ref payload =
    bindE (foldE (check_raw_field payload k) () forbidden_fields) (\<lambda>_.
    bindE (required_payload_string payload ''alias_ref'' k) (\<lambda>alias_ref.
    bindE (required_payload_string payload ''namespace_ref'' k) (\<lambda>namespace_ref.
    bindE (required_payload_string payload ''metadata_ref'' k) (\<lambda>metadata_ref.
    bindE (required_payload_string payload ''version_ref'' k) (\<lambda>version_ref.
    bindE (required_payload_string payload ''store_ref'' k) (\<lambda>store_ref.
      if alias_ref \<noteq> hp_alias_ref policy then Inl (RUNTIME_SECRET_HANDLE_FORBIDDEN k)
      else if environment_ref \<notin> set (hp_allowed_environment_refs policy) then Inl (RUNTIME_SECRET_HANDLE_FORBIDDEN k)
      else if namespace_ref \<notin> set (hp_allowed_namespace_refs policy) then Inl (RUNTIME_ENV_PROVIDER_MISMATCH k)
      else Inr \<lparr>sh_alias_ref = alias_ref, sh_namespace_ref = namespace_ref, sh_store_ref = store_ref,
        sh_metadata_ref = metadata_ref, sh_version_ref = version_ref, sh_fingerprint = get payload ''fingerprint'',
        sh_provider_environment_ref = get payload ''provider_environment_ref'',
        sh_handle_ref = get payload ''handle_ref'', sh_resolution_mode = hp_resolution_mode policy,
        sh_cache_policy = hp_cache_policy policy\<rparr>))))))"

definition parse_secret_handle ::
  "runtime_host \<Rightarrow> string \<Rightarrow> handle_policy \<Rightarrow> string list \<Rightarrow> string \<Rightarrow> string \<Rightarrow> runtime_error + secret_handle" where
  "parse_secret_handle h raw_value policy forbidden_fields k environment_ref =
    bindE (assert_non_empty (Some raw_value) k) (\<lambda>trimmed.
      (case json_loads h trimmed of
         None \<Rightarrow> Inl Json_Decode_Error
       | Some (JObj payload) \<Rightarrow> handle_of_payload policy forbidden_fields k environment_ref payload
       | Some _ \<Rightarrow> Inl (RUNTIME_ENV_COERCION_FAILED k)))"

section \<open>Loading\<close>

text \<open>The environment row, and the three conditions on a bootstrap file.\<close>

definition resolve_environment ::
  "runtime_host \<Rightarrow> runtime_config \<Rightarrow> (string \<times> string) list \<Rightarrow> string list \<Rightarrow> (string \<times> string) list \<Rightarrow>
    runtime_error + string \<times> environment_row" where
  "resolve_environment h cfg env ladder local_bootstrap =
    bindE (key_index cfg ''TAXAT_ENVIRONMENT_ID'') (\<lambda>row.
    bindE (coerce_scalar h row
      (resolve_value ''TAXAT_ENVIRONMENT_ID'' (kr_allowed_sources row) ladder env local_bootstrap)) (\<lambda>v.
      (case v of
         SStr environment_ref \<Rightarrow> bindE (find_environment_row cfg environment_ref) (\<lambda>er. Inr (environment_ref, er))
       | _ \<Rightarrow> Inl (RUNTIME_ENV_COERCION_FAILED ''TAXAT_ENVIRONMENT_ID''))))"

definition check_bootstrap :: "runtime_config \<Rightarrow> string option \<Rightarrow> string \<Rightarrow> environment_row \<Rightarrow> runtime_error + unit" where
  "check_bootstrap cfg path environment_ref er =
    (if path \<noteq> None \<and> (''PYTHON'' \<notin> set (bp_allowed_consumer_refs (local_bootstrap_policy cfg))
          \<or> environment_ref \<notin> set (bp_allowed_environment_refs (local_bootstrap_policy cfg))
          \<or> \<not> er_local_bootstrap_allowed er)
     then Inl RUNTIME_LOCAL_BOOTSTRAP_FORBIDDEN else Inr ())"

definition check_forbidden_key ::
  "consumer_row \<Rightarrow> (string \<times> string) list \<Rightarrow> (string \<times> string) list \<Rightarrow> unit \<Rightarrow> string \<Rightarrow> runtime_error + unit" where
  "check_forbidden_key consumer env local_bootstrap u k =
    (if k \<notin> set (co_allowed_env_keys consumer) \<union> set (co_allowed_secret_keys consumer)
        \<and> (k \<in> fst ` set env \<or> k \<in> fst ` set local_bootstrap)
     then Inl (RUNTIME_ENV_KEY_FORBIDDEN k) else Inr ())"

definition read_value ::
  "runtime_host \<Rightarrow> runtime_config \<Rightarrow> string set \<Rightarrow> string list \<Rightarrow> (string \<times> string) list \<Rightarrow> (string \<times> string) list \<Rightarrow>
    (string \<times> scalar) list \<Rightarrow> string \<Rightarrow> runtime_error + (string \<times> scalar) list" where
  "read_value h cfg required_keys ladder env local_bootstrap values k =
    bindE (key_index cfg k) (\<lambda>row.
      (case resolve_value k (kr_allowed_sources row) ladder env local_bootstrap of
         None \<Rightarrow> if k \<in> required_keys then Inl (RUNTIME_ENV_KEY_MISSING k) else Inr values
       | Some raw \<Rightarrow> bindE (coerce_scalar h row (Some raw)) (\<lambda>v. Inr (AList.update k v values))))"

definition read_handle ::
  "runtime_host \<Rightarrow> runtime_config \<Rightarrow> string \<Rightarrow> string list \<Rightarrow> (string \<times> string) list \<Rightarrow> (string \<times> string) list \<Rightarrow>
    (string \<times> secret_handle) list \<Rightarrow> string \<Rightarrow> runtime_error + (string \<times> secret_handle) list" where
  "read_handle h cfg environment_ref ladder env local_bootstrap handles k =
    bindE (key_index cfg k) (\<lambda>row.
      (case resolve_value k (kr_allowed_sources row) ladder env local_bootstrap of
         None \<Rightarrow> Inr handles
       | Some raw \<Rightarrow>
           bindE (handle_policy_index cfg k) (\<lambda>policy.
           bindE (parse_secret_handle h raw policy (bp_raw_value_fields_forbidden (local_bootstrap_policy cfg)) k
             environment_ref) (\<lambda>handle. Inr (AList.update k handle handles)))))"

definition check_url :: "(string \<times> scalar) list \<Rightarrow> string \<Rightarrow> string list \<Rightarrow> runtime_error + unit" where
  "check_url values k patterns =
    (case map_of values k of
       Some (SStr url) \<Rightarrow>
         if patterns \<noteq> [] \<and> \<not> list_ex (matches_pattern url) patterns then Inl (RUNTIME_ENV_PROVIDER_MISMATCH k) else Inr ()
     | _ \<Rightarrow> Inr ())"

definition check_namespace :: "environment_row \<Rightarrow> unit \<Rightarrow> string \<times> secret_handle \<Rightarrow> runtime_error + unit" where
  "check_namespace er u kh =
    (if sh_namespace_ref (snd kh) \<notin> set (er_allowed_namespace_refs er)
     then Inl (RUNTIME_ENV_PROVIDER_MISMATCH (fst kh)) else Inr ())"

definition load_python_runtime_profile ::
  "runtime_host \<Rightarrow> runtime_config \<Rightarrow> (string \<times> string) list \<Rightarrow> runtime_error + runtime_profile" where
  "load_python_runtime_profile h cfg env =
    bindE (python_consumer_row cfg) (\<lambda>consumer.
    bindE (resolution_ladder cfg) (\<lambda>ladder.
    (let required_keys = required_for_consumer ''PYTHON'' cfg consumer;
         bootstrap_path = local_bootstrap_path env cfg ladder in
    bindE (local_bootstrap_map h bootstrap_path) (\<lambda>local_bootstrap.
    bindE (resolve_environment h cfg env ladder local_bootstrap) (\<lambda>(environment_ref, er).
    bindE (check_bootstrap cfg bootstrap_path environment_ref er) (\<lambda>_.
    bindE (foldE (check_forbidden_key consumer env local_bootstrap) () (index_keys cfg)) (\<lambda>_.
    bindE (foldE (read_value h cfg required_keys ladder env local_bootstrap) [] (co_allowed_env_keys consumer)) (\<lambda>values.
    bindE (foldE (read_handle h cfg environment_ref ladder env local_bootstrap) [] (co_allowed_secret_keys consumer)) (\<lambda>handles.
    if map_of values ''TAXAT_PROVIDER_ENVIRONMENT'' \<noteq> Some (SStr (er_provider_environment_ref er))
      then Inl (RUNTIME_ENV_PROVIDER_MISMATCH ''TAXAT_PROVIDER_ENVIRONMENT'')
    else
    bindE (check_url values ''TAXAT_HMRC_API_BASE_URL'' (er_hmrc_base_url_patterns er)) (\<lambda>_.
    bindE (check_url values ''TAXAT_BROWSER_PUBLIC_BASE_URL'' (er_browser_public_origin_patterns er)) (\<lambda>_.
    bindE (foldE (check_namespace er) () handles) (\<lambda>_.
    Inr \<lparr>rp_environment_ref = environment_ref, rp_provider_environment_ref = er_provider_environment_ref er,
      rp_values = values, rp_secret_handles = handles\<rparr>))))))))))))"

section \<open>What a loaded profile satisfies\<close>

lemma bindE_Inr_elim: "bindE m f = Inr y \<Longrightarrow> (\<And>x. m = Inr x \<Longrightarrow> f x = Inr y \<Longrightarrow> thesis) \<Longrightarrow> thesis"
  by (cases m) auto

lemma find_row_Inr: "find_row key k e rows = Inr row \<Longrightarrow> row \<in> set rows \<and> key row = k"
  by (auto simp: find_row_def find_Some_iff in_set_conv_nth split: option.splits)

lemma coerce_scalar_row: "key_index cfg k = Inr row \<Longrightarrow> kr_env_key row = k"
  by (auto simp: key_index_def dest: find_row_Inr)

lemma foldE_unit_all: "foldE f () xs = Inr () \<Longrightarrow> x \<in> set xs \<Longrightarrow> f () x = Inr ()"
  by (induction xs) (auto simp: bindE_eq_Inr_iff)

lemma check_raw_fields_ok:
  assumes "foldE (check_raw_field payload k) () fs = Inr ()" and "f \<in> set fs"
  shows "get payload f = JNull \<or> get payload f = JStr []"
proof (cases "f \<in> fst ` set payload")
  case True
  then show ?thesis using foldE_unit_all [OF assms] by (simp add: check_raw_field_def split: if_splits)
next
  case False
  then have "map_of payload f = None" by (simp add: map_of_eq_None_iff)
  then show ?thesis by (simp add: get_def)
qed

text \<open>A handle that the secret policy allows in an environment, read from a payload without raw values.\<close>

definition lawful_handle :: "runtime_host \<Rightarrow> runtime_config \<Rightarrow> string \<Rightarrow> string \<Rightarrow> secret_handle \<Rightarrow> bool" where
  "lawful_handle h cfg environment_ref k handle \<longleftrightarrow>
    (\<exists>policy \<in> set (handle_env_keys cfg). hp_env_key policy = k \<and> sh_alias_ref handle = hp_alias_ref policy \<and>
      environment_ref \<in> set (hp_allowed_environment_refs policy) \<and>
      sh_namespace_ref handle \<in> set (hp_allowed_namespace_refs policy)) \<and>
    (\<exists>raw payload. json_loads h raw = Some (JObj payload) \<and> get payload ''namespace_ref'' = JStr (sh_namespace_ref handle) \<and>
      (\<forall>f \<in> set (bp_raw_value_fields_forbidden (local_bootstrap_policy cfg)). get payload f = JNull \<or> get payload f = JStr []))"

lemma required_payload_Inr: "required_payload_string payload f k = Inr s \<Longrightarrow> get payload f = JStr s"
  by (auto simp: required_payload_string_def split: json.splits if_splits)

lemma parse_handle_lawful:
  assumes policy: "handle_policy_index cfg k = Inr policy"
    and parse: "parse_secret_handle h raw policy (bp_raw_value_fields_forbidden (local_bootstrap_policy cfg)) k environment_ref
      = Inr handle"
  shows "lawful_handle h cfg environment_ref k handle"
proof -
  obtain trimmed payload where loads: "json_loads h trimmed = Some (JObj payload)"
    and raw: "foldE (check_raw_field payload k) () (bp_raw_value_fields_forbidden (local_bootstrap_policy cfg)) = Inr ()"
    and ns: "required_payload_string payload ''namespace_ref'' k = Inr (sh_namespace_ref handle)"
    and ok: "sh_alias_ref handle = hp_alias_ref policy" "environment_ref \<in> set (hp_allowed_environment_refs policy)"
      "sh_namespace_ref handle \<in> set (hp_allowed_namespace_refs policy)"
  proof -
    obtain trimmed where body: "(case json_loads h trimmed of None \<Rightarrow> Inl Json_Decode_Error
        | Some (JObj payload) \<Rightarrow> handle_of_payload policy (bp_raw_value_fields_forbidden (local_bootstrap_policy cfg)) k
            environment_ref payload
        | Some _ \<Rightarrow> Inl (RUNTIME_ENV_COERCION_FAILED k)) = Inr handle"
      using parse unfolding parse_secret_handle_def by (elim bindE_Inr_elim)
    then obtain payload where payload: "json_loads h trimmed = Some (JObj payload)"
      "handle_of_payload policy (bp_raw_value_fields_forbidden (local_bootstrap_policy cfg)) k environment_ref payload = Inr handle"
      by (auto split: option.splits json.splits)
    then show thesis
      by (intro that [OF payload(1)]) (auto simp: handle_of_payload_def elim!: bindE_Inr_elim split: if_splits)
  qed
  have "policy \<in> set (handle_env_keys cfg)" "hp_env_key policy = k"
    using policy by (auto simp: handle_policy_index_def dest!: find_row_Inr)
  then show ?thesis
    using loads ok required_payload_Inr [OF ns] check_raw_fields_ok [OF raw] unfolding lawful_handle_def by blast
qed

lemma update_entries: "(k', v') \<in> set (AList.update k v xs) \<Longrightarrow> k' = k \<and> v' = v \<or> (k', v') \<in> set xs"
  by (induction xs) (auto split: if_splits)

lemma read_handles_lawful:
  "foldE (read_handle h cfg environment_ref ladder env local_bootstrap) acc ks = Inr handles \<Longrightarrow>
    (k, handle) \<in> set handles \<Longrightarrow> (k, handle) \<in> set acc \<or> k \<in> set ks \<and> lawful_handle h cfg environment_ref k handle"
proof (induction ks arbitrary: acc)
  case (Cons r ks)
  then obtain mid where mid: "read_handle h cfg environment_ref ladder env local_bootstrap acc r = Inr mid"
    "foldE (read_handle h cfg environment_ref ladder env local_bootstrap) mid ks = Inr handles"
    by (auto simp: bindE_eq_Inr_iff)
  have "(k, handle) \<in> set mid \<Longrightarrow> (k, handle) \<in> set acc \<or> k = r \<and> lawful_handle h cfg environment_ref k handle"
    using mid(1) parse_handle_lawful
    by (auto simp: read_handle_def bindE_eq_Inr_iff split: option.splits dest!: update_entries)
  then show ?case using Cons.IH [OF mid(2) Cons.prems(2)] by auto
qed simp

lemma update_fsts: "fst ` set (AList.update k v xs) = insert k (fst ` set xs)"
  by (induction xs) auto

lemma read_values_keys:
  "foldE (read_value h cfg required ladder env local_bootstrap) acc ks = Inr values \<Longrightarrow> set ks \<subseteq> required \<Longrightarrow>
    fst ` set values = fst ` set acc \<union> set ks"
proof (induction ks arbitrary: acc)
  case (Cons r ks)
  then obtain mid where mid: "read_value h cfg required ladder env local_bootstrap acc r = Inr mid"
    "foldE (read_value h cfg required ladder env local_bootstrap) mid ks = Inr values"
    by (auto simp: bindE_eq_Inr_iff)
  have "fst ` set mid = insert r (fst ` set acc)"
  proof -
    obtain v where "mid = AList.update r v acc"
      using mid(1) Cons.prems(2) by (auto simp: read_value_def bindE_eq_Inr_iff split: option.splits if_splits)
    then show ?thesis by (simp only: update_fsts)
  qed
  then show ?case using Cons.IH [OF mid(2)] Cons.prems(2) by auto
qed simp

lemma read_values_resolved:
  "foldE (read_value h cfg required ladder env local_bootstrap) acc ks = Inr values \<Longrightarrow> k \<in> set ks \<Longrightarrow> k \<in> required \<Longrightarrow>
    \<exists>row raw v. key_index cfg k = Inr row \<and> resolve_value k (kr_allowed_sources row) ladder env local_bootstrap = Some raw \<and>
      coerce_scalar h row (Some raw) = Inr v"
proof (induction ks arbitrary: acc)
  case (Cons r ks)
  then obtain mid where mid: "read_value h cfg required ladder env local_bootstrap acc r = Inr mid"
    "foldE (read_value h cfg required ladder env local_bootstrap) mid ks = Inr values"
    by (auto simp: bindE_eq_Inr_iff)
  show ?case
  proof (cases "k = r")
    case True
    then show ?thesis using mid(1) Cons.prems(3)
      by (auto simp: read_value_def bindE_eq_Inr_iff split: option.splits if_splits)
  next
    case False
    then show ?thesis using Cons.IH [OF mid(2)] Cons.prems by auto
  qed
qed simp

lemma coerced_not_empty: "coerce_scalar h row (Some raw) = Inr v \<Longrightarrow> raw \<noteq> []"
  by (auto simp: coerce_scalar_def assert_non_empty_def strip_def Let_def)

text \<open>The steps of an accepted load.\<close>

lemma loaded_steps:
  assumes "load_python_runtime_profile h cfg env = Inr p"
  shows "\<exists>consumer ladder local_bootstrap er. python_consumer_row cfg = Inr consumer \<and> resolution_ladder cfg = Inr ladder \<and>
    local_bootstrap_map h (local_bootstrap_path env cfg ladder) = Inr local_bootstrap \<and>
    resolve_environment h cfg env ladder local_bootstrap = Inr (rp_environment_ref p, er) \<and>
    check_bootstrap cfg (local_bootstrap_path env cfg ladder) (rp_environment_ref p) er = Inr () \<and>
    foldE (check_forbidden_key consumer env local_bootstrap) () (index_keys cfg) = Inr () \<and>
    foldE (read_value h cfg (required_for_consumer ''PYTHON'' cfg consumer) ladder env local_bootstrap) []
      (co_allowed_env_keys consumer) = Inr (rp_values p) \<and>
    foldE (read_handle h cfg (rp_environment_ref p) ladder env local_bootstrap) [] (co_allowed_secret_keys consumer)
      = Inr (rp_secret_handles p) \<and>
    map_of (rp_values p) ''TAXAT_PROVIDER_ENVIRONMENT'' = Some (SStr (er_provider_environment_ref er)) \<and>
    rp_provider_environment_ref p = er_provider_environment_ref er \<and>
    foldE (check_namespace er) () (rp_secret_handles p) = Inr ()"
  using assms unfolding load_python_runtime_profile_def Let_def
  by (elim bindE_Inr_elim) (auto split: if_splits elim!: bindE_Inr_elim)

text \<open>The keys of the catalogue that reach the consumer without being allowed.\<close>

lemma index_keys_set: "set (index_keys cfg) = kr_env_key ` set (runtime_key_catalog cfg)"
  by (simp add: index_keys_def)

lemma loaded_keys_allowed:
  assumes "foldE (check_forbidden_key consumer env local_bootstrap) () (index_keys cfg) = Inr ()"
    and "k \<in> kr_env_key ` set (runtime_key_catalog cfg)" and "k \<in> fst ` set env"
  shows "k \<in> set (co_allowed_env_keys consumer) \<union> set (co_allowed_secret_keys consumer)"
  using foldE_unit_all [OF assms(1)] assms(2,3) by (force simp: index_keys_set check_forbidden_key_def split: if_splits)

text \<open>What a profile may hold, read off the three policy files.\<close>

definition profile_confined :: "runtime_host \<Rightarrow> runtime_config \<Rightarrow> (string \<times> string) list \<Rightarrow> runtime_profile \<Rightarrow> bool" where
  "profile_confined h cfg env p \<longleftrightarrow>
    (\<exists>consumer \<in> set (consumer_classes cfg). \<exists>er \<in> set (environment_rows cfg).
      co_consumer_ref consumer = ''PYTHON'' \<and> er_environment_ref er = rp_environment_ref p \<and>
      rp_provider_environment_ref p = er_provider_environment_ref er \<and>
      map_of (rp_values p) ''TAXAT_PROVIDER_ENVIRONMENT'' = Some (SStr (er_provider_environment_ref er)) \<and>
      fst ` set (rp_values p) = set (co_allowed_env_keys consumer) \<and>
      (\<forall>(k, handle) \<in> set (rp_secret_handles p). k \<in> set (co_allowed_secret_keys consumer) \<and>
        lawful_handle h cfg (rp_environment_ref p) k handle \<and> sh_namespace_ref handle \<in> set (er_allowed_namespace_refs er)) \<and>
      (\<forall>k \<in> kr_env_key ` set (runtime_key_catalog cfg) \<inter> fst ` set env.
        k \<in> set (co_allowed_env_keys consumer) \<union> set (co_allowed_secret_keys consumer)))"

lemma resolve_environment_row:
  assumes "resolve_environment h cfg env ladder local_bootstrap = Inr (ref, er)"
  shows "er \<in> set (environment_rows cfg)" and "er_environment_ref er = ref"
  using assms by (auto simp: resolve_environment_def find_environment_row_def elim!: bindE_Inr_elim
      split: scalar.splits dest!: find_row_Inr)

lemma check_namespaces_ok:
  "foldE (check_namespace er) () handles = Inr () \<Longrightarrow> (k, handle) \<in> set handles \<Longrightarrow>
    sh_namespace_ref handle \<in> set (er_allowed_namespace_refs er)"
  using foldE_unit_all by (force simp: check_namespace_def split: if_splits)

text \<open>C20: a loaded Python runtime profile stays inside the policy files: its environment row names its provider, its
  values are for exactly the allowed environment keys, each secret handle is for an allowed secret key, has the alias,
  environment and namespace that the secret policy allows and comes from a payload without raw secret fields, and no
  other catalogued key is set in the environment.\<close>

theorem loaded_profile_is_confined:
  assumes "load_python_runtime_profile h cfg env = Inr p"
  shows "profile_confined h cfg env p"
proof -
  obtain consumer ladder local_bootstrap er where steps: "python_consumer_row cfg = Inr consumer"
    "resolve_environment h cfg env ladder local_bootstrap = Inr (rp_environment_ref p, er)"
    "foldE (check_forbidden_key consumer env local_bootstrap) () (index_keys cfg) = Inr ()"
    "foldE (read_value h cfg (required_for_consumer ''PYTHON'' cfg consumer) ladder env local_bootstrap) []
      (co_allowed_env_keys consumer) = Inr (rp_values p)"
    "foldE (read_handle h cfg (rp_environment_ref p) ladder env local_bootstrap) [] (co_allowed_secret_keys consumer)
      = Inr (rp_secret_handles p)"
    "map_of (rp_values p) ''TAXAT_PROVIDER_ENVIRONMENT'' = Some (SStr (er_provider_environment_ref er))"
    "rp_provider_environment_ref p = er_provider_environment_ref er"
    "foldE (check_namespace er) () (rp_secret_handles p) = Inr ()"
    using loaded_steps [OF assms] by blast
  have consumer: "consumer \<in> set (consumer_classes cfg)" "co_consumer_ref consumer = ''PYTHON''"
    using find_row_Inr [OF steps(1) [unfolded python_consumer_row_def]] by simp_all
  have "fst ` set (rp_values p) = set (co_allowed_env_keys consumer)"
    using read_values_keys [OF steps(4)] by (simp add: required_for_consumer_def)
  moreover have "k \<in> set (co_allowed_secret_keys consumer) \<and> lawful_handle h cfg (rp_environment_ref p) k handle \<and>
      sh_namespace_ref handle \<in> set (er_allowed_namespace_refs er)" if "(k, handle) \<in> set (rp_secret_handles p)" for k handle
    using read_handles_lawful [OF steps(5) that] check_namespaces_ok [OF steps(8) that] by simp
  ultimately show ?thesis
    using consumer resolve_environment_row [OF steps(2)] steps(6,7) loaded_keys_allowed [OF steps(3)]
    unfolding profile_confined_def by blast
qed

end
