(* ===== verification/Runtime_Shipped.thy ===== *)
theory Runtime_Shipped
  imports Runtime_Profile "HOL-Library.Code_Target_Nat"
begin

text \<open>
  The policy files of \<open>config/runtime\<close> as values of the model, and what they mean for the Python consumer.
\<close>

definition key_row_of :: "string \<Rightarrow> string \<Rightarrow> string list \<Rightarrow> string list \<Rightarrow> string list \<Rightarrow> key_row" where
  "key_row_of k vkind sources values required = \<lparr>kr_env_key = k, kr_value_kind = vkind, kr_allowed_sources = sources,
     kr_allowed_values = values, kr_required_for = required\<rparr>"

definition environment_row_of ::
  "string \<Rightarrow> string \<Rightarrow> string list \<Rightarrow> string list \<Rightarrow> string list \<Rightarrow> bool \<Rightarrow> environment_row" where
  "environment_row_of ref provider namespaces hmrc browser local = \<lparr>er_environment_ref = ref,
     er_provider_environment_ref = provider, er_allowed_namespace_refs = namespaces, er_hmrc_base_url_patterns = hmrc,
     er_browser_public_origin_patterns = browser, er_local_bootstrap_allowed = local\<rparr>"

definition handle_policy_of ::
  "string \<Rightarrow> string \<Rightarrow> string list \<Rightarrow> string list \<Rightarrow> string \<Rightarrow> string \<Rightarrow> handle_policy" where
  "handle_policy_of k alias_ref environments namespaces mode cache = \<lparr>hp_env_key = k, hp_alias_ref = alias_ref,
     hp_allowed_environment_refs = environments, hp_allowed_namespace_refs = namespaces, hp_resolution_mode = mode,
     hp_cache_policy = cache\<rparr>"

definition shipped_keys :: "key_row list" where
  "shipped_keys = [
    key_row_of ''TAXAT_ENVIRONMENT_ID'' ''STRING'' [''FROZEN_CONFIG'', ''EXPLICIT_OVERRIDE'',
      ''PROCESS_ENV''] [] [''API'', ''WORKER'', ''CLI'', ''PYTHON'', ''PLAYWRIGHT'', ''NATIVE''],
    key_row_of ''TAXAT_PROVIDER_ENVIRONMENT'' ''ENUM'' [''FROZEN_CONFIG'', ''EXPLICIT_OVERRIDE'',
      ''PROCESS_ENV''] [''NONE'', ''sandbox'', ''production''] [''API'', ''WORKER'', ''CLI'', ''PYTHON'',
      ''PLAYWRIGHT''],
    key_row_of ''TAXAT_CONFIG_FREEZE_REF'' ''STRING'' [''FROZEN_CONFIG'', ''EXPLICIT_OVERRIDE''] [] [''API'',
      ''WORKER'', ''NATIVE''],
    key_row_of ''TAXAT_CONFIG_FREEZE_HASH'' ''STRING'' [''FROZEN_CONFIG'', ''EXPLICIT_OVERRIDE''] [] [''API'',
      ''WORKER'', ''NATIVE''],
    key_row_of ''TAXAT_CONFIG_SURFACE_HASH'' ''STRING'' [''FROZEN_CONFIG'', ''EXPLICIT_OVERRIDE''] [] [''API'',
      ''WORKER'', ''NATIVE''],
    key_row_of ''TAXAT_CONFIG_CONSUMPTION_MODE'' ''ENUM'' [''FROZEN_CONFIG'',
      ''EXPLICIT_OVERRIDE''] [''FROZEN_CONFIG_ONLY''] [''API'', ''WORKER'', ''NATIVE''],
    key_row_of ''TAXAT_HMRC_API_BASE_URL'' ''URL'' [''FROZEN_CONFIG'', ''EXPLICIT_OVERRIDE'',
      ''PROCESS_ENV''] [] [''WORKER'', ''CLI'', ''PLAYWRIGHT''],
    key_row_of ''TAXAT_SESSION_IDLE_TIMEOUT_SECONDS'' ''INTEGER'' [''FROZEN_CONFIG'', ''EXPLICIT_OVERRIDE'',
      ''PROCESS_ENV''] [] [''API'', ''NATIVE''],
    key_row_of ''TAXAT_ENABLE_STRICT_TRACE_REDACTION'' ''BOOLEAN'' [''FROZEN_CONFIG'', ''EXPLICIT_OVERRIDE'',
      ''PROCESS_ENV''] [] [''API'', ''WORKER'', ''CLI'', ''PYTHON'', ''PLAYWRIGHT''],
    key_row_of ''TAXAT_LOCAL_SECRET_BOOTSTRAP_FILE'' ''PATH'' [''EXPLICIT_OVERRIDE'', ''PROCESS_ENV''] [] [],
    key_row_of ''TAXAT_BROWSER_PUBLIC_BASE_URL'' ''URL'' [''EXPLICIT_OVERRIDE'',
      ''PROCESS_ENV''] [] [''BROWSER_BUILD'', ''PLAYWRIGHT'', ''NATIVE''],
    key_row_of ''TAXAT_BROWSER_PUBLIC_ENVIRONMENT_LABEL'' ''STRING'' [''EXPLICIT_OVERRIDE'',
      ''PROCESS_ENV''] [] [''BROWSER_BUILD'', ''PLAYWRIGHT'', ''NATIVE''],
    key_row_of ''TAXAT_BROWSER_PUBLIC_RELEASE_CHANNEL'' ''ENUM'' [''EXPLICIT_OVERRIDE'',
      ''PROCESS_ENV''] [''local'', ''preview'', ''sandbox'', ''preprod'', ''production''] [''BROWSER_BUILD'',
      ''PLAYWRIGHT'', ''NATIVE''],
    key_row_of ''TAXAT_BROWSER_PUBLIC_BUILD_SHA'' ''STRING'' [''EXPLICIT_OVERRIDE'',
      ''PROCESS_ENV''] [] [''BROWSER_BUILD'', ''PLAYWRIGHT''],
    key_row_of ''TAXAT_BROWSER_PUBLIC_SENTRY_DSN'' ''STRING'' [''EXPLICIT_OVERRIDE'', ''PROCESS_ENV''] [] [],
    key_row_of ''TAXAT_SECRET_REF_POSTGRES_CONTROL_STORE_PASSWORD'' ''SECRET_HANDLE'' [''FROZEN_CONFIG'',
      ''EXPLICIT_OVERRIDE'', ''PROCESS_ENV'', ''LOCAL_FILE_BOOTSTRAP''] [] [],
    key_row_of ''TAXAT_SECRET_REF_POSTGRES_AUDIT_STORE_PASSWORD'' ''SECRET_HANDLE'' [''FROZEN_CONFIG'',
      ''EXPLICIT_OVERRIDE'', ''PROCESS_ENV'', ''LOCAL_FILE_BOOTSTRAP''] [] [],
    key_row_of ''TAXAT_SECRET_REF_IDP_BROWSER_CLIENT_SECRET'' ''SECRET_HANDLE'' [''FROZEN_CONFIG'',
      ''EXPLICIT_OVERRIDE'', ''PROCESS_ENV'', ''LOCAL_FILE_BOOTSTRAP''] [] [],
    key_row_of ''TAXAT_SECRET_REF_HMRC_WEB_CLIENT_SECRET'' ''SECRET_HANDLE'' [''FROZEN_CONFIG'',
      ''EXPLICIT_OVERRIDE'', ''PROCESS_ENV'', ''LOCAL_FILE_BOOTSTRAP''] [] [],
    key_row_of ''TAXAT_SECRET_REF_REDACTION_DICTIONARY'' ''SECRET_HANDLE'' [''EXPLICIT_OVERRIDE'',
      ''PROCESS_ENV'', ''LOCAL_FILE_BOOTSTRAP''] [] []]"

definition shipped_consumers :: "consumer_row list" where
  "shipped_consumers = [
    \<lparr>co_consumer_ref = ''API'', co_allowed_env_keys = [''TAXAT_ENVIRONMENT_ID'',
      ''TAXAT_PROVIDER_ENVIRONMENT'', ''TAXAT_CONFIG_FREEZE_REF'', ''TAXAT_CONFIG_FREEZE_HASH'',
      ''TAXAT_CONFIG_SURFACE_HASH'', ''TAXAT_CONFIG_CONSUMPTION_MODE'', ''TAXAT_SESSION_IDLE_TIMEOUT_SECONDS'',
      ''TAXAT_ENABLE_STRICT_TRACE_REDACTION''],
      co_allowed_secret_keys = [''TAXAT_SECRET_REF_POSTGRES_CONTROL_STORE_PASSWORD'',
      ''TAXAT_SECRET_REF_POSTGRES_AUDIT_STORE_PASSWORD'',
      ''TAXAT_SECRET_REF_IDP_BROWSER_CLIENT_SECRET'']\<rparr>,
    \<lparr>co_consumer_ref = ''WORKER'', co_allowed_env_keys = [''TAXAT_ENVIRONMENT_ID'',
      ''TAXAT_PROVIDER_ENVIRONMENT'', ''TAXAT_CONFIG_FREEZE_REF'', ''TAXAT_CONFIG_FREEZE_HASH'',
      ''TAXAT_CONFIG_SURFACE_HASH'', ''TAXAT_CONFIG_CONSUMPTION_MODE'', ''TAXAT_HMRC_API_BASE_URL'',
      ''TAXAT_ENABLE_STRICT_TRACE_REDACTION''],
      co_allowed_secret_keys = [''TAXAT_SECRET_REF_POSTGRES_CONTROL_STORE_PASSWORD'',
      ''TAXAT_SECRET_REF_POSTGRES_AUDIT_STORE_PASSWORD'', ''TAXAT_SECRET_REF_HMRC_WEB_CLIENT_SECRET'']\<rparr>,
    \<lparr>co_consumer_ref = ''CLI'', co_allowed_env_keys = [''TAXAT_ENVIRONMENT_ID'',
      ''TAXAT_PROVIDER_ENVIRONMENT'', ''TAXAT_HMRC_API_BASE_URL'', ''TAXAT_ENABLE_STRICT_TRACE_REDACTION'',
      ''TAXAT_LOCAL_SECRET_BOOTSTRAP_FILE''],
      co_allowed_secret_keys = [''TAXAT_SECRET_REF_REDACTION_DICTIONARY'']\<rparr>,
    \<lparr>co_consumer_ref = ''PYTHON'', co_allowed_env_keys = [''TAXAT_ENVIRONMENT_ID'',
      ''TAXAT_PROVIDER_ENVIRONMENT'', ''TAXAT_ENABLE_STRICT_TRACE_REDACTION'',
      ''TAXAT_LOCAL_SECRET_BOOTSTRAP_FILE''],
      co_allowed_secret_keys = [''TAXAT_SECRET_REF_REDACTION_DICTIONARY'']\<rparr>,
    \<lparr>co_consumer_ref = ''BROWSER_BUILD'', co_allowed_env_keys = [''TAXAT_BROWSER_PUBLIC_BASE_URL'',
      ''TAXAT_BROWSER_PUBLIC_ENVIRONMENT_LABEL'', ''TAXAT_BROWSER_PUBLIC_RELEASE_CHANNEL'',
      ''TAXAT_BROWSER_PUBLIC_BUILD_SHA'', ''TAXAT_BROWSER_PUBLIC_SENTRY_DSN''],
      co_allowed_secret_keys = []\<rparr>,
    \<lparr>co_consumer_ref = ''PLAYWRIGHT'', co_allowed_env_keys = [''TAXAT_ENVIRONMENT_ID'',
      ''TAXAT_PROVIDER_ENVIRONMENT'', ''TAXAT_HMRC_API_BASE_URL'', ''TAXAT_ENABLE_STRICT_TRACE_REDACTION'',
      ''TAXAT_LOCAL_SECRET_BOOTSTRAP_FILE'', ''TAXAT_BROWSER_PUBLIC_BASE_URL'',
      ''TAXAT_BROWSER_PUBLIC_ENVIRONMENT_LABEL'', ''TAXAT_BROWSER_PUBLIC_RELEASE_CHANNEL'',
      ''TAXAT_BROWSER_PUBLIC_BUILD_SHA''], co_allowed_secret_keys = []\<rparr>,
    \<lparr>co_consumer_ref = ''NATIVE'', co_allowed_env_keys = [''TAXAT_ENVIRONMENT_ID'',
      ''TAXAT_CONFIG_FREEZE_REF'', ''TAXAT_CONFIG_FREEZE_HASH'', ''TAXAT_CONFIG_SURFACE_HASH'',
      ''TAXAT_CONFIG_CONSUMPTION_MODE'', ''TAXAT_SESSION_IDLE_TIMEOUT_SECONDS'',
      ''TAXAT_BROWSER_PUBLIC_BASE_URL'', ''TAXAT_BROWSER_PUBLIC_ENVIRONMENT_LABEL'',
      ''TAXAT_BROWSER_PUBLIC_RELEASE_CHANNEL''], co_allowed_secret_keys = []\<rparr>]"

definition shipped_environments :: "environment_row list" where
  "shipped_environments = [
    environment_row_of ''env_local_authoring'' ''NONE'' [''sec_local_authoring''] [] [''http://127.0.0.1:*'',
      ''http://localhost:*''] True,
    environment_row_of ''env_local_provisioning_workstation'' ''sandbox'' [''sec_local_provisioning_sandbox''] [''https://test-api.service.hmrc.gov.uk''] [''http://127.0.0.1:*'',
      ''http://localhost:*''] True,
    environment_row_of ''env_ci_ephemeral_validation'' ''NONE'' [''sec_ci_ephemeral''] [] [''https://*.review.taxat.example''] False,
    environment_row_of ''env_ephemeral_review_preview'' ''NONE'' [''sec_ephemeral_review''] [] [''https://*.review.taxat.example''] False,
    environment_row_of ''env_shared_sandbox_integration'' ''sandbox'' [''sec_sandbox_runtime'',
      ''sec_sandbox_web_authority'', ''sec_sandbox_desktop_authority'',
      ''sec_sandbox_batch_authority''] [''https://test-api.service.hmrc.gov.uk''] [''https://operator-sandbox.taxat.example'',
      ''https://portal-sandbox.taxat.example''] False,
    environment_row_of ''env_preproduction_verification'' ''sandbox'' [''sec_preprod_runtime'',
      ''sec_preprod_web_authority'', ''sec_preprod_desktop_authority'',
      ''sec_preprod_batch_authority''] [''https://test-api.service.hmrc.gov.uk''] [''https://operator-preprod.taxat.example'',
      ''https://portal-preprod.taxat.example''] False,
    environment_row_of ''env_production'' ''production'' [''sec_production_runtime'',
      ''sec_production_web_authority'', ''sec_production_desktop_authority'',
      ''sec_production_batch_authority''] [''https://api.service.hmrc.gov.uk''] [''https://operator.taxat.example'',
      ''https://portal.taxat.example''] False]"

definition shipped_handles :: "handle_policy list" where
  "shipped_handles = [
    handle_policy_of ''TAXAT_SECRET_REF_POSTGRES_CONTROL_STORE_PASSWORD'' ''alias.runtime.postgresql.control-store.password'' [''env_shared_sandbox_integration'',
      ''env_preproduction_verification'', ''env_production''] [''sec_sandbox_runtime'',
      ''sec_preprod_runtime'',
      ''sec_production_runtime''] ''HANDLE_REF_ONLY'' ''ROTATION_AWARE_NO_STALE_REUSE'',
    handle_policy_of ''TAXAT_SECRET_REF_POSTGRES_AUDIT_STORE_PASSWORD'' ''alias.runtime.postgresql.audit-store.password'' [''env_shared_sandbox_integration'',
      ''env_preproduction_verification'', ''env_production''] [''sec_sandbox_runtime'',
      ''sec_preprod_runtime'',
      ''sec_production_runtime''] ''HANDLE_REF_ONLY'' ''ROTATION_AWARE_NO_STALE_REUSE'',
    handle_policy_of ''TAXAT_SECRET_REF_IDP_BROWSER_CLIENT_SECRET'' ''alias.identity.idp.browser.client-secret'' [''env_shared_sandbox_integration'',
      ''env_preproduction_verification'', ''env_production''] [''sec_sandbox_runtime'',
      ''sec_preprod_runtime'',
      ''sec_production_runtime''] ''HANDLE_REF_ONLY'' ''ROTATION_AWARE_NO_STALE_REUSE'',
    handle_policy_of ''TAXAT_SECRET_REF_HMRC_WEB_CLIENT_SECRET'' ''alias.authority.hmrc.web.client-secret'' [''env_shared_sandbox_integration'',
      ''env_preproduction_verification'', ''env_production''] [''sec_sandbox_web_authority'',
      ''sec_preprod_web_authority'',
      ''sec_production_web_authority''] ''HANDLE_REF_ONLY'' ''ROTATION_AWARE_NO_STALE_REUSE'',
    handle_policy_of ''TAXAT_SECRET_REF_REDACTION_DICTIONARY'' ''alias.provisioning.redaction-dictionary'' [''env_local_authoring'',
      ''env_local_provisioning_workstation''] [''sec_local_authoring'',
      ''sec_local_provisioning_sandbox''] ''METADATA_ONLY_HANDLE'' ''NO_VALUE_CACHE_METADATA_ONLY'']"

definition shipped_bootstrap :: bootstrap_policy where
  "shipped_bootstrap = \<lparr>bp_env_key = ''TAXAT_LOCAL_SECRET_BOOTSTRAP_FILE'',
     bp_allowed_consumer_refs = [''CLI'', ''PYTHON'', ''PLAYWRIGHT''],
     bp_allowed_environment_refs = [''env_local_authoring'', ''env_local_provisioning_workstation''],
     bp_raw_value_fields_forbidden = [''value'', ''secret'', ''token'', ''client_secret'', ''password'', ''plaintext'']\<rparr>"

definition shipped_ladders :: "(string \<times> string list) list" where
  "shipped_ladders = [
    (''API'', [''FROZEN_CONFIG'', ''EXPLICIT_OVERRIDE'', ''PROCESS_ENV'']),
    (''WORKER'', [''FROZEN_CONFIG'', ''EXPLICIT_OVERRIDE'', ''PROCESS_ENV'']),
    (''CLI'', [''EXPLICIT_OVERRIDE'', ''PROCESS_ENV'', ''LOCAL_FILE_BOOTSTRAP'']),
    (''PYTHON'', [''EXPLICIT_OVERRIDE'', ''PROCESS_ENV'', ''LOCAL_FILE_BOOTSTRAP'']),
    (''BROWSER_BUILD'', [''EXPLICIT_OVERRIDE'', ''PROCESS_ENV'']),
    (''PLAYWRIGHT'', [''EXPLICIT_OVERRIDE'', ''PROCESS_ENV'', ''LOCAL_FILE_BOOTSTRAP'']),
    (''NATIVE'', [''FROZEN_CONFIG'', ''EXPLICIT_OVERRIDE'', ''PROCESS_ENV''])]"

definition shipped_runtime :: runtime_config where
  "shipped_runtime = \<lparr>runtime_key_catalog = shipped_keys, consumer_classes = shipped_consumers,
     environment_rows = shipped_environments, handle_env_keys = shipped_handles,
     local_bootstrap_policy = shipped_bootstrap, consumer_resolution_ladders = shipped_ladders\<rparr>"

lemma shipped_consumer:
  "python_consumer_row shipped_runtime = Inr \<lparr>co_consumer_ref = ''PYTHON'',
     co_allowed_env_keys = [''TAXAT_ENVIRONMENT_ID'', ''TAXAT_PROVIDER_ENVIRONMENT'', ''TAXAT_ENABLE_STRICT_TRACE_REDACTION'',
       ''TAXAT_LOCAL_SECRET_BOOTSTRAP_FILE''],
     co_allowed_secret_keys = [''TAXAT_SECRET_REF_REDACTION_DICTIONARY'']\<rparr>"
  by code_simp

lemma shipped_ladder:
  "resolution_ladder shipped_runtime = Inr [''EXPLICIT_OVERRIDE'', ''PROCESS_ENV'', ''LOCAL_FILE_BOOTSTRAP'']"
  by code_simp

lemma shipped_bootstrap_key:
  "key_index shipped_runtime ''TAXAT_LOCAL_SECRET_BOOTSTRAP_FILE''
    = Inr (key_row_of ''TAXAT_LOCAL_SECRET_BOOTSTRAP_FILE'' ''PATH'' [''EXPLICIT_OVERRIDE'', ''PROCESS_ENV''] [] [])"
  by code_simp

text \<open>An environment variable set for local authoring, and a host with an empty bootstrap file.\<close>

definition local_env :: "(string \<times> string) list" where
  "local_env = [(''TAXAT_ENVIRONMENT_ID'', ''env_local_authoring''), (''TAXAT_PROVIDER_ENVIRONMENT'', ''NONE''),
     (''TAXAT_ENABLE_STRICT_TRACE_REDACTION'', ''true''), (''TAXAT_LOCAL_SECRET_BOOTSTRAP_FILE'', ''/tmp/handles.json'')]"

definition sample_payload :: obj where
  "sample_payload = [(''alias_ref'', JStr ''alias.provisioning.redaction-dictionary''), (''namespace_ref'', JStr ''sec_local_authoring''),
     (''metadata_ref'', JStr ''m''), (''version_ref'', JStr ''v''), (''store_ref'', JStr ''s'')]"

definition local_host :: runtime_host where
  "local_host = \<lparr>json_loads = (\<lambda>s. if s = ''file'' then Some (JObj [(''TAXAT_SECRET_REF_REDACTION_DICTIONARY'', JStr ''handle'')])
       else if s = ''handle'' then Some (JObj sample_payload) else None),
     json_dumps = (\<lambda>v. []), read_text = (\<lambda>p. if p = ''/tmp/handles.json'' then Some ''file'' else None),
     absolute_url = (\<lambda>s. False)\<rparr>"

lemma local_loads:
  "case load_python_runtime_profile local_host shipped_runtime local_env of Inr p \<Rightarrow>
     rp_environment_ref p = ''env_local_authoring'' \<and> rp_secret_handles p \<noteq> [] | Inl e \<Rightarrow> False"
  by code_simp

lemma loaded_profile_is_confined_witness:
  "case load_python_runtime_profile local_host shipped_runtime local_env of
     Inr p \<Rightarrow> profile_confined local_host shipped_runtime local_env p \<and> rp_secret_handles p \<noteq> [] | Inl e \<Rightarrow> False"
  using local_loads loaded_profile_is_confined by (auto split: sum.splits)

section \<open>Where the Python consumer can run\<close>

lemma loaded_sets_bootstrap_file:
  assumes "load_python_runtime_profile h shipped_runtime env = Inr p"
  shows "\<exists>ladder er path. local_bootstrap_path env shipped_runtime ladder = Some path \<and>
    check_bootstrap shipped_runtime (Some path) (rp_environment_ref p) er = Inr ()"
proof -
  let ?k = "''TAXAT_LOCAL_SECRET_BOOTSTRAP_FILE''"
  let ?ladder = "[''EXPLICIT_OVERRIDE'', ''PROCESS_ENV'', ''LOCAL_FILE_BOOTSTRAP'']"
  obtain consumer local_bootstrap er where steps: "python_consumer_row shipped_runtime = Inr consumer"
    "check_bootstrap shipped_runtime (local_bootstrap_path env shipped_runtime ?ladder) (rp_environment_ref p) er = Inr ()"
    "foldE (read_value h shipped_runtime (required_for_consumer ''PYTHON'' shipped_runtime consumer) ?ladder env
      local_bootstrap) [] (co_allowed_env_keys consumer) = Inr (rp_values p)"
    using loaded_steps [OF assms] unfolding shipped_ladder by auto
  have "?k \<in> set (co_allowed_env_keys consumer)"
    using steps(1) unfolding shipped_consumer by auto
  then obtain row raw v where row: "key_index shipped_runtime ?k = Inr row"
    and raw: "resolve_value ?k (kr_allowed_sources row) ?ladder env local_bootstrap = Some raw"
    and v: "coerce_scalar h row (Some raw) = Inr v"
    using read_values_resolved [OF steps(3)] by (fastforce simp: required_for_consumer_def)
  have "map_of env ?k = Some raw"
    using row raw unfolding shipped_bootstrap_key by (auto simp: key_row_of_def split: if_splits)
  then have "local_bootstrap_path env shipped_runtime ?ladder = Some raw"
    using coerced_not_empty [OF v] by (simp add: local_bootstrap_path_def shipped_runtime_def shipped_bootstrap_def)
  then show ?thesis using steps(2) by auto
qed

text \<open>C40: with the shipped policy files every profile that loads is for one of the two local environments: the optional
  bootstrap file key is required of the Python consumer because it is allowed, and setting it is forbidden in every other
  environment, although the provider matrix allows the consumer in three more.\<close>

theorem python_profile_loads_only_locally:
  assumes "load_python_runtime_profile h shipped_runtime env = Inr p"
  shows "rp_environment_ref p \<in> {''env_local_authoring'', ''env_local_provisioning_workstation''}"
proof -
  obtain er path where "check_bootstrap shipped_runtime (Some path) (rp_environment_ref p) er = Inr ()"
    using loaded_sets_bootstrap_file [OF assms] by blast
  then show ?thesis
    by (auto simp: check_bootstrap_def shipped_runtime_def shipped_bootstrap_def split: if_splits)
qed

lemma python_profile_loads_only_locally_witness:
  "case load_python_runtime_profile local_host shipped_runtime local_env of
     Inr p \<Rightarrow> rp_environment_ref p \<in> {''env_local_authoring'', ''env_local_provisioning_workstation''} | Inl e \<Rightarrow> False"
  using local_loads python_profile_loads_only_locally [of local_host local_env] by (auto split: sum.splits)

end
