(* ===== verification/Cache_Isolation.thy ===== *)
theory Cache_Isolation
  imports Gate_Semantics
begin

text \<open>
  The cache isolation contract of \<open>Algorithm/scripts/validate_contracts.py\<close>: who a cached read-side surface belongs to.
  The code checks it with six sets of scope classes; here these are shown to be one table with a rule per scope, as
  \<open>Algorithm/cache_isolation_and_secure_reuse_contract.md\<close> describes them. The keyword arguments of the validator are a
  record, with \<open>None\<close> for \<open>CACHE_ISOLATION_UNSET\<close>. \<open>stable_json_hash\<close> is the parameter \<open>H\<close>.
\<close>

section \<open>The scope classes\<close>

definition CACHE_ISOLATION_SCOPE_CLASSES :: "string list" where
  "CACHE_ISOLATION_SCOPE_CLASSES =
    [''LOW_NOISE_FRAME'', ''WORKSPACE_SNAPSHOT'', ''WORK_INBOX_SNAPSHOT'', ''CLIENT_PORTAL_WORKSPACE'',
     ''CUSTOMER_REQUEST_LIST'', ''TENANT_GOVERNANCE_SNAPSHOT'', ''GOVERNANCE_POLICY_SNAPSHOT'',
     ''PRINCIPAL_ACCESS_VIEW'', ''ROLE_TEMPLATE_MATRIX'', ''NATIVE_OPERATOR_WORKSPACE_SCENE'',
     ''NATIVE_OPERATOR_SECONDARY_WINDOW_SCENE'']"

definition CACHE_ISOLATION_SCOPES_REQUIRING_ACCESS_AND_MASKING :: "string list" where
  "CACHE_ISOLATION_SCOPES_REQUIRING_ACCESS_AND_MASKING =
    [''LOW_NOISE_FRAME'', ''WORKSPACE_SNAPSHOT'', ''WORK_INBOX_SNAPSHOT'', ''CLIENT_PORTAL_WORKSPACE'',
     ''CUSTOMER_REQUEST_LIST'', ''NATIVE_OPERATOR_WORKSPACE_SCENE'', ''NATIVE_OPERATOR_SECONDARY_WINDOW_SCENE'']"

definition CACHE_ISOLATION_SCOPES_REQUIRING_VISIBILITY_PARTITION :: "string list" where
  "CACHE_ISOLATION_SCOPES_REQUIRING_VISIBILITY_PARTITION =
    [''WORKSPACE_SNAPSHOT'', ''WORK_INBOX_SNAPSHOT'', ''CLIENT_PORTAL_WORKSPACE'', ''CUSTOMER_REQUEST_LIST'']"

definition CACHE_ISOLATION_GOVERNANCE_SCOPES :: "string list" where
  "CACHE_ISOLATION_GOVERNANCE_SCOPES =
    [''TENANT_GOVERNANCE_SNAPSHOT'', ''GOVERNANCE_POLICY_SNAPSHOT'', ''PRINCIPAL_ACCESS_VIEW'',
     ''ROLE_TEMPLATE_MATRIX'']"

definition CACHE_ISOLATION_FALSE_CUSTOMER_SAFE_SCOPES :: "string list" where
  "CACHE_ISOLATION_FALSE_CUSTOMER_SAFE_SCOPES =
    [''LOW_NOISE_FRAME'', ''WORK_INBOX_SNAPSHOT'', ''TENANT_GOVERNANCE_SNAPSHOT'', ''GOVERNANCE_POLICY_SNAPSHOT'',
     ''PRINCIPAL_ACCESS_VIEW'', ''ROLE_TEMPLATE_MATRIX'', ''NATIVE_OPERATOR_WORKSPACE_SCENE'',
     ''NATIVE_OPERATOR_SECONDARY_WINDOW_SCENE'']"

definition CACHE_ISOLATION_TRUE_CUSTOMER_SAFE_SCOPES :: "string list" where
  "CACHE_ISOLATION_TRUE_CUSTOMER_SAFE_SCOPES = [''CLIENT_PORTAL_WORKSPACE'', ''CUSTOMER_REQUEST_LIST'']"

definition secondary_window :: string where
  "secondary_window = ''NATIVE_OPERATOR_SECONDARY_WINDOW_SCENE''"

section \<open>The delivery binding hash\<close>

definition cache_identity_fields :: "string list" where
  "cache_identity_fields =
    [''cache_scope_class'', ''tenant_id'', ''client_id_or_null'', ''principal_class'', ''session_binding_hash'',
     ''access_binding_hash_or_null'', ''masking_posture_fingerprint_or_null'', ''shell_stability_ref_or_null'',
     ''route_identity_ref'', ''canonical_object_ref'', ''shell_family'', ''projection_version_ref'',
     ''cache_partition_ref'', ''visibility_cache_partition_key_or_null'', ''customer_safe_projection'',
     ''preview_subject_ref_or_null'']"

definition cache_string_fields :: "string list" where
  "cache_string_fields =
    [''tenant_id'', ''principal_class'', ''session_binding_hash'', ''route_identity_ref'',
     ''canonical_object_ref'', ''shell_family'', ''projection_version_ref'', ''cache_partition_ref'']"

definition cache_optional_fields :: "string list" where
  "cache_optional_fields =
    [''client_id_or_null'', ''access_binding_hash_or_null'', ''masking_posture_fingerprint_or_null'',
     ''shell_stability_ref_or_null'', ''visibility_cache_partition_key_or_null'', ''preview_subject_ref_or_null'']"

definition is_bool :: "json \<Rightarrow> bool" where
  "is_bool v = (case v of JBool b \<Rightarrow> True | _ \<Rightarrow> False)"

definition derive_cache_isolation_delivery_binding_hash :: "(json \<Rightarrow> string) \<Rightarrow> json \<Rightarrow> string option" where
  "derive_cache_isolation_delivery_binding_hash H contract =
    (case contract of
       JObj c \<Rightarrow>
         if nonempty_str (get c ''cache_scope_class'') \<and>
            list_all (\<lambda>f. nonempty_str (get c f)) cache_string_fields \<and>
            is_bool (get c ''customer_safe_projection'') \<and>
            list_all (\<lambda>f. get c f = JNull \<or> nonempty_str (get c f)) cache_optional_fields
         then Some (H (JObj (map (\<lambda>f. (f, get c f)) cache_identity_fields))) else None
     | _ \<Rightarrow> None)"

section \<open>The validators\<close>

datatype cache_issue =
    Cache_Not_Object | Cache_Scope | Cache_String string | Cache_Delivery_String | Cache_Optional string
  | Cache_Safe_Type | Cache_Partition | Cache_Scope_Binding string | Cache_Scope_Partition
  | Cache_Governance_Binding string | Cache_Safe_Binding string | Cache_Not_Safe | Cache_Safe
  | Cache_Preview_Missing | Cache_Preview_Left | Cache_Delivery_Hash
  | Cache_Constant string string | Cache_Mirror string | Cache_Partition_Mirror

text \<open>The checks that look at one field only.\<close>

definition cache_shape_issues :: "obj \<Rightarrow> string \<Rightarrow> cache_issue verdict" where
  "cache_shape_issues c loc = run_checks
    [report_ifE (notE (in_strs (get c ''cache_scope_class'') CACHE_ISOLATION_SCOPE_CLASSES)) (custom loc Cache_Scope),
     run_checks (map (\<lambda>f. report_if (\<not> nonempty_str (get c f)) (custom loc (Cache_String f))) cache_string_fields),
     report_if (\<not> nonempty_str (get c ''delivery_binding_hash'')) (custom loc Cache_Delivery_String),
     run_checks (map (\<lambda>f. report_if (get c f \<noteq> JNull \<and> \<not> nonempty_str (get c f)) (custom loc (Cache_Optional f)))
       cache_optional_fields),
     report_if (\<not> is_bool (get c ''customer_safe_projection'')) (custom loc Cache_Safe_Type),
     report_if (is_str (get c ''visibility_cache_partition_key_or_null'') \<and>
         get c ''cache_partition_ref'' \<noteq> get c ''visibility_cache_partition_key_or_null'') (custom loc Cache_Partition)]"

text \<open>What the scope asks for, up to the preview subject.\<close>

definition cache_scope_issues :: "obj \<Rightarrow> string \<Rightarrow> cache_issue verdict" where
  "cache_scope_issues c loc =
    (let scope_class = get c ''cache_scope_class'';
         access = [''access_binding_hash_or_null'', ''masking_posture_fingerprint_or_null''];
         bindings = access @ [''visibility_cache_partition_key_or_null'']
     in run_checks
      [whenE (in_strs scope_class CACHE_ISOLATION_SCOPES_REQUIRING_ACCESS_AND_MASKING)
         (run_checks (map (\<lambda>f. report_if (\<not> nonempty_str (get c f)) (custom loc (Cache_Scope_Binding f))) access)),
       whenE (in_strs scope_class CACHE_ISOLATION_SCOPES_REQUIRING_VISIBILITY_PARTITION)
         (report_if (\<not> nonempty_str (get c ''visibility_cache_partition_key_or_null''))
            (custom loc Cache_Scope_Partition)),
       whenE (in_strs scope_class CACHE_ISOLATION_GOVERNANCE_SCOPES)
         (run_checks (map (\<lambda>f. report_if (get c f \<noteq> JNull) (custom loc (Cache_Governance_Binding f))) bindings)),
       if get c ''customer_safe_projection'' = JBool True
       then run_checks (map (\<lambda>f. report_if (\<not> nonempty_str (get c f)) (custom loc (Cache_Safe_Binding f))) bindings)
       else Inr [],
       whenE (in_strs scope_class CACHE_ISOLATION_TRUE_CUSTOMER_SAFE_SCOPES)
         (report_if (get c ''customer_safe_projection'' \<noteq> JBool True) (custom loc Cache_Not_Safe)),
       whenE (in_strs scope_class CACHE_ISOLATION_FALSE_CUSTOMER_SAFE_SCOPES)
         (report_if (get c ''customer_safe_projection'' \<noteq> JBool False) (custom loc Cache_Safe)),
       if scope_class = JStr secondary_window
       then report_if (\<not> nonempty_str (get c ''preview_subject_ref_or_null'')) (custom loc Cache_Preview_Missing)
       else report_if (get c ''preview_subject_ref_or_null'' \<noteq> JNull) (custom loc Cache_Preview_Left)])"

definition validate_cache_isolation_contract_payload ::
  "(json \<Rightarrow> string) \<Rightarrow> json \<Rightarrow> string \<Rightarrow> cache_issue verdict" where
  "validate_cache_isolation_contract_payload H contract loc =
    (case contract of
       JObj c \<Rightarrow> run_checks
         [cache_shape_issues c loc, cache_scope_issues c loc,
          report_if (\<not> py_eq (get c ''delivery_binding_hash'')
              (opt_str (derive_cache_isolation_delivery_binding_hash H contract))) (custom loc Cache_Delivery_Hash)]
     | _ \<Rightarrow> Inr [custom loc Cache_Not_Object])"

record cache_expectations =
  expected_scope :: string
  expected_tenant_id :: "json option"
  expected_client_id_or_null :: "json option"
  expected_route_identity_ref :: "json option"
  expected_canonical_object_ref :: "json option"
  expected_shell_family :: "json option"
  expected_projection_version_ref :: "json option"
  expected_access_binding_hash_or_null :: "json option"
  expected_masking_posture_fingerprint_or_null :: "json option"
  expected_visibility_cache_partition_key_or_null :: "json option"
  expected_customer_safe_projection :: "json option"
  expected_preview_subject_ref_or_null :: "json option"
  expected_shell_stability_ref_or_null :: "json option"

definition cache_constants :: "cache_expectations \<Rightarrow> (string \<times> string) list" where
  "cache_constants e =
    [(''contract_version'', ''CACHE_ISOLATION_V1''),
     (''cache_scope_class'', expected_scope e),
     (''shared_cache_reuse_policy'', ''EXACT_SECURITY_CONTEXT_ONLY''),
     (''shared_layer_cache_policy'', ''NO_CDN_OR_PROXY_REUSE_WITHOUT_IDENTICAL_CONTEXT''),
     (''local_storage_reuse_policy'', ''PURGE_ON_TENANT_PRINCIPAL_SESSION_ACCESS_MASKING_OR_ROUTE_DRIFT''),
     (''hydration_guard_policy'', ''REJECT_ON_CONTEXT_ROUTE_VERSION_OR_PREVIEW_MISMATCH''),
     (''scope_narrowing_invalidation_policy'', ''PURGE_BROADER_VARIANTS_ON_ACCESS_OR_MASKING_NARROWING''),
     (''preview_export_reuse_policy'', ''ROUTE_AND_SELECTION_BOUND_CURRENT_ONLY''),
     (''delivery_revalidation_policy'', ''PREVIEW_EXPORT_AND_DOWNLOAD_REQUIRE_EXACT_BINDING''),
     (''temporary_artifact_policy'', ''TEMP_FILES_AND_NATIVE_PREVIEW_PURGED_ON_BINDING_DRIFT'')]"

definition expected_fields :: "cache_expectations \<Rightarrow> (string \<times> json option) list" where
  "expected_fields e =
    [(''tenant_id'', expected_tenant_id e), (''client_id_or_null'', expected_client_id_or_null e),
     (''route_identity_ref'', expected_route_identity_ref e),
     (''canonical_object_ref'', expected_canonical_object_ref e),
     (''shell_family'', expected_shell_family e), (''projection_version_ref'', expected_projection_version_ref e),
     (''access_binding_hash_or_null'', expected_access_binding_hash_or_null e),
     (''masking_posture_fingerprint_or_null'', expected_masking_posture_fingerprint_or_null e),
     (''visibility_cache_partition_key_or_null'', expected_visibility_cache_partition_key_or_null e),
     (''customer_safe_projection'', expected_customer_safe_projection e),
     (''preview_subject_ref_or_null'', expected_preview_subject_ref_or_null e),
     (''shell_stability_ref_or_null'', expected_shell_stability_ref_or_null e)]"

definition cache_mirror_issues :: "obj \<Rightarrow> string \<Rightarrow> cache_expectations \<Rightarrow> cache_issue verdict" where
  "cache_mirror_issues c loc e = run_checks
    [run_checks (map (\<lambda>(f, v). report_if (get c f \<noteq> JStr v) (custom loc (Cache_Constant f v))) (cache_constants e)),
     run_checks (map (\<lambda>(f, expected).
       report_if (\<exists>v \<in> set_option expected. \<not> py_eq (get c f) v) (custom loc (Cache_Mirror f))) (expected_fields e)),
     report_if (\<exists>v \<in> set_option (expected_visibility_cache_partition_key_or_null e).
         v \<noteq> JNull \<and> \<not> py_eq (get c ''cache_partition_ref'') v) (custom loc Cache_Partition_Mirror)]"

definition validate_cache_isolation_contract ::
  "(json \<Rightarrow> string) \<Rightarrow> json \<Rightarrow> string \<Rightarrow> cache_expectations \<Rightarrow> py_exn + (cache_issue issue list \<times> obj)" where
  "validate_cache_isolation_contract H contract loc e =
    bindE (validate_cache_isolation_contract_payload H contract loc) (\<lambda>issues.
    case contract of
      JObj c \<Rightarrow> bindE (cache_mirror_issues c loc e) (\<lambda>mirror_issues. Inr (issues @ mirror_issues, c))
    | _ \<Rightarrow> Inr (issues, []))"

section \<open>One table of rules\<close>

text \<open>What a scope asks of an optional binding.\<close>

datatype demand = Needed | Cleared | Free

fun meets :: "demand \<Rightarrow> json \<Rightarrow> bool" where
  "meets Needed v = nonempty_str v"
| "meets Cleared v = (v = JNull)"
| "meets Free v = (v = JNull \<or> nonempty_str v)"

record cache_rule =
  access_demand :: demand
  partition_demand :: demand
  safe_demand :: "bool option"
  preview_demand :: demand

definition scope_rules :: "(string \<times> cache_rule) list" where
  "scope_rules =
    (let rule = (\<lambda>a p s w. \<lparr>access_demand = a, partition_demand = p, safe_demand = s, preview_demand = w\<rparr>)
     in [(''LOW_NOISE_FRAME'', rule Needed Free (Some False) Cleared),
         (''WORKSPACE_SNAPSHOT'', rule Needed Needed None Cleared),
         (''WORK_INBOX_SNAPSHOT'', rule Needed Needed (Some False) Cleared),
         (''CLIENT_PORTAL_WORKSPACE'', rule Needed Needed (Some True) Cleared),
         (''CUSTOMER_REQUEST_LIST'', rule Needed Needed (Some True) Cleared),
         (''TENANT_GOVERNANCE_SNAPSHOT'', rule Cleared Cleared (Some False) Cleared),
         (''GOVERNANCE_POLICY_SNAPSHOT'', rule Cleared Cleared (Some False) Cleared),
         (''PRINCIPAL_ACCESS_VIEW'', rule Cleared Cleared (Some False) Cleared),
         (''ROLE_TEMPLATE_MATRIX'', rule Cleared Cleared (Some False) Cleared),
         (''NATIVE_OPERATOR_WORKSPACE_SCENE'', rule Needed Free (Some False) Cleared),
         (''NATIVE_OPERATOR_SECONDARY_WINDOW_SCENE'', rule Needed Free (Some False) Needed)])"

definition cache_identity :: "obj \<Rightarrow> json" where
  "cache_identity c = JObj (map (\<lambda>f. (f, get c f)) cache_identity_fields)"

text \<open>A contract that follows its rule and carries the hash of its identity.\<close>

definition follows_rule :: "obj \<Rightarrow> cache_rule \<Rightarrow> bool" where
  "follows_rule c rule \<longleftrightarrow>
     meets (access_demand rule) (get c ''access_binding_hash_or_null'') \<and>
     meets (access_demand rule) (get c ''masking_posture_fingerprint_or_null'') \<and>
     meets (partition_demand rule) (get c ''visibility_cache_partition_key_or_null'') \<and>
     meets (preview_demand rule) (get c ''preview_subject_ref_or_null'') \<and>
     (\<exists>b. get c ''customer_safe_projection'' = JBool b \<and> safe_demand rule \<in> {None, Some b})"

definition identities_present :: "obj \<Rightarrow> bool" where
  "identities_present c \<longleftrightarrow> list_all (\<lambda>f. nonempty_str (get c f)) cache_string_fields \<and>
     meets Free (get c ''client_id_or_null'') \<and> meets Free (get c ''shell_stability_ref_or_null'') \<and>
     get c ''visibility_cache_partition_key_or_null'' \<in> {JNull, get c ''cache_partition_ref''}"

definition lawful_cache_contract :: "(json \<Rightarrow> string) \<Rightarrow> obj \<Rightarrow> bool" where
  "lawful_cache_contract H c \<longleftrightarrow>
     (\<exists>(s, rule) \<in> set scope_rules. get c ''cache_scope_class'' = JStr s \<and> follows_rule c rule) \<and>
     identities_present c \<and>
     get c ''delivery_binding_hash'' = JStr (H (cache_identity c)) \<and> H (cache_identity c) \<noteq> []"

text \<open>The sets of the code, read from the table. Every rule has the bindings that a customer-safe projection needs, unless
  it forbids that projection.\<close>

lemma sets_of_the_table:
  "list_all (\<lambda>(s, rule). s \<in> set CACHE_ISOLATION_SCOPE_CLASSES \<and>
      (s \<in> set CACHE_ISOLATION_SCOPES_REQUIRING_ACCESS_AND_MASKING \<longleftrightarrow> access_demand rule = Needed) \<and>
      (s \<in> set CACHE_ISOLATION_SCOPES_REQUIRING_VISIBILITY_PARTITION \<longleftrightarrow> partition_demand rule = Needed) \<and>
      (s \<in> set CACHE_ISOLATION_GOVERNANCE_SCOPES \<longleftrightarrow> access_demand rule = Cleared) \<and>
      (s \<in> set CACHE_ISOLATION_TRUE_CUSTOMER_SAFE_SCOPES \<longleftrightarrow> safe_demand rule = Some True) \<and>
      (s \<in> set CACHE_ISOLATION_FALSE_CUSTOMER_SAFE_SCOPES \<longleftrightarrow> safe_demand rule = Some False) \<and>
      (s = secondary_window \<longleftrightarrow> preview_demand rule = Needed) \<and>
      (access_demand rule = Cleared \<longleftrightarrow> partition_demand rule = Cleared) \<and> access_demand rule \<noteq> Free \<and>
      preview_demand rule \<noteq> Free \<and>
      (safe_demand rule \<noteq> Some False \<longrightarrow> access_demand rule = Needed \<and> partition_demand rule = Needed)) scope_rules"
  by code_simp

lemma classes_of_the_table: "set CACHE_ISOLATION_SCOPE_CLASSES = fst ` set scope_rules"
proof -
  have "CACHE_ISOLATION_SCOPE_CLASSES = map fst scope_rules" by code_simp
  then show ?thesis by (metis list.set_map)
qed

lemma shape_clean:
  "cache_shape_issues c loc = Inr [] \<longleftrightarrow>
     in_strs (get c ''cache_scope_class'') CACHE_ISOLATION_SCOPE_CLASSES = Inr True \<and>
     list_all (\<lambda>f. nonempty_str (get c f)) cache_string_fields \<and>
     nonempty_str (get c ''delivery_binding_hash'') \<and>
     list_all (\<lambda>f. meets Free (get c f)) cache_optional_fields \<and>
     is_bool (get c ''customer_safe_projection'') \<and>
     (is_str (get c ''visibility_cache_partition_key_or_null'') \<longrightarrow>
        get c ''cache_partition_ref'' = get c ''visibility_cache_partition_key_or_null'')"
  by (auto simp: cache_shape_issues_def notE_Inr_iff list_all_iff)

lemma rule_facts:
  assumes "(s, rule) \<in> set scope_rules"
  shows "s \<in> set CACHE_ISOLATION_SCOPE_CLASSES"
    and "s \<in> set CACHE_ISOLATION_SCOPES_REQUIRING_ACCESS_AND_MASKING \<longleftrightarrow> access_demand rule = Needed"
    and "s \<in> set CACHE_ISOLATION_SCOPES_REQUIRING_VISIBILITY_PARTITION \<longleftrightarrow> partition_demand rule = Needed"
    and "s \<in> set CACHE_ISOLATION_GOVERNANCE_SCOPES \<longleftrightarrow> access_demand rule = Cleared"
    and "s \<in> set CACHE_ISOLATION_TRUE_CUSTOMER_SAFE_SCOPES \<longleftrightarrow> safe_demand rule = Some True"
    and "s \<in> set CACHE_ISOLATION_FALSE_CUSTOMER_SAFE_SCOPES \<longleftrightarrow> safe_demand rule = Some False"
    and "s = secondary_window \<longleftrightarrow> preview_demand rule = Needed"
    and "access_demand rule = Cleared \<longleftrightarrow> partition_demand rule = Cleared"
    and "access_demand rule \<noteq> Free" "preview_demand rule \<noteq> Free"
    and "safe_demand rule \<noteq> Some False \<longrightarrow> access_demand rule = Needed \<and> partition_demand rule = Needed"
  using sets_of_the_table [unfolded list_all_iff, rule_format, OF assms, unfolded prod.case] by blast+

lemma scope_clean:
  assumes "(s, rule) \<in> set scope_rules" "get c ''cache_scope_class'' = JStr s"
  shows "cache_scope_issues c loc = Inr [] \<longleftrightarrow>
    (access_demand rule = Needed \<longrightarrow> nonempty_str (get c ''access_binding_hash_or_null'') \<and>
       nonempty_str (get c ''masking_posture_fingerprint_or_null'')) \<and>
    (partition_demand rule = Needed \<longrightarrow> nonempty_str (get c ''visibility_cache_partition_key_or_null'')) \<and>
    (access_demand rule = Cleared \<longrightarrow> get c ''access_binding_hash_or_null'' = JNull \<and>
       get c ''masking_posture_fingerprint_or_null'' = JNull \<and> get c ''visibility_cache_partition_key_or_null'' = JNull) \<and>
    (get c ''customer_safe_projection'' = JBool True \<longrightarrow> nonempty_str (get c ''access_binding_hash_or_null'') \<and>
       nonempty_str (get c ''masking_posture_fingerprint_or_null'') \<and>
       nonempty_str (get c ''visibility_cache_partition_key_or_null'')) \<and>
    (safe_demand rule = Some True \<longrightarrow> get c ''customer_safe_projection'' = JBool True) \<and>
    (safe_demand rule = Some False \<longrightarrow> get c ''customer_safe_projection'' = JBool False) \<and>
    (if preview_demand rule = Needed then nonempty_str (get c ''preview_subject_ref_or_null'')
     else get c ''preview_subject_ref_or_null'' = JNull)"
  unfolding cache_scope_issues_def Let_def assms(2)
  by (simp add: whenE_clean rule_facts [OF assms(1)] conj_assoc)

lemma meets_free: "meets Needed v \<Longrightarrow> meets Free v" "meets Cleared v \<Longrightarrow> meets Free v" "meets d v \<Longrightarrow> meets Free v"
  by (cases d; simp)+

lemma rule_followed:
  assumes "(s, rule) \<in> set scope_rules" "get c ''cache_scope_class'' = JStr s"
  shows "cache_scope_issues c loc = Inr [] \<and> meets Free (get c ''access_binding_hash_or_null'') \<and>
      meets Free (get c ''masking_posture_fingerprint_or_null'') \<and>
      meets Free (get c ''visibility_cache_partition_key_or_null'') \<and>
      meets Free (get c ''preview_subject_ref_or_null'') \<and> is_bool (get c ''customer_safe_projection'') \<longleftrightarrow>
    follows_rule c rule"
proof -
  note r = rule_facts(8-) [OF assms(1)]
  have safe: "is_bool v \<and> (safe_demand rule = Some True \<longrightarrow> v = JBool True) \<and> (safe_demand rule = Some False \<longrightarrow> v = JBool False)
      \<longleftrightarrow> (\<exists>b. v = JBool b \<and> safe_demand rule \<in> {None, Some b})" for v
    by (cases "safe_demand rule"; cases v) (auto simp: is_bool_def)
  show ?thesis
    unfolding scope_clean [OF assms] follows_rule_def safe [symmetric]
    using r by (cases "access_demand rule"; cases "partition_demand rule"; cases "preview_demand rule") auto
qed

lemma classes_have_a_rule:
  "in_strs v CACHE_ISOLATION_SCOPE_CLASSES = Inr True \<longleftrightarrow> (\<exists>(s, rule) \<in> set scope_rules. v = JStr s)"
  unfolding in_strs_True_iff classes_of_the_table by force

lemma derived_identity:
  "derive_cache_isolation_delivery_binding_hash H (JObj c) =
    (if nonempty_str (get c ''cache_scope_class'') \<and> list_all (\<lambda>f. nonempty_str (get c f)) cache_string_fields \<and>
        is_bool (get c ''customer_safe_projection'') \<and> list_all (\<lambda>f. meets Free (get c f)) cache_optional_fields
     then Some (H (cache_identity c)) else None)"
  by (simp add: derive_cache_isolation_delivery_binding_hash_def cache_identity_def)

lemma optional_fields:
  "list_all (\<lambda>f. meets Free (get c f)) cache_optional_fields \<longleftrightarrow>
     meets Free (get c ''client_id_or_null'') \<and> meets Free (get c ''access_binding_hash_or_null'') \<and>
     meets Free (get c ''masking_posture_fingerprint_or_null'') \<and> meets Free (get c ''shell_stability_ref_or_null'') \<and>
     meets Free (get c ''visibility_cache_partition_key_or_null'') \<and> meets Free (get c ''preview_subject_ref_or_null'')"
  by (simp add: cache_optional_fields_def)

lemma partition_mirrors:
  assumes "meets Free v"
  shows "(is_str v \<longrightarrow> p = v) \<longleftrightarrow> v \<in> {JNull, p}"
  using assms by (cases v) auto

lemma scope_names_not_empty: "(s, rule) \<in> set scope_rules \<Longrightarrow> s \<noteq> []"
proof -
  have "list_all (\<lambda>(s, rule). s \<noteq> []) scope_rules" by code_simp
  then show "(s, rule) \<in> set scope_rules \<Longrightarrow> s \<noteq> []" by (auto simp: list_all_iff)
qed

lemma payload_clean:
  "validate_cache_isolation_contract_payload H (JObj c) loc = Inr [] \<longleftrightarrow>
     cache_shape_issues c loc = Inr [] \<and> cache_scope_issues c loc = Inr [] \<and>
     get c ''delivery_binding_hash'' = opt_str (derive_cache_isolation_delivery_binding_hash H (JObj c))"
  by (cases "derive_cache_isolation_delivery_binding_hash H (JObj c)")
    (simp_all add: validate_cache_isolation_contract_payload_def)

lemma cache_contracts_parts:
  "validate_cache_isolation_contract_payload H (JObj c) loc = Inr [] \<longleftrightarrow> lawful_cache_contract H c"
proof (cases "\<exists>(s, rule) \<in> set scope_rules. get c ''cache_scope_class'' = JStr s")
  case False
  then show ?thesis
    unfolding payload_clean shape_clean classes_have_a_rule lawful_cache_contract_def by blast
next
  case True
  then obtain s rule where r: "(s, rule) \<in> set scope_rules" "get c ''cache_scope_class'' = JStr s" by blast
  note classes = classes_have_a_rule [of "get c ''cache_scope_class''", THEN iffD2, OF True]
  have unique: "(\<exists>(s, rule) \<in> set scope_rules. get c ''cache_scope_class'' = JStr s \<and> follows_rule c rule) \<longleftrightarrow>
      follows_rule c rule"
  proof
    assume "\<exists>(s, rule) \<in> set scope_rules. get c ''cache_scope_class'' = JStr s \<and> follows_rule c rule"
    then obtain rule' where r': "(s, rule') \<in> set scope_rules" "follows_rule c rule'" using r(2) by auto
    then show "follows_rule c rule" using rule_followed [OF r'(1) r(2)] rule_followed [OF r] by blast
  qed (use r in blast)
  show ?thesis
    unfolding payload_clean shape_clean lawful_cache_contract_def unique identities_present_def derived_identity
      optional_fields rule_followed [OF r, of loc, symmetric]
    using r(2) scope_names_not_empty [OF r(1)] classes partition_mirrors
    by (cases "get c ''delivery_binding_hash''") auto
qed

text \<open>C14: the cache scope table. The checks of the code, with its six sets of scope classes, accept exactly the contracts of
  one table: a scope with its rule for access and masking, for the visibility partition, for the customer-safe projection
  and for the preview subject; all identities are present, a visibility partition is the cache partition, and the delivery
  binding hash is that of the identity. In particular the six sets never contradict each other.\<close>

theorem cache_contracts_follow_the_scope_table:
  "validate_cache_isolation_contract_payload H (JObj c) loc = Inr [] \<longleftrightarrow> lawful_cache_contract H c"
  by (rule cache_contracts_parts)

section \<open>What an accepted contract binds\<close>

lemma accepted_cache_contract:
  assumes "validate_cache_isolation_contract H contract loc e = Inr ([], c)"
  shows "contract = JObj c" "lawful_cache_contract H c" "cache_mirror_issues c loc e = Inr []"
proof -
  obtain issues where v: "validate_cache_isolation_contract_payload H contract loc = Inr issues"
    and rest: "(case contract of
        JObj c \<Rightarrow> bindE (cache_mirror_issues c loc e) (\<lambda>mirror_issues. Inr (issues @ mirror_issues, c))
      | _ \<Rightarrow> Inr (issues, [])) = Inr ([], c)"
    using assms by (auto simp: validate_cache_isolation_contract_def bindE_eq_Inr_iff)
  have "\<exists>d. contract = JObj d" using v rest
    by (cases contract) (auto simp: validate_cache_isolation_contract_payload_def)
  then show "contract = JObj c" "lawful_cache_contract H c" "cache_mirror_issues c loc e = Inr []"
    using v rest by (auto simp: bindE_eq_Inr_iff cache_contracts_parts)
qed

lemma lawful_hash: "lawful_cache_contract H c \<Longrightarrow> get c ''delivery_binding_hash'' = JStr (H (cache_identity c))"
  by (simp add: lawful_cache_contract_def)

lemma same_identity:
  assumes "cache_identity c = cache_identity c'"
  shows "get c ''tenant_id'' = get c' ''tenant_id''" "get c ''principal_class'' = get c' ''principal_class''"
    "get c ''session_binding_hash'' = get c' ''session_binding_hash''"
    "get c ''canonical_object_ref'' = get c' ''canonical_object_ref''"
    "get c ''projection_version_ref'' = get c' ''projection_version_ref''"
    "get c ''access_binding_hash_or_null'' = get c' ''access_binding_hash_or_null''"
    "get c ''masking_posture_fingerprint_or_null'' = get c' ''masking_posture_fingerprint_or_null''"
    "get c ''cache_partition_ref'' = get c' ''cache_partition_ref''"
  using assms by (simp_all add: cache_identity_def cache_identity_fields_def)

text \<open>The governance scopes clear the customer-visible bindings.\<close>

lemma governance_cache:
  assumes "lawful_cache_contract H c" "get c ''cache_scope_class'' = JStr ''GOVERNANCE_POLICY_SNAPSHOT''"
  shows "get c ''customer_safe_projection'' = JBool False" "get c ''access_binding_hash_or_null'' = JNull"
    "get c ''visibility_cache_partition_key_or_null'' = JNull"
proof -
  obtain rule where r: "(''GOVERNANCE_POLICY_SNAPSHOT'', rule) \<in> set scope_rules" "follows_rule c rule"
    using assms by (auto simp: lawful_cache_contract_def)
  have "access_demand rule = Cleared" "safe_demand rule = Some False" "partition_demand rule = Cleared"
    using rule_facts(4,6,8) [OF r(1)]
    by (simp_all add: CACHE_ISOLATION_GOVERNANCE_SCOPES_def CACHE_ISOLATION_FALSE_CUSTOMER_SAFE_SCOPES_def)
  then show "get c ''customer_safe_projection'' = JBool False" "get c ''access_binding_hash_or_null'' = JNull"
    "get c ''visibility_cache_partition_key_or_null'' = JNull"
    using r(2) by (auto simp: follows_rule_def)
qed

lemma mirrored_field:
  assumes "cache_mirror_issues c loc e = Inr []" "(f, Some v) \<in> set (expected_fields e)"
  shows "py_eq (get c f) v"
  using assms by (force simp: cache_mirror_issues_def)

lemma contract_scope:
  assumes "cache_mirror_issues c loc e = Inr []"
  shows "get c ''cache_scope_class'' = JStr (expected_scope e)"
  using assms by (simp add: cache_mirror_issues_def cache_constants_def)

end
