(* ===== verification/Governance_Score.thy ===== *)
theory Governance_Score
  imports Trust_Projection "HOL-Library.Code_Target_Nat"
begin

text \<open>
  The two scores of a governance mutation in \<open>Algorithm/scripts/validate_contracts.py\<close>: the policy risk of
  its privilege, scope, masking and blast-radius scores, and the approval necessity of the risk. The code
  computes weighted geometric means with \<open>**\<close> on floats; here the powers are real powers (\<open>powr\<close>), so
  the rounding of double arithmetic is not represented, nor is the \<open>OverflowError\<close> of dividing an integer
  that no double can hold. The lemmas replace each rounded power by a comparison of integers, which
  computes the scores and shows that a score never sits on a rounding boundary.
\<close>

definition governance_score_ratio :: "json \<Rightarrow> real option" where
  "governance_score_ratio v = map_option (\<lambda>i. clamp01 (of_int i / 100)) (as_int v)"

definition expected_governance_policy_risk_score :: "obj \<Rightarrow> int option" where
  "expected_governance_policy_risk_score payload =
    (case (governance_score_ratio (get payload ''privilege_gain_score''),
           governance_score_ratio (get payload ''scope_expansion_score''),
           governance_score_ratio (get payload ''masking_relaxation_score''),
           governance_score_ratio (get payload ''impact_radius_upper_score'')) of
       (Some d_priv, Some d_scope, Some d_mask, Some d_tail) \<Rightarrow>
         (let policy_risk_raw = 1 - ((1 - d_priv) powr (40/100) * (1 - d_scope) powr (25/100)
                * (1 - d_mask) powr (20/100) * (1 - d_tail) powr (15/100))
          in Some (round_score (100 * policy_risk_raw)))
     | _ \<Rightarrow> None)"

definition expected_governance_approval_necessity_score :: "obj \<Rightarrow> int option" where
  "expected_governance_approval_necessity_score payload =
    (case (governance_score_ratio (get payload ''policy_risk_score''),
           governance_score_ratio (get payload ''impact_radius_upper_score'')) of
       (Some policy_risk_score, Some impact_radius_upper_score) \<Rightarrow>
         (let approval_necessity_raw =
                1 - ((1 - policy_risk_score) powr (70/100) * (1 - impact_radius_upper_score) powr (30/100))
          in Some (round_score (100 * approval_necessity_raw)))
     | _ \<Rightarrow> None)"

section \<open>Rounded powers as integer comparisons\<close>

text \<open>The clearance left by a score: \<open>100 (1 - d)\<close> for the ratio \<open>d\<close> of the score.\<close>

definition clearance :: "int \<Rightarrow> nat" where
  "clearance i = nat (100 - max 0 (min 100 i))"

lemma clearance_le: "clearance i \<le> 100"
  by (simp add: clearance_def)

lemma clearance_antimono: "i \<le> j \<Longrightarrow> clearance j \<le> clearance i"
  by (auto simp: clearance_def)

lemma one_minus_ratio: "1 - clamp01 (of_int i / 100) = real (clearance i) / 100"
  by (auto simp: clamp01_def clearance_def min_def max_def)

lemma powr_as_power:
  assumes "0 \<le> x" and "r * real n = real k" and "0 < k" "0 < n"
  shows "(x powr r) ^ n = x ^ k"
proof (cases "x = 0")
  case False
  then have "(x powr r) ^ n = x powr (r * real n)" using assms(4) by (simp add: powr_power mult.commute)
  then show ?thesis using False assms(1,2) by (simp add: powr_realpow)
qed (use assms in \<open>simp add: zero_power\<close>)

text \<open>For \<open>k\<close> between 1 and 100, a rounded score reaches \<open>k\<close> exactly when an integer comparison of the
  \<open>n\<close>-th powers holds. The left side is even and the right side odd, so the two are never equal: the raw
  score is never halfway between two integers.\<close>

lemma score_reaches_iff:
  assumes x: "0 \<le> p" "p ^ n = real N / 100 ^ n" and n: "0 < n" and k: "1 \<le> k" "k \<le> 100"
  shows "k \<le> round_score (100 * (1 - p)) \<longleftrightarrow> 2 ^ n * N \<le> nat (201 - 2 * k) ^ n"
proof -
  have "k \<le> round_score (100 * (1 - p)) \<longleftrightarrow> of_int k \<le> 100 * (1 - p) + 1/2"
  proof -
    have "k \<le> round_score (100 * (1 - p)) \<longleftrightarrow> k \<le> \<lfloor>100 * (1 - p) + 1/2\<rfloor>"
      using k unfolding round_score_def by linarith
    then show ?thesis by (simp only: le_floor_iff)
  qed
  also have "\<dots> \<longleftrightarrow> 200 * p \<le> real (nat (201 - 2 * k))"
    using k by (auto simp: of_nat_nat)
  also have "\<dots> \<longleftrightarrow> (200 * p) ^ n \<le> real (nat (201 - 2 * k)) ^ n"
    by (rule power_mono_iff [symmetric]) (use x(1) n in simp_all)
  also have "(200 * p) ^ n = 2 ^ n * real N"
  proof -
    have "(200::real) ^ n = 2 ^ n * 100 ^ n" by (simp flip: power_mult_distrib)
    then show ?thesis by (simp add: power_mult_distrib x(2))
  qed
  also have "2 ^ n * real N \<le> real (nat (201 - 2 * k)) ^ n \<longleftrightarrow>
      real (2 ^ n * N) \<le> real (nat (201 - 2 * k) ^ n)" by simp
  finally show ?thesis by (simp only: of_nat_le_iff)
qed

definition score_by_integers :: "nat \<Rightarrow> nat \<Rightarrow> int" where
  "score_by_integers n N = int (length (filter (\<lambda>k. 2 ^ n * N \<le> (201 - 2 * k) ^ n) [1..<101]))"

text \<open>A value between 0 and 100 is the number of thresholds it reaches.\<close>

lemma count_thresholds:
  assumes "0 \<le> s" "s \<le> 100"
  shows "int (length (filter (\<lambda>k. int k \<le> s) [1..<101])) = s"
proof -
  have split: "[1..<101] = [1..<1 + nat s] @ [1 + nat s..<101]"
    using upt_add_eq_append [of 1 "1 + nat s" "100 - nat s"] assms by simp
  have "filter (\<lambda>k. int k \<le> s) [1..<1 + nat s] = [1..<1 + nat s]"
    "filter (\<lambda>k. int k \<le> s) [1 + nat s..<101] = []"
    using assms by (auto simp: filter_id_conv filter_empty_conv)
  then have "filter (\<lambda>k. int k \<le> s) [1..<101] = [1..<1 + nat s]"
    by (simp only: split filter_append append_Nil2)
  then have "length (filter (\<lambda>k. int k \<le> s) [1..<101]) = nat s"
    by simp
  then show ?thesis using assms(1) by simp
qed

lemma round_score_by_integers:
  assumes "0 \<le> p" "p ^ n = real N / 100 ^ n" "0 < n"
  shows "round_score (100 * (1 - p)) = score_by_integers n N"
proof -
  have "filter (\<lambda>k. 2 ^ n * N \<le> (201 - 2 * k) ^ n) [1..<101]
      = filter (\<lambda>k. int k \<le> round_score (100 * (1 - p))) [1..<101]"
  proof (rule filter_cong [OF refl])
    fix k assume "k \<in> set [1..<101]"
    then have "1 \<le> int k" "int k \<le> 100" and "nat (201 - 2 * int k) = 201 - 2 * k" by auto
    then show "2 ^ n * N \<le> (201 - 2 * k) ^ n \<longleftrightarrow> int k \<le> round_score (100 * (1 - p))"
      using score_reaches_iff [OF assms, of "int k"] by simp
  qed
  then show ?thesis
    using count_thresholds [OF round_score_range] by (simp add: score_by_integers_def)
qed

definition risk_by_integers :: "int \<Rightarrow> int \<Rightarrow> int \<Rightarrow> int \<Rightarrow> int" where
  "risk_by_integers privilege scope masking tail = score_by_integers 20
     (clearance privilege ^ 8 * clearance scope ^ 5 * clearance masking ^ 4 * clearance tail ^ 3)"

definition necessity_by_integers :: "int \<Rightarrow> int \<Rightarrow> int" where
  "necessity_by_integers risk tail = score_by_integers 10 (clearance risk ^ 7 * clearance tail ^ 3)"

lemma risk_equation:
  "round_score (100 * (1 - ((1 - clamp01 (of_int a / 100)) powr (40/100)
     * (1 - clamp01 (of_int b / 100)) powr (25/100) * (1 - clamp01 (of_int c / 100)) powr (20/100)
     * (1 - clamp01 (of_int d / 100)) powr (15/100)))) = risk_by_integers a b c d"
  unfolding risk_by_integers_def one_minus_ratio
proof (rule round_score_by_integers)
  let ?r = "\<lambda>i. real (clearance i) / 100"
  have "(?r a powr (40/100)) ^ 20 = ?r a ^ 8" "(?r b powr (25/100)) ^ 20 = ?r b ^ 5"
    "(?r c powr (20/100)) ^ 20 = ?r c ^ 4" "(?r d powr (15/100)) ^ 20 = ?r d ^ 3"
    by (rule powr_as_power; simp)+
  then have "(?r a powr (40/100) * ?r b powr (25/100) * ?r c powr (20/100) * ?r d powr (15/100)) ^ 20
      = ?r a ^ 8 * ?r b ^ 5 * ?r c ^ 4 * ?r d ^ 3" by (simp only: power_mult_distrib)
  then show "(?r a powr (40/100) * ?r b powr (25/100) * ?r c powr (20/100) * ?r d powr (15/100)) ^ 20
      = real (clearance a ^ 8 * clearance b ^ 5 * clearance c ^ 4 * clearance d ^ 3) / 100 ^ 20"
    by (simp add: power_divide)
qed simp_all

lemma necessity_equation:
  "round_score (100 * (1 - ((1 - clamp01 (of_int a / 100)) powr (70/100)
     * (1 - clamp01 (of_int b / 100)) powr (30/100)))) = necessity_by_integers a b"
  unfolding necessity_by_integers_def one_minus_ratio
proof (rule round_score_by_integers)
  let ?r = "\<lambda>i. real (clearance i) / 100"
  have "(?r a powr (70/100)) ^ 10 = ?r a ^ 7" "(?r b powr (30/100)) ^ 10 = ?r b ^ 3"
    by (rule powr_as_power; simp)+
  then have "(?r a powr (70/100) * ?r b powr (30/100)) ^ 10 = ?r a ^ 7 * ?r b ^ 3"
    by (simp only: power_mult_distrib)
  then show "(?r a powr (70/100) * ?r b powr (30/100)) ^ 10
      = real (clearance a ^ 7 * clearance b ^ 3) / 100 ^ 10"
    by (simp add: power_divide)
qed simp_all

lemma score_by_integers_range: "0 \<le> score_by_integers n N" "score_by_integers n N \<le> 100"
proof -
  have "length (filter (\<lambda>k. 2 ^ n * N \<le> (201 - 2 * k) ^ n) [1..<101]) \<le> length [1..<101]"
    by (rule length_filter_le)
  then show "0 \<le> score_by_integers n N" "score_by_integers n N \<le> 100"
    by (simp_all add: score_by_integers_def)
qed

lemma score_by_integers_antimono: "N \<le> M \<Longrightarrow> score_by_integers n M \<le> score_by_integers n N"
proof -
  assume le: "N \<le> M"
  have "length (filter P xs) \<le> length (filter Q xs)" if "\<And>x. P x \<Longrightarrow> Q x" for P Q and xs :: "nat list"
    using that by (induction xs) (auto simp: le_SucI)
  then show ?thesis
    unfolding score_by_integers_def using le by (simp add: order.trans [OF mult_le_mono2])
qed

lemma necessity_mono: "a \<le> a' \<Longrightarrow> b \<le> b' \<Longrightarrow> necessity_by_integers a b \<le> necessity_by_integers a' b'"
  unfolding necessity_by_integers_def
  by (intro score_by_integers_antimono mult_le_mono power_mono clearance_antimono) auto

lemma risk_mono:
  "a \<le> a' \<Longrightarrow> b \<le> b' \<Longrightarrow> c \<le> c' \<Longrightarrow> d \<le> d' \<Longrightarrow> risk_by_integers a b c d \<le> risk_by_integers a' b' c' d'"
  unfolding risk_by_integers_def
  by (intro score_by_integers_antimono mult_le_mono power_mono clearance_antimono) auto

lemma governance_score_ratio_eq [simp]:
  "governance_score_ratio v = Some r \<longleftrightarrow> (\<exists>i. as_int v = Some i \<and> r = clamp01 (of_int i / 100))"
  "governance_score_ratio v = None \<longleftrightarrow> as_int v = None"
  by (auto simp: governance_score_ratio_def)

lemma expected_risk_by_integers:
  "expected_governance_policy_risk_score p =
    (case (as_int (get p ''privilege_gain_score''), as_int (get p ''scope_expansion_score''),
           as_int (get p ''masking_relaxation_score''), as_int (get p ''impact_radius_upper_score'')) of
       (Some a, Some b, Some c, Some d) \<Rightarrow> Some (risk_by_integers a b c d) | _ \<Rightarrow> None)"
  unfolding expected_governance_policy_risk_score_def governance_score_ratio_def Let_def
  by (cases "as_int (get p ''privilege_gain_score'')"; cases "as_int (get p ''scope_expansion_score'')";
      cases "as_int (get p ''masking_relaxation_score'')"; cases "as_int (get p ''impact_radius_upper_score'')";
      simp only: option.map prod.case option.case risk_equation)

lemma expected_necessity_by_integers:
  "expected_governance_approval_necessity_score p =
    (case (as_int (get p ''policy_risk_score''), as_int (get p ''impact_radius_upper_score'')) of
       (Some r, Some d) \<Rightarrow> Some (necessity_by_integers r d) | _ \<Rightarrow> None)"
  unfolding expected_governance_approval_necessity_score_def governance_score_ratio_def Let_def
  by (cases "as_int (get p ''policy_risk_score'')"; cases "as_int (get p ''impact_radius_upper_score'')";
      simp only: option.map prod.case option.case necessity_equation)

lemma score_by_integers_card:
  "score_by_integers n N = int (card {k \<in> {1..100}. 2 ^ n * N \<le> (201 - 2 * k) ^ n})"
proof -
  have "{k \<in> {1..100}. 2 ^ n * N \<le> (201 - 2 * k) ^ n}
      = set (filter (\<lambda>k. 2 ^ n * N \<le> (201 - 2 * k) ^ n) [1..<101])" by auto
  then show ?thesis by (simp only: score_by_integers_def distinct_card distinct_filter distinct_upt)
qed

lemma no_rounding_tie:
  assumes "0 < n" "k \<le> 100"
  shows "2 ^ n * N \<noteq> (201 - 2 * k :: nat) ^ n"
proof
  assume eq: "2 ^ n * N = (201 - 2 * k) ^ n"
  have "odd (201 - 2 * k)" using assms(2) by presburger
  then have "odd ((201 - 2 * k) ^ n)" by simp
  moreover have "even (2 ^ n * N)" using assms(1) by simp
  ultimately show False by (simp only: eq)
qed

lemma exact_scores:
  assumes "as_int (get p ''privilege_gain_score'') = Some a" "as_int (get p ''scope_expansion_score'') = Some b"
    and "as_int (get p ''masking_relaxation_score'') = Some c"
    and "as_int (get p ''impact_radius_upper_score'') = Some d" "as_int (get p ''policy_risk_score'') = Some r"
  shows "expected_governance_policy_risk_score p = Some (int (card {k \<in> {1..100}.
      2 ^ 20 * (clearance a ^ 8 * clearance b ^ 5 * clearance c ^ 4 * clearance d ^ 3) \<le> (201 - 2 * k) ^ 20}))"
    and "expected_governance_approval_necessity_score p = Some (int (card {k \<in> {1..100}.
      2 ^ 10 * (clearance r ^ 7 * clearance d ^ 3) \<le> (201 - 2 * k) ^ 10}))"
    and "\<And>N k. k \<le> 100 \<Longrightarrow> 2 ^ 20 * N \<noteq> (201 - 2 * k :: nat) ^ 20 \<and> 2 ^ 10 * N \<noteq> (201 - 2 * k :: nat) ^ 10"
proof -
  show "expected_governance_policy_risk_score p = Some (int (card {k \<in> {1..100}.
      2 ^ 20 * (clearance a ^ 8 * clearance b ^ 5 * clearance c ^ 4 * clearance d ^ 3) \<le> (201 - 2 * k) ^ 20}))"
    using assms by (simp only: expected_risk_by_integers prod.case option.case risk_by_integers_def score_by_integers_card)
  show "expected_governance_approval_necessity_score p = Some (int (card {k \<in> {1..100}.
      2 ^ 10 * (clearance r ^ 7 * clearance d ^ 3) \<le> (201 - 2 * k) ^ 10}))"
    using assms by (simp only: expected_necessity_by_integers prod.case option.case necessity_by_integers_def score_by_integers_card)
  show "2 ^ 20 * N \<noteq> (201 - 2 * k :: nat) ^ 20 \<and> 2 ^ 10 * N \<noteq> (201 - 2 * k :: nat) ^ 10" if "k \<le> 100" for N k
    using no_rounding_tie [of 20 k N] no_rounding_tie [of 10 k N] that by simp
qed

text \<open>C13: the governance scores are computed exactly by integer arithmetic. With integer inputs the policy risk is
  the number of \<open>k\<close> from 1 to 100 with \<open>2^20 A^8 B^5 C^4 D^3 \<le> (201 - 2k)^20\<close>, where the letters are the
  clearances of the four scores, and the approval necessity is the number of \<open>k\<close> with
  \<open>2^10 R^7 D^3 \<le> (201 - 2k)^10\<close>. The two sides of a comparison are never equal, so no raw score lies on a
  rounding boundary.\<close>

theorem governance_scores_by_integers:
  assumes "as_int (get p ''privilege_gain_score'') = Some a" "as_int (get p ''scope_expansion_score'') = Some b"
    and "as_int (get p ''masking_relaxation_score'') = Some c"
    and "as_int (get p ''impact_radius_upper_score'') = Some d" "as_int (get p ''policy_risk_score'') = Some r"
  shows "expected_governance_policy_risk_score p = Some (int (card {k \<in> {1..100}.
      2 ^ 20 * (clearance a ^ 8 * clearance b ^ 5 * clearance c ^ 4 * clearance d ^ 3) \<le> (201 - 2 * k) ^ 20})) \<and>
    expected_governance_approval_necessity_score p = Some (int (card {k \<in> {1..100}.
      2 ^ 10 * (clearance r ^ 7 * clearance d ^ 3) \<le> (201 - 2 * k) ^ 10})) \<and>
    (\<forall>N k. k \<le> 100 \<longrightarrow> 2 ^ 20 * N \<noteq> (201 - 2 * k :: nat) ^ 20 \<and> 2 ^ 10 * N \<noteq> (201 - 2 * k :: nat) ^ 10)"
  by (intro conjI allI impI exact_scores [OF assms])

definition sample_scores :: "int \<Rightarrow> int \<Rightarrow> int \<Rightarrow> int \<Rightarrow> int \<Rightarrow> obj" where
  "sample_scores privilege scope masking tail risk =
    [(''privilege_gain_score'', JInt privilege), (''scope_expansion_score'', JInt scope),
     (''masking_relaxation_score'', JInt masking), (''impact_radius_upper_score'', JInt tail),
     (''policy_risk_score'', JInt risk)]"

theorem governance_scores_by_integers_witness:
  "expected_governance_policy_risk_score (sample_scores 40 20 0 30 27) = Some 27 \<and>
   expected_governance_approval_necessity_score (sample_scores 40 20 0 30 27) = Some 28"
proof -
  let ?p = "sample_scores 40 20 0 30 27"
  have gets: "as_int (get ?p ''privilege_gain_score'') = Some 40" "as_int (get ?p ''scope_expansion_score'') = Some 20"
    "as_int (get ?p ''masking_relaxation_score'') = Some 0" "as_int (get ?p ''impact_radius_upper_score'') = Some 30"
    "as_int (get ?p ''policy_risk_score'') = Some 27"
    by (simp_all add: sample_scores_def)
  have "risk_by_integers 40 20 0 30 = 27" "necessity_by_integers 27 30 = 28"
    by code_simp+
  then show ?thesis
    using governance_scores_by_integers [OF gets, THEN conjunct1]
      governance_scores_by_integers [OF gets, THEN conjunct2, THEN conjunct1]
    unfolding risk_by_integers_def necessity_by_integers_def score_by_integers_card by simp
qed

end
