(* ===== verification/Governance_Hazard.thy ===== *)
theory Governance_Hazard
  imports Governance_Score Scope_Sequence Gate_Semantics
begin

text \<open>
  The governance mutation hazard contract of \<open>Algorithm/scripts/validate_contracts.py\<close>: the posture the
  code expects of a mutation (count classes, bounded safety, approval requirement, driver, trigger, limiter
  and blocker codes, commit authority), the hash of the contract and its validator. The keyword arguments of
  the validators are a record; an expectation that is \<open>None\<close> is \<open>JNull\<close>. \<open>stable_json_hash\<close>
  (SHA-256 of the sorted JSON text) is the parameter \<open>H\<close>.
\<close>

section \<open>Python operations on computed values\<close>

text \<open>\<open>bool(v)\<close>, \<open>v in {0, 1}\<close>, \<open>list(v or [])\<close>, and whether \<open>sorted\<close> can compare the items.\<close>

definition truthy :: "json \<Rightarrow> bool" where
  "truthy v = (case v of
     JNull \<Rightarrow> False | JBool b \<Rightarrow> b | JInt i \<Rightarrow> i \<noteq> 0
   | JFloat f \<Rightarrow> f \<noteq> Finite 0 \<and> f \<noteq> Neg_Zero
   | JStr s \<Rightarrow> s \<noteq> [] | JList xs \<Rightarrow> xs \<noteq> [] | JObj d \<Rightarrow> d \<noteq> [])"

lemma truthy_simps [simp]: "\<not> truthy JNull" "truthy (JBool b) = b" "truthy (JInt i) \<longleftrightarrow> i \<noteq> 0"
  "truthy (JStr s) \<longleftrightarrow> s \<noteq> []" "truthy (JList xs) \<longleftrightarrow> xs \<noteq> []" "truthy (JObj d) \<longleftrightarrow> d \<noteq> []"
  by (simp_all add: truthy_def)

definition in_zero_one :: "json \<Rightarrow> py_exn + bool" where
  "in_zero_one v = (if hashable v then Inr (py_eq v (JInt 0) \<or> py_eq v (JInt 1)) else Inl TypeError)"

definition list_or_empty :: "json \<Rightarrow> py_exn + json list" where
  "list_or_empty v =
    (if \<not> truthy v then Inr []
     else case v of JList xs \<Rightarrow> Inr xs | JStr s \<Rightarrow> Inr (map (\<lambda>c. JStr [c]) s)
          | JObj d \<Rightarrow> Inr (map (JStr \<circ> fst) d) | _ \<Rightarrow> Inl TypeError)"

definition is_number :: "json \<Rightarrow> bool" where
  "is_number v = (case v of JBool b \<Rightarrow> True | JInt i \<Rightarrow> True | JFloat f \<Rightarrow> True | _ \<Rightarrow> False)"

definition comparable :: "json list \<Rightarrow> bool" where
  "comparable vs \<longleftrightarrow> list_all is_str vs \<or> list_all is_number vs \<or> list_all (\<lambda>v. v = JNull) vs"

definition is_non_negative_int :: "json \<Rightarrow> bool" where
  "is_non_negative_int v = (case v of JInt i \<Rightarrow> 0 \<le> i | _ \<Rightarrow> False)"

text \<open>\<open>any(value not in order_map for value in values)\<close> stops at the first unknown value.\<close>

fun any_unknown :: "string list \<Rightarrow> json list \<Rightarrow> py_exn + bool" where
  "any_unknown order [] = Inr False"
| "any_unknown order (v # vs) = orE (notE (in_strs v order)) (any_unknown order vs)"

definition validate_ordered_enum_sequence :: "json \<Rightarrow> string \<Rightarrow> string list \<Rightarrow> string list verdict" where
  "validate_ordered_enum_sequence values loc order =
    (case values of
       JList vs \<Rightarrow> if vs = [] then Inr [] else bindE (any_unknown order vs) (\<lambda>unknown.
         if unknown then Inr []
         else (let expected = sort_key (position order) (strings_of vs)
               in report_if (strings_of vs \<noteq> expected) (custom loc expected)))
     | _ \<Rightarrow> Inr [])"

section \<open>The expected posture\<close>

definition GOVERNANCE_MUTATION_RISK_DRIVER_CODES :: "string list" where
  "GOVERNANCE_MUTATION_RISK_DRIVER_CODES =
    [''PRIVILEGE_GAIN'', ''SCOPE_EXPANSION'', ''MASKING_RELAXATION'', ''BROAD_BLAST_RADIUS'']"

definition GOVERNANCE_MUTATION_APPROVAL_TRIGGER_CODES :: "string list" where
  "GOVERNANCE_MUTATION_APPROVAL_TRIGGER_CODES =
    [''SINGLE_APPROVER_REQUIRED'', ''DUAL_APPROVER_REQUIRED'', ''SECURITY_REVIEW_REQUIRED'',
     ''CHANGE_ADVISORY_QUORUM_REQUIRED'']"

definition GOVERNANCE_MUTATION_CONFIDENCE_LIMITER_CODES :: "string list" where
  "GOVERNANCE_MUTATION_CONFIDENCE_LIMITER_CODES = [''LOW_SIMULATION_CONFIDENCE'', ''LOW_PREDICTABILITY'']"

definition GOVERNANCE_MUTATION_BOUNDED_SAFETY_BLOCKER_CODES :: "string list" where
  "GOVERNANCE_MUTATION_BOUNDED_SAFETY_BLOCKER_CODES =
    [''PRIVILEGE_GAIN_PRESENT'', ''SCOPE_EXPANSION_PRESENT'', ''MASKING_RELAXATION_PRESENT'',
     ''IMPACT_RADIUS_TOO_LARGE'', ''POLICY_RISK_TOO_HIGH'', ''CONFIDENCE_TOO_LOW'', ''PREDICTABILITY_TOO_LOW'']"

definition expected_governance_impacted_count_class :: "json \<Rightarrow> string option" where
  "expected_governance_impacted_count_class count_value =
    (case as_int count_value of
       None \<Rightarrow> None
     | Some n \<Rightarrow>
         if n < 0 then None
         else if n = 0 then Some ''ZERO''
         else if n = 1 then Some ''ONE''
         else if n \<le> 5 then Some ''SMALL_BATCH''
         else if n \<le> 20 then Some ''MEDIUM_BATCH''
         else if n \<le> 100 then Some ''LARGE_BATCH''
         else Some ''ESTATE_WIDE'')"

definition expected_governance_bounded_safe_mutation :: "obj \<Rightarrow> int option" where
  "expected_governance_bounded_safe_mutation payload =
    (if \<not> list_all (\<lambda>f. is_int (get payload f))
         [''privilege_gain_score'', ''scope_expansion_score'', ''masking_relaxation_score'',
          ''impact_radius_upper_score'', ''policy_risk_score'', ''simulation_confidence_score'',
          ''predictability_score'']
     then None
     else Some (of_bool (
       int_at payload ''privilege_gain_score'' = 0 \<and>
       int_at payload ''scope_expansion_score'' = 0 \<and>
       int_at payload ''masking_relaxation_score'' = 0 \<and>
       int_at payload ''impact_radius_upper_score'' < 5 \<and>
       int_at payload ''policy_risk_score'' < 15 \<and>
       90 \<le> int_at payload ''simulation_confidence_score'' \<and>
       85 \<le> int_at payload ''predictability_score'')))"

definition expected_governance_approval_requirement :: "obj \<Rightarrow> string option" where
  "expected_governance_approval_requirement payload =
    (let approval_necessity_score = get payload ''approval_necessity_score'';
         simulation_confidence_score = get payload ''simulation_confidence_score'';
         bounded_safe_mutation = get payload ''bounded_safe_mutation''
     in if \<not> list_all is_int [approval_necessity_score, simulation_confidence_score, bounded_safe_mutation]
        then None
        else if py_eq bounded_safe_mutation (JInt 1) then Some ''NOT_REQUIRED''
        else if int_and approval_necessity_score (\<lambda>n. 80 \<le> n) then Some ''CHANGE_ADVISORY_QUORUM''
        else if int_and approval_necessity_score (\<lambda>n. 55 \<le> n) then Some ''SECURITY_REVIEW''
        else if int_and approval_necessity_score (\<lambda>n. 30 \<le> n) then Some ''DUAL_APPROVER''
        else if int_and approval_necessity_score (\<lambda>n. 10 \<le> n) \<or>
                int_and simulation_confidence_score (\<lambda>n. n < 80) then Some ''SINGLE_APPROVER''
        else Some ''SINGLE_APPROVER'')"

definition expected_governance_mutation_risk_driver_codes :: "obj \<Rightarrow> string list" where
  "expected_governance_mutation_risk_driver_codes payload =
    (if int_and (get payload ''privilege_gain_score'') (\<lambda>n. n > 0) then [''PRIVILEGE_GAIN''] else []) @
    (if int_and (get payload ''scope_expansion_score'') (\<lambda>n. n > 0) then [''SCOPE_EXPANSION''] else []) @
    (if int_and (get payload ''masking_relaxation_score'') (\<lambda>n. n > 0) then [''MASKING_RELAXATION''] else []) @
    (if int_and (get payload ''impact_radius_upper_score'') (\<lambda>n. n \<ge> 25) then [''BROAD_BLAST_RADIUS''] else [])"

definition approval_requirement_codes :: "(string \<times> string) list" where
  "approval_requirement_codes =
    [(''SINGLE_APPROVER'', ''SINGLE_APPROVER_REQUIRED''), (''DUAL_APPROVER'', ''DUAL_APPROVER_REQUIRED''),
     (''SECURITY_REVIEW'', ''SECURITY_REVIEW_REQUIRED''),
     (''CHANGE_ADVISORY_QUORUM'', ''CHANGE_ADVISORY_QUORUM_REQUIRED'')]"

definition expected_governance_mutation_approval_trigger_codes :: "obj \<Rightarrow> py_exn + string list" where
  "expected_governance_mutation_approval_trigger_codes payload =
    bindE (table_get approval_requirement_codes (get payload ''approval_requirement''))
      (\<lambda>requirement_code. Inr (case requirement_code of None \<Rightarrow> [] | Some c \<Rightarrow> [c]))"

definition expected_governance_mutation_confidence_limiter_codes :: "json \<Rightarrow> json \<Rightarrow> string list" where
  "expected_governance_mutation_confidence_limiter_codes simulation_confidence_score predictability_score =
    (if int_and simulation_confidence_score (\<lambda>n. n < 80) then [''LOW_SIMULATION_CONFIDENCE''] else []) @
    (if int_and predictability_score (\<lambda>n. n < 75) then [''LOW_PREDICTABILITY''] else [])"

definition expected_governance_mutation_bounded_safety_blocker_codes :: "obj \<Rightarrow> string list" where
  "expected_governance_mutation_bounded_safety_blocker_codes payload =
    (if int_and (get payload ''privilege_gain_score'') (\<lambda>n. n > 0) then [''PRIVILEGE_GAIN_PRESENT''] else []) @
    (if int_and (get payload ''scope_expansion_score'') (\<lambda>n. n > 0) then [''SCOPE_EXPANSION_PRESENT''] else []) @
    (if int_and (get payload ''masking_relaxation_score'') (\<lambda>n. n > 0) then [''MASKING_RELAXATION_PRESENT''] else []) @
    (if int_and (get payload ''impact_radius_upper_score'') (\<lambda>n. n \<ge> 5) then [''IMPACT_RADIUS_TOO_LARGE''] else []) @
    (if int_and (get payload ''policy_risk_score'') (\<lambda>n. n \<ge> 15) then [''POLICY_RISK_TOO_HIGH''] else []) @
    (if int_and (get payload ''simulation_confidence_score'') (\<lambda>n. n < 90) then [''CONFIDENCE_TOO_LOW''] else []) @
    (if int_and (get payload ''predictability_score'') (\<lambda>n. n < 85) then [''PREDICTABILITY_TOO_LOW''] else [])"

definition expected_governance_commit_authority_posture :: "json \<Rightarrow> json \<Rightarrow> json \<Rightarrow> string option" where
  "expected_governance_commit_authority_posture simulation_confidence_score predictability_score
     bounded_safe_mutation =
    (if \<not> is_int simulation_confidence_score \<or> \<not> is_int predictability_score then None
     else if int_and simulation_confidence_score (\<lambda>n. n < 80) \<or> int_and predictability_score (\<lambda>n. n < 75)
       then Some ''PREVIEW_ONLY''
     else if py_eq bounded_safe_mutation (JInt 1) then Some ''BOUNDED_SAFE''
     else if py_eq bounded_safe_mutation (JInt 0) then Some ''APPROVAL_GATED''
     else None)"

section \<open>The hash of the contract\<close>

definition hazard_hash_fields :: "string list" where
  "hazard_hash_fields =
    [''contract_version'', ''policy_snapshot_hash'', ''access_binding_hash'', ''dependency_topology_hash'',
     ''simulation_basis_hash'', ''count_class_profile_code'', ''commit_authority_posture'',
     ''impact_radius_lower_score'', ''impact_radius_upper_score'',
     ''impacted_principal_count'', ''impacted_principal_count_class'',
     ''impacted_client_count'', ''impacted_client_count_class'',
     ''impacted_authority_operation_count'', ''impacted_authority_operation_count_class'',
     ''impacted_workflow_count'', ''impacted_workflow_count_class'',
     ''impacted_limitation_count'', ''impacted_limitation_count_class'',
     ''privilege_gain_score'', ''scope_expansion_score'', ''masking_relaxation_score'',
     ''policy_risk_score'', ''approval_necessity_score'', ''approval_requirement'',
     ''bounded_safe_mutation'', ''required_approvals'', ''simulation_confidence_score'',
     ''predictability_score'', ''risk_driver_codes'', ''approval_trigger_codes'',
     ''confidence_limiter_codes'', ''bounded_safety_blocker_codes'', ''reason_codes'']"

definition hazard_string_fields :: "string list" where
  "hazard_string_fields =
    [''contract_version'', ''policy_snapshot_hash'', ''access_binding_hash'', ''dependency_topology_hash'',
     ''simulation_basis_hash'', ''count_class_profile_code'', ''commit_authority_posture'',
     ''impacted_principal_count_class'', ''impacted_client_count_class'',
     ''impacted_authority_operation_count_class'', ''impacted_workflow_count_class'',
     ''impacted_limitation_count_class'', ''approval_requirement'']"

definition hazard_int_fields :: "string list" where
  "hazard_int_fields =
    [''impact_radius_lower_score'', ''impact_radius_upper_score'', ''impacted_principal_count'',
     ''impacted_client_count'', ''impacted_authority_operation_count'', ''impacted_workflow_count'',
     ''impacted_limitation_count'', ''privilege_gain_score'', ''scope_expansion_score'',
     ''masking_relaxation_score'', ''policy_risk_score'', ''approval_necessity_score'',
     ''bounded_safe_mutation'', ''simulation_confidence_score'', ''predictability_score'']"

definition hazard_list_fields :: "string list" where
  "hazard_list_fields =
    [''required_approvals'', ''risk_driver_codes'', ''approval_trigger_codes'', ''confidence_limiter_codes'',
     ''bounded_safety_blocker_codes'', ''reason_codes'']"

definition nonempty_str_list :: "json \<Rightarrow> bool" where
  "nonempty_str_list v = (case v of JList vs \<Rightarrow> list_all nonempty_str vs | _ \<Rightarrow> False)"

definition derive_governance_mutation_hazard_contract_hash :: "(json \<Rightarrow> string) \<Rightarrow> obj \<Rightarrow> string option" where
  "derive_governance_mutation_hazard_contract_hash H contract =
    (if list_all (\<lambda>f. nonempty_str (get contract f)) hazard_string_fields \<and>
        list_all (\<lambda>f. is_int (get contract f)) hazard_int_fields \<and>
        list_all (\<lambda>f. nonempty_str_list (get contract f)) hazard_list_fields
     then Some (H (JObj (map (\<lambda>f. (f, get contract f)) hazard_hash_fields))) else None)"

section \<open>The validator\<close>

text \<open>The keyword arguments \<open>expected_...\<close> of the two governance validators.\<close>

record governance_expectations =
  expected_policy_snapshot_hash :: json
  expected_access_binding_hash :: json
  expected_dependency_topology_hash :: json
  expected_simulation_basis_hash :: json
  expected_approval_requirement :: json
  expected_bounded_safe_mutation :: json
  expected_required_approvals :: json
  expected_simulation_confidence_score :: json
  expected_predictability_score :: json
  expected_hazard_contract_hash :: json
  expected_commit_authority_posture :: json

definition no_expectations :: governance_expectations where
  "no_expectations = \<lparr>expected_policy_snapshot_hash = JNull, expected_access_binding_hash = JNull,
     expected_dependency_topology_hash = JNull, expected_simulation_basis_hash = JNull,
     expected_approval_requirement = JNull, expected_bounded_safe_mutation = JNull,
     expected_required_approvals = JNull, expected_simulation_confidence_score = JNull,
     expected_predictability_score = JNull, expected_hazard_contract_hash = JNull,
     expected_commit_authority_posture = JNull\<rparr>"

datatype hazard_issue =
    Hazard_Missing | Hazard_Not_Object | Hazard_Version | Hazard_Count_Profile | Hazard_String string
  | Hazard_Enum_Order string "string list" | Hazard_Sequence string scope_issue | Hazard_Score string
  | Hazard_Count string | Hazard_Binary string | Hazard_Radius | Hazard_Count_Class string string
  | Hazard_Risk_Drivers "string list" | Hazard_Policy_Risk | Hazard_Approval_Necessity | Hazard_Bounded_Safe
  | Hazard_Approval_Requirement | Hazard_Approval_Triggers "string list" | Hazard_Limiters "string list"
  | Hazard_Blockers "string list" | Hazard_Posture_Vocabulary | Hazard_Posture string
  | Hazard_Safe_Requirement | Hazard_Safe_Approvals | Hazard_Approvals_Missing
  | Hazard_Reasons_Missing "string list" | Hazard_Hash | Hazard_Mirror string | Hazard_Approvals_Mirror

text \<open>A comparison \<open>contract.get(field) != codes\<close> with a computed list of strings.\<close>

definition report_codes :: "obj \<Rightarrow> string \<Rightarrow> string list \<Rightarrow> 'i \<Rightarrow> py_exn + 'i list" where
  "report_codes c f codes i = report_if (\<not> py_eq (get c f) (JList (map JStr codes))) i"

definition governance_score_fields :: "string list" where
  "governance_score_fields =
    [''impact_radius_lower_score'', ''impact_radius_upper_score'', ''privilege_gain_score'',
     ''scope_expansion_score'', ''masking_relaxation_score'', ''policy_risk_score'',
     ''approval_necessity_score'', ''simulation_confidence_score'', ''predictability_score'']"

definition governance_count_fields :: "(string \<times> string) list" where
  "governance_count_fields =
    [(''impacted_principal_count'', ''impacted_principal_count_class''),
     (''impacted_client_count'', ''impacted_client_count_class''),
     (''impacted_authority_operation_count'', ''impacted_authority_operation_count_class''),
     (''impacted_workflow_count'', ''impacted_workflow_count_class''),
     (''impacted_limitation_count'', ''impacted_limitation_count_class'')]"

definition int_in_range :: "json \<Rightarrow> bool" where
  "int_in_range v = int_and v (\<lambda>n. 0 \<le> n \<and> n \<le> 100)"

text \<open>The checks on single fields, up to the binary flag.\<close>

definition hazard_shape_issues :: "obj \<Rightarrow> string \<Rightarrow> hazard_issue verdict" where
  "hazard_shape_issues c loc = run_checks
    [report_if (get c ''contract_version'' \<noteq> JStr ''GOVERNANCE_MUTATION_HAZARD_CONTRACT_V1'')
       (custom loc Hazard_Version),
     report_if (get c ''count_class_profile_code'' \<noteq> JStr ''GOVERNANCE_IMPACT_COUNT_CLASS_V1'')
       (custom loc Hazard_Count_Profile),
     run_checks (map (\<lambda>f. report_if (\<not> nonempty_str (get c f)) (custom loc (Hazard_String f)))
       [''hazard_contract_hash'', ''policy_snapshot_hash'', ''access_binding_hash'',
        ''dependency_topology_hash'', ''simulation_basis_hash'']),
     run_checks (map (\<lambda>(f, order). lift_issues (Hazard_Enum_Order f)
         (validate_ordered_enum_sequence (get c f) loc order))
       [(''risk_driver_codes'', GOVERNANCE_MUTATION_RISK_DRIVER_CODES),
        (''approval_trigger_codes'', GOVERNANCE_MUTATION_APPROVAL_TRIGGER_CODES),
        (''confidence_limiter_codes'', GOVERNANCE_MUTATION_CONFIDENCE_LIMITER_CODES),
        (''bounded_safety_blocker_codes'', GOVERNANCE_MUTATION_BOUNDED_SAFETY_BLOCKER_CODES)]),
     run_checks (map (\<lambda>f. lift_issues (Hazard_Sequence f)
         (validate_sorted_string_sequence (get c f) loc True))
       [''required_approvals'', ''reason_codes'']),
     run_checks (map (\<lambda>f. report_if (\<not> int_in_range (get c f)) (custom loc (Hazard_Score f)))
       governance_score_fields),
     run_checks (map (\<lambda>(f, _). report_if (\<not> is_non_negative_int (get c f)) (custom loc (Hazard_Count f)))
       governance_count_fields),
     report_ifE (notE (in_zero_one (get c ''bounded_safe_mutation'')))
       (custom loc (Hazard_Binary ''bounded_safe_mutation''))]"

text \<open>The comparisons with the derived values, up to the blocker codes.\<close>

definition uncertain_radius :: "(int \<Rightarrow> int \<Rightarrow> bool) \<Rightarrow> obj \<Rightarrow> bool" where
  "uncertain_radius R c \<longleftrightarrow>
     (case (as_int (get c ''impact_radius_lower_score''), as_int (get c ''impact_radius_upper_score'')) of
        (Some l, Some u) \<Rightarrow> R l u | _ \<Rightarrow> False)"

definition hazard_derivation_issues :: "obj \<Rightarrow> string \<Rightarrow> hazard_issue verdict" where
  "hazard_derivation_issues c loc = run_checks
    [report_if (uncertain_radius (\<lambda>lower upper. upper < lower) c) (custom loc Hazard_Radius),
     run_checks (map (\<lambda>(count_field, class_field).
         (let expected_class = expected_governance_impacted_count_class (get c count_field)
          in report_differs (get c class_field) (map_option JStr expected_class)
               (custom loc (Hazard_Count_Class class_field (the expected_class)))))
       governance_count_fields),
     (let codes = expected_governance_mutation_risk_driver_codes c
      in report_codes c ''risk_driver_codes'' codes (custom loc (Hazard_Risk_Drivers codes))),
     report_differs (get c ''policy_risk_score'')
       (map_option JInt (expected_governance_policy_risk_score c)) (custom loc Hazard_Policy_Risk),
     report_differs (get c ''approval_necessity_score'')
       (map_option JInt (expected_governance_approval_necessity_score c)) (custom loc Hazard_Approval_Necessity),
     report_differs (get c ''bounded_safe_mutation'')
       (map_option JInt (expected_governance_bounded_safe_mutation c)) (custom loc Hazard_Bounded_Safe),
     report_differs (get c ''approval_requirement'')
       (map_option JStr (expected_governance_approval_requirement c)) (custom loc Hazard_Approval_Requirement),
     bindE (expected_governance_mutation_approval_trigger_codes c) (\<lambda>codes.
       report_codes c ''approval_trigger_codes'' codes (custom loc (Hazard_Approval_Triggers codes))),
     (let codes = expected_governance_mutation_confidence_limiter_codes
            (get c ''simulation_confidence_score'') (get c ''predictability_score'')
      in report_codes c ''confidence_limiter_codes'' codes (custom loc (Hazard_Limiters codes))),
     (let codes = expected_governance_mutation_bounded_safety_blocker_codes c
      in report_codes c ''bounded_safety_blocker_codes'' codes (custom loc (Hazard_Blockers codes)))]"

text \<open>The commit posture, the approvals, the reason codes and the hash.\<close>

definition commit_postures :: "string list" where
  "commit_postures = [''PREVIEW_ONLY'', ''APPROVAL_GATED'', ''BOUNDED_SAFE'']"

definition approvals_issues :: "'m \<Rightarrow> 'm \<Rightarrow> 'm \<Rightarrow> obj \<Rightarrow> string \<Rightarrow> 'm verdict" where
  "approvals_issues requirement_issue clear_issue missing_issue c loc =
    (if py_eq (get c ''bounded_safe_mutation'') (JInt 1)
     then run_checks
       [report_if (get c ''approval_requirement'' \<noteq> JStr ''NOT_REQUIRED'') (custom loc requirement_issue),
        report_if (truthy (get c ''required_approvals'')) (custom loc clear_issue)]
     else report_if (py_eq (get c ''bounded_safe_mutation'') (JInt 0) \<and> \<not> truthy (get c ''required_approvals''))
       (custom loc missing_issue))"

definition expected_reason_codes :: "obj \<Rightarrow> py_exn + json list" where
  "expected_reason_codes c =
    bindE (mapE (\<lambda>f. list_or_empty (get c f))
        [''risk_driver_codes'', ''approval_trigger_codes'', ''confidence_limiter_codes'',
         ''bounded_safety_blocker_codes'']) (\<lambda>parts.
      let codes = concat parts @
            (if py_eq (get c ''bounded_safe_mutation'') (JInt 1) then [JStr ''BOUNDED_SAFE_MUTATION''] else []) @
            (if uncertain_radius (\<lambda>lower upper. lower < upper) c then [JStr ''UNCERTAIN_BLAST_RADIUS''] else [])
      in if list_all hashable codes \<and> comparable codes then Inr codes else Inl TypeError)"

definition hazard_posture_issues :: "(json \<Rightarrow> string) \<Rightarrow> obj \<Rightarrow> string \<Rightarrow> hazard_issue verdict" where
  "hazard_posture_issues H c loc = run_checks
    [report_ifE (notE (in_strs (get c ''commit_authority_posture'') commit_postures))
       (custom loc Hazard_Posture_Vocabulary),
     (let posture = expected_governance_commit_authority_posture (get c ''simulation_confidence_score'')
            (get c ''predictability_score'') (get c ''bounded_safe_mutation'')
      in report_differs (get c ''commit_authority_posture'') (map_option JStr posture)
           (custom loc (Hazard_Posture (the posture)))),
     approvals_issues Hazard_Safe_Requirement Hazard_Safe_Approvals Hazard_Approvals_Missing c loc,
     (case get c ''reason_codes'' of
        JList reason_codes \<Rightarrow> bindE (expected_reason_codes c) (\<lambda>codes.
          let missing = filter (\<lambda>code. \<not> in_list code reason_codes) codes
          in report_if (missing \<noteq> []) (custom loc (Hazard_Reasons_Missing (sort (remdups (strings_of missing))))))
      | _ \<Rightarrow> Inr []),
     report_differs (get c ''hazard_contract_hash'')
       (map_option JStr (derive_governance_mutation_hazard_contract_hash H c)) (custom loc Hazard_Hash)]"

text \<open>The comparisons with the owner of the contract.\<close>

definition mirror_issues :: "(string \<Rightarrow> 'm) \<Rightarrow> obj \<Rightarrow> string \<Rightarrow> (string \<times> json) list \<Rightarrow> 'm verdict" where
  "mirror_issues issue_of c loc exact_expectations = run_checks (map (\<lambda>(field_name, expected_value).
     report_if (expected_value \<noteq> JNull \<and> \<not> py_eq (get c field_name) expected_value)
       (custom loc (issue_of field_name))) exact_expectations)"

definition hazard_mirror_issues :: "obj \<Rightarrow> string \<Rightarrow> governance_expectations \<Rightarrow> hazard_issue verdict" where
  "hazard_mirror_issues c loc e = run_checks
    [mirror_issues Hazard_Mirror c loc
       [(''policy_snapshot_hash'', expected_policy_snapshot_hash e),
        (''access_binding_hash'', expected_access_binding_hash e),
        (''dependency_topology_hash'', expected_dependency_topology_hash e),
        (''simulation_basis_hash'', expected_simulation_basis_hash e),
        (''approval_requirement'', expected_approval_requirement e),
        (''bounded_safe_mutation'', expected_bounded_safe_mutation e),
        (''simulation_confidence_score'', expected_simulation_confidence_score e),
        (''predictability_score'', expected_predictability_score e),
        (''commit_authority_posture'', expected_commit_authority_posture e)],
     report_if (expected_required_approvals e \<noteq> JNull \<and>
         \<not> py_eq (get c ''required_approvals'') (expected_required_approvals e))
       (custom loc Hazard_Approvals_Mirror)]"

definition hazard_contract_issues ::
  "(json \<Rightarrow> string) \<Rightarrow> obj \<Rightarrow> string \<Rightarrow> governance_expectations \<Rightarrow> hazard_issue verdict" where
  "hazard_contract_issues H c loc e = run_checks
    [hazard_shape_issues c loc, hazard_derivation_issues c loc, hazard_posture_issues H c loc,
     hazard_mirror_issues c loc e]"

text \<open>The result is the list of issues and the dictionary the caller goes on with.\<close>

definition validate_governance_mutation_hazard_contract ::
  "(json \<Rightarrow> string) \<Rightarrow> json \<Rightarrow> string \<Rightarrow> governance_expectations \<Rightarrow> bool \<Rightarrow>
   py_exn + (hazard_issue issue list \<times> obj)" where
  "validate_governance_mutation_hazard_contract H contract loc e require_non_null =
    (case contract of
       JNull \<Rightarrow> Inr (if require_non_null then [custom loc Hazard_Missing] else [], [])
     | JObj c \<Rightarrow> bindE (hazard_contract_issues H c loc e) (\<lambda>issues. Inr (issues, c))
     | _ \<Rightarrow> Inr ([custom loc Hazard_Not_Object], []))"

end
