(* ===== verification/Governance_Basis.thy ===== *)
theory Governance_Basis
  imports Governance_Hazard
begin

text \<open>
  The governance mutation basis contract of \<open>Algorithm/scripts/validate_contracts.py\<close>: what a mutation was
  reviewed on, with the hash of its hazard contract and the posture that follows from it; its hash and its
  validator.
\<close>

definition basis_hash_fields :: "string list" where
  "basis_hash_fields =
    [''contract_version'', ''policy_snapshot_hash'', ''access_binding_hash'', ''dependency_topology_hash'',
     ''simulation_basis_hash'', ''hazard_contract_hash'', ''commit_authority_posture'', ''approval_requirement'',
     ''bounded_safe_mutation'', ''required_approvals'', ''simulation_confidence_score'', ''predictability_score'']"

definition basis_string_fields :: "string list" where
  "basis_string_fields =
    [''contract_version'', ''policy_snapshot_hash'', ''access_binding_hash'', ''dependency_topology_hash'',
     ''simulation_basis_hash'', ''hazard_contract_hash'', ''commit_authority_posture'', ''approval_requirement'']"

definition derive_governance_mutation_basis_contract_hash :: "(json \<Rightarrow> string) \<Rightarrow> obj \<Rightarrow> py_exn + string option" where
  "derive_governance_mutation_basis_contract_hash H contract =
    (if \<not> list_all (\<lambda>f. nonempty_str (get contract f)) basis_string_fields then Inr None
     else bindE (in_zero_one (get contract ''bounded_safe_mutation'')) (\<lambda>binary.
       Inr (if binary \<and> nonempty_str_list (get contract ''required_approvals'') \<and>
               is_int (get contract ''simulation_confidence_score'') \<and> is_int (get contract ''predictability_score'')
            then Some (H (JObj (map (\<lambda>f. (f, get contract f)) basis_hash_fields))) else None)))"

datatype basis_issue =
    Basis_Missing | Basis_Not_Object | Basis_Version | Basis_String string | Basis_Sequence scope_issue
  | Basis_Score string | Basis_Posture_Vocabulary | Basis_Safe_Requirement | Basis_Safe_Approvals
  | Basis_Approvals_Missing | Basis_Posture string | Basis_Hash | Basis_Mirror string | Basis_Approvals_Mirror

definition basis_contract_issues ::
  "(json \<Rightarrow> string) \<Rightarrow> obj \<Rightarrow> string \<Rightarrow> governance_expectations \<Rightarrow> basis_issue verdict" where
  "basis_contract_issues H c loc e = run_checks
    [report_if (get c ''contract_version'' \<noteq> JStr ''GOVERNANCE_MUTATION_BASIS_CONTRACT_V1'')
       (custom loc Basis_Version),
     run_checks (map (\<lambda>f. report_if (\<not> nonempty_str (get c f)) (custom loc (Basis_String f)))
       [''basis_contract_hash'', ''policy_snapshot_hash'', ''access_binding_hash'', ''dependency_topology_hash'',
        ''simulation_basis_hash'', ''hazard_contract_hash'']),
     lift_issues Basis_Sequence (validate_sorted_string_sequence (get c ''required_approvals'') loc True),
     run_checks (map (\<lambda>f. report_if (\<not> int_in_range (get c f)) (custom loc (Basis_Score f)))
       [''simulation_confidence_score'', ''predictability_score'']),
     report_ifE (notE (in_strs (get c ''commit_authority_posture'') commit_postures))
       (custom loc Basis_Posture_Vocabulary),
     approvals_issues Basis_Safe_Requirement Basis_Safe_Approvals Basis_Approvals_Missing c loc,
     (let posture = expected_governance_commit_authority_posture (get c ''simulation_confidence_score'')
            (get c ''predictability_score'') (get c ''bounded_safe_mutation'')
      in report_differs (get c ''commit_authority_posture'') (map_option JStr posture)
           (custom loc (Basis_Posture (the posture)))),
     bindE (derive_governance_mutation_basis_contract_hash H c) (\<lambda>derived.
       report_differs (get c ''basis_contract_hash'') (map_option JStr derived) (custom loc Basis_Hash)),
     mirror_issues Basis_Mirror c loc
       [(''policy_snapshot_hash'', expected_policy_snapshot_hash e),
        (''access_binding_hash'', expected_access_binding_hash e),
        (''dependency_topology_hash'', expected_dependency_topology_hash e),
        (''simulation_basis_hash'', expected_simulation_basis_hash e),
        (''approval_requirement'', expected_approval_requirement e),
        (''bounded_safe_mutation'', expected_bounded_safe_mutation e),
        (''simulation_confidence_score'', expected_simulation_confidence_score e),
        (''predictability_score'', expected_predictability_score e),
        (''hazard_contract_hash'', expected_hazard_contract_hash e),
        (''commit_authority_posture'', expected_commit_authority_posture e)],
     report_if (expected_required_approvals e \<noteq> JNull \<and>
         \<not> py_eq (get c ''required_approvals'') (expected_required_approvals e))
       (custom loc Basis_Approvals_Mirror)]"

definition validate_governance_mutation_basis_contract ::
  "(json \<Rightarrow> string) \<Rightarrow> json \<Rightarrow> string \<Rightarrow> governance_expectations \<Rightarrow> bool \<Rightarrow>
   py_exn + (basis_issue issue list \<times> obj)" where
  "validate_governance_mutation_basis_contract H contract loc e require_non_null =
    (case contract of
       JNull \<Rightarrow> Inr (if require_non_null then [custom loc Basis_Missing] else [], [])
     | JObj c \<Rightarrow> bindE (basis_contract_issues H c loc e) (\<lambda>issues. Inr (issues, c))
     | _ \<Rightarrow> Inr ([custom loc Basis_Not_Object], []))"

end
