(* ===== verification/Governance_Basket.thy ===== *)
theory Governance_Basket
  imports Governance_Basis
begin

text \<open>
  The staged change basket of a governance policy snapshot, as \<open>validate_governance_policy_snapshot\<close> of
  \<open>Algorithm/scripts/validate_contracts.py\<close> checks it: the hazard and basis contract of the active basket,
  those of every staged group, what an atomic basket must agree on and when direct submission is lawful. The
  loop over the groups adds to sets; a set is the list of its members in the order they were added.
\<close>

section \<open>Expectations taken from other payloads\<close>

text \<open>\<open>v if isinstance(v, str) else None\<close> and its variants.\<close>

definition str_or_none :: "json \<Rightarrow> json" where
  "str_or_none v = (if is_str v then v else JNull)"

definition int_or_none :: "json \<Rightarrow> json" where
  "int_or_none v = (if is_int v then v else JNull)"

definition list_or_none :: "json \<Rightarrow> json" where
  "list_or_none v = (case v of JList xs \<Rightarrow> v | _ \<Rightarrow> JNull)"

definition binary_or_none :: "json \<Rightarrow> py_exn + json" where
  "binary_or_none v = bindE (in_zero_one v) (\<lambda>binary. Inr (if binary then v else JNull))"

text \<open>What the basis contract of a hazard must mirror: its identities and scores from the hazard, the posture
  from \<open>owner\<close> (the basket, or the hazard itself).\<close>

definition basis_expectations :: "json \<Rightarrow> obj \<Rightarrow> obj \<Rightarrow> py_exn + governance_expectations" where
  "basis_expectations policy hazard owner =
    bindE (binary_or_none (get owner ''bounded_safe_mutation'')) (\<lambda>flag.
      Inr \<lparr>expected_policy_snapshot_hash = policy,
        expected_access_binding_hash = str_or_none (get hazard ''access_binding_hash''),
        expected_dependency_topology_hash = str_or_none (get hazard ''dependency_topology_hash''),
        expected_simulation_basis_hash = str_or_none (get hazard ''simulation_basis_hash''),
        expected_approval_requirement = str_or_none (get owner ''approval_requirement''),
        expected_bounded_safe_mutation = flag,
        expected_required_approvals = list_or_none (get owner ''required_approvals''),
        expected_simulation_confidence_score = int_or_none (get hazard ''simulation_confidence_score''),
        expected_predictability_score = int_or_none (get hazard ''predictability_score''),
        expected_hazard_contract_hash = str_or_none (get hazard ''hazard_contract_hash''),
        expected_commit_authority_posture = str_or_none (get hazard ''commit_authority_posture'')\<rparr>)"

datatype basket_issue =
    Basket_Sequence scope_issue | Active_Hazard hazard_issue | Active_Basis basis_issue
  | Basket_Not_Empty | Basket_Empty | Group_Hazard hazard_issue | Group_Basis basis_issue
  | Change_Needs_Approval | Duplicate_Changes "string list" | Inactive_Basis | Inactive_Hazard
  | Atomic_Pair_Count | Atomic_Pair | Atomic_Hazard_Count | Atomic_Hazard | Atomic_Basis_Count | Atomic_Basis
  | Atomic_Requirement | Atomic_Approvals | Atomic_Flag
  | Active_Requirement | Active_Flag | Active_Approvals
  | Submission_Atomicity | Submission_Pair | Submission_Hazard | Submission_Basis | Submission_Approval_Paths
  | Submission_Step_Up | Submission_Requirement | Submission_Hazard_Preview | Submission_Basis_Preview

definition wrap :: "('m \<Rightarrow> 'n) \<Rightarrow> 'm issue list \<Rightarrow> 'n issue list" where
  "wrap f = map (\<lambda>i. \<lparr>kind = kind i, location = location i, message = f (message i)\<rparr>)"

section \<open>One staged group\<close>

text \<open>What one pass of the loop adds to each of the sets.\<close>

record staged_group =
  group_pair :: "(string \<times> string) option"
  group_requirement :: "string option"
  group_approvals :: "json list option"
  group_flag :: "int option"
  group_hazard_hash :: "string option"
  group_basis_hash :: "string option"
  group_change_refs :: "string list"

definition str_of :: "json \<Rightarrow> string option" where
  "str_of v = (case v of JStr s \<Rightarrow> Some s | _ \<Rightarrow> None)"

text \<open>The staged changes: those that are dictionaries, and none when the field is not a list.\<close>

definition staged_changes :: "obj \<Rightarrow> obj list" where
  "staged_changes grp =
    (case get grp ''staged_changes'' of
       JList changes \<Rightarrow> concat (map (\<lambda>change. case change of JObj d \<Rightarrow> [d] | _ \<Rightarrow> []) changes)
     | _ \<Rightarrow> [])"

definition change_issues :: "string \<Rightarrow> json \<Rightarrow> obj \<Rightarrow> basket_issue issue list" where
  "change_issues loc approval_requirement change =
    (if truthy (get change ''approval_required'') \<and> approval_requirement = JStr ''NOT_REQUIRED''
     then [custom loc Change_Needs_Approval] else [])"

definition check_group ::
  "(json \<Rightarrow> string) \<Rightarrow> json \<Rightarrow> string \<Rightarrow> obj \<Rightarrow> py_exn + (basket_issue issue list \<times> staged_group)" where
  "check_group H policy loc grp =
    bindE (validate_governance_mutation_hazard_contract H (get grp ''mutation_hazard'') loc
        (no_expectations \<lparr>expected_policy_snapshot_hash := policy\<rparr>) True) (\<lambda>(hazard_issues, hazard).
    bindE (case get hazard ''required_approvals'' of
        JList approvals \<Rightarrow> if list_all hashable approvals then Inr (Some approvals) else Inl TypeError
      | _ \<Rightarrow> Inr None) (\<lambda>approvals.
    bindE (basis_expectations policy hazard hazard) (\<lambda>expectations.
    bindE (validate_governance_mutation_basis_contract H (get grp ''mutation_basis_contract'') loc
        expectations True) (\<lambda>(basis_issues, basis).
    Inr (wrap Group_Hazard hazard_issues @ wrap Group_Basis basis_issues @
           concat (map (change_issues loc (get hazard ''approval_requirement'')) (staged_changes grp)),
      \<lparr>group_pair = (case (get hazard ''simulation_basis_hash'', get hazard ''dependency_topology_hash'') of
           (JStr simulation, JStr topology) \<Rightarrow> Some (simulation, topology) | _ \<Rightarrow> None),
       group_requirement = str_of (get hazard ''approval_requirement''),
       group_approvals = approvals,
       group_flag = as_int (get hazard ''bounded_safe_mutation''),
       group_hazard_hash = str_of (get hazard ''hazard_contract_hash''),
       group_basis_hash = str_of (get basis ''basis_contract_hash''),
       group_change_refs = concat (map (\<lambda>change. case get change ''change_ref'' of JStr s \<Rightarrow> [s] | _ \<Rightarrow> [])
         (staged_changes grp))\<rparr>)))))"

section \<open>The sets of the loop\<close>

fun somes :: "'a option list \<Rightarrow> 'a list" where
  "somes [] = []"
| "somes (None # xs) = somes xs"
| "somes (Some x # xs) = x # somes xs"

text \<open>\<open>set.add\<close>, one by one.\<close>

definition set_of :: "'a option list \<Rightarrow> 'a list" where
  "set_of xs = rev (remdups (rev (somes xs)))"

text \<open>Tuples of approvals are compared by \<open>==\<close>.\<close>

fun add_tuple :: "json list list \<Rightarrow> json list \<Rightarrow> json list list" where
  "add_tuple ts t = (if list_ex (\<lambda>u. py_eq_list u t) ts then ts else ts @ [t])"

definition tuple_set :: "json list option list \<Rightarrow> json list list" where
  "tuple_set xs = foldl add_tuple [] (somes xs)"

text \<open>\<open>duplicate_values\<close>: every value seen before, once, in the order of its second occurrence.\<close>

fun duplicates_from :: "string list \<Rightarrow> string list \<Rightarrow> string list \<Rightarrow> string list" where
  "duplicates_from seen duplicates [] = duplicates"
| "duplicates_from seen duplicates (v # vs) =
     duplicates_from (v # seen)
       (if v \<in> set seen \<and> v \<notin> set duplicates then duplicates @ [v] else duplicates) vs"

definition duplicate_values :: "string list \<Rightarrow> string list" where
  "duplicate_values values = duplicates_from [] [] values"

section \<open>The basket\<close>

text \<open>Exactly one hash, or pair, across the staged groups, and the active one is it.\<close>

definition one_hash_issues :: "'m \<Rightarrow> 'm \<Rightarrow> string \<Rightarrow> json \<Rightarrow> string list \<Rightarrow> 'm verdict" where
  "one_hash_issues count_issue other_issue loc active hashes =
    (if length hashes \<noteq> 1 then Inr [custom loc count_issue]
     else report_ifE (notE (in_strs active hashes)) (custom loc other_issue))"

definition one_pair_issues :: "string \<Rightarrow> json \<Rightarrow> json \<Rightarrow> (string \<times> string) list \<Rightarrow> basket_issue verdict" where
  "one_pair_issues loc simulation topology group_pairs =
    (if length group_pairs \<noteq> 1 then Inr [custom loc Atomic_Pair_Count]
     else if \<not> hashable simulation \<or> \<not> hashable topology then Inl TypeError
     else report_if ((simulation, topology) \<notin> (\<lambda>(s, t). (JStr s, JStr t)) ` set group_pairs)
       (custom loc Atomic_Pair))"

definition atomic_issues :: "string \<Rightarrow> obj \<Rightarrow> obj \<Rightarrow> obj \<Rightarrow> staged_group list \<Rightarrow> basket_issue verdict" where
  "atomic_issues loc basket active_hazard active_basis groups =
    (let requirements = set_of (map group_requirement groups);
         approval_sets = tuple_set (map group_approvals groups);
         flags = set_of (map group_flag groups)
     in run_checks
      [one_pair_issues loc (get basket ''active_simulation_basis_hash'')
         (get basket ''active_dependency_topology_hash'') (set_of (map group_pair groups)),
       one_hash_issues Atomic_Hazard_Count Atomic_Hazard loc (get active_hazard ''hazard_contract_hash'')
         (set_of (map group_hazard_hash groups)),
       one_hash_issues Atomic_Basis_Count Atomic_Basis loc (get active_basis ''basis_contract_hash'')
         (set_of (map group_basis_hash groups)),
       report_if (length requirements = 1 \<and> get basket ''approval_requirement'' \<noteq> JStr (hd requirements))
         (custom loc Atomic_Requirement),
       report_if (length approval_sets = 1 \<and> \<not> py_eq (get basket ''required_approvals'') (JList (hd approval_sets)))
         (custom loc Atomic_Approvals),
       report_if (length flags = 1 \<and> \<not> py_eq (get basket ''bounded_safe_mutation'') (JInt (hd flags)))
         (custom loc Atomic_Flag),
       run_checks (map (\<lambda>(f, i). report_if (active_hazard \<noteq> [] \<and> \<not> py_eq (get basket f) (get active_hazard f))
           (custom loc i))
         [(''approval_requirement'', Active_Requirement), (''bounded_safe_mutation'', Active_Flag),
          (''required_approvals'', Active_Approvals)])])"

definition submission_issues :: "string \<Rightarrow> obj \<Rightarrow> obj \<Rightarrow> obj \<Rightarrow> staged_group list \<Rightarrow> basket_issue verdict" where
  "submission_issues loc basket active_hazard active_basis groups = run_checks
    [report_if (get basket ''simulation_atomicity'' \<noteq> JStr ''ATOMIC'') (custom loc Submission_Atomicity),
     report_if (length (set_of (map group_pair groups)) \<noteq> 1) (custom loc Submission_Pair),
     report_if (length (set_of (map group_hazard_hash groups)) \<noteq> 1) (custom loc Submission_Hazard),
     report_if (length (set_of (map group_basis_hash groups)) \<noteq> 1) (custom loc Submission_Basis),
     report_if (1 < length (set_of (map group_requirement groups)) \<or>
         1 < length (tuple_set (map group_approvals groups))) (custom loc Submission_Approval_Paths),
     report_if (truthy (get basket ''step_up_pending'')) (custom loc Submission_Step_Up),
     report_if (get basket ''approval_requirement'' = JNull) (custom loc Submission_Requirement),
     report_if (get active_hazard ''commit_authority_posture'' = JStr ''PREVIEW_ONLY'')
       (custom loc Submission_Hazard_Preview),
     report_if (get active_basis ''commit_authority_posture'' = JStr ''PREVIEW_ONLY'')
       (custom loc Submission_Basis_Preview)]"

definition basket_groups :: "obj \<Rightarrow> obj list" where
  "basket_groups basket =
    (case get basket ''staged_change_groups'' of
       JList raw_groups \<Rightarrow> concat (map (\<lambda>grp. case grp of JObj d \<Rightarrow> [d] | _ \<Rightarrow> []) raw_groups)
     | _ \<Rightarrow> [])"

definition active_hazard_expectations :: "json \<Rightarrow> obj \<Rightarrow> py_exn + governance_expectations" where
  "active_hazard_expectations policy basket =
    bindE (binary_or_none (get basket ''bounded_safe_mutation'')) (\<lambda>flag.
      Inr (no_expectations \<lparr>expected_policy_snapshot_hash := policy,
        expected_dependency_topology_hash := str_or_none (get basket ''active_dependency_topology_hash''),
        expected_simulation_basis_hash := str_or_none (get basket ''active_simulation_basis_hash''),
        expected_approval_requirement := str_or_none (get basket ''approval_requirement''),
        expected_bounded_safe_mutation := flag,
        expected_required_approvals := list_or_none (get basket ''required_approvals'')\<rparr>))"

text \<open>The issues of the basket, with what the later checks of the snapshot use: the parsed active hazard and basis
  contract and the staged groups, from which the sets of the loop are read.\<close>

definition validate_change_basket ::
  "(json \<Rightarrow> string) \<Rightarrow> json \<Rightarrow> obj \<Rightarrow> string \<Rightarrow> py_exn + (basket_issue issue list \<times> obj \<times> obj \<times> staged_group list)" where
  "validate_change_basket H policy basket loc =
    (let groups = basket_groups basket;
         atomic = (get basket ''simulation_atomicity'' = JStr ''ATOMIC'')
     in bindE (lift_issues Basket_Sequence (validate_sorted_string_sequence (get basket ''required_approvals'')
          (loc @ ''.change_basket'') True)) (\<lambda>sequence_issues.
        bindE (active_hazard_expectations policy basket) (\<lambda>hazard_expectations.
        bindE (validate_governance_mutation_hazard_contract H (get basket ''active_mutation_hazard_or_null'') loc
          hazard_expectations atomic) (\<lambda>(active_hazard_issues, active_hazard).
        bindE (basis_expectations policy active_hazard basket) (\<lambda>expectations.
        bindE (validate_governance_mutation_basis_contract H (get basket ''active_mutation_basis_contract_or_null'')
          loc expectations atomic) (\<lambda>(active_basis_issues, active_basis).
        bindE (mapE (check_group H policy loc) groups) (\<lambda>checked.
        bindE (run_checks
          [Inr (sequence_issues @ wrap Active_Hazard active_hazard_issues @ wrap Active_Basis active_basis_issues),
           report_if (groups \<noteq> [] \<and> get basket ''basket_state'' = JStr ''EMPTY'') (custom loc Basket_Not_Empty),
           report_if (groups = [] \<and> get basket ''basket_state'' \<noteq> JStr ''EMPTY'') (custom loc Basket_Empty),
           Inr (concat (map fst checked)),
           (let duplicates = duplicate_values (concat (map (group_change_refs \<circ> snd) checked))
            in report_if (duplicates \<noteq> []) (custom loc (Duplicate_Changes duplicates))),
           report_if (\<not> atomic \<and> get basket ''active_mutation_basis_contract_or_null'' \<noteq> JNull)
             (custom loc Inactive_Basis),
           report_if (\<not> atomic \<and> get basket ''active_mutation_hazard_or_null'' \<noteq> JNull)
             (custom loc Inactive_Hazard),
           if atomic then atomic_issues loc basket active_hazard active_basis (map snd checked) else Inr [],
           if truthy (get basket ''submission_enabled'')
           then submission_issues loc basket active_hazard active_basis (map snd checked) else Inr []]) (\<lambda>issues.
        Inr (issues, active_hazard, active_basis, map snd checked)))))))))"

end
