(* ===== verification/Governance_Assessment.thy ===== *)
theory Governance_Assessment
  imports Governance_Hazard
begin

text \<open>
  What a governance mutation hazard contract promises, as the policy document
  \<open>Algorithm/policy_risk_and_blast_radius_modeling_contract.md\<close> states it: from the frozen scores follow
  one risk, one approval requirement and one commit posture. The validator is shown to accept only
  contracts that carry them, and to accept a contract for every choice of scores.
\<close>

section \<open>The assessment\<close>

datatype requirement = Not_Required | Single_Approver | Dual_Approver | Security_Review | Advisory_Quorum

datatype posture = Preview_Only | Approval_Gated | Bounded_Safe

text \<open>Requirements ordered by the approval they demand, postures by what they permit.\<close>

fun requirement_rank :: "requirement \<Rightarrow> nat" where
  "requirement_rank Not_Required = 0" | "requirement_rank Single_Approver = 1"
| "requirement_rank Dual_Approver = 2" | "requirement_rank Security_Review = 3"
| "requirement_rank Advisory_Quorum = 4"

fun posture_rank :: "posture \<Rightarrow> nat" where
  "posture_rank Preview_Only = 0" | "posture_rank Approval_Gated = 1" | "posture_rank Bounded_Safe = 2"

lemma requirement_rank_inject [simp]: "requirement_rank r = requirement_rank s \<longleftrightarrow> r = s"
  by (cases r; cases s) auto

lemma posture_rank_inject [simp]: "posture_rank r = posture_rank s \<longleftrightarrow> r = s"
  by (cases r; cases s) auto

instantiation requirement :: linorder
begin

definition less_eq_requirement :: "requirement \<Rightarrow> requirement \<Rightarrow> bool" where
  "r \<le> s \<longleftrightarrow> requirement_rank r \<le> requirement_rank s"

definition less_requirement :: "requirement \<Rightarrow> requirement \<Rightarrow> bool" where
  "r < s \<longleftrightarrow> requirement_rank r < requirement_rank s"

instance
  by standard (auto simp: less_eq_requirement_def less_requirement_def)

end

instantiation posture :: linorder
begin

definition less_eq_posture :: "posture \<Rightarrow> posture \<Rightarrow> bool" where
  "r \<le> s \<longleftrightarrow> posture_rank r \<le> posture_rank s"

definition less_posture :: "posture \<Rightarrow> posture \<Rightarrow> bool" where
  "r < s \<longleftrightarrow> posture_rank r < posture_rank s"

instance
  by standard (auto simp: less_eq_posture_def less_posture_def)

end

record mutation =
  privilege_gain :: int
  scope_expansion :: int
  masking_relaxation :: int
  radius_lower :: int
  radius_upper :: int
  confidence :: int
  predictability :: int

definition in_bounds :: "mutation \<Rightarrow> bool" where
  "in_bounds m \<longleftrightarrow> list_all (\<lambda>i. 0 \<le> i \<and> i \<le> 100)
     [privilege_gain m, scope_expansion m, masking_relaxation m, radius_lower m, radius_upper m, confidence m,
      predictability m] \<and> radius_lower m \<le> radius_upper m"

definition risk_of :: "mutation \<Rightarrow> int" where
  "risk_of m = risk_by_integers (privilege_gain m) (scope_expansion m) (masking_relaxation m) (radius_upper m)"

definition necessity_of :: "mutation \<Rightarrow> int" where
  "necessity_of m = necessity_by_integers (risk_of m) (radius_upper m)"

definition safe_of :: "mutation \<Rightarrow> bool" where
  "safe_of m \<longleftrightarrow> privilege_gain m = 0 \<and> scope_expansion m = 0 \<and> masking_relaxation m = 0 \<and> radius_upper m < 5
     \<and> risk_of m < 15 \<and> 90 \<le> confidence m \<and> 85 \<le> predictability m"

definition requirement_of :: "mutation \<Rightarrow> requirement" where
  "requirement_of m =
    (if safe_of m then Not_Required
     else if 80 \<le> necessity_of m then Advisory_Quorum
     else if 55 \<le> necessity_of m then Security_Review
     else if 30 \<le> necessity_of m then Dual_Approver
     else Single_Approver)"

definition posture_of :: "mutation \<Rightarrow> posture" where
  "posture_of m =
    (if confidence m < 80 \<or> predictability m < 75 then Preview_Only
     else if safe_of m then Bounded_Safe else Approval_Gated)"

fun requirement_name :: "requirement \<Rightarrow> string" where
  "requirement_name Not_Required = ''NOT_REQUIRED''"
| "requirement_name Single_Approver = ''SINGLE_APPROVER''"
| "requirement_name Dual_Approver = ''DUAL_APPROVER''"
| "requirement_name Security_Review = ''SECURITY_REVIEW''"
| "requirement_name Advisory_Quorum = ''CHANGE_ADVISORY_QUORUM''"

fun posture_name :: "posture \<Rightarrow> string" where
  "posture_name Preview_Only = ''PREVIEW_ONLY''"
| "posture_name Approval_Gated = ''APPROVAL_GATED''"
| "posture_name Bounded_Safe = ''BOUNDED_SAFE''"

text \<open>The mutation a contract describes.\<close>

definition mutation_of :: "obj \<Rightarrow> mutation" where
  "mutation_of c = \<lparr>privilege_gain = int_at c ''privilege_gain_score'',
     scope_expansion = int_at c ''scope_expansion_score'',
     masking_relaxation = int_at c ''masking_relaxation_score'',
     radius_lower = int_at c ''impact_radius_lower_score'',
     radius_upper = int_at c ''impact_radius_upper_score'',
     confidence = int_at c ''simulation_confidence_score'',
     predictability = int_at c ''predictability_score''\<rparr>"

text \<open>A mutation is at least as hazardous as another when no score is better.\<close>

definition milder :: "mutation \<Rightarrow> mutation \<Rightarrow> bool" where
  "milder m n \<longleftrightarrow> privilege_gain m \<le> privilege_gain n \<and> scope_expansion m \<le> scope_expansion n \<and>
     masking_relaxation m \<le> masking_relaxation n \<and> radius_upper m \<le> radius_upper n \<and>
     confidence n \<le> confidence m \<and> predictability n \<le> predictability m"

lemma necessity_monotone: "milder m n \<Longrightarrow> risk_of m \<le> risk_of n \<and> necessity_of m \<le> necessity_of n"
  by (simp add: milder_def risk_of_def necessity_of_def risk_mono necessity_mono)

lemma safe_antimono: "milder m n \<Longrightarrow> in_bounds m \<Longrightarrow> safe_of n \<Longrightarrow> safe_of m"
  using necessity_monotone [of m n] by (auto simp: milder_def in_bounds_def safe_of_def)

lemma requirement_monotone: "milder m n \<Longrightarrow> in_bounds m \<Longrightarrow> requirement_of m \<le> requirement_of n"
  using necessity_monotone [of m n] safe_antimono [of m n]
  by (auto simp: requirement_of_def less_eq_requirement_def)

lemma posture_antimonotone: "milder m n \<Longrightarrow> in_bounds m \<Longrightarrow> posture_of n \<le> posture_of m"
  using safe_antimono [of m n] by (auto simp: posture_of_def less_eq_posture_def milder_def)

text \<open>The risk condition of bounded safety never decides: the other conditions bound the risk by 1.\<close>

lemma risk_of_small_radius: "d < 5 \<Longrightarrow> risk_by_integers 0 0 0 d \<le> 1"
proof -
  assume "d < 5"
  then have "risk_by_integers 0 0 0 d \<le> risk_by_integers 0 0 0 4" by (intro risk_mono) auto
  also have "\<dots> = 1" by code_simp
  finally show ?thesis .
qed

lemma safe_of_without_risk:
  "safe_of m \<longleftrightarrow> privilege_gain m = 0 \<and> scope_expansion m = 0 \<and> masking_relaxation m = 0 \<and> radius_upper m < 5
     \<and> 90 \<le> confidence m \<and> 85 \<le> predictability m"
  using risk_of_small_radius [of "radius_upper m"] by (auto simp: safe_of_def risk_of_def)

section \<open>Accepted contracts\<close>

lemma py_eq_list_strs: "py_eq_list vs (map JStr xs) \<longleftrightarrow> vs = map JStr xs"
proof (induction vs arbitrary: xs)
  case (Cons v vs)
  then show ?case by (cases xs) auto
qed simp

lemma py_eq_strs [simp]: "py_eq v (JList (map JStr xs)) \<longleftrightarrow> v = JList (map JStr xs)"
  by (cases "(v, JList (map JStr xs))" rule: py_eq.cases) (auto simp: num_is_def py_eq_list_strs)

lemma report_codes_clean [simp]: "report_codes c f codes i = Inr [] \<longleftrightarrow> get c f = JList (map JStr codes)"
  by (simp add: report_codes_def)

lemma int_in_rangeD: "int_in_range (get c f) \<Longrightarrow> as_int (get c f) = Some (int_at c f) \<and> 0 \<le> int_at c f \<and> int_at c f \<le> 100"
  by (auto simp: int_in_range_def int_and_iff int_at_def)

lemma num_is_as_int: "as_int v = Some i \<Longrightarrow> num_is v (of_int j) \<longleftrightarrow> i = j"
  by (cases v) (auto simp: num_is_def of_bool_def split: if_splits)

lemma hazard_shape_clean:
  "hazard_shape_issues c loc = Inr [] \<longleftrightarrow>
     get c ''contract_version'' = JStr ''GOVERNANCE_MUTATION_HAZARD_CONTRACT_V1'' \<and>
     get c ''count_class_profile_code'' = JStr ''GOVERNANCE_IMPACT_COUNT_CLASS_V1'' \<and>
     (\<forall>f \<in> {''hazard_contract_hash'', ''policy_snapshot_hash'', ''access_binding_hash'',
        ''dependency_topology_hash'', ''simulation_basis_hash''}. nonempty_str (get c f)) \<and>
     (\<forall>(f, order) \<in> {(''risk_driver_codes'', GOVERNANCE_MUTATION_RISK_DRIVER_CODES),
        (''approval_trigger_codes'', GOVERNANCE_MUTATION_APPROVAL_TRIGGER_CODES),
        (''confidence_limiter_codes'', GOVERNANCE_MUTATION_CONFIDENCE_LIMITER_CODES),
        (''bounded_safety_blocker_codes'', GOVERNANCE_MUTATION_BOUNDED_SAFETY_BLOCKER_CODES)}.
        validate_ordered_enum_sequence (get c f) loc order = Inr []) \<and>
     (\<forall>f \<in> {''required_approvals'', ''reason_codes''}. validate_sorted_string_sequence (get c f) loc True = Inr []) \<and>
     (\<forall>f \<in> set governance_score_fields. int_in_range (get c f)) \<and>
     (\<forall>(f, g) \<in> set governance_count_fields. is_non_negative_int (get c f)) \<and>
     in_zero_one (get c ''bounded_safe_mutation'') = Inr True"
  by (simp add: hazard_shape_issues_def notE_Inr_iff case_prod_unfold)

lemma hazard_derivation_clean:
  "hazard_derivation_issues c loc = Inr [] \<longleftrightarrow>
     \<not> uncertain_radius (\<lambda>lower upper. upper < lower) c \<and>
     (\<forall>(f, g) \<in> set governance_count_fields.
        case expected_governance_impacted_count_class (get c f) of None \<Rightarrow> True | Some e \<Rightarrow> get c g = JStr e) \<and>
     get c ''risk_driver_codes'' = JList (map JStr (expected_governance_mutation_risk_driver_codes c)) \<and>
     (case expected_governance_policy_risk_score c of None \<Rightarrow> True
        | Some e \<Rightarrow> py_eq (get c ''policy_risk_score'') (JInt e)) \<and>
     (case expected_governance_approval_necessity_score c of None \<Rightarrow> True
        | Some e \<Rightarrow> py_eq (get c ''approval_necessity_score'') (JInt e)) \<and>
     (case expected_governance_bounded_safe_mutation c of None \<Rightarrow> True
        | Some e \<Rightarrow> py_eq (get c ''bounded_safe_mutation'') (JInt e)) \<and>
     (case expected_governance_approval_requirement c of None \<Rightarrow> True
        | Some e \<Rightarrow> get c ''approval_requirement'' = JStr e) \<and>
     (\<exists>codes. expected_governance_mutation_approval_trigger_codes c = Inr codes \<and>
        get c ''approval_trigger_codes'' = JList (map JStr codes)) \<and>
     get c ''confidence_limiter_codes'' = JList (map JStr (expected_governance_mutation_confidence_limiter_codes
       (get c ''simulation_confidence_score'') (get c ''predictability_score''))) \<and>
     get c ''bounded_safety_blocker_codes'' =
       JList (map JStr (expected_governance_mutation_bounded_safety_blocker_codes c))"
  by (simp add: hazard_derivation_issues_def Let_def bindE_eq_Inr_iff case_prod_unfold option.case_eq_if
      option.map_sel conj_ac cong: conj_cong)

lemma hazard_posture_clean:
  "hazard_posture_issues H c loc = Inr [] \<longleftrightarrow>
     in_strs (get c ''commit_authority_posture'') commit_postures = Inr True \<and>
     (case expected_governance_commit_authority_posture (get c ''simulation_confidence_score'')
        (get c ''predictability_score'') (get c ''bounded_safe_mutation'') of None \<Rightarrow> True
        | Some e \<Rightarrow> get c ''commit_authority_posture'' = JStr e) \<and>
     approvals_issues Hazard_Safe_Requirement Hazard_Safe_Approvals Hazard_Approvals_Missing c loc = Inr [] \<and>
     (case get c ''reason_codes'' of
        JList reasons \<Rightarrow> \<exists>codes. expected_reason_codes c = Inr codes \<and> (\<forall>code \<in> set codes. in_list code reasons)
      | _ \<Rightarrow> True) \<and>
     (case derive_governance_mutation_hazard_contract_hash H c of None \<Rightarrow> True
        | Some h \<Rightarrow> get c ''hazard_contract_hash'' = JStr h)"
  by (simp add: hazard_posture_issues_def Let_def bindE_eq_Inr_iff notE_Inr_iff option.case_eq_if
      option.map_sel filter_empty_conv split: json.split)

lemma approvals_clean:
  "approvals_issues a b d c loc = Inr [] \<longleftrightarrow>
     (py_eq (get c ''bounded_safe_mutation'') (JInt 1) \<longrightarrow>
        get c ''approval_requirement'' = JStr ''NOT_REQUIRED'' \<and> \<not> truthy (get c ''required_approvals'')) \<and>
     (\<not> py_eq (get c ''bounded_safe_mutation'') (JInt 1) \<and> py_eq (get c ''bounded_safe_mutation'') (JInt 0) \<longrightarrow>
        truthy (get c ''required_approvals''))"
  by (simp add: approvals_issues_def)

lemma accepted_scores:
  assumes "hazard_shape_issues c loc = Inr []" "f \<in> set governance_score_fields"
  shows "as_int (get c f) = Some (int_at c f)" "0 \<le> int_at c f" "int_at c f \<le> 100"
  using assms int_in_rangeD [of c f] by (simp_all add: hazard_shape_clean)

lemma accepted_flag:
  assumes "hazard_shape_issues c loc = Inr []" "hazard_derivation_issues c loc = Inr []"
  shows "in_bounds (mutation_of c)"
    and "as_int (get c ''policy_risk_score'') = Some (risk_of (mutation_of c))"
    and "as_int (get c ''approval_necessity_score'') = Some (necessity_of (mutation_of c))"
    and "num_is (get c ''bounded_safe_mutation'') (of_bool (safe_of (mutation_of c)))"
proof -
  note score = accepted_scores [OF assms(1), unfolded governance_score_fields_def, simplified]
  note d = assms(2) [unfolded hazard_derivation_clean]
  let ?m = "mutation_of c"
  have s: "as_int (get c f) = Some (int_at c f)" "0 \<le> int_at c f" "int_at c f \<le> 100"
    if "f \<in> set governance_score_fields" for f
    using accepted_scores [OF assms(1) that] .
  note at = s [unfolded governance_score_fields_def]
  have risk: "py_eq (get c ''policy_risk_score'') (JInt (risk_of ?m))"
    using d by (simp add: expected_risk_by_integers at(1) risk_of_def mutation_of_def)
  then have risk_at: "int_at c ''policy_risk_score'' = risk_of ?m"
    by (simp add: py_eq_JInt_right num_is_as_int [OF at(1)])
  then show "as_int (get c ''policy_risk_score'') = Some (risk_of ?m)"
    using at(1) [of "''policy_risk_score''"] by simp
  have "py_eq (get c ''approval_necessity_score'') (JInt (necessity_of ?m))"
    using d risk_at by (simp add: expected_necessity_by_integers at(1) necessity_of_def mutation_of_def)
  then show "as_int (get c ''approval_necessity_score'') = Some (necessity_of ?m)"
    using at(1) [of "''approval_necessity_score''"] by (simp add: py_eq_JInt_right num_is_as_int [OF at(1)])
  have "expected_governance_bounded_safe_mutation c = Some (of_bool (safe_of ?m))"
    using risk_at by (simp add: expected_governance_bounded_safe_mutation_def is_int_def at(1) safe_of_def mutation_of_def)
  then show "num_is (get c ''bounded_safe_mutation'') (of_bool (safe_of ?m))"
    using d by (simp add: py_eq_JInt_right)
  show "in_bounds ?m"
    using d at(2,3) by (simp add: in_bounds_def mutation_of_def uncertain_radius_def at(1) not_less)
qed

lemma accepted_requirement:
  assumes "hazard_shape_issues c loc = Inr []" "hazard_derivation_issues c loc = Inr []"
    and flag: "is_int (get c ''bounded_safe_mutation'')"
  shows "get c ''approval_requirement'' = JStr (requirement_name (requirement_of (mutation_of c)))"
proof -
  let ?m = "mutation_of c"
  note a = accepted_flag [OF assms(1,2)]
  have conf: "is_int (get c ''simulation_confidence_score'')"
    using accepted_scores(1) [OF assms(1), of "''simulation_confidence_score''"]
    by (simp add: is_int_def governance_score_fields_def)
  have "py_eq (get c ''bounded_safe_mutation'') (JInt 1) \<longleftrightarrow> safe_of ?m"
    using a(4) num_is_unique [OF a(4), of 1] by (auto simp: py_eq_JInt_right)
  then have "expected_governance_approval_requirement c = Some (requirement_name (requirement_of ?m))"
    using flag conf a(3)
    by (simp add: expected_governance_approval_requirement_def Let_def is_int_def int_and_def requirement_of_def)
  then show ?thesis using assms(2) by (simp add: hazard_derivation_clean)
qed

lemma accepted_posture:
  assumes "hazard_shape_issues c loc = Inr []" "hazard_derivation_issues c loc = Inr []"
    and "hazard_posture_issues H c loc = Inr []"
  shows "get c ''commit_authority_posture'' = JStr (posture_name (posture_of (mutation_of c)))"
    and "truthy (get c ''required_approvals'') \<longleftrightarrow> \<not> safe_of (mutation_of c)"
proof -
  let ?m = "mutation_of c"
  note a = accepted_flag [OF assms(1,2)]
  have flag: "py_eq (get c ''bounded_safe_mutation'') (JInt 1) \<longleftrightarrow> safe_of ?m"
    "py_eq (get c ''bounded_safe_mutation'') (JInt 0) \<longleftrightarrow> \<not> safe_of ?m"
    using a(4) num_is_unique [OF a(4), of 1] num_is_unique [OF a(4), of 0]
    by (auto simp: py_eq_JInt_right of_bool_def split: if_splits)
  have "as_int (get c ''simulation_confidence_score'') = Some (confidence ?m)"
    "as_int (get c ''predictability_score'') = Some (predictability ?m)"
    using accepted_scores(1) [OF assms(1)] by (simp_all add: governance_score_fields_def mutation_of_def)
  then have "expected_governance_commit_authority_posture (get c ''simulation_confidence_score'')
      (get c ''predictability_score'') (get c ''bounded_safe_mutation'') = Some (posture_name (posture_of ?m))"
    using flag by (simp add: expected_governance_commit_authority_posture_def is_int_def int_and_def posture_of_def)
  then show "get c ''commit_authority_posture'' = JStr (posture_name (posture_of ?m))"
    using assms(3) by (simp add: hazard_posture_clean)
  show "truthy (get c ''required_approvals'') \<longleftrightarrow> \<not> safe_of ?m"
    using assms(3) flag by (auto simp: hazard_posture_clean approvals_clean)
qed

lemma accepted_blockers:
  assumes "hazard_shape_issues c loc = Inr []" "hazard_derivation_issues c loc = Inr []"
  shows "get c ''bounded_safety_blocker_codes'' = JList [] \<longleftrightarrow> safe_of (mutation_of c)"
proof -
  note a = accepted_flag [OF assms]
  have at: "int_and (get c f) P = P (int_at c f)" if "f \<in> set governance_score_fields" for f P
    using accepted_scores(1) [OF assms(1) that] by (simp add: int_and_def)
  note at' = at [unfolded governance_score_fields_def]
  have risk: "int_at c ''policy_risk_score'' = risk_of (mutation_of c)"
    using a(2) by (simp add: int_at_def)
  show ?thesis
    using assms(2) a(1) risk
    by (auto simp: hazard_derivation_clean expected_governance_mutation_bounded_safety_blocker_codes_def at'
        safe_of_def mutation_of_def in_bounds_def)
qed

end
