(* ===== verification/Governance_Contract.thy ===== *)
theory Governance_Contract
  imports Governance_Assessment
begin

text \<open>
  For every mutation, a hazard contract that the validator accepts: the contract filled in with the derivations of
  the code itself. The conditions of the validator are therefore consistent for every choice of scores.
\<close>

section \<open>A contract for every mutation\<close>

text \<open>The contract the code's own derivations give for a mutation, with the identities, counts and approvals
  of its owner.\<close>

definition contract_scores :: "mutation \<Rightarrow> obj" where
  "contract_scores m =
    [(''privilege_gain_score'', JInt (privilege_gain m)), (''scope_expansion_score'', JInt (scope_expansion m)),
     (''masking_relaxation_score'', JInt (masking_relaxation m)),
     (''impact_radius_lower_score'', JInt (radius_lower m)),
     (''impact_radius_upper_score'', JInt (radius_upper m)),
     (''simulation_confidence_score'', JInt (confidence m)), (''predictability_score'', JInt (predictability m)),
     (''policy_risk_score'', JInt (risk_of m)), (''approval_necessity_score'', JInt (necessity_of m)),
     (''bounded_safe_mutation'', JInt (of_bool (safe_of m))),
     (''approval_requirement'', JStr (requirement_name (requirement_of m))),
     (''commit_authority_posture'', JStr (posture_name (posture_of m)))]"

definition trigger_codes :: "requirement \<Rightarrow> string list" where
  "trigger_codes r = (case r of Not_Required \<Rightarrow> [] | _ \<Rightarrow> [requirement_name r @ ''_REQUIRED''])"

definition contract_codes :: "mutation \<Rightarrow> (string \<times> string list) list" where
  "contract_codes m =
    [(''risk_driver_codes'', expected_governance_mutation_risk_driver_codes (contract_scores m)),
     (''approval_trigger_codes'', trigger_codes (requirement_of m)),
     (''confidence_limiter_codes'', expected_governance_mutation_confidence_limiter_codes
        (JInt (confidence m)) (JInt (predictability m))),
     (''bounded_safety_blocker_codes'',
        expected_governance_mutation_bounded_safety_blocker_codes (contract_scores m))]"

definition contract_reasons :: "mutation \<Rightarrow> string list" where
  "contract_reasons m = sort (remdups (concat (map snd (contract_codes m)) @
     (if safe_of m then [''BOUNDED_SAFE_MUTATION''] else []) @
     (if radius_lower m < radius_upper m then [''UNCERTAIN_BLAST_RADIUS''] else [])))"

definition contract_frame :: "mutation \<Rightarrow> (string \<Rightarrow> string) \<Rightarrow> string list \<Rightarrow> obj" where
  "contract_frame m ids approvals =
    [(''reason_codes'', JList (map JStr (contract_reasons m))),
     (''required_approvals'', JList (map JStr approvals)),
     (''contract_version'', JStr ''GOVERNANCE_MUTATION_HAZARD_CONTRACT_V1''),
     (''count_class_profile_code'', JStr ''GOVERNANCE_IMPACT_COUNT_CLASS_V1''),
     (''policy_snapshot_hash'', JStr (ids ''policy_snapshot_hash'')),
     (''access_binding_hash'', JStr (ids ''access_binding_hash'')),
     (''dependency_topology_hash'', JStr (ids ''dependency_topology_hash'')),
     (''simulation_basis_hash'', JStr (ids ''simulation_basis_hash''))]"

definition contract_counts :: "(string \<Rightarrow> int) \<Rightarrow> obj" where
  "contract_counts counts =
    map (\<lambda>(f, g). (f, JInt (counts f))) governance_count_fields @
    map (\<lambda>(f, g). (g, opt_str (expected_governance_impacted_count_class (JInt (counts f))))) governance_count_fields"

definition hazard_body :: "mutation \<Rightarrow> (string \<Rightarrow> string) \<Rightarrow> (string \<Rightarrow> int) \<Rightarrow> string list \<Rightarrow> obj" where
  "hazard_body m ids counts approvals =
    contract_scores m @ map (\<lambda>(f, codes). (f, JList (map JStr codes))) (contract_codes m) @
    contract_frame m ids approvals @ contract_counts counts"

definition hazard_contract_for ::
  "(json \<Rightarrow> string) \<Rightarrow> mutation \<Rightarrow> (string \<Rightarrow> string) \<Rightarrow> (string \<Rightarrow> int) \<Rightarrow> string list \<Rightarrow> obj" where
  "hazard_contract_for H m ids counts approvals =
    (let body = hazard_body m ids counts approvals
     in (''hazard_contract_hash'', JStr (H (JObj (map (\<lambda>f. (f, get body f)) hazard_hash_fields)))) # body)"

definition codes_of :: "(bool \<times> string) list \<Rightarrow> string list" where
  "codes_of bs = map snd (filter fst bs)"

lemma any_unknown_known: "set xs \<subseteq> set order \<Longrightarrow> any_unknown order (map JStr xs) = Inr False"
  by (induction xs) auto

lemma ordered_codes_of:
  assumes order: "map snd bs = order" "sorted (map (position order) order)"
  shows "validate_ordered_enum_sequence (JList (map JStr (codes_of bs))) loc order = Inr []"
proof -
  have "sorted (map (position order \<circ> snd) bs)"
    using order(2) by (simp flip: order(1) add: map_map)
  then have "sorted (map (position order \<circ> snd) (filter fst bs))"
    by (rule sorted_filter)
  then have "sort_key (position order) (codes_of bs) = codes_of bs"
    by (intro sort_key_id) (simp add: codes_of_def)
  moreover have "set (codes_of bs) \<subseteq> set order"
    using order(1) by (auto simp: codes_of_def simp flip: order(1))
  ultimately show ?thesis
    by (simp add: validate_ordered_enum_sequence_def any_unknown_known)
qed

lemma code_orders_sorted:
  "sorted (map (position GOVERNANCE_MUTATION_RISK_DRIVER_CODES) GOVERNANCE_MUTATION_RISK_DRIVER_CODES)"
  "sorted (map (position GOVERNANCE_MUTATION_APPROVAL_TRIGGER_CODES) GOVERNANCE_MUTATION_APPROVAL_TRIGGER_CODES)"
  "sorted (map (position GOVERNANCE_MUTATION_CONFIDENCE_LIMITER_CODES) GOVERNANCE_MUTATION_CONFIDENCE_LIMITER_CODES)"
  "sorted (map (position GOVERNANCE_MUTATION_BOUNDED_SAFETY_BLOCKER_CODES)
     GOVERNANCE_MUTATION_BOUNDED_SAFETY_BLOCKER_CODES)"
  by code_simp+

lemma if_codes: "(if b then [x] else []) = codes_of [(b, x)]" "codes_of as @ codes_of bs = codes_of (as @ bs)"
  by (simp_all add: codes_of_def)

lemma risk_drivers_ordered:
  "validate_ordered_enum_sequence (JList (map JStr (expected_governance_mutation_risk_driver_codes c))) loc
     GOVERNANCE_MUTATION_RISK_DRIVER_CODES = Inr []"
  unfolding expected_governance_mutation_risk_driver_codes_def if_codes
  by (rule ordered_codes_of [OF _ code_orders_sorted(1)]) (simp add: GOVERNANCE_MUTATION_RISK_DRIVER_CODES_def)

lemma limiters_ordered:
  "validate_ordered_enum_sequence (JList (map JStr (expected_governance_mutation_confidence_limiter_codes v w))) loc
     GOVERNANCE_MUTATION_CONFIDENCE_LIMITER_CODES = Inr []"
  unfolding expected_governance_mutation_confidence_limiter_codes_def if_codes
  by (rule ordered_codes_of [OF _ code_orders_sorted(3)])
     (simp add: GOVERNANCE_MUTATION_CONFIDENCE_LIMITER_CODES_def)

lemma blockers_ordered:
  "validate_ordered_enum_sequence (JList (map JStr (expected_governance_mutation_bounded_safety_blocker_codes c))) loc
     GOVERNANCE_MUTATION_BOUNDED_SAFETY_BLOCKER_CODES = Inr []"
  unfolding expected_governance_mutation_bounded_safety_blocker_codes_def if_codes
  by (rule ordered_codes_of [OF _ code_orders_sorted(4)])
     (simp add: GOVERNANCE_MUTATION_BOUNDED_SAFETY_BLOCKER_CODES_def)

lemma trigger_codes_ordered:
  "validate_ordered_enum_sequence (JList (map JStr (trigger_codes r))) loc
     GOVERNANCE_MUTATION_APPROVAL_TRIGGER_CODES = Inr []"
  by (cases r) (simp_all add: trigger_codes_def validate_ordered_enum_sequence_def strings_of_def
      GOVERNANCE_MUTATION_APPROVAL_TRIGGER_CODES_def)

text \<open>The keys of a contract are distinct, so every entry is what \<open>get\<close> finds.\<close>

definition body_keys :: "string list" where
  "body_keys = [''privilege_gain_score'', ''scope_expansion_score'', ''masking_relaxation_score'',
     ''impact_radius_lower_score'', ''impact_radius_upper_score'', ''simulation_confidence_score'',
     ''predictability_score'', ''policy_risk_score'', ''approval_necessity_score'', ''bounded_safe_mutation'',
     ''approval_requirement'', ''commit_authority_posture'', ''risk_driver_codes'', ''approval_trigger_codes'',
     ''confidence_limiter_codes'', ''bounded_safety_blocker_codes'', ''reason_codes'', ''required_approvals'',
     ''contract_version'', ''count_class_profile_code'', ''policy_snapshot_hash'', ''access_binding_hash'',
     ''dependency_topology_hash'', ''simulation_basis_hash''] @ map fst governance_count_fields @
     map snd governance_count_fields"

lemma body_keys_distinct: "distinct body_keys"
  by code_simp

lemma map_fst_body: "map fst (hazard_body m ids counts approvals) = body_keys"
  by (simp add: hazard_body_def contract_scores_def contract_codes_def contract_frame_def contract_counts_def
      body_keys_def case_prod_unfold o_def)

lemma body_entry:
  "(f, v) \<in> set (hazard_body m ids counts approvals) \<Longrightarrow> get (hazard_body m ids counts approvals) f = v"
  by (simp add: get_def map_of_is_SomeI map_fst_body body_keys_distinct)

lemma contract_body:
  "f \<noteq> ''hazard_contract_hash'' \<Longrightarrow>
     get (hazard_contract_for H m ids counts approvals) f = get (hazard_body m ids counts approvals) f"
  by (simp add: hazard_contract_for_def Let_def)

lemma contract_hash:
  "get (hazard_contract_for H m ids counts approvals) ''hazard_contract_hash'' =
     JStr (H (JObj (map (\<lambda>f. (f, get (hazard_body m ids counts approvals) f)) hazard_hash_fields)))"
  by (simp add: hazard_contract_for_def Let_def)

lemma score_gets:
  "get (contract_scores m) ''privilege_gain_score'' = JInt (privilege_gain m)"
  "get (contract_scores m) ''scope_expansion_score'' = JInt (scope_expansion m)"
  "get (contract_scores m) ''masking_relaxation_score'' = JInt (masking_relaxation m)"
  "get (contract_scores m) ''impact_radius_lower_score'' = JInt (radius_lower m)"
  "get (contract_scores m) ''impact_radius_upper_score'' = JInt (radius_upper m)"
  "get (contract_scores m) ''simulation_confidence_score'' = JInt (confidence m)"
  "get (contract_scores m) ''predictability_score'' = JInt (predictability m)"
  "get (contract_scores m) ''policy_risk_score'' = JInt (risk_of m)"
  "get (contract_scores m) ''approval_necessity_score'' = JInt (necessity_of m)"
  "get (contract_scores m) ''bounded_safe_mutation'' = JInt (of_bool (safe_of m))"
  "get (contract_scores m) ''approval_requirement'' = JStr (requirement_name (requirement_of m))"
  "get (contract_scores m) ''commit_authority_posture'' = JStr (posture_name (posture_of m))"
  by (simp_all add: contract_scores_def)

lemma body_gets:
  fixes m ids counts approvals
  defines "b \<equiv> hazard_body m ids counts approvals"
  shows "get b ''risk_driver_codes'' = JList (map JStr (expected_governance_mutation_risk_driver_codes (contract_scores m)))"
    and "get b ''approval_trigger_codes'' = JList (map JStr (trigger_codes (requirement_of m)))"
    and "get b ''confidence_limiter_codes'' = JList (map JStr
      (expected_governance_mutation_confidence_limiter_codes (JInt (confidence m)) (JInt (predictability m))))"
    and "get b ''bounded_safety_blocker_codes'' = JList (map JStr
      (expected_governance_mutation_bounded_safety_blocker_codes (contract_scores m)))"
    and "get b ''reason_codes'' = JList (map JStr (contract_reasons m))"
    and "get b ''required_approvals'' = JList (map JStr approvals)"
    and "get b ''contract_version'' = JStr ''GOVERNANCE_MUTATION_HAZARD_CONTRACT_V1''"
    and "get b ''count_class_profile_code'' = JStr ''GOVERNANCE_IMPACT_COUNT_CLASS_V1''"
    and "f \<in> {''policy_snapshot_hash'', ''access_binding_hash'', ''dependency_topology_hash'',
      ''simulation_basis_hash''} \<Longrightarrow> get b f = JStr (ids f)"
    and "(f, g) \<in> set governance_count_fields \<Longrightarrow> get b f = JInt (counts f)"
    and "(f, g) \<in> set governance_count_fields \<Longrightarrow>
      get b g = opt_str (expected_governance_impacted_count_class (JInt (counts f)))"
proof -
  have codes: "(f, codes) \<in> set (contract_codes m) \<Longrightarrow> get b f = JList (map JStr codes)" for f codes
    unfolding b_def by (rule body_entry) (force simp: hazard_body_def)
  have mid: "(f, v) \<in> set (contract_frame m ids approvals) \<Longrightarrow> get b f = v" for f v
    unfolding b_def by (rule body_entry) (simp add: hazard_body_def)
  have counted: "(f, v) \<in> set (contract_counts counts) \<Longrightarrow> get b f = v" for f v
    unfolding b_def by (rule body_entry) (simp add: hazard_body_def)
  show "get b ''risk_driver_codes'' = JList (map JStr (expected_governance_mutation_risk_driver_codes (contract_scores m)))"
    and "get b ''approval_trigger_codes'' = JList (map JStr (trigger_codes (requirement_of m)))"
    and "get b ''confidence_limiter_codes'' = JList (map JStr
      (expected_governance_mutation_confidence_limiter_codes (JInt (confidence m)) (JInt (predictability m))))"
    and "get b ''bounded_safety_blocker_codes'' = JList (map JStr
      (expected_governance_mutation_bounded_safety_blocker_codes (contract_scores m)))"
    by (rule codes; simp only: contract_codes_def list.set insert_iff simp_thms)+
  show "get b ''reason_codes'' = JList (map JStr (contract_reasons m))"
    and "get b ''required_approvals'' = JList (map JStr approvals)"
    and "get b ''contract_version'' = JStr ''GOVERNANCE_MUTATION_HAZARD_CONTRACT_V1''"
    and "get b ''count_class_profile_code'' = JStr ''GOVERNANCE_IMPACT_COUNT_CLASS_V1''"
    by (rule mid; simp only: contract_frame_def list.set insert_iff simp_thms)+
  show "get b f = JStr (ids f)" if "f \<in> {''policy_snapshot_hash'', ''access_binding_hash'',
      ''dependency_topology_hash'', ''simulation_basis_hash''}"
    using that by (elim insertE emptyE) (hypsubst, rule mid, simp only: contract_frame_def list.set insert_iff simp_thms)+
  show "get b f = JInt (counts f)"
    and "get b g = opt_str (expected_governance_impacted_count_class (JInt (counts f)))"
    if "(f, g) \<in> set governance_count_fields"
    using that by (auto simp: contract_counts_def intro!: counted intro: rev_image_eqI)
qed

lemma contract_gets:
  fixes H m ids counts approvals
  defines "c \<equiv> hazard_contract_for H m ids counts approvals"
  shows "get c ''privilege_gain_score'' = JInt (privilege_gain m)"
    and "get c ''scope_expansion_score'' = JInt (scope_expansion m)"
    and "get c ''masking_relaxation_score'' = JInt (masking_relaxation m)"
    and "get c ''impact_radius_lower_score'' = JInt (radius_lower m)"
    and "get c ''impact_radius_upper_score'' = JInt (radius_upper m)"
    and "get c ''simulation_confidence_score'' = JInt (confidence m)"
    and "get c ''predictability_score'' = JInt (predictability m)"
    and "get c ''policy_risk_score'' = JInt (risk_of m)"
    and "get c ''approval_necessity_score'' = JInt (necessity_of m)"
    and "get c ''bounded_safe_mutation'' = JInt (of_bool (safe_of m))"
    and "get c ''approval_requirement'' = JStr (requirement_name (requirement_of m))"
    and "get c ''commit_authority_posture'' = JStr (posture_name (posture_of m))"
proof -
  have entry: "get c f = v" if "(f, v) \<in> set (contract_scores m)" "f \<noteq> ''hazard_contract_hash''" for f v
    unfolding c_def contract_body [OF that(2)] by (rule body_entry) (simp add: hazard_body_def that(1))
  show "get c ''privilege_gain_score'' = JInt (privilege_gain m)"
    "get c ''scope_expansion_score'' = JInt (scope_expansion m)"
    "get c ''masking_relaxation_score'' = JInt (masking_relaxation m)"
    "get c ''impact_radius_lower_score'' = JInt (radius_lower m)"
    "get c ''impact_radius_upper_score'' = JInt (radius_upper m)"
    "get c ''simulation_confidence_score'' = JInt (confidence m)"
    "get c ''predictability_score'' = JInt (predictability m)"
    "get c ''policy_risk_score'' = JInt (risk_of m)"
    "get c ''approval_necessity_score'' = JInt (necessity_of m)"
    "get c ''bounded_safe_mutation'' = JInt (of_bool (safe_of m))"
    "get c ''approval_requirement'' = JStr (requirement_name (requirement_of m))"
    "get c ''commit_authority_posture'' = JStr (posture_name (posture_of m))"
    by (rule entry, simp only: contract_scores_def list.set insert_iff simp_thms, simp)+
qed

lemma mutation_of_contract [simp]: "mutation_of (hazard_contract_for H m ids counts approvals) = m"
  by (simp add: mutation_of_def int_at_def contract_gets)

lemma scores_range:
  "0 \<le> risk_of m" "risk_of m \<le> 100" "0 \<le> necessity_of m" "necessity_of m \<le> 100"
  by (simp_all add: risk_of_def necessity_of_def risk_by_integers_def necessity_by_integers_def
      score_by_integers_range)

lemma contract_sequences:
  "validate_sorted_string_sequence (JList (map JStr (contract_reasons m))) loc True = Inr []"
  "sorted approvals \<Longrightarrow> validate_sorted_string_sequence (JList (map JStr approvals)) loc True = Inr []"
  by (simp_all add: validate_sorted_string_sequence_def contract_reasons_def sorted_sort_id list_all_iff)

lemma contract_shape:
  assumes "in_bounds m" "\<And>v. H v \<noteq> []" "\<And>f. ids f \<noteq> []" "\<And>f. 0 \<le> counts f" "sorted approvals"
  shows "hazard_shape_issues (hazard_contract_for H m ids counts approvals) loc = Inr []"
  unfolding hazard_shape_clean
proof (intro conjI)
  let ?c = "hazard_contract_for H m ids counts approvals"
  show "\<forall>f \<in> {''hazard_contract_hash'', ''policy_snapshot_hash'', ''access_binding_hash'',
      ''dependency_topology_hash'', ''simulation_basis_hash''}. nonempty_str (get ?c f)"
    using assms(2,3) by (simp add: contract_hash contract_body body_gets(9))
  show "\<forall>(f, order) \<in> {(''risk_driver_codes'', GOVERNANCE_MUTATION_RISK_DRIVER_CODES),
      (''approval_trigger_codes'', GOVERNANCE_MUTATION_APPROVAL_TRIGGER_CODES),
      (''confidence_limiter_codes'', GOVERNANCE_MUTATION_CONFIDENCE_LIMITER_CODES),
      (''bounded_safety_blocker_codes'', GOVERNANCE_MUTATION_BOUNDED_SAFETY_BLOCKER_CODES)}.
      validate_ordered_enum_sequence (get ?c f) loc order = Inr []"
    by (simp add: contract_body body_gets(1-4) risk_drivers_ordered trigger_codes_ordered limiters_ordered
        blockers_ordered)
  show "\<forall>f \<in> {''required_approvals'', ''reason_codes''}.
      validate_sorted_string_sequence (get ?c f) loc True = Inr []"
    using assms(5) by (simp add: contract_body body_gets(5,6) contract_sequences)
  show "\<forall>f \<in> set governance_score_fields. int_in_range (get ?c f)"
    using assms(1) by (simp add: governance_score_fields_def contract_gets int_in_range_def in_bounds_def scores_range)
  have "is_non_negative_int (get ?c f)" if fg: "(f, g) \<in> set governance_count_fields" for f g
  proof -
    have "f \<noteq> ''hazard_contract_hash''" using fg by (auto simp: governance_count_fields_def)
    then show ?thesis using assms(4) by (simp add: contract_body body_gets(10) [OF fg] is_non_negative_int_def)
  qed
  then show "\<forall>(f, g) \<in> set governance_count_fields. is_non_negative_int (get ?c f)" by blast
qed (simp_all add: contract_body body_gets(7,8) contract_gets in_zero_one_def py_eq_JInt_right num_is_def)

lemma contract_derivations:
  fixes H m ids counts approvals
  defines "c \<equiv> hazard_contract_for H m ids counts approvals"
  shows "expected_governance_mutation_risk_driver_codes c
      = expected_governance_mutation_risk_driver_codes (contract_scores m)"
    and "expected_governance_mutation_bounded_safety_blocker_codes c
      = expected_governance_mutation_bounded_safety_blocker_codes (contract_scores m)"
    and "expected_governance_policy_risk_score c = Some (risk_of m)"
    and "expected_governance_approval_necessity_score c = Some (necessity_of m)"
    and "expected_governance_bounded_safe_mutation c = Some (of_bool (safe_of m))"
    and "expected_governance_approval_requirement c = Some (requirement_name (requirement_of m))"
    and "expected_governance_mutation_approval_trigger_codes c = Inr (trigger_codes (requirement_of m))"
    and "expected_governance_commit_authority_posture (get c ''simulation_confidence_score'')
      (get c ''predictability_score'') (get c ''bounded_safe_mutation'') = Some (posture_name (posture_of m))"
  unfolding c_def
  subgoal by (simp only: expected_governance_mutation_risk_driver_codes_def contract_gets score_gets)
  subgoal by (simp only: expected_governance_mutation_bounded_safety_blocker_codes_def contract_gets score_gets)
  subgoal by (simp add: expected_risk_by_integers contract_gets risk_of_def)
  subgoal by (simp add: expected_necessity_by_integers contract_gets necessity_of_def)
  subgoal by (simp add: expected_governance_bounded_safe_mutation_def contract_gets int_at_def safe_of_def)
  subgoal by (simp add: expected_governance_approval_requirement_def contract_gets requirement_of_def num_is_def
        py_eq_JInt_right)
  subgoal by (cases "requirement_of m")
      (simp_all add: expected_governance_mutation_approval_trigger_codes_def contract_gets trigger_codes_def
        approval_requirement_codes_def)
  subgoal by (simp add: expected_governance_commit_authority_posture_def contract_gets posture_of_def num_is_def
        py_eq_JInt_right)
  done

lemma count_class_known: "0 \<le> n \<Longrightarrow> \<exists>s. expected_governance_impacted_count_class (JInt n) = Some s"
  by (simp add: expected_governance_impacted_count_class_def)

lemma contract_derivation:
  assumes "in_bounds m" "\<And>f. 0 \<le> counts f"
  shows "hazard_derivation_issues (hazard_contract_for H m ids counts approvals) loc = Inr []"
  unfolding hazard_derivation_clean contract_derivations option.case
proof (intro conjI)
  let ?c = "hazard_contract_for H m ids counts approvals"
  show "\<not> uncertain_radius (\<lambda>lower upper. upper < lower) ?c"
    using assms(1) by (simp add: uncertain_radius_def contract_gets in_bounds_def)
  have "case expected_governance_impacted_count_class (get ?c f) of None \<Rightarrow> True | Some e \<Rightarrow> get ?c g = JStr e"
    if fg: "(f, g) \<in> set governance_count_fields" for f g
  proof -
    have "f \<noteq> ''hazard_contract_hash''" "g \<noteq> ''hazard_contract_hash''"
      using fg by (auto simp: governance_count_fields_def)
    moreover obtain s where "expected_governance_impacted_count_class (JInt (counts f)) = Some s"
      using count_class_known assms(2) by blast
    ultimately show ?thesis by (simp add: contract_body body_gets(10,11) [OF fg])
  qed
  then show "\<forall>(f, g) \<in> set governance_count_fields.
      case expected_governance_impacted_count_class (get ?c f) of None \<Rightarrow> True | Some e \<Rightarrow> get ?c g = JStr e"
    by blast
qed (simp_all add: contract_body body_gets(1-4) contract_gets py_eq_JInt_right num_is_def contract_derivations)

lemma contract_reason_codes:
  "expected_reason_codes (hazard_contract_for H m ids counts approvals) = Inr (map JStr
     (concat (map snd (contract_codes m)) @
     (if safe_of m then [''BOUNDED_SAFE_MUTATION''] else []) @
     (if radius_lower m < radius_upper m then [''UNCERTAIN_BLAST_RADIUS''] else [])))"
proof -
  have strs: "list_all hashable (map JStr xs)" "comparable (map JStr xs)" for xs
    by (simp_all add: list_all_iff comparable_def)
  have lists: "list_or_empty (JList (map JStr xs)) = Inr (map JStr xs)" for xs
    by (simp add: list_or_empty_def)
  let ?c = "hazard_contract_for H m ids counts approvals"
  have flag: "py_eq (get ?c ''bounded_safe_mutation'') (JInt 1) \<longleftrightarrow> safe_of m"
    "uncertain_radius (\<lambda>lower upper. lower < upper) ?c \<longleftrightarrow> radius_lower m < radius_upper m"
    by (simp_all add: contract_gets py_eq_JInt_right num_is_def uncertain_radius_def)
  have parts: "mapE (\<lambda>f. list_or_empty (get ?c f)) [''risk_driver_codes'', ''approval_trigger_codes'',
      ''confidence_limiter_codes'', ''bounded_safety_blocker_codes''] = Inr (map (map JStr \<circ> snd) (contract_codes m))"
    by (simp add: contract_body body_gets(1-4) lists contract_codes_def)
  have codes: "concat (map (map JStr \<circ> snd) (contract_codes m)) @
      (if safe_of m then [JStr ''BOUNDED_SAFE_MUTATION''] else []) @
      (if radius_lower m < radius_upper m then [JStr ''UNCERTAIN_BLAST_RADIUS''] else []) = map JStr
      (concat (map snd (contract_codes m)) @ (if safe_of m then [''BOUNDED_SAFE_MUTATION''] else []) @
       (if radius_lower m < radius_upper m then [''UNCERTAIN_BLAST_RADIUS''] else []))"
    by (simp add: map_concat)
  show ?thesis
    unfolding expected_reason_codes_def parts bindE_Inr flag codes Let_def by (simp only: strs if_True simp_thms)
qed

lemma contract_posture:
  assumes "approvals = [] \<longleftrightarrow> safe_of m"
  shows "hazard_posture_issues H (hazard_contract_for H m ids counts approvals) loc = Inr []"
  unfolding hazard_posture_clean contract_derivations option.case
proof (intro conjI)
  let ?c = "hazard_contract_for H m ids counts approvals"
  show "in_strs (get ?c ''commit_authority_posture'') commit_postures = Inr True"
    by (cases "posture_of m") (simp_all add: contract_gets commit_postures_def)
  show "get ?c ''commit_authority_posture'' = JStr (posture_name (posture_of m))"
    by (rule contract_gets)
  show "approvals_issues Hazard_Safe_Requirement Hazard_Safe_Approvals Hazard_Approvals_Missing ?c loc = Inr []"
    using assms by (simp add: approvals_clean contract_gets contract_body body_gets(6) py_eq_JInt_right num_is_def
        requirement_of_def)
  show "case get ?c ''reason_codes'' of JList reasons \<Rightarrow>
      \<exists>codes. expected_reason_codes ?c = Inr codes \<and> (\<forall>code \<in> set codes. in_list code reasons) | _ \<Rightarrow> True"
    by (simp add: contract_body body_gets(5) contract_reason_codes contract_reasons_def image_iff)
  have hashed: "map (\<lambda>f. (f, get ?c f)) hazard_hash_fields
      = map (\<lambda>f. (f, get (hazard_body m ids counts approvals) f)) hazard_hash_fields"
  proof (rule map_cong [OF refl])
    fix f assume "f \<in> set hazard_hash_fields"
    moreover have "''hazard_contract_hash'' \<notin> set hazard_hash_fields" by (simp add: hazard_hash_fields_def)
    ultimately show "(f, get ?c f) = (f, get (hazard_body m ids counts approvals) f)"
      by (metis contract_body)
  qed
  show "case derive_governance_mutation_hazard_contract_hash H ?c of None \<Rightarrow> True
      | Some h \<Rightarrow> get ?c ''hazard_contract_hash'' = JStr h"
    by (simp only: derive_governance_mutation_hazard_contract_hash_def contract_hash hashed split: option.split)
       simp
qed

lemma no_mirrors: "hazard_mirror_issues c loc no_expectations = Inr []"
  by (simp add: hazard_mirror_issues_def mirror_issues_def no_expectations_def)

lemma contract_accepted:
  assumes "in_bounds m" and "\<And>v. H v \<noteq> []" and "\<And>f. ids f \<noteq> []" and "\<And>f. 0 \<le> counts f"
    and "sorted approvals" and "approvals = [] \<longleftrightarrow> safe_of m"
  shows "validate_governance_mutation_hazard_contract H (JObj (hazard_contract_for H m ids counts approvals)) loc
      no_expectations True = Inr ([], hazard_contract_for H m ids counts approvals)"
proof -
  have "hazard_contract_issues H (hazard_contract_for H m ids counts approvals) loc no_expectations = Inr []"
    using contract_shape [OF assms(1-5)] contract_derivation [OF assms(1,4)] contract_posture [OF assms(6)]
    by (simp add: hazard_contract_issues_def no_mirrors)
  then show ?thesis
    by (simp add: validate_governance_mutation_hazard_contract_def)
qed

text \<open>C15: every mutation with scores in bounds has an accepted contract. For every choice of the seven scores from 0
  to 100 with an ordered impact interval, all counts and identities, the contract that the derivations of the code
  fill in passes the validator without an issue, when the approvals are sorted and empty exactly for a bounded-safe
  mutation. So the conditions of the validator never contradict each other. \<open>H\<close> is any function with non-empty
  values, as the hexadecimal SHA-256 digest is.\<close>

theorem every_mutation_has_an_accepted_contract:
  assumes "in_bounds m" and "\<And>v. H v \<noteq> []" and "\<And>f. ids f \<noteq> []" and "\<And>f. 0 \<le> counts f"
    and "sorted approvals" and "approvals = [] \<longleftrightarrow> safe_of m"
  shows "validate_governance_mutation_hazard_contract H (JObj (hazard_contract_for H m ids counts approvals)) loc
      no_expectations True = Inr ([], hazard_contract_for H m ids counts approvals) \<and>
    mutation_of (hazard_contract_for H m ids counts approvals) = m"
  by (rule conjI [OF contract_accepted [OF assms] mutation_of_contract])

definition sample_mutation :: mutation where
  "sample_mutation = \<lparr>privilege_gain = 40, scope_expansion = 20, masking_relaxation = 0, radius_lower = 10,
     radius_upper = 30, confidence = 95, predictability = 90\<rparr>"

definition sample_safe_mutation :: mutation where
  "sample_safe_mutation = \<lparr>privilege_gain = 0, scope_expansion = 0, masking_relaxation = 0, radius_lower = 2,
     radius_upper = 4, confidence = 95, predictability = 90\<rparr>"

definition sample_hazard :: "mutation \<Rightarrow> string list \<Rightarrow> obj" where
  "sample_hazard m approvals = hazard_contract_for (\<lambda>_. ''digest'') m (\<lambda>_. ''id'') (\<lambda>_. 3) approvals"

lemma sample_facts:
  "in_bounds sample_mutation" "\<not> safe_of sample_mutation" "in_bounds sample_safe_mutation"
  "safe_of sample_safe_mutation"
  by (simp_all add: in_bounds_def safe_of_without_risk sample_mutation_def sample_safe_mutation_def)

lemma sample_assessment:
  "requirement_of sample_mutation = Single_Approver" "posture_of sample_mutation = Approval_Gated"
proof -
  have "risk_by_integers 40 20 0 30 = 27" "necessity_by_integers 27 30 = 28" by code_simp+
  then have "necessity_of sample_mutation = 28"
    by (simp add: necessity_of_def risk_of_def sample_mutation_def)
  then show "requirement_of sample_mutation = Single_Approver" "posture_of sample_mutation = Approval_Gated"
    using sample_facts(2) by (simp_all add: requirement_of_def posture_of_def sample_mutation_def)
qed

theorem every_mutation_has_an_accepted_contract_witness:
  "validate_governance_mutation_hazard_contract (\<lambda>_. ''digest'') (JObj (sample_hazard sample_mutation [''owner'']))
     ''simulation'' no_expectations True = Inr ([], sample_hazard sample_mutation [''owner'']) \<and>
   requirement_of sample_mutation = Single_Approver"
proof
  show "requirement_of sample_mutation = Single_Approver" by (rule sample_assessment)
  show "validate_governance_mutation_hazard_contract (\<lambda>_. ''digest'') (JObj (sample_hazard sample_mutation [''owner'']))
     ''simulation'' no_expectations True = Inr ([], sample_hazard sample_mutation [''owner''])"
    unfolding sample_hazard_def
    by (rule every_mutation_has_an_accepted_contract [THEN conjunct1]) (simp_all add: sample_facts)
qed

lemma sample_accepted:
  "validate_governance_mutation_hazard_contract (\<lambda>_. ''digest'') (JObj (sample_hazard sample_mutation [''owner'']))
     ''simulation'' no_expectations True = Inr ([], sample_hazard sample_mutation [''owner''])"
  "validate_governance_mutation_hazard_contract (\<lambda>_. ''digest'') (JObj (sample_hazard sample_safe_mutation []))
     ''simulation'' no_expectations True = Inr ([], sample_hazard sample_safe_mutation [])"
  unfolding sample_hazard_def by (rule contract_accepted; simp add: sample_facts)+

lemma sample_hazard_gets:
  "is_int (get (sample_hazard m approvals) ''bounded_safe_mutation'')"
  "mutation_of (sample_hazard m approvals) = m"
  "get (sample_hazard m approvals) ''approval_requirement'' = JStr (requirement_name (requirement_of m))"
  "get (sample_hazard m approvals) ''commit_authority_posture'' = JStr (posture_name (posture_of m))"
  by (simp_all add: sample_hazard_def contract_gets)

section \<open>What acceptance guarantees\<close>

lemma accepted_hazard_parts:
  assumes "validate_governance_mutation_hazard_contract H (JObj c) loc e required = Inr ([], d)"
  shows "d = c" "hazard_shape_issues c loc = Inr []" "hazard_derivation_issues c loc = Inr []"
    "hazard_posture_issues H c loc = Inr []" "hazard_mirror_issues c loc e = Inr []"
  using assms by (auto simp: validate_governance_mutation_hazard_contract_def hazard_contract_issues_def
      bindE_eq_Inr_iff)

text \<open>C7: an accepted hazard contract is the assessment the policy document prescribes. Its scores are in bounds and
  its interval is ordered, its risk and necessity are the computed ones, its flag says whether the mutation is bounded
  safe, its approval requirement and commit posture are those of the document, it names blockers, triggers and
  approvals exactly when the mutation is not bounded safe. The flag has to be an integer: see the next property.\<close>

theorem accepted_hazards_follow_the_policy:
  assumes "validate_governance_mutation_hazard_contract H (JObj c) loc e required = Inr ([], d)"
    and "is_int (get c ''bounded_safe_mutation'')" and "m = mutation_of c"
  shows "d = c \<and> in_bounds m \<and>
    as_int (get c ''policy_risk_score'') = Some (risk_of m) \<and>
    as_int (get c ''approval_necessity_score'') = Some (necessity_of m) \<and>
    as_int (get c ''bounded_safe_mutation'') = Some (of_bool (safe_of m)) \<and>
    get c ''approval_requirement'' = JStr (requirement_name (requirement_of m)) \<and>
    get c ''commit_authority_posture'' = JStr (posture_name (posture_of m)) \<and>
    (get c ''bounded_safety_blocker_codes'' = JList [] \<longleftrightarrow> safe_of m) \<and>
    (get c ''approval_trigger_codes'' = JList [] \<longleftrightarrow> safe_of m) \<and>
    (truthy (get c ''required_approvals'') \<longleftrightarrow> \<not> safe_of m)"
proof -
  note p = accepted_hazard_parts [OF assms(1)]
  note a = accepted_flag [OF p(2,3)]
  note r = accepted_requirement [OF p(2,3) assms(2)]
  have flag: "as_int (get c ''bounded_safe_mutation'') = Some (of_bool (safe_of (mutation_of c)))"
  proof -
    obtain i where i: "as_int (get c ''bounded_safe_mutation'') = Some i" using assms(2) by (auto simp: is_int_def)
    then show ?thesis
      using a(4) num_is_as_int [OF i, of "of_bool (safe_of (mutation_of c))"] by simp
  qed
  have "get c ''approval_trigger_codes'' = JList [] \<longleftrightarrow> safe_of (mutation_of c)"
    using p(3) r by (cases "requirement_of (mutation_of c)")
      (auto simp: hazard_derivation_clean expected_governance_mutation_approval_trigger_codes_def
        approval_requirement_codes_def requirement_of_def split: if_splits)
  then show ?thesis
    unfolding assms(3) using p(1) a(1-3) r flag accepted_posture [OF p(2-4)] accepted_blockers [OF p(2,3)] by blast
qed

theorem accepted_hazards_follow_the_policy_witness:
  "get (sample_hazard sample_mutation [''owner'']) ''approval_requirement'' = JStr ''SINGLE_APPROVER'' \<and>
   get (sample_hazard sample_mutation [''owner'']) ''commit_authority_posture'' = JStr ''APPROVAL_GATED''"
  using accepted_hazards_follow_the_policy [OF sample_accepted(1) sample_hazard_gets(1) refl] sample_assessment
  by (simp add: sample_hazard_gets)




section \<open>A flag that is not an integer\<close>

text \<open>The contract of a mutation with the flag \<open>0.0\<close>, the weakest approval requirement and any hash.\<close>

definition weakened_reasons :: "mutation \<Rightarrow> string list" where
  "weakened_reasons m = sort (remdups (expected_governance_mutation_risk_driver_codes (contract_scores m) @
     trigger_codes Single_Approver @
     expected_governance_mutation_confidence_limiter_codes (JInt (confidence m)) (JInt (predictability m)) @
     expected_governance_mutation_bounded_safety_blocker_codes (contract_scores m) @
     (if radius_lower m < radius_upper m then [''UNCERTAIN_BLAST_RADIUS''] else [])))"

definition weakened_contract ::
  "string \<Rightarrow> mutation \<Rightarrow> (string \<Rightarrow> string) \<Rightarrow> (string \<Rightarrow> int) \<Rightarrow> string list \<Rightarrow> obj" where
  "weakened_contract h m ids counts approvals =
    dict_set ''bounded_safe_mutation'' (JFloat (Finite 0))
     (dict_set ''approval_requirement'' (JStr (requirement_name Single_Approver))
      (dict_set ''approval_trigger_codes'' (JList (map JStr (trigger_codes Single_Approver)))
       (dict_set ''reason_codes'' (JList (map JStr (weakened_reasons m)))
        (hazard_contract_for (\<lambda>_. h) m ids counts approvals))))"

lemma weakened_gets:
  "get (weakened_contract h m ids counts approvals) ''bounded_safe_mutation'' = JFloat (Finite 0)"
  "get (weakened_contract h m ids counts approvals) ''approval_requirement'' = JStr (requirement_name Single_Approver)"
  "get (weakened_contract h m ids counts approvals) ''approval_trigger_codes''
     = JList (map JStr (trigger_codes Single_Approver))"
  "get (weakened_contract h m ids counts approvals) ''reason_codes'' = JList (map JStr (weakened_reasons m))"
  "f \<notin> {''bounded_safe_mutation'', ''approval_requirement'', ''approval_trigger_codes'', ''reason_codes''} \<Longrightarrow>
     get (weakened_contract h m ids counts approvals) f = get (hazard_contract_for (\<lambda>_. h) m ids counts approvals) f"
  by (simp_all add: weakened_contract_def)

lemma weakened_shape:
  assumes "in_bounds m" "h \<noteq> []" "\<And>f. ids f \<noteq> []" "\<And>f. 0 \<le> counts f" "sorted approvals"
  shows "hazard_shape_issues (weakened_contract h m ids counts approvals) loc = Inr []"
proof -
  have "validate_sorted_string_sequence (JList (map JStr (weakened_reasons m))) loc True = Inr []"
    by (rule contract_sequences(2)) (simp add: weakened_reasons_def)
  then show ?thesis
    using contract_shape [where H = "\<lambda>_. h", OF assms(1) _ assms(3-5)] assms(2) trigger_codes_ordered [of Single_Approver loc]
    unfolding hazard_shape_clean
    by (simp add: weakened_gets governance_score_fields_def governance_count_fields_def in_zero_one_def
        py_eq_JInt_right num_is_def)
qed

lemma weakened_derivation:
  assumes "in_bounds m" "\<not> safe_of m" "\<And>f. 0 \<le> counts f"
  shows "hazard_derivation_issues (weakened_contract h m ids counts approvals) loc = Inr []"
proof -
  let ?w = "weakened_contract h m ids counts approvals" and ?c = "hazard_contract_for (\<lambda>_. h) m ids counts approvals"
  have same: "expected_governance_mutation_risk_driver_codes ?w = expected_governance_mutation_risk_driver_codes ?c"
    "expected_governance_mutation_bounded_safety_blocker_codes ?w
      = expected_governance_mutation_bounded_safety_blocker_codes ?c"
    "expected_governance_policy_risk_score ?w = expected_governance_policy_risk_score ?c"
    "expected_governance_approval_necessity_score ?w = expected_governance_approval_necessity_score ?c"
    "expected_governance_bounded_safe_mutation ?w = expected_governance_bounded_safe_mutation ?c"
    "uncertain_radius R ?w = uncertain_radius R ?c" for R
    by (simp_all add: expected_governance_mutation_risk_driver_codes_def weakened_gets
        expected_governance_mutation_bounded_safety_blocker_codes_def expected_governance_policy_risk_score_def
        expected_governance_approval_necessity_score_def expected_governance_bounded_safe_mutation_def
        uncertain_radius_def int_at_def)
  have "expected_governance_approval_requirement ?w = None"
    by (simp add: expected_governance_approval_requirement_def weakened_gets)
  moreover have "expected_governance_mutation_approval_trigger_codes ?w = Inr (trigger_codes Single_Approver)"
    by (simp add: expected_governance_mutation_approval_trigger_codes_def weakened_gets trigger_codes_def
        approval_requirement_codes_def)
  moreover have "\<forall>(f, g) \<in> set governance_count_fields.
      case expected_governance_impacted_count_class (get ?w f) of None \<Rightarrow> True | Some e \<Rightarrow> get ?w g = JStr e"
  proof clarify
    fix f g assume fg: "(f, g) \<in> set governance_count_fields"
    have "case expected_governance_impacted_count_class (get ?c f) of None \<Rightarrow> True | Some e \<Rightarrow> get ?c g = JStr e"
      using contract_derivation [where H = "\<lambda>_. h" and loc = loc and ids = ids and approvals = approvals
          and counts = counts, OF assms(1,3)] fg unfolding hazard_derivation_clean by blast
    moreover have "get ?w f = get ?c f" "get ?w g = get ?c g"
      using fg by (auto simp: governance_count_fields_def weakened_gets)
    ultimately show "case expected_governance_impacted_count_class (get ?w f) of None \<Rightarrow> True | Some e \<Rightarrow> get ?w g = JStr e"
      by (simp only:)
  qed
  ultimately show ?thesis
    using assms(1,2) unfolding hazard_derivation_clean same contract_derivations
    by (simp add: weakened_gets contract_gets contract_body body_gets(1,3,4) uncertain_radius_def in_bounds_def
        py_eq_JInt_right num_is_def)
qed

lemma weakened_posture:
  assumes "\<not> safe_of m" "approvals \<noteq> []"
  shows "hazard_posture_issues H (weakened_contract h m ids counts approvals) loc = Inr []"
proof -
  let ?w = "weakened_contract h m ids counts approvals" and ?c = "hazard_contract_for (\<lambda>_. h) m ids counts approvals"
  let ?codes = "expected_governance_mutation_risk_driver_codes (contract_scores m) @
     trigger_codes Single_Approver @
     expected_governance_mutation_confidence_limiter_codes (JInt (confidence m)) (JInt (predictability m)) @
     expected_governance_mutation_bounded_safety_blocker_codes (contract_scores m) @
     (if radius_lower m < radius_upper m then [''UNCERTAIN_BLAST_RADIUS''] else [])"
  have p: "hazard_posture_issues (\<lambda>_. h) ?c loc = Inr []"
    using assms by (intro contract_posture) simp
  have "uncertain_radius (\<lambda>lower upper. lower < upper) ?w \<longleftrightarrow> radius_lower m < radius_upper m"
    by (simp add: uncertain_radius_def weakened_gets contract_gets)
  moreover have "list_or_empty (JList (map JStr xs)) = Inr (map JStr xs)" for xs
    by (simp add: list_or_empty_def)
  moreover have "list_all hashable (map JStr xs)" "comparable (map JStr xs)" for xs
    by (simp_all add: list_all_iff comparable_def)
  ultimately have "expected_reason_codes ?w = Inr (map JStr ?codes)"
    by (simp add: expected_reason_codes_def weakened_gets contract_body body_gets(1,3,4) py_eq_JInt_right num_is_def
        comparable_def list_all_iff ball_Un)
  moreover have "\<forall>code \<in> set (map JStr xs). in_list code (map JStr (sort (remdups xs)))" for xs
    by auto
  ultimately have reasons: "\<exists>codes. expected_reason_codes ?w = Inr codes \<and>
      (\<forall>code \<in> set codes. in_list code (map JStr (weakened_reasons m)))"
    unfolding weakened_reasons_def by blast
  have "derive_governance_mutation_hazard_contract_hash H ?w = None"
    by (simp add: derive_governance_mutation_hazard_contract_hash_def hazard_int_fields_def weakened_gets(1))
  then show ?thesis
    using p reasons assms unfolding hazard_posture_clean
    by (simp add: weakened_gets contract_gets approvals_clean contract_body body_gets(6) py_eq_JInt_right num_is_def
        expected_governance_commit_authority_posture_def posture_of_def)
qed

text \<open>C37: a flag that is a float escapes the approval ladder. For every mutation that is not bounded safe there is an
  accepted contract with its scores that asks for a single approver only, whatever its approval necessity, and whose
  hash is any non-empty string: with \<open>bounded_safe_mutation\<close> \<open>0.0\<close>, which equals \<open>0\<close>, neither the expected
  requirement nor the hash is derived, so neither is compared.\<close>

theorem float_flag_escapes_the_ladder:
  assumes "in_bounds m" "\<not> safe_of m" "h \<noteq> []" "\<And>f. ids f \<noteq> []" "\<And>f. 0 \<le> counts f"
    and "sorted approvals" "approvals \<noteq> []"
  shows "validate_governance_mutation_hazard_contract H (JObj (weakened_contract h m ids counts approvals)) loc
      no_expectations True = Inr ([], weakened_contract h m ids counts approvals) \<and>
    mutation_of (weakened_contract h m ids counts approvals) = m \<and>
    get (weakened_contract h m ids counts approvals) ''approval_requirement'' = JStr ''SINGLE_APPROVER'' \<and>
    get (weakened_contract h m ids counts approvals) ''hazard_contract_hash'' = JStr h"
proof -
  have "hazard_contract_issues H (weakened_contract h m ids counts approvals) loc no_expectations = Inr []"
    using weakened_shape [OF assms(1,3-6)] weakened_derivation [OF assms(1,2,5)] weakened_posture [OF assms(2,7)]
    by (simp add: hazard_contract_issues_def no_mirrors)
  moreover have "mutation_of (weakened_contract h m ids counts approvals) = m"
    by (simp add: mutation_of_def int_at_def weakened_gets contract_gets)
  ultimately show ?thesis
    by (simp add: validate_governance_mutation_hazard_contract_def weakened_gets contract_hash)
qed

definition sample_grave_mutation :: mutation where
  "sample_grave_mutation = \<lparr>privilege_gain = 100, scope_expansion = 100, masking_relaxation = 100, radius_lower = 100,
     radius_upper = 100, confidence = 95, predictability = 90\<rparr>"

theorem float_flag_escapes_the_ladder_witness:
  "(\<exists>c. validate_governance_mutation_hazard_contract (\<lambda>_. ''digest'') (JObj c) ''simulation'' no_expectations True
       = Inr ([], c) \<and> mutation_of c = sample_grave_mutation \<and>
       get c ''approval_requirement'' = JStr ''SINGLE_APPROVER'') \<and>
   requirement_of sample_grave_mutation = Advisory_Quorum"
proof
  have "risk_by_integers 100 100 100 100 = 100" "necessity_by_integers 100 100 = 100" by code_simp+
  then have "necessity_of sample_grave_mutation = 100"
    by (simp add: necessity_of_def risk_of_def sample_grave_mutation_def)
  then show "requirement_of sample_grave_mutation = Advisory_Quorum"
    by (simp add: requirement_of_def safe_of_def sample_grave_mutation_def)
  have "in_bounds sample_grave_mutation" "\<not> safe_of sample_grave_mutation"
    by (simp_all add: in_bounds_def safe_of_def sample_grave_mutation_def)
  then show "\<exists>c. validate_governance_mutation_hazard_contract (\<lambda>_. ''digest'') (JObj c) ''simulation'' no_expectations True
       = Inr ([], c) \<and> mutation_of c = sample_grave_mutation \<and>
       get c ''approval_requirement'' = JStr ''SINGLE_APPROVER''"
    using float_flag_escapes_the_ladder [where H = "\<lambda>_. ''digest''" and loc = "''simulation''" and h = "''forged''"
        and ids = "\<lambda>_. ''id''" and counts = "\<lambda>_. 3" and approvals = "[''owner'']" and m = sample_grave_mutation]
    by (intro exI [of _ "weakened_contract ''forged'' sample_grave_mutation (\<lambda>_. ''id'') (\<lambda>_. 3) [''owner'']"]) simp
qed

end
