(* ===== verification/Governance_Submission.thy ===== *)
theory Governance_Submission
  imports Governance_Basket Governance_Contract
begin

text \<open>
  What an accepted change basket with direct submission rests on: one reviewed hazard contract, shared by every staged
  group, whose simulation is trusted enough to commit.
\<close>

section \<open>The sets of the loop\<close>

lemma set_somes: "set (somes xs) = {x. Some x \<in> set xs}"
  by (induction xs rule: somes.induct) auto

lemma set_set_of [simp]: "set (set_of xs) = {x. Some x \<in> set xs}"
  by (simp add: set_of_def set_somes)

lemma one_member: "set_of xs = [y] \<Longrightarrow> Some x \<in> set xs \<Longrightarrow> x = y"
  using set_set_of [of xs] by (auto simp del: set_set_of)

lemma one_hash_clean:
  "one_hash_issues i j loc active hashes = Inr [] \<longleftrightarrow> (\<exists>h. hashes = [h] \<and> active = JStr h)"
  by (auto simp: one_hash_issues_def notE_Inr_iff in_strs_True_iff length_Suc_conv)

lemma one_pair_clean:
  "one_pair_issues loc simulation topology pairs = Inr [] \<longleftrightarrow>
     (\<exists>s t. pairs = [(s, t)] \<and> simulation = JStr s \<and> topology = JStr t)"
  by (auto simp: one_pair_issues_def length_Suc_conv)

lemma wrap_Nil [simp]: "wrap f is = [] \<longleftrightarrow> is = []"
  by (simp add: wrap_def)

lemma mapE_Inr_iff: "mapE f xs = Inr ys \<longleftrightarrow> list_all2 (\<lambda>x y. f x = Inr y) xs ys"
  by (induction xs arbitrary: ys) (auto simp: bindE_eq_Inr_iff list_all2_Cons1)

lemma list_all2_member: "list_all2 R xs ys \<Longrightarrow> x \<in> set xs \<Longrightarrow> \<exists>y \<in> set ys. R x y"
  by (induction rule: list_all2_induct) auto

section \<open>Accepted contracts\<close>

lemma accepted_hazard_object:
  assumes "validate_governance_mutation_hazard_contract H v loc e required = Inr ([], d)" "required \<or> v \<noteq> JNull"
  shows "v = JObj d" "hazard_shape_issues d loc = Inr []" "hazard_derivation_issues d loc = Inr []"
    "hazard_posture_issues H d loc = Inr []"
proof -
  show v: "v = JObj d"
    using assms by (auto simp: validate_governance_mutation_hazard_contract_def bindE_eq_Inr_iff split: json.splits if_splits)
  show "hazard_shape_issues d loc = Inr []" "hazard_derivation_issues d loc = Inr []"
    "hazard_posture_issues H d loc = Inr []"
    using accepted_hazard_parts [of H d loc e required d] assms(1) by (simp_all add: v)
qed

lemma accepted_basis_object:
  assumes "validate_governance_mutation_basis_contract H v loc e required = Inr ([], d)" "required \<or> v \<noteq> JNull"
  shows "v = JObj d" "basis_contract_issues H d loc e = Inr []"
  using assms
  by (auto simp: validate_governance_mutation_basis_contract_def bindE_eq_Inr_iff split: json.splits if_splits)

lemma nonempty_str_iff: "nonempty_str v \<longleftrightarrow> (\<exists>s. v = JStr s \<and> s \<noteq> [])"
  by (cases v) auto

lemma hazard_identities:
  assumes "hazard_shape_issues c loc = Inr []"
  obtains h s t where "get c ''hazard_contract_hash'' = JStr h" "get c ''simulation_basis_hash'' = JStr s"
    "get c ''dependency_topology_hash'' = JStr t"
proof -
  have "\<forall>f \<in> {''hazard_contract_hash'', ''policy_snapshot_hash'', ''access_binding_hash'',
      ''dependency_topology_hash'', ''simulation_basis_hash''}. nonempty_str (get c f)"
    using assms unfolding hazard_shape_clean by (elim conjE)
  then have "nonempty_str (get c ''hazard_contract_hash'')" "nonempty_str (get c ''simulation_basis_hash'')"
    "nonempty_str (get c ''dependency_topology_hash'')" by simp_all
  then show thesis using that unfolding nonempty_str_iff by metis
qed

lemma basis_identity:
  assumes "basis_contract_issues H c loc e = Inr []"
  obtains h where "get c ''basis_contract_hash'' = JStr h"
proof -
  have "nonempty_str (get c ''basis_contract_hash'')"
    using assms by (simp add: basis_contract_issues_def)
  then show thesis using that unfolding nonempty_str_iff by blast
qed

text \<open>Contracts with the same verified hash have the same fields, when the hash separates them.\<close>

lemma hash_binds_the_hazard:
  assumes "hazard_posture_issues H c loc = Inr []" "hazard_posture_issues H c' loc' = Inr []"
    and "get c ''hazard_contract_hash'' = get c' ''hazard_contract_hash''"
    and "derive_governance_mutation_hazard_contract_hash H c \<noteq> None"
    and "derive_governance_mutation_hazard_contract_hash H c' \<noteq> None"
    and "inj H" and "f \<in> set hazard_hash_fields"
  shows "get c f = get c' f"
proof -
  have "derive_governance_mutation_hazard_contract_hash H c = derive_governance_mutation_hazard_contract_hash H c'"
    using assms(1-5) by (auto simp: hazard_posture_clean split: option.splits)
  then have "H (JObj (map (\<lambda>f. (f, get c f)) hazard_hash_fields)) = H (JObj (map (\<lambda>f. (f, get c' f)) hazard_hash_fields))"
    using assms(4,5) by (simp only: derive_governance_mutation_hazard_contract_hash_def option.inject split: if_splits) simp_all
  then have "map (\<lambda>f. (f, get c f)) hazard_hash_fields = map (\<lambda>f. (f, get c' f)) hazard_hash_fields"
    using assms(6) by (simp only: inj_eq json.inject)
  then show ?thesis using assms(7) by (simp only: map_eq_conv) blast
qed

lemma mutation_of_cong: "(\<And>f. f \<in> set hazard_hash_fields \<Longrightarrow> get c f = get c' f) \<Longrightarrow> mutation_of c = mutation_of c'"
  by (simp add: mutation_of_def int_at_def hazard_hash_fields_def)

section \<open>A staged group\<close>

lemma check_group_clean:
  assumes "check_group H policy loc grp = Inr ([], s)"
  obtains h b e where "get grp ''mutation_hazard'' = JObj h" "get grp ''mutation_basis_contract'' = JObj b"
    "hazard_shape_issues h loc = Inr []" "hazard_derivation_issues h loc = Inr []" "hazard_posture_issues H h loc = Inr []"
    "basis_contract_issues H b loc e = Inr []"
    "group_hazard_hash s = str_of (get h ''hazard_contract_hash'')"
    "group_basis_hash s = str_of (get b ''basis_contract_hash'')"
    "group_requirement s = str_of (get h ''approval_requirement'')"
    "group_pair s = (case (get h ''simulation_basis_hash'', get h ''dependency_topology_hash'') of
           (JStr simulation, JStr topology) \<Rightarrow> Some (simulation, topology) | _ \<Rightarrow> None)"
proof -
  obtain is1 h is2 b e where
    h: "validate_governance_mutation_hazard_contract H (get grp ''mutation_hazard'') loc
        (no_expectations \<lparr>expected_policy_snapshot_hash := policy\<rparr>) True = Inr (is1, h)"
    and b: "validate_governance_mutation_basis_contract H (get grp ''mutation_basis_contract'') loc e True = Inr (is2, b)"
    and r: "is1 = []" "is2 = []" "group_hazard_hash s = str_of (get h ''hazard_contract_hash'')"
      "group_basis_hash s = str_of (get b ''basis_contract_hash'')"
      "group_requirement s = str_of (get h ''approval_requirement'')"
      "group_pair s = (case (get h ''simulation_basis_hash'', get h ''dependency_topology_hash'') of
           (JStr simulation, JStr topology) \<Rightarrow> Some (simulation, topology) | _ \<Rightarrow> None)"
    using assms unfolding check_group_def by (auto simp: bindE_eq_Inr_iff split: prod.splits)
  note ho = accepted_hazard_object [OF h [unfolded r(1)]] and bo = accepted_basis_object [OF b [unfolded r(2)]]
  show thesis using that [OF ho(1) bo(1) ho(2-4) bo(2) r(3-6)] by simp
qed

section \<open>Direct submission\<close>

lemma accepted_basket:
  fixes basket
  defines "atomic \<equiv> get basket ''simulation_atomicity'' = JStr ''ATOMIC''"
  assumes "validate_change_basket H policy basket loc = Inr ([], hazard, basis, staged)"
  obtains he be checked where
    "validate_governance_mutation_hazard_contract H (get basket ''active_mutation_hazard_or_null'') loc he atomic
       = Inr ([], hazard)"
    "validate_governance_mutation_basis_contract H (get basket ''active_mutation_basis_contract_or_null'') loc be
       atomic = Inr ([], basis)"
    "mapE (check_group H policy loc) (basket_groups basket) = Inr checked" "\<forall>c \<in> set checked. fst c = []"
    "staged = map snd checked"
    "(if atomic then atomic_issues loc basket hazard basis (map snd checked) else Inr []) = Inr []"
    "(if truthy (get basket ''submission_enabled'')
      then submission_issues loc basket hazard basis (map snd checked) else Inr []) = Inr []"
  using assms(2) unfolding validate_change_basket_def Let_def atomic_def [symmetric]
  by (clarsimp simp: bindE_eq_Inr_iff split: prod.splits)

lemma atomic_agreement:
  assumes "atomic_issues loc basket hazard basis groups = Inr []"
  obtains hh bh sim topo where
    "get hazard ''hazard_contract_hash'' = JStr hh" "set_of (map group_hazard_hash groups) = [hh]"
    "get basis ''basis_contract_hash'' = JStr bh" "set_of (map group_basis_hash groups) = [bh]"
    "get basket ''active_simulation_basis_hash'' = JStr sim" "get basket ''active_dependency_topology_hash'' = JStr topo"
    "set_of (map group_pair groups) = [(sim, topo)]"
  using assms by (auto simp: atomic_issues_def Let_def one_hash_clean one_pair_clean)

lemma group_agreement:
  assumes "check_group H policy loc grp = Inr ([], s)" "s \<in> set groups"
    and "set_of (map group_hazard_hash groups) = [hh]" "set_of (map group_basis_hash groups) = [bh]"
    and "set_of (map group_pair groups) = [(sim, topo)]"
  obtains h b where "get grp ''mutation_hazard'' = JObj h" "get grp ''mutation_basis_contract'' = JObj b"
    "hazard_posture_issues H h loc = Inr []" "get h ''hazard_contract_hash'' = JStr hh"
    "get b ''basis_contract_hash'' = JStr bh" "get h ''simulation_basis_hash'' = JStr sim"
    "get h ''dependency_topology_hash'' = JStr topo"
proof -
  from assms(1) obtain h b e where g: "get grp ''mutation_hazard'' = JObj h" "get grp ''mutation_basis_contract'' = JObj b"
    "hazard_shape_issues h loc = Inr []" "hazard_derivation_issues h loc = Inr []" "hazard_posture_issues H h loc = Inr []"
    "basis_contract_issues H b loc e = Inr []"
    "group_hazard_hash s = str_of (get h ''hazard_contract_hash'')"
    "group_basis_hash s = str_of (get b ''basis_contract_hash'')"
    "group_requirement s = str_of (get h ''approval_requirement'')"
    "group_pair s = (case (get h ''simulation_basis_hash'', get h ''dependency_topology_hash'') of
           (JStr simulation, JStr topology) \<Rightarrow> Some (simulation, topology) | _ \<Rightarrow> None)"
    by (rule check_group_clean)
  obtain x u v where x: "get h ''hazard_contract_hash'' = JStr x" "get h ''simulation_basis_hash'' = JStr u"
    "get h ''dependency_topology_hash'' = JStr v" using hazard_identities [OF g(3)] .
  obtain y where y: "get b ''basis_contract_hash'' = JStr y" using basis_identity [OF g(6)] .
  have members: "Some x \<in> set (map group_hazard_hash groups)" "Some y \<in> set (map group_basis_hash groups)"
    "Some (u, v) \<in> set (map group_pair groups)"
    using assms(2) g(7,8,10) by (force simp: x y str_of_def)+
  have "x = hh" "y = bh" "(u, v) = (sim, topo)"
    using one_member [OF assms(3) members(1)] one_member [OF assms(4) members(2)] one_member [OF assms(5) members(3)]
    by blast+
  then show thesis using that [OF g(1,2,5)] x y by simp
qed

text \<open>An accepted atomic basket: the active contracts are present and accepted, and every group carries their hashes.\<close>

lemma atomic_basket:
  assumes "validate_change_basket H policy basket loc = Inr ([], hazard, basis, staged)"
    and atomic: "get basket ''simulation_atomicity'' = JStr ''ATOMIC''"
  shows "get basket ''active_mutation_hazard_or_null'' = JObj hazard"
    and "get basket ''active_mutation_basis_contract_or_null'' = JObj basis"
    and "hazard_shape_issues hazard loc = Inr []" and "hazard_derivation_issues hazard loc = Inr []"
    and "hazard_posture_issues H hazard loc = Inr []" and "\<exists>e. basis_contract_issues H basis loc e = Inr []"
    and "\<exists>hh bh. get hazard ''hazard_contract_hash'' = JStr hh \<and> get basis ''basis_contract_hash'' = JStr bh"
    and "basket_groups basket \<noteq> []"
    and "\<And>grp. grp \<in> set (basket_groups basket) \<Longrightarrow> \<exists>h b.
      get grp ''mutation_hazard'' = JObj h \<and> get grp ''mutation_basis_contract'' = JObj b \<and>
      get h ''hazard_contract_hash'' = get hazard ''hazard_contract_hash'' \<and>
      get b ''basis_contract_hash'' = get basis ''basis_contract_hash'' \<and>
      get h ''simulation_basis_hash'' = get basket ''active_simulation_basis_hash'' \<and>
      get h ''dependency_topology_hash'' = get basket ''active_dependency_topology_hash'' \<and>
      hazard_posture_issues H h loc = Inr []"
proof -
  let ?atomic = "get basket ''simulation_atomicity'' = JStr ''ATOMIC''"
  from accepted_basket [OF assms(1)] obtain he be checked where
    vh: "validate_governance_mutation_hazard_contract H (get basket ''active_mutation_hazard_or_null'') loc he ?atomic
       = Inr ([], hazard)"
    and vb: "validate_governance_mutation_basis_contract H (get basket ''active_mutation_basis_contract_or_null'') loc be
       ?atomic = Inr ([], basis)"
    and m: "mapE (check_group H policy loc) (basket_groups basket) = Inr checked" "\<forall>c \<in> set checked. fst c = []"
      "staged = map snd checked"
    and ai: "(if ?atomic then atomic_issues loc basket hazard basis (map snd checked) else Inr []) = Inr []"
    and si: "(if truthy (get basket ''submission_enabled'')
      then submission_issues loc basket hazard basis (map snd checked) else Inr []) = Inr []" .
  note ho = accepted_hazard_object [OF vh [unfolded eqTrueI [OF atomic]], simplified]
    and bo = accepted_basis_object [OF vb [unfolded eqTrueI [OF atomic]], simplified]
  show "get basket ''active_mutation_hazard_or_null'' = JObj hazard"
    "get basket ''active_mutation_basis_contract_or_null'' = JObj basis"
    "hazard_shape_issues hazard loc = Inr []" "hazard_derivation_issues hazard loc = Inr []"
    "hazard_posture_issues H hazard loc = Inr []" "\<exists>e. basis_contract_issues H basis loc e = Inr []"
    using ho bo by blast+
  from ai atomic have "atomic_issues loc basket hazard basis (map snd checked) = Inr []" by simp
  from atomic_agreement [OF this] obtain hh bh sim topo where agree:
    "get hazard ''hazard_contract_hash'' = JStr hh" "set_of (map group_hazard_hash (map snd checked)) = [hh]"
    "get basis ''basis_contract_hash'' = JStr bh" "set_of (map group_basis_hash (map snd checked)) = [bh]"
    "get basket ''active_simulation_basis_hash'' = JStr sim" "get basket ''active_dependency_topology_hash'' = JStr topo"
    "set_of (map group_pair (map snd checked)) = [(sim, topo)]" .
  then show "\<exists>hh bh. get hazard ''hazard_contract_hash'' = JStr hh \<and> get basis ''basis_contract_hash'' = JStr bh"
    by blast
  have all2: "list_all2 (\<lambda>grp c. check_group H policy loc grp = Inr c) (basket_groups basket) checked"
    using m(1) by (simp add: mapE_Inr_iff)
  then show "basket_groups basket \<noteq> []" using agree(2) by (auto simp: set_of_def)
  fix grp assume "grp \<in> set (basket_groups basket)"
  then obtain c where c: "c \<in> set checked" "check_group H policy loc grp = Inr c"
    using list_all2_member [OF all2] by blast
  moreover have "c = ([], snd c)" using bspec [OF m(2) c(1)] by (simp add: prod_eq_iff)
  ultimately have "check_group H policy loc grp = Inr ([], snd c)" "snd c \<in> set (map snd checked)"
    using c by simp_all
  from group_agreement [OF this agree(2,4,7)]
  show "\<exists>h b. get grp ''mutation_hazard'' = JObj h \<and> get grp ''mutation_basis_contract'' = JObj b \<and>
      get h ''hazard_contract_hash'' = get hazard ''hazard_contract_hash'' \<and>
      get b ''basis_contract_hash'' = get basis ''basis_contract_hash'' \<and>
      get h ''simulation_basis_hash'' = get basket ''active_simulation_basis_hash'' \<and>
      get h ''dependency_topology_hash'' = get basket ''active_dependency_topology_hash'' \<and>
      hazard_posture_issues H h loc = Inr []"
    unfolding agree by metis
qed

text \<open>A hazard whose posture is not preview only was simulated with enough confidence.\<close>

lemma trusted_simulation:
  assumes "hazard_shape_issues c loc = Inr []" "hazard_derivation_issues c loc = Inr []" "hazard_posture_issues H c loc = Inr []"
    and "get c ''commit_authority_posture'' \<noteq> JStr ''PREVIEW_ONLY''"
  shows "80 \<le> int_at c ''simulation_confidence_score'' \<and> 75 \<le> int_at c ''predictability_score''"
  using accepted_posture(1) [OF assms(1-3)] assms(4)
  by (auto simp: posture_of_def mutation_of_def not_less split: if_splits)

lemma same_hash_same_mutation:
  assumes "hazard_posture_issues H c loc = Inr []" "hazard_posture_issues H c' loc' = Inr []"
    and "get c ''hazard_contract_hash'' = get c' ''hazard_contract_hash''"
  shows "inj H \<longrightarrow> derive_governance_mutation_hazard_contract_hash H c \<noteq> None \<longrightarrow>
    derive_governance_mutation_hazard_contract_hash H c' \<noteq> None \<longrightarrow> mutation_of c = mutation_of c'"
  using hash_binds_the_hazard [OF assms] by (blast intro: mutation_of_cong)

text \<open>What an accepted basket with direct submission enabled says, part by part.\<close>

lemma accepted_submission:
  assumes "validate_change_basket H policy basket loc = Inr ([], hazard, basis, staged)"
    and "truthy (get basket ''submission_enabled'')"
  shows "get basket ''simulation_atomicity'' = JStr ''ATOMIC'' \<and> \<not> truthy (get basket ''step_up_pending'') \<and>
      get basket ''active_mutation_hazard_or_null'' = JObj hazard \<and>
      get basket ''active_mutation_basis_contract_or_null'' = JObj basis"
    and "80 \<le> int_at hazard ''simulation_confidence_score'' \<and> 75 \<le> int_at hazard ''predictability_score''"
    and "basket_groups basket \<noteq> []"
    and "\<And>grp. grp \<in> set (basket_groups basket) \<Longrightarrow> \<exists>h b.
      get grp ''mutation_hazard'' = JObj h \<and> get grp ''mutation_basis_contract'' = JObj b \<and>
      get h ''hazard_contract_hash'' = get hazard ''hazard_contract_hash'' \<and>
      get b ''basis_contract_hash'' = get basis ''basis_contract_hash'' \<and>
      get h ''simulation_basis_hash'' = get basket ''active_simulation_basis_hash'' \<and>
      get h ''dependency_topology_hash'' = get basket ''active_dependency_topology_hash'' \<and>
      (inj H \<longrightarrow> derive_governance_mutation_hazard_contract_hash H h \<noteq> None \<longrightarrow>
        derive_governance_mutation_hazard_contract_hash H hazard \<noteq> None \<longrightarrow> mutation_of h = mutation_of hazard)"
proof -
  let ?atomic = "get basket ''simulation_atomicity'' = JStr ''ATOMIC''"
  from accepted_basket [OF assms(1)] obtain he be checked where
    vh: "validate_governance_mutation_hazard_contract H (get basket ''active_mutation_hazard_or_null'') loc he ?atomic
       = Inr ([], hazard)"
    and vb: "validate_governance_mutation_basis_contract H (get basket ''active_mutation_basis_contract_or_null'') loc be
       ?atomic = Inr ([], basis)"
    and m: "mapE (check_group H policy loc) (basket_groups basket) = Inr checked" "\<forall>c \<in> set checked. fst c = []"
      "staged = map snd checked"
    and ai: "(if ?atomic then atomic_issues loc basket hazard basis (map snd checked) else Inr []) = Inr []"
    and si: "(if truthy (get basket ''submission_enabled'')
      then submission_issues loc basket hazard basis (map snd checked) else Inr []) = Inr []" .
  from si assms(2) have s: "submission_issues loc basket hazard basis (map snd checked) = Inr []" by simp
  have atomic: ?atomic and step: "\<not> truthy (get basket ''step_up_pending'')"
    and live: "get hazard ''commit_authority_posture'' \<noteq> JStr ''PREVIEW_ONLY''"
    using s by (simp_all add: submission_issues_def)
  note ab = atomic_basket [OF assms(1) atomic]
  show "?atomic \<and> \<not> truthy (get basket ''step_up_pending'') \<and>
      get basket ''active_mutation_hazard_or_null'' = JObj hazard \<and>
      get basket ''active_mutation_basis_contract_or_null'' = JObj basis"
    using atomic step ab(1,2) by blast
  show "80 \<le> int_at hazard ''simulation_confidence_score'' \<and> 75 \<le> int_at hazard ''predictability_score''"
    using trusted_simulation [OF ab(3-5) live] .
  show "basket_groups basket \<noteq> []" by (rule ab(8))
  fix grp assume "grp \<in> set (basket_groups basket)"
  from ab(9) [OF this] obtain h b where g: "get grp ''mutation_hazard'' = JObj h"
    "get grp ''mutation_basis_contract'' = JObj b" "get h ''hazard_contract_hash'' = get hazard ''hazard_contract_hash''"
    "get b ''basis_contract_hash'' = get basis ''basis_contract_hash''"
    "get h ''simulation_basis_hash'' = get basket ''active_simulation_basis_hash''"
    "get h ''dependency_topology_hash'' = get basket ''active_dependency_topology_hash''"
    "hazard_posture_issues H h loc = Inr []" by blast
  show "\<exists>h b.
      get grp ''mutation_hazard'' = JObj h \<and> get grp ''mutation_basis_contract'' = JObj b \<and>
      get h ''hazard_contract_hash'' = get hazard ''hazard_contract_hash'' \<and>
      get b ''basis_contract_hash'' = get basis ''basis_contract_hash'' \<and>
      get h ''simulation_basis_hash'' = get basket ''active_simulation_basis_hash'' \<and>
      get h ''dependency_topology_hash'' = get basket ''active_dependency_topology_hash'' \<and>
      (inj H \<longrightarrow> derive_governance_mutation_hazard_contract_hash H h \<noteq> None \<longrightarrow>
        derive_governance_mutation_hazard_contract_hash H hazard \<noteq> None \<longrightarrow> mutation_of h = mutation_of hazard)"
    using g(1-6) same_hash_same_mutation [OF g(7) ab(5) g(3)] by blast
qed

text \<open>C8: direct submission rests on one reviewed hazard. When an accepted basket enables submission, it is atomic,
  no step-up is pending, its active hazard and basis contract are present, and the simulation of the active hazard is
  trusted: confidence at least 80 and predictability at least 75. There is a staged group, and every staged group
  carries a hazard and a basis contract with the very hashes of the active ones and the active simulation basis and
  topology. When the hash separates the contracts and both are verified, the group's mutation is the reviewed one.\<close>

theorem direct_submission_rests_on_one_hazard:
  assumes "validate_change_basket H policy basket loc = Inr ([], hazard, basis, staged)"
    and "truthy (get basket ''submission_enabled'')"
  shows "get basket ''simulation_atomicity'' = JStr ''ATOMIC'' \<and> \<not> truthy (get basket ''step_up_pending'') \<and>
      get basket ''active_mutation_hazard_or_null'' = JObj hazard \<and>
      get basket ''active_mutation_basis_contract_or_null'' = JObj basis \<and>
      80 \<le> int_at hazard ''simulation_confidence_score'' \<and> 75 \<le> int_at hazard ''predictability_score'' \<and>
      basket_groups basket \<noteq> [] \<and>
      (\<forall>grp \<in> set (basket_groups basket). \<exists>h b.
        get grp ''mutation_hazard'' = JObj h \<and> get grp ''mutation_basis_contract'' = JObj b \<and>
        get h ''hazard_contract_hash'' = get hazard ''hazard_contract_hash'' \<and>
        get b ''basis_contract_hash'' = get basis ''basis_contract_hash'' \<and>
        get h ''simulation_basis_hash'' = get basket ''active_simulation_basis_hash'' \<and>
        get h ''dependency_topology_hash'' = get basket ''active_dependency_topology_hash'' \<and>
        (inj H \<longrightarrow> derive_governance_mutation_hazard_contract_hash H h \<noteq> None \<longrightarrow>
          derive_governance_mutation_hazard_contract_hash H hazard \<noteq> None \<longrightarrow> mutation_of h = mutation_of hazard))"
  using accepted_submission [OF assms] by simp

section \<open>A submitted basket\<close>

definition sample_reviewed :: obj where
  "sample_reviewed = sample_hazard sample_mutation [''owner'']"

definition sample_basis :: obj where
  "sample_basis =
    [(''contract_version'', JStr ''GOVERNANCE_MUTATION_BASIS_CONTRACT_V1''), (''basis_contract_hash'', JStr ''digest''),
     (''policy_snapshot_hash'', JStr ''id''), (''access_binding_hash'', JStr ''id''),
     (''dependency_topology_hash'', JStr ''id''), (''simulation_basis_hash'', JStr ''id''),
     (''hazard_contract_hash'', JStr ''digest''), (''commit_authority_posture'', JStr ''APPROVAL_GATED''),
     (''approval_requirement'', JStr ''SINGLE_APPROVER''), (''bounded_safe_mutation'', JInt 0),
     (''required_approvals'', JList [JStr ''owner'']), (''simulation_confidence_score'', JInt 95),
     (''predictability_score'', JInt 90)]"

definition sample_staged :: obj where
  "sample_staged =
    [(''mutation_hazard'', JObj sample_reviewed), (''mutation_basis_contract'', JObj sample_basis),
     (''staged_changes'', JList [JObj [(''change_ref'', JStr ''change-1''), (''approval_required'', JBool True)]])]"

definition sample_basket :: obj where
  "sample_basket =
    [(''staged_change_groups'', JList [JObj sample_staged]), (''basket_state'', JStr ''READY''),
     (''simulation_atomicity'', JStr ''ATOMIC''), (''submission_enabled'', JBool True),
     (''active_simulation_basis_hash'', JStr ''id''), (''active_dependency_topology_hash'', JStr ''id''),
     (''active_mutation_hazard_or_null'', JObj sample_reviewed),
     (''active_mutation_basis_contract_or_null'', JObj sample_basis),
     (''approval_requirement'', JStr ''SINGLE_APPROVER''), (''bounded_safe_mutation'', JInt 0),
     (''required_approvals'', JList [JStr ''owner''])]"

lemma sample_reviewed_gets:
  "get sample_reviewed ''policy_snapshot_hash'' = JStr ''id''" "get sample_reviewed ''access_binding_hash'' = JStr ''id''"
  "get sample_reviewed ''dependency_topology_hash'' = JStr ''id''"
  "get sample_reviewed ''simulation_basis_hash'' = JStr ''id''"
  "get sample_reviewed ''hazard_contract_hash'' = JStr ''digest''"
  "get sample_reviewed ''approval_requirement'' = JStr ''SINGLE_APPROVER''"
  "get sample_reviewed ''commit_authority_posture'' = JStr ''APPROVAL_GATED''"
  "get sample_reviewed ''bounded_safe_mutation'' = JInt 0"
  "get sample_reviewed ''required_approvals'' = JList [JStr ''owner'']"
  "get sample_reviewed ''simulation_confidence_score'' = JInt 95"
  "get sample_reviewed ''predictability_score'' = JInt 90"
  by (simp_all add: sample_reviewed_def sample_hazard_def contract_gets contract_hash contract_body body_gets(6,9)
      sample_assessment sample_facts) (simp_all add: sample_mutation_def)

lemma sample_reviewed_accepted:
  assumes "hazard_mirror_issues sample_reviewed loc e = Inr []"
  shows "validate_governance_mutation_hazard_contract (\<lambda>_. ''digest'') (JObj sample_reviewed) loc e required
    = Inr ([], sample_reviewed)"
proof -
  have "hazard_shape_issues sample_reviewed loc = Inr []" "hazard_derivation_issues sample_reviewed loc = Inr []"
    "hazard_posture_issues (\<lambda>_. ''digest'') sample_reviewed loc = Inr []"
    unfolding sample_reviewed_def sample_hazard_def
    by (rule contract_shape contract_derivation contract_posture; simp add: sample_facts)+
  then have "hazard_contract_issues (\<lambda>_. ''digest'') sample_reviewed loc e = Inr []"
    using assms by (simp add: hazard_contract_issues_def)
  then show ?thesis by (simp add: validate_governance_mutation_hazard_contract_def)
qed

definition sample_expectations :: governance_expectations where
  "sample_expectations = \<lparr>expected_policy_snapshot_hash = JStr ''id'', expected_access_binding_hash = JStr ''id'',
     expected_dependency_topology_hash = JStr ''id'', expected_simulation_basis_hash = JStr ''id'',
     expected_approval_requirement = JStr ''SINGLE_APPROVER'', expected_bounded_safe_mutation = JInt 0,
     expected_required_approvals = JList [JStr ''owner''], expected_simulation_confidence_score = JInt 95,
     expected_predictability_score = JInt 90, expected_hazard_contract_hash = JStr ''digest'',
     expected_commit_authority_posture = JStr ''APPROVAL_GATED''\<rparr>"

lemma sample_basis_gets:
  "get sample_basis ''contract_version'' = JStr ''GOVERNANCE_MUTATION_BASIS_CONTRACT_V1''"
  "get sample_basis ''basis_contract_hash'' = JStr ''digest''" "get sample_basis ''policy_snapshot_hash'' = JStr ''id''"
  "get sample_basis ''access_binding_hash'' = JStr ''id''" "get sample_basis ''dependency_topology_hash'' = JStr ''id''"
  "get sample_basis ''simulation_basis_hash'' = JStr ''id''" "get sample_basis ''hazard_contract_hash'' = JStr ''digest''"
  "get sample_basis ''commit_authority_posture'' = JStr ''APPROVAL_GATED''"
  "get sample_basis ''approval_requirement'' = JStr ''SINGLE_APPROVER''"
  "get sample_basis ''bounded_safe_mutation'' = JInt 0" "get sample_basis ''required_approvals'' = JList [JStr ''owner'']"
  "get sample_basis ''simulation_confidence_score'' = JInt 95" "get sample_basis ''predictability_score'' = JInt 90"
  by (simp_all add: sample_basis_def)

lemma sample_basis_accepted:
  "validate_governance_mutation_basis_contract (\<lambda>_. ''digest'') (JObj sample_basis) loc sample_expectations required
    = Inr ([], sample_basis)"
proof -
  have "validate_sorted_string_sequence (JList [JStr ''owner'']) loc True = Inr []"
    using contract_sequences(2) [of "[''owner'']"] by simp
  moreover have "approvals_issues Basis_Safe_Requirement Basis_Safe_Approvals Basis_Approvals_Missing sample_basis loc
      = Inr []" by (simp add: approvals_clean sample_basis_gets num_is_def)
  moreover have "mirror_issues Basis_Mirror sample_basis loc
      [(''policy_snapshot_hash'', JStr ''id''), (''access_binding_hash'', JStr ''id''),
       (''dependency_topology_hash'', JStr ''id''), (''simulation_basis_hash'', JStr ''id''),
       (''approval_requirement'', JStr ''SINGLE_APPROVER''), (''bounded_safe_mutation'', JInt 0),
       (''simulation_confidence_score'', JInt 95), (''predictability_score'', JInt 90),
       (''hazard_contract_hash'', JStr ''digest''), (''commit_authority_posture'', JStr ''APPROVAL_GATED'')] = Inr []"
    by (simp add: mirror_issues_def sample_basis_gets num_is_def)
  moreover have "derive_governance_mutation_basis_contract_hash (\<lambda>_. ''digest'') sample_basis = Inr (Some ''digest'')"
    by (simp add: derive_governance_mutation_basis_contract_hash_def basis_string_fields_def sample_basis_gets
        in_zero_one_def num_is_def nonempty_str_list_def)
  moreover have "expected_governance_commit_authority_posture (JInt 95) (JInt 90) (JInt 0) = Some ''APPROVAL_GATED''"
    by (simp add: expected_governance_commit_authority_posture_def num_is_def)
  ultimately have "basis_contract_issues (\<lambda>_. ''digest'') sample_basis loc sample_expectations = Inr []"
    by (simp add: basis_contract_issues_def sample_basis_gets sample_expectations_def int_in_range_def
        commit_postures_def num_is_def)
  then show ?thesis by (simp add: validate_governance_mutation_basis_contract_def)
qed

lemma sample_group_checked:
  "\<exists>s. check_group (\<lambda>_. ''digest'') (JStr ''id'') loc sample_staged = Inr ([], s) \<and>
     group_pair s = Some (''id'', ''id'') \<and> group_hazard_hash s = Some ''digest'' \<and> group_basis_hash s = Some ''digest'' \<and>
     group_requirement s = Some ''SINGLE_APPROVER'' \<and> group_approvals s = Some [JStr ''owner''] \<and>
     group_flag s = Some 0 \<and> group_change_refs s = [''change-1'']"
proof -
  have "hazard_mirror_issues sample_reviewed loc (no_expectations \<lparr>expected_policy_snapshot_hash := JStr ''id''\<rparr>) = Inr []"
    by (simp add: hazard_mirror_issues_def mirror_issues_def no_expectations_def sample_reviewed_gets)
  note h = sample_reviewed_accepted [OF this, of True]
  have e: "basis_expectations (JStr ''id'') sample_reviewed sample_reviewed = Inr sample_expectations"
    by (simp add: basis_expectations_def sample_reviewed_gets binary_or_none_def in_zero_one_def num_is_def
        str_or_none_def int_or_none_def list_or_none_def sample_expectations_def)
  have staged: "get sample_staged ''mutation_hazard'' = JObj sample_reviewed"
    "get sample_staged ''mutation_basis_contract'' = JObj sample_basis"
    "staged_changes sample_staged = [[(''change_ref'', JStr ''change-1''), (''approval_required'', JBool True)]]"
    by (simp_all add: sample_staged_def staged_changes_def)
  show ?thesis
    by (simp add: check_group_def staged h e sample_basis_accepted sample_reviewed_gets sample_basis_gets
        change_issues_def str_of_def wrap_def)
qed

lemma sample_basket_accepted:
  "\<exists>staged. validate_change_basket (\<lambda>_. ''digest'') (JStr ''id'') sample_basket ''snapshot''
     = Inr ([], sample_reviewed, sample_basis, [staged]) \<and> group_pair staged = Some (''id'', ''id'') \<and>
     group_hazard_hash staged = Some ''digest'' \<and> group_basis_hash staged = Some ''digest''"
proof -
  let ?e = "no_expectations \<lparr>expected_policy_snapshot_hash := JStr ''id'',
        expected_dependency_topology_hash := JStr ''id'', expected_simulation_basis_hash := JStr ''id'',
        expected_approval_requirement := JStr ''SINGLE_APPROVER'', expected_bounded_safe_mutation := JInt 0,
        expected_required_approvals := JList [JStr ''owner'']\<rparr>"
  have b: "get sample_basket ''simulation_atomicity'' = JStr ''ATOMIC''" "basket_groups sample_basket = [sample_staged]"
    "get sample_basket ''active_mutation_hazard_or_null'' = JObj sample_reviewed"
    "get sample_basket ''active_mutation_basis_contract_or_null'' = JObj sample_basis"
    "get sample_basket ''basket_state'' = JStr ''READY''" "truthy (get sample_basket ''submission_enabled'')"
    "get sample_basket ''required_approvals'' = JList [JStr ''owner'']"
    "get sample_basket ''approval_requirement'' = JStr ''SINGLE_APPROVER''"
    "get sample_basket ''bounded_safe_mutation'' = JInt 0" "get sample_basket ''step_up_pending'' = JNull"
    "get sample_basket ''active_simulation_basis_hash'' = JStr ''id''"
    "get sample_basket ''active_dependency_topology_hash'' = JStr ''id''"
    by (simp_all add: sample_basket_def basket_groups_def)
  have "hazard_mirror_issues sample_reviewed ''snapshot'' ?e = Inr []"
    by (simp add: hazard_mirror_issues_def mirror_issues_def no_expectations_def sample_reviewed_gets num_is_def)
  note h = sample_reviewed_accepted [OF this, of True]
  have e: "active_hazard_expectations (JStr ''id'') sample_basket = Inr ?e"
    by (simp add: active_hazard_expectations_def b binary_or_none_def in_zero_one_def num_is_def str_or_none_def
        list_or_none_def)
  have be: "basis_expectations (JStr ''id'') sample_reviewed sample_basket = Inr sample_expectations"
    by (simp add: basis_expectations_def sample_reviewed_gets b binary_or_none_def in_zero_one_def num_is_def
        str_or_none_def int_or_none_def list_or_none_def sample_expectations_def)
  obtain s where s: "check_group (\<lambda>_. ''digest'') (JStr ''id'') ''snapshot'' sample_staged = Inr ([], s)"
    "group_pair s = Some (''id'', ''id'')" "group_hazard_hash s = Some ''digest''" "group_basis_hash s = Some ''digest''"
    "group_requirement s = Some ''SINGLE_APPROVER''" "group_approvals s = Some [JStr ''owner'']"
    "group_flag s = Some 0" "group_change_refs s = [''change-1'']"
    using sample_group_checked by blast
  have "atomic_issues ''snapshot'' sample_basket sample_reviewed sample_basis [s] = Inr []"
    by (simp add: atomic_issues_def one_hash_issues_def one_pair_issues_def s b set_of_def tuple_set_def
        sample_reviewed_gets sample_basis_gets num_is_def report_if_def)
  moreover have "submission_issues ''snapshot'' sample_basket sample_reviewed sample_basis [s] = Inr []"
    by (simp add: submission_issues_def s b set_of_def tuple_set_def sample_reviewed_gets sample_basis_gets)
  moreover have "validate_sorted_string_sequence (JList [JStr ''owner'']) loc True = Inr []" for loc
    using contract_sequences(2) [of "[''owner'']"] by simp
  ultimately show ?thesis
    by (simp add: validate_change_basket_def Let_def b h e be s sample_basis_accepted duplicate_values_def wrap_def
        lift_issues_def report_if_def run_checks.simps)
qed

theorem direct_submission_rests_on_one_hazard_witness:
  "80 \<le> int_at sample_reviewed ''simulation_confidence_score'' \<and> basket_groups sample_basket \<noteq> []"
proof -
  have "truthy (get sample_basket ''submission_enabled'')" by (simp add: sample_basket_def)
  then show ?thesis
    using direct_submission_rests_on_one_hazard sample_basket_accepted by blast
qed

end
