(* ===== verification/Governance_Snapshot.thy ===== *)
theory Governance_Snapshot
  imports Governance_Submission
begin

text \<open>
  The governance part of \<open>validate_governance_policy_snapshot\<close> of \<open>Algorithm/scripts/validate_contracts.py\<close>: the
  change basket, then the approval composer and the blast-radius panel, which must show the hazard that the basket was
  reviewed on. \<open>payload\<close> is the snapshot; a basket that is not a dictionary leaves the groups and the active contracts
  empty.
\<close>

datatype snapshot_issue =
    In_Basket basket_issue | Composer_Sequence string scope_issue | Composer_Basis basis_issue
  | Composer_Not_Required | Composer_Hidden | Composer_Scope | Composer_Refs | Composer_Rationale | Composer_Not_Ready
  | Composer_Submitted | Composer_Inactive | Composer_Other_Basis | Composer_Preview
  | Panel_Hazard hazard_issue | Panel_Basis basis_issue | Panel_Empty | Panel_Not_Empty | Panel_Pair
  | Panel_Other_Hazard | Panel_Other_Basis | Panel_Active_Pair | Panel_Mirror string | Panel_Active_Hazard
  | Panel_Active_Basis | Panel_Not_Stale

text \<open>\<open>v in {None, ...}\<close>.\<close>

definition in_none_or :: "json \<Rightarrow> string list \<Rightarrow> py_exn + bool" where
  "in_none_or v xs = (if v = JNull then Inr True else in_strs v xs)"

text \<open>The state the basket block leaves behind.\<close>

record basket_state =
  the_basket :: "obj option"
  the_groups :: "obj list"
  the_staged :: "staged_group list"
  the_hazard :: obj
  the_basis :: obj

definition basket_is_atomic :: "basket_state \<Rightarrow> bool" where
  "basket_is_atomic st \<longleftrightarrow>
     (case the_basket st of None \<Rightarrow> False | Some b \<Rightarrow> get b ''simulation_atomicity'' = JStr ''ATOMIC'')"

definition basket_get :: "basket_state \<Rightarrow> string \<Rightarrow> json" where
  "basket_get st f = (case the_basket st of None \<Rightarrow> JNull | Some b \<Rightarrow> get b f)"

section \<open>The approval composer\<close>

definition composer_expectations :: "json \<Rightarrow> basket_state \<Rightarrow> bool \<Rightarrow> py_exn + governance_expectations" where
  "composer_expectations policy st requires_basis =
    (if requires_basis then basis_expectations policy (the_hazard st) (the_hazard st)
     else Inr (no_expectations \<lparr>expected_policy_snapshot_hash := policy\<rparr>))"

definition composer_checks :: "string \<Rightarrow> obj \<Rightarrow> basket_state \<Rightarrow> obj \<Rightarrow> snapshot_issue verdict" where
  "composer_checks loc composer st composer_basis =
    (let composer_state = get composer ''composer_state'';
         ready = in_strs composer_state [''READY'', ''SUBMITTED''];
         has_basket = (the_basket st \<noteq> None);
         listed = (\<lambda>f. case get composer f of JList vs \<Rightarrow> vs \<noteq> [] | _ \<Rightarrow> False)
     in run_checks
      [bindE (in_none_or (basket_get st ''approval_requirement'') [''NOT_REQUIRED'']) (\<lambda>free.
         if free then report_if (composer_state \<noteq> JStr ''NOT_REQUIRED'') (custom loc Composer_Not_Required)
         else report_if (composer_state = JStr ''NOT_REQUIRED'') (custom loc Composer_Hidden)),
       whenE ready (run_checks
        [report_if (\<not> listed ''requested_approver_scope'') (custom loc Composer_Scope),
         report_if (\<not> listed ''related_object_refs'') (custom loc Composer_Refs),
         report_if (truthy (get composer ''rationale_required'') \<and> get composer ''rationale_ref'' = JNull)
           (custom loc Composer_Rationale)]),
       report_ifE (andE (Inr (has_basket \<and> truthy (basket_get st ''submission_enabled'')))
           (andE (notE (in_none_or (basket_get st ''approval_requirement'') [''NOT_REQUIRED''])) (notE ready)))
         (custom loc Composer_Not_Ready),
       report_if (composer_state = JStr ''SUBMITTED'' \<and> has_basket \<and>
           basket_get st ''basket_state'' \<noteq> JStr ''RECEIPT_PENDING'') (custom loc Composer_Submitted),
       report_if (has_basket \<and> \<not> basket_is_atomic st \<and> get composer ''mutation_basis_contract_or_null'' \<noteq> JNull)
         (custom loc Composer_Inactive),
       if the_basis st \<noteq> [] \<and> composer_basis \<noteq> [] then run_checks
        [report_if (\<not> py_eq (get composer_basis ''basis_contract_hash'') (get (the_basis st) ''basis_contract_hash''))
           (custom loc Composer_Other_Basis),
         report_ifE (andE (Inr (get (the_hazard st) ''commit_authority_posture'' = JStr ''PREVIEW_ONLY'')) ready)
           (custom loc Composer_Preview)]
       else Inr []])"

definition validate_approval_composer ::
  "(json \<Rightarrow> string) \<Rightarrow> json \<Rightarrow> string \<Rightarrow> obj \<Rightarrow> basket_state \<Rightarrow> snapshot_issue verdict" where
  "validate_approval_composer H policy loc composer st =
    (let requires_basis = (the_groups st \<noteq> [] \<and> basket_is_atomic st)
     in run_checks
      [lift_issues (Composer_Sequence ''requested_approver_scope'')
         (validate_sorted_string_sequence (get composer ''requested_approver_scope'') (loc @ ''.approval_composer'') True),
       lift_issues (Composer_Sequence ''related_object_refs'')
         (validate_sorted_string_sequence (get composer ''related_object_refs'') (loc @ ''.approval_composer'') True),
       bindE (composer_expectations policy st requires_basis) (\<lambda>expectations.
       bindE (validate_governance_mutation_basis_contract H (get composer ''mutation_basis_contract_or_null'') loc
           expectations requires_basis) (\<lambda>(basis_issues, composer_basis).
       bindE (composer_checks loc composer st composer_basis) (\<lambda>issues.
       Inr (wrap Composer_Basis basis_issues @ issues))))])"

section \<open>The blast-radius panel\<close>

definition panel_alignment :: "string \<Rightarrow> basket_state \<Rightarrow> obj \<Rightarrow> obj \<Rightarrow> snapshot_issue verdict" where
  "panel_alignment loc st panel_hazard panel_basis =
    (let simulation = get panel_hazard ''simulation_basis_hash'';
         topology = get panel_hazard ''dependency_topology_hash''
     in run_checks
      [if \<not> hashable simulation \<or> \<not> hashable topology then Inl TypeError
       else report_if ((simulation, topology) \<notin> (\<lambda>(s, t). (JStr s, JStr t)) ` set (set_of (map group_pair (the_staged st))))
         (custom loc Panel_Pair),
       whenE (Inr (panel_hazard \<noteq> [])) (report_ifE (notE (in_strs (get panel_hazard ''hazard_contract_hash'')
           (set_of (map group_hazard_hash (the_staged st))))) (custom loc Panel_Other_Hazard)),
       whenE (Inr (panel_basis \<noteq> [])) (report_ifE (notE (in_strs (get panel_basis ''basis_contract_hash'')
           (set_of (map group_basis_hash (the_staged st))))) (custom loc Panel_Other_Basis)),
       if basket_is_atomic st then run_checks
        [report_if (\<not> (py_eq simulation (basket_get st ''active_simulation_basis_hash'') \<and>
             py_eq topology (basket_get st ''active_dependency_topology_hash''))) (custom loc Panel_Active_Pair),
         run_checks (map (\<lambda>f. report_if (\<not> py_eq (basket_get st f) (get panel_hazard f)) (custom loc (Panel_Mirror f)))
           [''approval_requirement'', ''bounded_safe_mutation'', ''required_approvals'']),
         report_if (the_hazard st \<noteq> [] \<and> panel_hazard \<noteq> [] \<and>
             \<not> py_eq (get panel_hazard ''hazard_contract_hash'') (get (the_hazard st) ''hazard_contract_hash''))
           (custom loc Panel_Active_Hazard),
         report_if (the_basis st \<noteq> [] \<and> panel_basis \<noteq> [] \<and>
             \<not> py_eq (get panel_basis ''basis_contract_hash'') (get (the_basis st) ''basis_contract_hash''))
           (custom loc Panel_Active_Basis)]
       else Inr []])"

definition validate_blast_radius_panel ::
  "(json \<Rightarrow> string) \<Rightarrow> json \<Rightarrow> string \<Rightarrow> obj \<Rightarrow> basket_state \<Rightarrow> snapshot_issue verdict" where
  "validate_blast_radius_panel H policy loc panel st =
    (let panel_state = get panel ''panel_state''
     in bindE (in_strs panel_state [''ACTIVE'', ''STALE'']) (\<lambda>live.
        bindE (validate_governance_mutation_hazard_contract H (get panel ''mutation_hazard_or_null'') loc
          (no_expectations \<lparr>expected_policy_snapshot_hash := policy\<rparr>) live) (\<lambda>(hazard_issues, panel_hazard).
        bindE (basis_expectations policy panel_hazard panel_hazard) (\<lambda>expectations.
        bindE (validate_governance_mutation_basis_contract H (get panel ''mutation_basis_contract_or_null'') loc
          expectations live) (\<lambda>(basis_issues, panel_basis).
        run_checks
         [Inr (wrap Panel_Hazard hazard_issues @ wrap Panel_Basis basis_issues),
          report_if (the_groups st \<noteq> [] \<and> panel_state = JStr ''EMPTY'') (custom loc Panel_Empty),
          report_if (the_groups st = [] \<and> panel_state \<noteq> JStr ''EMPTY'') (custom loc Panel_Not_Empty),
          if live then panel_alignment loc st panel_hazard panel_basis else Inr [],
          report_if (the_basket st \<noteq> None \<and> basket_get st ''basket_state'' = JStr ''STALE_REBASE_REQUIRED'' \<and>
              panel_state \<noteq> JStr ''STALE'') (custom loc Panel_Not_Stale)])))))"

section \<open>The snapshot\<close>

definition basket_block ::
  "(json \<Rightarrow> string) \<Rightarrow> obj \<Rightarrow> string \<Rightarrow> py_exn + (snapshot_issue issue list \<times> basket_state)" where
  "basket_block H payload loc =
    (case get payload ''change_basket'' of
       JObj basket \<Rightarrow> bindE (validate_change_basket H (get payload ''policy_snapshot_hash'') basket loc)
         (\<lambda>(issues, hazard, basis, staged). Inr (wrap In_Basket issues,
            \<lparr>the_basket = Some basket, the_groups = basket_groups basket, the_staged = staged,
             the_hazard = hazard, the_basis = basis\<rparr>))
     | _ \<Rightarrow> Inr ([], \<lparr>the_basket = None, the_groups = [], the_staged = [], the_hazard = [], the_basis = []\<rparr>))"

definition validate_snapshot_governance :: "(json \<Rightarrow> string) \<Rightarrow> obj \<Rightarrow> string \<Rightarrow> snapshot_issue verdict" where
  "validate_snapshot_governance H payload loc =
    (let policy = get payload ''policy_snapshot_hash''
     in bindE (basket_block H payload loc) (\<lambda>(basket_issues, st).
        run_checks
         [Inr basket_issues,
          (case get payload ''approval_composer'' of
             JObj composer \<Rightarrow> validate_approval_composer H policy loc composer st | _ \<Rightarrow> Inr []),
          (case get payload ''blast_radius_panel'' of
             JObj panel \<Rightarrow> validate_blast_radius_panel H policy loc panel st | _ \<Rightarrow> Inr [])]))"

section \<open>The reviewed hazard everywhere\<close>

lemma basis_not_empty: "basis_contract_issues H d loc e = Inr [] \<Longrightarrow> d \<noteq> []"
  by (auto simp: basis_contract_issues_def)

lemma hazard_not_empty: "hazard_shape_issues d loc = Inr [] \<Longrightarrow> d \<noteq> []"
  by (auto simp: hazard_shape_clean)

lemma accepted_composer:
  assumes "validate_approval_composer H policy loc composer st = Inr []"
    and "the_groups st \<noteq> []" "basket_is_atomic st" "the_basis st \<noteq> []"
    and "get (the_basis st) ''basis_contract_hash'' = JStr h"
  obtains cb where "get composer ''mutation_basis_contract_or_null'' = JObj cb"
    "get cb ''basis_contract_hash'' = JStr h"
    "get composer ''composer_state'' \<in> {JStr ''READY'', JStr ''SUBMITTED''} \<Longrightarrow>
       get (the_hazard st) ''commit_authority_posture'' \<noteq> JStr ''PREVIEW_ONLY''"
proof -
  obtain is1 cb e where b: "validate_governance_mutation_basis_contract H
      (get composer ''mutation_basis_contract_or_null'') loc e True = Inr ([], cb)"
    and c: "composer_checks loc composer st cb = Inr []"
    using assms(1-3) by (auto simp: validate_approval_composer_def bindE_eq_Inr_iff split: prod.splits)
  note bo = accepted_basis_object [OF b, simplified]
  have "cb \<noteq> []" using basis_not_empty [OF bo(2)] .
  then have "py_eq (get cb ''basis_contract_hash'') (get (the_basis st) ''basis_contract_hash'')"
    "andE (Inr (get (the_hazard st) ''commit_authority_posture'' = JStr ''PREVIEW_ONLY''))
       (in_strs (get composer ''composer_state'') [''READY'', ''SUBMITTED'']) = Inr False"
    using c assms(4) by (simp_all add: composer_checks_def Let_def)
  then show thesis using that bo(1) assms(5) by (auto simp: andE_def in_strs_def split: if_splits)
qed

lemma accepted_panel:
  assumes "validate_blast_radius_panel H policy loc panel st = Inr []"
    and "get panel ''panel_state'' \<in> {JStr ''ACTIVE'', JStr ''STALE''}"
    and "basket_is_atomic st" "the_hazard st \<noteq> []" "the_basis st \<noteq> []"
    and "get (the_hazard st) ''hazard_contract_hash'' = JStr h" "get (the_basis st) ''basis_contract_hash'' = JStr b"
  obtains ph pb where "get panel ''mutation_hazard_or_null'' = JObj ph" "get panel ''mutation_basis_contract_or_null'' = JObj pb"
    "hazard_posture_issues H ph loc = Inr []"
    "get ph ''hazard_contract_hash'' = JStr h" "get pb ''basis_contract_hash'' = JStr b"
    "py_eq (basket_get st ''approval_requirement'') (get ph ''approval_requirement'')"
    "py_eq (basket_get st ''required_approvals'') (get ph ''required_approvals'')"
proof -
  have live: "in_strs (get panel ''panel_state'') [''ACTIVE'', ''STALE''] = Inr True" using assms(2) by auto
  obtain ph e pb where v: "validate_governance_mutation_hazard_contract H (get panel ''mutation_hazard_or_null'') loc
      (no_expectations \<lparr>expected_policy_snapshot_hash := policy\<rparr>) True = Inr ([], ph)"
    "validate_governance_mutation_basis_contract H (get panel ''mutation_basis_contract_or_null'') loc e True = Inr ([], pb)"
    and a: "panel_alignment loc st ph pb = Inr []"
    using assms(1) live by (auto simp: validate_blast_radius_panel_def Let_def bindE_eq_Inr_iff split: prod.splits)
  note ho = accepted_hazard_object [OF v(1), simplified] and bo = accepted_basis_object [OF v(2), simplified]
  have ne: "ph \<noteq> []" "pb \<noteq> []" using hazard_not_empty [OF ho(2)] basis_not_empty [OF bo(2)] .
  have "py_eq (get ph ''hazard_contract_hash'') (get (the_hazard st) ''hazard_contract_hash'')"
    "py_eq (get pb ''basis_contract_hash'') (get (the_basis st) ''basis_contract_hash'')"
    "py_eq (basket_get st ''approval_requirement'') (get ph ''approval_requirement'')"
    "py_eq (basket_get st ''required_approvals'') (get ph ''required_approvals'')"
    using a ne assms(3-5) by (simp_all add: panel_alignment_def Let_def)
  then show thesis using that [OF ho(1) bo(1) ho(4)] assms(6,7) by simp
qed

text \<open>The composer and the panel of an accepted snapshot carry the contracts of the active hazard.\<close>

lemma reviewed_hazard_everywhere:
  assumes "validate_snapshot_governance H payload loc = Inr []"
    and "get payload ''change_basket'' = JObj basket"
    and "get basket ''simulation_atomicity'' = JStr ''ATOMIC''"
  shows "\<exists>hazard basis. get basket ''active_mutation_hazard_or_null'' = JObj hazard \<and>
      get basket ''active_mutation_basis_contract_or_null'' = JObj basis \<and>
      (\<forall>composer. get payload ''approval_composer'' = JObj composer \<longrightarrow>
        (\<exists>cb. get composer ''mutation_basis_contract_or_null'' = JObj cb \<and>
           get cb ''basis_contract_hash'' = get basis ''basis_contract_hash'') \<and>
        (get composer ''composer_state'' \<in> {JStr ''READY'', JStr ''SUBMITTED''} \<longrightarrow>
           80 \<le> int_at hazard ''simulation_confidence_score'' \<and> 75 \<le> int_at hazard ''predictability_score'')) \<and>
      (\<forall>panel. get payload ''blast_radius_panel'' = JObj panel \<longrightarrow>
        get panel ''panel_state'' \<in> {JStr ''ACTIVE'', JStr ''STALE''} \<longrightarrow>
        (\<exists>ph pb. get panel ''mutation_hazard_or_null'' = JObj ph \<and>
           get panel ''mutation_basis_contract_or_null'' = JObj pb \<and>
           get ph ''hazard_contract_hash'' = get hazard ''hazard_contract_hash'' \<and>
           get pb ''basis_contract_hash'' = get basis ''basis_contract_hash'' \<and>
           py_eq (get basket ''approval_requirement'') (get ph ''approval_requirement'') \<and>
           (inj H \<longrightarrow> derive_governance_mutation_hazard_contract_hash H ph \<noteq> None \<longrightarrow>
             derive_governance_mutation_hazard_contract_hash H hazard \<noteq> None \<longrightarrow> mutation_of ph = mutation_of hazard)))"
proof -
  let ?policy = "get payload ''policy_snapshot_hash''"
  obtain hazard basis staged where vb: "validate_change_basket H ?policy basket loc = Inr ([], hazard, basis, staged)"
    and cases: "(case get payload ''approval_composer'' of
        JObj composer \<Rightarrow> validate_approval_composer H ?policy loc composer
          \<lparr>the_basket = Some basket, the_groups = basket_groups basket, the_staged = staged,
           the_hazard = hazard, the_basis = basis\<rparr> | _ \<Rightarrow> Inr []) = Inr []"
      "(case get payload ''blast_radius_panel'' of
        JObj panel \<Rightarrow> validate_blast_radius_panel H ?policy loc panel
          \<lparr>the_basket = Some basket, the_groups = basket_groups basket, the_staged = staged,
           the_hazard = hazard, the_basis = basis\<rparr> | _ \<Rightarrow> Inr []) = Inr []"
    using assms(1,2) by (auto simp: validate_snapshot_governance_def Let_def basket_block_def bindE_eq_Inr_iff
        split: prod.splits)
  define st where "st = \<lparr>the_basket = Some basket, the_groups = basket_groups basket, the_staged = staged,
         the_hazard = hazard, the_basis = basis\<rparr>"
  have parts: "get payload ''approval_composer'' = JObj x \<Longrightarrow> validate_approval_composer H ?policy loc x st = Inr []"
    "get payload ''blast_radius_panel'' = JObj x \<Longrightarrow> validate_blast_radius_panel H ?policy loc x st = Inr []" for x
    using cases by (simp_all add: st_def)
  note ab = atomic_basket [OF vb assms(3)]
  from ab(7) obtain hh bh where hashes: "get hazard ''hazard_contract_hash'' = JStr hh" "get basis ''basis_contract_hash'' = JStr bh"
    by blast
  have ne: "hazard \<noteq> []" "basis \<noteq> []" using hazard_not_empty [OF ab(3)] ab(6) basis_not_empty by blast+
  have st: "basket_is_atomic st" "the_groups st \<noteq> []" "the_hazard st = hazard" "the_basis st = basis"
    "basket_get st f = get basket f" for f
    using assms(3) ab(8) by (simp_all add: st_def basket_is_atomic_def basket_get_def)
  have composer: "(\<exists>cb. get composer ''mutation_basis_contract_or_null'' = JObj cb \<and>
           get cb ''basis_contract_hash'' = get basis ''basis_contract_hash'') \<and>
        (get composer ''composer_state'' \<in> {JStr ''READY'', JStr ''SUBMITTED''} \<longrightarrow>
           80 \<le> int_at hazard ''simulation_confidence_score'' \<and> 75 \<le> int_at hazard ''predictability_score'')"
    if "get payload ''approval_composer'' = JObj composer" for composer
  proof -
    from accepted_composer [OF parts(1) [OF that] st(2,1), unfolded st(3,4), OF ne(2) hashes(2)]
    obtain cb where "get composer ''mutation_basis_contract_or_null'' = JObj cb" "get cb ''basis_contract_hash'' = JStr bh"
      "get composer ''composer_state'' \<in> {JStr ''READY'', JStr ''SUBMITTED''} \<Longrightarrow>
         get hazard ''commit_authority_posture'' \<noteq> JStr ''PREVIEW_ONLY''" by blast
    then show ?thesis using hashes(2) trusted_simulation [OF ab(3-5)] by metis
  qed
  have panel: "\<exists>ph pb. get panel ''mutation_hazard_or_null'' = JObj ph \<and>
           get panel ''mutation_basis_contract_or_null'' = JObj pb \<and>
           get ph ''hazard_contract_hash'' = get hazard ''hazard_contract_hash'' \<and>
           get pb ''basis_contract_hash'' = get basis ''basis_contract_hash'' \<and>
           py_eq (get basket ''approval_requirement'') (get ph ''approval_requirement'') \<and>
           (inj H \<longrightarrow> derive_governance_mutation_hazard_contract_hash H ph \<noteq> None \<longrightarrow>
             derive_governance_mutation_hazard_contract_hash H hazard \<noteq> None \<longrightarrow> mutation_of ph = mutation_of hazard)"
    if "get payload ''blast_radius_panel'' = JObj panel" "get panel ''panel_state'' \<in> {JStr ''ACTIVE'', JStr ''STALE''}" for panel
  proof -
    from accepted_panel [OF parts(2) [OF that(1)] that(2) st(1), unfolded st(3-5), OF ne hashes]
    obtain ph pb where p: "get panel ''mutation_hazard_or_null'' = JObj ph" "get panel ''mutation_basis_contract_or_null'' = JObj pb"
      "hazard_posture_issues H ph loc = Inr []" "get ph ''hazard_contract_hash'' = JStr hh"
      "get pb ''basis_contract_hash'' = JStr bh"
      "py_eq (get basket ''approval_requirement'') (get ph ''approval_requirement'')" by blast
    show ?thesis
      using p(1,2,4-6) hashes same_hash_same_mutation [OF p(3) ab(5)] by (intro exI [of _ ph] exI [of _ pb]) simp
  qed
  show ?thesis using ab(1,2) composer panel by blast
qed

section \<open>A reviewed snapshot\<close>

definition sample_composer :: obj where
  "sample_composer = [(''composer_state'', JStr ''READY''), (''requested_approver_scope'', JList [JStr ''owner'']),
     (''related_object_refs'', JList [JStr ''policy'']), (''mutation_basis_contract_or_null'', JObj sample_basis)]"

definition sample_panel :: obj where
  "sample_panel = [(''panel_state'', JStr ''ACTIVE''), (''mutation_hazard_or_null'', JObj sample_reviewed),
     (''mutation_basis_contract_or_null'', JObj sample_basis)]"

lemma sample_reviewed_expectations:
  "basis_expectations (JStr ''id'') sample_reviewed sample_reviewed = Inr sample_expectations"
  by (simp add: basis_expectations_def sample_reviewed_gets binary_or_none_def in_zero_one_def num_is_def
      str_or_none_def int_or_none_def list_or_none_def sample_expectations_def)

definition sample_state :: "staged_group \<Rightarrow> basket_state" where
  "sample_state staged = \<lparr>the_basket = Some sample_basket, the_groups = basket_groups sample_basket,
     the_staged = [staged], the_hazard = sample_reviewed, the_basis = sample_basis\<rparr>"

lemma sample_state_facts:
  "basket_is_atomic (sample_state s)" "the_groups (sample_state s) \<noteq> []" "the_hazard (sample_state s) = sample_reviewed"
  "the_basis (sample_state s) = sample_basis" "the_basket (sample_state s) = Some sample_basket"
  "the_staged (sample_state s) = [s]"
  "basket_get (sample_state s) ''approval_requirement'' = JStr ''SINGLE_APPROVER''"
  "basket_get (sample_state s) ''basket_state'' = JStr ''READY''"
  "basket_get (sample_state s) ''bounded_safe_mutation'' = JInt 0"
  "basket_get (sample_state s) ''required_approvals'' = JList [JStr ''owner'']"
  "basket_get (sample_state s) ''active_simulation_basis_hash'' = JStr ''id''"
  "basket_get (sample_state s) ''active_dependency_topology_hash'' = JStr ''id''"
  by (simp_all add: sample_state_def basket_is_atomic_def basket_get_def sample_basket_def basket_groups_def)

lemma sample_composer_accepted:
  "validate_approval_composer (\<lambda>_. ''digest'') (JStr ''id'') loc sample_composer (sample_state s) = Inr []"
proof -
  have seq: "validate_sorted_string_sequence (JList [JStr t]) l True = Inr []" for t l
    using contract_sequences(2) [of "[t]" l] by simp
  have gets: "get sample_composer ''composer_state'' = JStr ''READY''"
    "get sample_composer ''requested_approver_scope'' = JList [JStr ''owner'']"
    "get sample_composer ''related_object_refs'' = JList [JStr ''policy'']"
    "get sample_composer ''mutation_basis_contract_or_null'' = JObj sample_basis"
    "get sample_composer ''rationale_required'' = JNull"
    by (simp_all add: sample_composer_def)
  have "composer_checks loc sample_composer (sample_state s) sample_basis = Inr []"
    by (simp add: composer_checks_def Let_def gets sample_state_facts sample_basis_gets sample_reviewed_gets
        in_none_or_def whenE_def)
  then show ?thesis
    by (simp add: validate_approval_composer_def Let_def gets seq composer_expectations_def sample_state_facts
        sample_reviewed_expectations sample_basis_accepted wrap_def)
qed

lemma sample_panel_accepted:
  assumes "group_pair s = Some (''id'', ''id'')" "group_hazard_hash s = Some ''digest''"
    "group_basis_hash s = Some ''digest''"
  shows "validate_blast_radius_panel (\<lambda>_. ''digest'') (JStr ''id'') loc sample_panel (sample_state s) = Inr []"
proof -
  have "hazard_mirror_issues sample_reviewed loc (no_expectations \<lparr>expected_policy_snapshot_hash := JStr ''id''\<rparr>) = Inr []"
    by (simp add: hazard_mirror_issues_def mirror_issues_def no_expectations_def sample_reviewed_gets)
  note h = sample_reviewed_accepted [OF this, of True]
  have gets: "get sample_panel ''panel_state'' = JStr ''ACTIVE''"
    "get sample_panel ''mutation_hazard_or_null'' = JObj sample_reviewed"
    "get sample_panel ''mutation_basis_contract_or_null'' = JObj sample_basis"
    by (simp_all add: sample_panel_def)
  have "panel_alignment loc (sample_state s) sample_reviewed sample_basis = Inr []"
    by (simp add: panel_alignment_def Let_def sample_state_facts sample_reviewed_gets sample_basis_gets assms set_of_def
        num_is_def whenE_def report_if_def)
  then show ?thesis
    by (simp add: validate_blast_radius_panel_def Let_def gets h sample_reviewed_expectations sample_basis_accepted
        sample_state_facts wrap_def)
qed

lemma sample_governance_accepted:
  assumes "get payload ''change_basket'' = JObj sample_basket" "get payload ''approval_composer'' = JObj sample_composer"
    and "get payload ''blast_radius_panel'' = JObj sample_panel" "get payload ''policy_snapshot_hash'' = JStr ''id''"
  shows "validate_snapshot_governance (\<lambda>_. ''digest'') payload ''snapshot'' = Inr []"
proof -
  obtain s where s: "validate_change_basket (\<lambda>_. ''digest'') (JStr ''id'') sample_basket ''snapshot''
     = Inr ([], sample_reviewed, sample_basis, [s])" "group_pair s = Some (''id'', ''id'')"
    "group_hazard_hash s = Some ''digest''" "group_basis_hash s = Some ''digest''"
    using sample_basket_accepted by blast
  show ?thesis
    by (simp add: validate_snapshot_governance_def Let_def basket_block_def assms s(1) sample_composer_accepted
        sample_panel_accepted [OF s(2-4)] wrap_def flip: sample_state_def)
qed

end
