(* ===== verification/Governance_Policy.thy ===== *)
theory Governance_Policy
  imports Cache_Isolation Governance_Snapshot
begin

text \<open>
  \<open>validate_governance_policy_snapshot\<close> of \<open>Algorithm/scripts/validate_contracts.py\<close> as a whole: the cache isolation
  contract, the interaction layer, the workspace, the governance part (\<open>Governance_Snapshot\<close>) and the history timeline.
\<close>

section \<open>The interaction layer\<close>

definition GOVERNANCE_INTERACTION_LAYER_FOUNDATION :: "(string \<times> string) list" where
  "GOVERNANCE_INTERACTION_LAYER_FOUNDATION =
    [(''contract_version'', ''CROSS_SHELL_INTERACTION_FOUNDATION_V1''),
     (''shell_family'', ''GOVERNANCE_DENSITY_SHELL''),
     (''design_token_binding_policy'', ''EXPLICIT_SEMANTIC_BINDINGS_ONLY''),
     (''layout_density_token'', ''GOVERNANCE_WORKSPACE_DENSITY_V1''),
     (''surface_spacing_token'', ''GOVERNANCE_CANVAS_SPACING_V1''),
     (''support_surface_spacing_token'', ''GOVERNANCE_AUXILIARY_SURFACE_SPACING_V1''),
     (''responsive_compaction_token'', ''GOVERNANCE_AUXILIARY_REDOCK_V1''),
     (''selector_profile'', ''GOVERNANCE_SEMANTIC_SELECTORS_V1''),
     (''support_surface_policy'', ''ONE_PROMOTED_SUPPORT_SURFACE_MAX''),
     (''continuity_policy'', ''SAME_OBJECT_SAME_SHELL_CONTEXT_RETENTION''),
     (''recovery_surface_policy'', ''INLINE_TYPED_CONTEXTUAL_RECOVERY''),
     (''history_presentation_policy'', ''ACTIVE_SLICE_PRIMARY_CONTEXTUAL_HISTORY''),
     (''preview_surface_policy'', ''AUXILIARY_SURFACE_CONTEXTUAL_ONLY''),
     (''notification_surface_policy'', ''CONTEXT_BOUND_INLINE_FEEDBACK''),
     (''secondary_window_policy'', ''NOT_APPLICABLE''),
     (''motion_profile'', ''SUBTLE_CAUSAL_ONLY''),
     (''motion_token'', ''SUBTLE_CAUSAL_MOTION_V1''),
     (''feedback_truth_policy'', ''DURABLE_RECEIPT_AND_TYPED_FAILURE_DRIVEN''),
     (''platform_parity_policy'', ''SAME_FAMILY_REUSES_SAME_INTERACTION_GRAMMAR'')]"

definition GOVERNANCE_INTERACTION_POLICY_PERSISTED_CONTEXT :: "string list" where
  "GOVERNANCE_INTERACTION_POLICY_PERSISTED_CONTEXT =
    [''ACTIVE_SECTION'', ''PROMOTED_SUPPORT_SURFACE'', ''STAGED_DIFF'', ''CHANGE_BASKET'']"

datatype layer_issue =
    Layer_Missing | Layer_Field string | Layer_Wide_Tray | Layer_Not_Tray | Layer_Not_Drawer | Layer_Sidecar

definition json_strings :: "string list \<Rightarrow> json" where
  "json_strings xs = JList (map JStr xs)"

text \<open>The fixed values of the layer, in the order of the checks.\<close>

definition layer_constants :: "string list \<Rightarrow> string list \<Rightarrow> (string \<times> json) list" where
  "layer_constants chips contexts =
    [(''foundation_contract'', JObj (map (\<lambda>(k, v). (k, JStr v)) GOVERNANCE_INTERACTION_LAYER_FOUNDATION)),
     (''selected_filter_chip_refs'', json_strings chips),
     (''density_profile'', JStr ''GOVERNANCE_DENSITY_PROFILE_V1''),
     (''inventory_filter_grammar'', JStr ''CANONICAL_ROUTE_FILTER_GRAMMAR''),
     (''support_surface_policy'', JStr ''ONE_PROMOTED_SUPPORT_SURFACE_MAX''),
     (''diff_basket_policy'', JStr ''STAGED_DIFF_AND_BASKET_RETAIN_CONTEXT''),
     (''export_binding_policy'', JStr ''ACTIVE_FILTERED_SLICE_GOVERNS_EXPORT''),
     (''keyboard_focus_policy'', JStr ''RETURN_FOCUS_ANCHOR_OR_ROVING_SELECTION''),
     (''selector_profile'', JStr ''GOVERNANCE_SEMANTIC_SELECTORS_V1''),
     (''selection_persistence_mode'', JStr ''PRESERVE_WHILE_OBJECT_RESOLVES''),
     (''focus_trap_mode'', JStr ''NON_MODAL''),
     (''motion_profile'', JStr ''SUBTLE_CAUSAL_ONLY''),
     (''feedback_truth_policy'', JStr ''DURABLE_RECEIPT_AND_TYPED_FAILURE_DRIVEN''),
     (''preserved_context_codes'', json_strings contexts)]"

definition compaction_issues :: "json \<Rightarrow> json \<Rightarrow> string \<Rightarrow> layer_issue verdict" where
  "compaction_issues compaction_mode presentation loc = run_checks
    [report_if (compaction_mode = JStr ''WIDE'' \<and> presentation = JStr ''TRAY'') (custom loc Layer_Wide_Tray),
     report_if (compaction_mode = JStr ''AUXILIARY_TRAY'' \<and> presentation \<noteq> JStr ''TRAY'') (custom loc Layer_Not_Tray),
     whenE (Inr (compaction_mode = JStr ''AUXILIARY_DRAWER''))
       (report_ifE (notE (in_strs presentation [''DRAWER'', ''INSPECTOR''])) (custom loc Layer_Not_Drawer)),
     whenE (in_strs compaction_mode [''AUXILIARY_DRAWER'', ''AUXILIARY_TRAY'', ''FOCUS_STACK''])
       (report_if (presentation = JStr ''SIDECAR'') (custom loc Layer_Sidecar))]"

definition validate_governance_interaction_layer ::
  "json \<Rightarrow> string list \<Rightarrow> string list \<Rightarrow> string \<Rightarrow> layer_issue verdict" where
  "validate_governance_interaction_layer interaction_layer chips contexts loc =
    (case interaction_layer of
       JObj layer \<Rightarrow> run_checks
         [run_checks (map (\<lambda>(f, v). report_if (\<not> py_eq (get layer f) v) (custom loc (Layer_Field f)))
            (layer_constants chips contexts)),
          compaction_issues (get layer ''compaction_mode'') (get layer ''auxiliary_surface_presentation'') loc]
     | _ \<Rightarrow> Inr [custom loc Layer_Missing])"

section \<open>The snapshot\<close>

definition GOVERNANCE_POLICY_SECTION_NAV_ORDER :: "string list" where
  "GOVERNANCE_POLICY_SECTION_NAV_ORDER =
    [''TENANT_PROFILE'', ''SECURITY_POSTURE'', ''AUTHORITY_AND_ENVIRONMENTS'', ''CONNECTOR_POLICY'',
     ''APPROVAL_AND_CHANGE_CONTROL'', ''NOTIFICATIONS_AND_EVIDENCE'']"

definition GOVERNANCE_POLICY_SURFACE_ORDER :: "string list" where
  "GOVERNANCE_POLICY_SURFACE_ORDER =
    [''SECTION_NAV'', ''CONFIG_FORM'', ''INLINE_POLICY_HELP'', ''BLAST_RADIUS_PANEL'', ''CHANGE_BASKET'',
     ''APPROVAL_COMPOSER'', ''CONFIG_HISTORY_TIMELINE'']"

datatype policy_issue =
    Policy_Cache cache_issue | Policy_Layer layer_issue | Policy_Surfaces | Policy_Sections
  | Policy_Governance snapshot_issue | Timeline_Latest | Timeline_Latest_Hidden | Timeline_Selected_Hidden
  | Timeline_Recovery | Timeline_Stale_Basket

definition policy_cache_expectations :: "obj \<Rightarrow> cache_expectations" where
  "policy_cache_expectations payload = \<lparr>expected_scope = ''GOVERNANCE_POLICY_SNAPSHOT'',
     expected_tenant_id = Some (get payload ''tenant_id''), expected_client_id_or_null = Some JNull,
     expected_route_identity_ref = Some (get payload ''object_anchor_ref''),
     expected_canonical_object_ref = Some (get payload ''object_anchor_ref''),
     expected_shell_family = Some (get payload ''shell_family''),
     expected_projection_version_ref = Some (get payload ''policy_snapshot_hash''),
     expected_access_binding_hash_or_null = Some JNull, expected_masking_posture_fingerprint_or_null = Some JNull,
     expected_visibility_cache_partition_key_or_null = Some JNull,
     expected_customer_safe_projection = Some (JBool False), expected_preview_subject_ref_or_null = Some JNull,
     expected_shell_stability_ref_or_null = Some JNull\<rparr>"

definition workspace_issues :: "obj \<Rightarrow> string \<Rightarrow> policy_issue verdict" where
  "workspace_issues workspace loc = run_checks
    [report_if (\<not> py_eq (get workspace ''surface_order'') (json_strings GOVERNANCE_POLICY_SURFACE_ORDER))
       (custom loc Policy_Surfaces),
     report_if (\<not> py_eq (get workspace ''section_nav_order'') (json_strings GOVERNANCE_POLICY_SECTION_NAV_ORDER))
       (custom loc Policy_Sections)]"

definition timeline_issues :: "obj \<Rightarrow> obj \<Rightarrow> string \<Rightarrow> policy_issue verdict" where
  "timeline_issues payload timeline loc = run_checks
    [report_if (\<not> py_eq (get timeline ''latest_change_ref'') (get payload ''last_material_change_ref''))
       (custom loc Timeline_Latest),
     (case get timeline ''visible_change_refs'' of
        JList refs \<Rightarrow> run_checks
          [report_if (\<not> in_list (get timeline ''latest_change_ref'') refs) (custom loc Timeline_Latest_Hidden),
           report_if (\<not> in_list (get timeline ''selected_change_ref'') refs) (custom loc Timeline_Selected_Hidden)]
      | _ \<Rightarrow> Inr []),
     report_if (get payload ''recovery_posture'' = JStr ''INLINE_REBASE'' \<and>
         get timeline ''timeline_state'' \<noteq> JStr ''REBASE_REQUIRED'') (custom loc Timeline_Recovery),
     (case get payload ''change_basket'' of
        JObj basket \<Rightarrow> report_if (get basket ''basket_state'' = JStr ''STALE_REBASE_REQUIRED'' \<and>
          get timeline ''timeline_state'' \<noteq> JStr ''REBASE_REQUIRED'') (custom loc Timeline_Stale_Basket)
      | _ \<Rightarrow> Inr [])]"

definition validate_governance_policy_snapshot :: "(json \<Rightarrow> string) \<Rightarrow> obj \<Rightarrow> string \<Rightarrow> policy_issue verdict" where
  "validate_governance_policy_snapshot H payload loc = run_checks
    [bindE (validate_cache_isolation_contract H (get payload ''cache_isolation_contract'') loc
       (policy_cache_expectations payload)) (\<lambda>(issues, _). Inr (wrap Policy_Cache issues)),
     lift_issues Policy_Layer (validate_governance_interaction_layer (get payload ''interaction_layer'') []
       GOVERNANCE_INTERACTION_POLICY_PERSISTED_CONTEXT loc),
     (case get payload ''tenant_config_workspace'' of
        JObj workspace \<Rightarrow> workspace_issues workspace loc | _ \<Rightarrow> Inr []),
     lift_issues Policy_Governance (validate_snapshot_governance H payload loc),
     (case get payload ''config_history_timeline'' of
        JObj timeline \<Rightarrow> timeline_issues payload timeline loc | _ \<Rightarrow> Inr [])]"

lemma accepted_policy_snapshot:
  assumes "validate_governance_policy_snapshot H payload loc = Inr []"
  shows "\<exists>c. validate_cache_isolation_contract H (get payload ''cache_isolation_contract'') loc
      (policy_cache_expectations payload) = Inr ([], c)"
    and "validate_snapshot_governance H payload loc = Inr []"
    and "get payload ''config_history_timeline'' = JObj timeline \<Longrightarrow> timeline_issues payload timeline loc = Inr []"
  using assms by (auto simp: validate_governance_policy_snapshot_def bindE_eq_Inr_iff)

lemma accepted_policy_cache:
  assumes "validate_governance_policy_snapshot H payload loc = Inr []"
  obtains c where "get payload ''cache_isolation_contract'' = JObj c" "lawful_cache_contract H c"
    "get payload ''tenant_id'' = get c ''tenant_id''" "get payload ''object_anchor_ref'' = get c ''canonical_object_ref''"
    "get payload ''policy_snapshot_hash'' = get c ''projection_version_ref''"
    "get c ''cache_scope_class'' = JStr ''GOVERNANCE_POLICY_SNAPSHOT''"
proof -
  obtain c where v: "validate_cache_isolation_contract H (get payload ''cache_isolation_contract'') loc
      (policy_cache_expectations payload) = Inr ([], c)"
    using accepted_policy_snapshot(1) [OF assms] by blast
  note a = accepted_cache_contract [OF v]
  have strings: "nonempty_str (get c ''tenant_id'')" "nonempty_str (get c ''canonical_object_ref'')"
    "nonempty_str (get c ''projection_version_ref'')"
    using a(2) by (simp_all add: lawful_cache_contract_def identities_present_def cache_string_fields_def)
  have mirrored: "get payload f = get c g"
    if "nonempty_str (get c g)" "(g, Some (get payload f)) \<in> set (expected_fields (policy_cache_expectations payload))" for f g
    using mirrored_field [OF a(3) that(2)] that(1) by (auto elim!: nonempty_strE)
  show thesis
    by (rule that [OF a(1,2) mirrored [OF strings(1)] mirrored [OF strings(2)] mirrored [OF strings(3)]])
      (simp_all add: expected_fields_def policy_cache_expectations_def contract_scope [OF a(3)])
qed

section \<open>An accepted snapshot\<close>

definition sample_cache :: obj where
  "sample_cache =
    map (\<lambda>(f, v). (f, JStr v)) (cache_constants (policy_cache_expectations [])) @
    map (\<lambda>f. (f, JStr ''id'')) cache_string_fields @
    [(''customer_safe_projection'', JBool False), (''delivery_binding_hash'', JStr ''digest'')]"

definition sample_layer :: obj where
  "sample_layer = layer_constants [] GOVERNANCE_INTERACTION_POLICY_PERSISTED_CONTEXT @
     [(''compaction_mode'', JStr ''WIDE''), (''auxiliary_surface_presentation'', JStr ''SIDECAR'')]"

definition sample_workspace :: obj where
  "sample_workspace = [(''surface_order'', json_strings GOVERNANCE_POLICY_SURFACE_ORDER),
     (''section_nav_order'', json_strings GOVERNANCE_POLICY_SECTION_NAV_ORDER)]"

definition sample_timeline :: "string \<Rightarrow> obj" where
  "sample_timeline change = [(''latest_change_ref'', JStr change), (''selected_change_ref'', JStr change),
     (''visible_change_refs'', JList [JStr change]), (''timeline_state'', JStr ''CURRENT'')]"

definition sample_snapshot :: "string \<Rightarrow> obj" where
  "sample_snapshot change =
    [(''tenant_id'', JStr ''id''), (''object_anchor_ref'', JStr ''id''), (''shell_family'', JStr ''id''),
     (''policy_snapshot_hash'', JStr ''id''), (''last_material_change_ref'', JStr change),
     (''cache_isolation_contract'', JObj sample_cache), (''interaction_layer'', JObj sample_layer),
     (''tenant_config_workspace'', JObj sample_workspace), (''change_basket'', JObj sample_basket),
     (''approval_composer'', JObj sample_composer), (''blast_radius_panel'', JObj sample_panel),
     (''config_history_timeline'', JObj (sample_timeline change))]"

lemma sample_snapshot_gets:
  "get (sample_snapshot change) ''tenant_id'' = JStr ''id''"
  "get (sample_snapshot change) ''object_anchor_ref'' = JStr ''id''"
  "get (sample_snapshot change) ''shell_family'' = JStr ''id''"
  "get (sample_snapshot change) ''policy_snapshot_hash'' = JStr ''id''"
  "get (sample_snapshot change) ''last_material_change_ref'' = JStr change"
  "get (sample_snapshot change) ''cache_isolation_contract'' = JObj sample_cache"
  "get (sample_snapshot change) ''interaction_layer'' = JObj sample_layer"
  "get (sample_snapshot change) ''tenant_config_workspace'' = JObj sample_workspace"
  "get (sample_snapshot change) ''change_basket'' = JObj sample_basket"
  "get (sample_snapshot change) ''approval_composer'' = JObj sample_composer"
  "get (sample_snapshot change) ''blast_radius_panel'' = JObj sample_panel"
  "get (sample_snapshot change) ''config_history_timeline'' = JObj (sample_timeline change)"
  "get (sample_snapshot change) ''recovery_posture'' = JNull"
  by (simp_all add: sample_snapshot_def)

lemma sample_cache_gets:
  "get sample_cache ''cache_scope_class'' = JStr ''GOVERNANCE_POLICY_SNAPSHOT''"
  "get sample_cache ''delivery_binding_hash'' = JStr ''digest''"
  "get sample_cache ''customer_safe_projection'' = JBool False"
  "get sample_cache ''cache_partition_ref'' = JStr ''id''"
  "\<forall>f \<in> set cache_string_fields. get sample_cache f = JStr ''id''"
  "\<forall>f \<in> set cache_optional_fields. get sample_cache f = JNull"
  "\<forall>(f, v) \<in> set (cache_constants (policy_cache_expectations [])). get sample_cache f = JStr v"
  unfolding sample_cache_def cache_constants_def cache_string_fields_def cache_optional_fields_def policy_cache_expectations_def
  by simp_all

lemma sample_cache_accepted:
  "validate_cache_isolation_contract (\<lambda>_. ''digest'') (JObj sample_cache) ''snapshot''
     (policy_cache_expectations (sample_snapshot change)) = Inr ([], sample_cache)"
proof -
  have rule: "(''GOVERNANCE_POLICY_SNAPSHOT'', \<lparr>access_demand = Cleared, partition_demand = Cleared,
      safe_demand = Some False, preview_demand = Cleared\<rparr>) \<in> set scope_rules"
    by (simp add: scope_rules_def Let_def)
  have optional: "get sample_cache ''client_id_or_null'' = JNull" "get sample_cache ''access_binding_hash_or_null'' = JNull"
    "get sample_cache ''masking_posture_fingerprint_or_null'' = JNull" "get sample_cache ''shell_stability_ref_or_null'' = JNull"
    "get sample_cache ''visibility_cache_partition_key_or_null'' = JNull"
    "get sample_cache ''preview_subject_ref_or_null'' = JNull"
    using sample_cache_gets(6) by (simp_all add: cache_optional_fields_def)
  have strings: "get sample_cache ''tenant_id'' = JStr ''id''" "get sample_cache ''route_identity_ref'' = JStr ''id''"
    "get sample_cache ''canonical_object_ref'' = JStr ''id''" "get sample_cache ''shell_family'' = JStr ''id''"
    "get sample_cache ''projection_version_ref'' = JStr ''id''"
    using sample_cache_gets(5) by (simp_all add: cache_string_fields_def)
  have "follows_rule sample_cache \<lparr>access_demand = Cleared, partition_demand = Cleared, safe_demand = Some False,
      preview_demand = Cleared\<rparr>"
    by (auto simp: follows_rule_def sample_cache_gets(3) optional)
  with rule have "lawful_cache_contract (\<lambda>_. ''digest'') sample_cache"
    unfolding lawful_cache_contract_def identities_present_def
    using sample_cache_gets(1,2,5) optional by (auto simp: list_all_iff)
  then have "validate_cache_isolation_contract_payload (\<lambda>_. ''digest'') (JObj sample_cache) ''snapshot'' = Inr []"
    unfolding cache_contracts_parts .
  moreover have "cache_constants (policy_cache_expectations (sample_snapshot change)) = cache_constants (policy_cache_expectations [])"
    by (simp add: cache_constants_def policy_cache_expectations_def)
  then have "cache_mirror_issues sample_cache ''snapshot'' (policy_cache_expectations (sample_snapshot change)) = Inr []"
    using sample_cache_gets(7) optional strings
    by (auto simp: cache_mirror_issues_def expected_fields_def policy_cache_expectations_def sample_snapshot_gets
        sample_cache_gets(3) num_is_def)
  ultimately show ?thesis by (simp add: validate_cache_isolation_contract_def)
qed

lemma py_eq_strings: "py_eq_list (map JStr xs) (map JStr xs)"
  by (induction xs) auto

lemma sample_layer_accepted:
  "validate_governance_interaction_layer (JObj sample_layer) [] GOVERNANCE_INTERACTION_POLICY_PERSISTED_CONTEXT ''snapshot'' = Inr []"
proof -
  have "py_eq v v" if "(f, v) \<in> set (layer_constants [] GOVERNANCE_INTERACTION_POLICY_PERSISTED_CONTEXT)" for f v
    using that unfolding layer_constants_def
    by (auto simp: json_strings_def py_eq_strings GOVERNANCE_INTERACTION_LAYER_FOUNDATION_def)
  moreover have "\<forall>(f, v) \<in> set (layer_constants [] GOVERNANCE_INTERACTION_POLICY_PERSISTED_CONTEXT). get sample_layer f = v"
    "get sample_layer ''compaction_mode'' = JStr ''WIDE''" "get sample_layer ''auxiliary_surface_presentation'' = JStr ''SIDECAR''"
    unfolding sample_layer_def layer_constants_def by simp_all
  ultimately show ?thesis
    by (auto simp: validate_governance_interaction_layer_def compaction_issues_def whenE_clean)
qed

lemma sample_snapshot_accepted:
  "validate_governance_policy_snapshot (\<lambda>_. ''digest'') (sample_snapshot change) ''snapshot'' = Inr []"
proof -
  have "workspace_issues sample_workspace ''snapshot'' = Inr []"
    by (simp add: workspace_issues_def sample_workspace_def json_strings_def py_eq_strings)
  moreover have "get sample_basket ''basket_state'' = JStr ''READY''" by (simp add: sample_basket_def)
  then have "timeline_issues (sample_snapshot change) (sample_timeline change) ''snapshot'' = Inr []"
    by (simp add: timeline_issues_def sample_timeline_def sample_snapshot_gets)
  ultimately show ?thesis
    using sample_layer_accepted sample_governance_accepted [of "sample_snapshot change"]
    by (simp add: validate_governance_policy_snapshot_def sample_snapshot_gets sample_cache_accepted)
qed

section \<open>Reviewed risk\<close>

text \<open>C9: reviewed risk is not recomputed. In an accepted policy snapshot with an atomic basket, the approval composer
  carries a basis contract with the hash of the active one and is ready or submitted only when the simulation of the
  active hazard is trusted; a live blast-radius panel shows a hazard and a basis contract with the active hashes and the
  approval requirement of the basket. When the hash separates the contracts and both are verified, the mutation the
  panel shows is the reviewed one.\<close>

theorem reviewed_risk_is_not_recomputed:
  assumes "validate_governance_policy_snapshot H payload loc = Inr []"
    and "get payload ''change_basket'' = JObj basket"
    and "get basket ''simulation_atomicity'' = JStr ''ATOMIC''"
  shows "\<exists>hazard basis. get basket ''active_mutation_hazard_or_null'' = JObj hazard \<and>
      get basket ''active_mutation_basis_contract_or_null'' = JObj basis \<and>
      (\<forall>composer. get payload ''approval_composer'' = JObj composer \<longrightarrow>
        (\<exists>cb. get composer ''mutation_basis_contract_or_null'' = JObj cb \<and>
           get cb ''basis_contract_hash'' = get basis ''basis_contract_hash'') \<and>
        (get composer ''composer_state'' \<in> {JStr ''READY'', JStr ''SUBMITTED''} \<longrightarrow>
           80 \<le> int_at hazard ''simulation_confidence_score'' \<and> 75 \<le> int_at hazard ''predictability_score'')) \<and>
      (\<forall>panel. get payload ''blast_radius_panel'' = JObj panel \<longrightarrow>
        get panel ''panel_state'' \<in> {JStr ''ACTIVE'', JStr ''STALE''} \<longrightarrow>
        (\<exists>ph pb. get panel ''mutation_hazard_or_null'' = JObj ph \<and>
           get panel ''mutation_basis_contract_or_null'' = JObj pb \<and>
           get ph ''hazard_contract_hash'' = get hazard ''hazard_contract_hash'' \<and>
           get pb ''basis_contract_hash'' = get basis ''basis_contract_hash'' \<and>
           py_eq (get basket ''approval_requirement'') (get ph ''approval_requirement'') \<and>
           (inj H \<longrightarrow> derive_governance_mutation_hazard_contract_hash H ph \<noteq> None \<longrightarrow>
             derive_governance_mutation_hazard_contract_hash H hazard \<noteq> None \<longrightarrow> mutation_of ph = mutation_of hazard)))"
  by (rule reviewed_hazard_everywhere [OF accepted_policy_snapshot(2) [OF assms(1)] assms(2,3)])

theorem reviewed_risk_is_not_recomputed_witness:
  "\<exists>hazard. get sample_basket ''active_mutation_hazard_or_null'' = JObj hazard \<and>
     80 \<le> int_at hazard ''simulation_confidence_score''"
proof -
  have gets: "get sample_basket ''simulation_atomicity'' = JStr ''ATOMIC''" "get sample_composer ''composer_state'' = JStr ''READY''"
    by (simp_all add: sample_basket_def sample_composer_def)
  from reviewed_risk_is_not_recomputed [OF sample_snapshot_accepted sample_snapshot_gets(9) gets(1)]
  show ?thesis using gets(2) sample_snapshot_gets(10) by blast
qed

section \<open>Cached snapshots\<close>

text \<open>C10: a cached policy snapshot is the current one. Two accepted policy snapshots whose cache contracts have the same
  delivery binding hash belong to the same tenant, the same governed object and the same version of the policy, and to
  the same principal class and session, unless the hash of the two cache identities collides; neither
  is bound to a customer-visible partition. So a cache keyed by that hash never shows a snapshot of another tenant,
  session or policy version.\<close>

theorem cached_snapshot_is_current:
  assumes "validate_governance_policy_snapshot H payload loc = Inr []"
    and "validate_governance_policy_snapshot H payload' loc' = Inr []"
    and "get payload ''cache_isolation_contract'' = JObj c" "get payload' ''cache_isolation_contract'' = JObj c'"
    and "get c ''delivery_binding_hash'' = get c' ''delivery_binding_hash''"
  shows "(cache_identity c \<noteq> cache_identity c' \<and> H (cache_identity c) = H (cache_identity c')) \<or>
    (get payload ''tenant_id'' = get payload' ''tenant_id'' \<and>
     get payload ''object_anchor_ref'' = get payload' ''object_anchor_ref'' \<and>
     get payload ''policy_snapshot_hash'' = get payload' ''policy_snapshot_hash'' \<and>
     get c ''principal_class'' = get c' ''principal_class'' \<and>
     get c ''session_binding_hash'' = get c' ''session_binding_hash'' \<and>
     get c ''customer_safe_projection'' = JBool False \<and> get c ''visibility_cache_partition_key_or_null'' = JNull)"
proof -
  obtain d where d: "get payload ''cache_isolation_contract'' = JObj d" "lawful_cache_contract H d"
    "get payload ''tenant_id'' = get d ''tenant_id''" "get payload ''object_anchor_ref'' = get d ''canonical_object_ref''"
    "get payload ''policy_snapshot_hash'' = get d ''projection_version_ref''"
    "get d ''cache_scope_class'' = JStr ''GOVERNANCE_POLICY_SNAPSHOT''"
    by (rule accepted_policy_cache [OF assms(1)])
  obtain d' where d': "get payload' ''cache_isolation_contract'' = JObj d'" "lawful_cache_contract H d'"
    "get payload' ''tenant_id'' = get d' ''tenant_id''" "get payload' ''object_anchor_ref'' = get d' ''canonical_object_ref''"
    "get payload' ''policy_snapshot_hash'' = get d' ''projection_version_ref''"
    "get d' ''cache_scope_class'' = JStr ''GOVERNANCE_POLICY_SNAPSHOT''"
    by (rule accepted_policy_cache [OF assms(2)])
  have c: "d = c" "d' = c'" using d(1) d'(1) assms(3,4) by simp_all
  have hashes: "H (cache_identity c) = H (cache_identity c')"
    using lawful_hash [OF d(2)] lawful_hash [OF d'(2)] assms(5) unfolding c by simp
  show ?thesis
  proof (cases "cache_identity c = cache_identity c'")
    case True
    note same = same_identity [OF True]
    show ?thesis
      using d(3-5) d'(3-5) same governance_cache [OF d(2,6)] unfolding c by simp
  qed (use hashes in blast)
qed

theorem cached_snapshot_is_current_witness:
  "sample_snapshot ''change-1'' \<noteq> sample_snapshot ''change-2'' \<and>
   get (sample_snapshot ''change-1'') ''policy_snapshot_hash'' = get (sample_snapshot ''change-2'') ''policy_snapshot_hash''"
  using cached_snapshot_is_current [OF sample_snapshot_accepted sample_snapshot_accepted sample_snapshot_gets(6)
      sample_snapshot_gets(6) refl, of "''change-1''" "''change-2''"]
  by (simp add: sample_snapshot_def)

end
