(* ===== verification/Spec2Isabelle.thy ===== *)
theory Spec2Isabelle
  imports Trust_Contract Gate_Semantics Access_Chain Manifest_Branch Task_Runner Ephemeral_Shipped Dag_Outputs Utc_Instant Path_Query
  Authority_Identity Runtime_Shipped Governance_Policy
begin

text \<open>
  A model of the Python part of the repository and the theorems that make it correct.

  THE PROGRAM. Four groups of Python programs carry logic of their own.
  (1) The contract validators (\<open>Algorithm/scripts/validate_contracts.py\<close>): functions that derive a frozen
  value (a trust band, a scope family, an expected reason code) from a JSON payload, and validators that
  compare the frozen value of an artifact with the derivation and return a list of issues. Modelled are the
  trust, gate, access, scope, cache isolation and manifest branch contracts, and the governance mutation: its hazard contract,
  the basis contract that freezes what a reviewer saw of it, and the change basket, approval composer and
  blast-radius panel of a policy snapshot that carry copies of both; the validator of that snapshot is modelled as a whole.
  (2) The task automation: \<open>scripts/tasks/task_graph.py\<close> validates a catalog of tasks, resolves requested
  names to an ordered plan and runs it; for each task it asks
  \<open>scripts/agent/resolve_environment_profile.py\<close> which environment it runs on; the environments are
  created, reset and destroyed by \<open>scripts/test/*.py\<close>, which record every lifecycle transition in a manifest
  under the policy files of \<open>infra/test\<close>.
  (3) \<open>tools/analysis/build_agent_execution_dag.py\<close> turns a checklist into a dependency graph, checks
  it for cycles and derives levels, the critical path and the claimable tasks.
  (4) The validators package (\<open>python/validators\<close>): \<open>primitives.py\<close> holds exact decimals, instants, business
  dates, query strings and paths, and hashes canonical JSON into identity keys; \<open>runtime_profile.py\<close> loads the Python runtime profile under the policy
  files of \<open>config/runtime\<close>.

  THE THEORIES.
  \<open>Py_Prelude\<close>: JSON values (\<open>json\<close>; a dict is an association list), Python's truth, equality and
    dictionary access, exceptions as values (\<open>py_exn + 'a\<close>, \<open>bindE\<close>, \<open>mapE\<close>, \<open>foldE\<close>), issues and verdicts.
  \<open>Effects\<close>: actions with a state that survives an error, and the rule for invariants of a script.
  \<open>Restriction_Order\<close>, \<open>Dependency_Order\<close>: the contracts (locales) of a most-restrictive-of operation and
    of a dependencies-first order.
  \<open>Trust_Bands\<close>, \<open>Trust_Projection\<close>, \<open>Trust_Sensitivity\<close>, \<open>Trust_Contract\<close>: \<open>derive_trust_score_band\<close> to
    \<open>derive_trust_automation_level\<close>, the six sensitivity probes, and derivation, hash payload and validator
    of the trust sensitivity contract.
  \<open>Gate_Semantics\<close>, \<open>Access_Chain\<close>: the gate tables and the gate contract; the most restrictive access
    outcome and authority chains.
  \<open>Scope_Sequence\<close>, \<open>Manifest_Branch\<close>: scope tokens, families, sorted references, manifest spines; the
    validator of branch decisions.
  \<open>Environment_Profile\<close>, \<open>Task_Graph\<close>, \<open>Task_Resolution\<close>, \<open>Task_Runner\<close>: the profile resolver; the catalog, its
    cycle search and the resolver of names; what resolution promises; templates, plans, \<open>run_tasks\<close>.
  \<open>Ephemeral_Common\<close>, \<open>Ephemeral_Lifecycle\<close>, \<open>Ephemeral_Safety\<close>, \<open>Ephemeral_Shipped\<close>:
    \<open>_ephemeral_common.py\<close>; the commands bootstrap, reset, destroy, load and verify; the reachable
    environments and their invariants; the shipped policy rows and what follows from them.
  \<open>Execution_Dag\<close>, \<open>Dag_Checks\<close>, \<open>Dag_Pipeline\<close>: the graph algorithms; their correctness for any graph whose
    two adjacency tables agree; the graph of a checklist, its blocks and the claimable tasks.
  \<open>Dag_Checklist\<close>, \<open>Dag_Rules\<close>, \<open>Dag_Outputs\<close>: the parser of the checklist; the selectors and the table of
    non-protocol rules; soft edges, block levels, node rows and the whole program (\<open>dag_main\<close>).
  \<open>Py_Digits\<close>, \<open>Exact_Decimal\<close>, \<open>Utc_Instant\<close>, \<open>Path_Query\<close>: decimal digits and character classes; the class
    \<open>ExactDecimal\<close>; the normalisation of instants, business dates and period labels; percent encoding,
    query strings and path templates.
  \<open>Canonical_Json\<close>, \<open>Authority_Identity\<close>: the normal form of a Python value, its printed text and its hash; the
    namespace hash, duplicate meaning key, request hash and idempotency key of an authority request.
  \<open>Runtime_Profile\<close>, \<open>Runtime_Shipped\<close>: \<open>load_python_runtime_profile\<close> for any policy files; the shipped
    policy files as values, and what they let the Python consumer do.
  \<open>Governance_Score\<close>, \<open>Governance_Hazard\<close>: the weighted geometric means behind policy risk and approval necessity,
    and their reading as comparisons of integers; the posture the code expects of a mutation (count classes, bounded
    safety, approval requirement, code lists, commit authority), the hash of a hazard contract and its validator.
  \<open>Governance_Assessment\<close>, \<open>Governance_Contract\<close>: the assessment of a mutation as the policy document
    (\<open>Algorithm/policy_risk_and_blast_radius_modeling_contract.md\<close>) gives it, on bounded integers; what an accepted
    contract says about its mutation, and a contract for every mutation.
  \<open>Governance_Basis\<close>, \<open>Governance_Basket\<close>, \<open>Governance_Submission\<close>, \<open>Governance_Snapshot\<close>: the basis contract; the change
    basket with its staged groups (\<open>staged_group\<close> is what one pass of the loop adds to the sets of the code); when direct
    submission is accepted; the composer and the panel, checked in the state the basket block leaves (\<open>basket_state\<close>).
  \<open>Cache_Isolation\<close>, \<open>Governance_Policy\<close>: the cache isolation contract and its table of scope rules; the interaction layer,
    workspace and history timeline, and \<open>validate_governance_policy_snapshot\<close> as the composition of all its blocks.

  STATE AND OPERATIONS. Definitions carry the names of the Python functions, and records and datatypes
  the names of its fields and constructors where Isabelle allows them. A raised exception is \<open>Inl\<close> of an error datatype of the component.
  The runner's state is the external world with a trace of events (\<open>run_state\<close>); an environment's state is its
  directory (\<open>env_files\<close>), written in the order of the code, so an aborted command leaves what it had written.

  WHAT THE LEMMAS SHOW. Validators: the accepted values are exactly the declaratively valid ones, or obey
  the safety reading of the contract; combinations of bands and outcomes are least upper bounds (the
  interpretations \<open>trust_order\<close> and \<open>access_order\<close> of \<open>restriction_order\<close>); probes are monotone.
  Tasks: an accepted catalog is acyclic, a plan resolved from it is executable in order (the interpretation
  \<open>plan\<close> of \<open>dependency_order\<close>), a dry run executes nothing, a destructive command runs only after its typed
  confirmation, no command runs before the success of what its task depends on (\<open>respects_dependencies\<close>, over the whole
  trace of events), and a live run succeeds exactly when its rehearsal does (\<open>rehearse\<close>: every task can be planned, its
  preconditions hold when it starts and every command exits with 0).
  Environments: the reachable directories satisfy the transition policy and a ready manifest is clean
  (\<open>transition_policy\<close>, \<open>manifest_invariant\<close>). Graph: the cycle check is exact, levels and critical path are
  right for every accepted checklist (the interpretation \<open>dag\<close> of \<open>forward_digraph\<close>, which extends
  \<open>task_digraph\<close>), and the eligibility snapshot agrees with the protocol edges. The checklist parser returns exactly
  the lists of checklist shape, the program returns its outputs on every checklist of the roadmap's shape, and
  a claimable node row waits at most for open tasks between the first open task of the checklist and itself, which are tasks
  of its own block where block ids are distinct.
  Primitives: parsing and printing of decimals are inverse and arithmetic is that of the rationals; two
  instants have one normal form exactly when they are one moment; query strings decode to their pairs; a
  value cannot change the structure of a path; the canonical text of a value determines its normal form
  and ignores the order of dictionary entries, and an idempotency key determines the meaning of its request
  unless SHA-256 collides on its texts. Runtime profile: a loaded profile stays inside its policies.
  Governance: the real-valued scores equal their integer reading, with no rounding boundary in between; an accepted
  contract carries the assessment of the document (a refinement), every mutation in bounds has an accepted contract,
  and a more hazardous mutation never needs less, the requirement under integer flags (requirements and postures are instances of \<open>linorder\<close>); direct
  submission rests on one trusted hazard, composer and panel carry the hazard that was reviewed, and a cached
  snapshot belongs to one tenant, session and policy version. The six scope sets of the cache contract are one table.

  LOOPS AND FUEL. The two recursive searches of the task graph take \<open>search_fuel\<close>, one more than the number
  of tasks: every nested call marks a new task (\<open>visit_terminates\<close>), or goes down in the topological
  order of an accepted catalog (\<open>add_task_terminates\<close>); \<open>task_graph_returns\<close> states that \<open>None\<close> is never reached
  there. Resolution against a cyclic catalog does not return, as in Python. Kahn's loop is \<open>while_option\<close>
  and is shown to return (\<open>cycle_check_is_exact\<close>). The walk back along the critical path has the
  number of tasks as fuel; it ends since positions decrease (\<open>follow_chain\<close>). All other loops are folds.

  PARAMETERS. SHA-256 of canonical JSON (\<open>H\<close>, \<open>sha256\<close>), \<open>re.fullmatch\<close> on the catalog's patterns (\<open>fullmatch\<close>),
  the subprocess and the runtime state files (\<open>host\<close>), \<open>str\<close> of floats and containers (\<open>other\<close>), JSON, files and
  \<open>urlparse\<close> in the runtime profile (\<open>runtime_host\<close>), NFC (\<open>nfc\<close>) and \<open>float.__repr__\<close> (\<open>float_repr\<close>). Nothing is assumed
  of them unless a theorem says so; \<open>lawful_float_repr\<close> is the one assumption on the last.

  DEVIATIONS. Floats are exact reals in the trust score and in the governance scores (\<open>powr\<close>), where an integer
  beyond the range of a double does not raise; the sets of the change basket are lists of their members in order of
  insertion; equality of values does not look at the identity of objects, so a NaN differs from itself in
  a list too. JSON files with fixed keys are records, so a missing key of those files is not represented. Messages, free-text details, rationales and citations
  are left out; issue constructors keep the values that the messages print. Strings have
  8-bit characters in the primitives, so \<open>\d\<close> is an ASCII digit there; \<open>datetime\<close> is the Gregorian calendar from
  year 1 to 9999, with hour 24 rejected and four digits for \<open>%Y\<close>.

  NOT MODELLED. Argument parsing, printing and the reading of files; schema validation (the jsonschema
  package); the other validators of \<open>validate_contracts.py\<close>, which are many more of the same kind, and its
  copy in \<open>packages/contracts-core\<close>; the forensic guard and the builders of analysis packs, which hold
  literal tables and text output; extraction from Markdown by regular expressions; the rendering of the
  execution graph; the generated models; the TypeScript and Swift programs.

  FINDINGS. A blocked, red trust summary projects to green (\<open>blocking_flag_lost_by_projection\<close>). A
  fast reset after a halted bootstrap skips the seed load (\<open>fast_reset_skips_seed_load\<close>). A failed environment
  is stuck under the shipped policy (\<open>failed_environment_is_stuck\<close>). Bootstrapping a ready environment
  that is no longer clean reports the residue and still succeeds (\<open>ready_bootstrap_ignores_residue\<close>).
  The Python runtime profile loads in the local environments only, as the optional bootstrap file is required
  of it (\<open>python_profile_loads_only_locally\<close>). Literals in digits of other scripts count as canonical
  (\<open>primitives.py\<close>, line 15), and an impossible instant raises without a code (line 333).
  The eligibility snapshot does not look at the hard edges inside a block, so a claimable task can wait for
  another one of its wave (\<open>claimable_row_can_wait\<close>), and it takes all tasks with one block id for one block, so in a wave
  that a sequential task interrupts a claimable task can wait for another block (\<open>split_wave_waits_across_blocks\<close>). A mutation whose flag \<open>bounded_safe_mutation\<close>
  is the float 0.0 escapes the approval ladder and the comparison of hashes (\<open>float_flag_escapes_the_ladder\<close>). The last condition of
  \<open>expected_governance_approval_requirement\<close> (line 10000) decides nothing, as both branches ask for one approver.
\<close>

end
